(* ===== verification/Prelude.thy ===== *)
theory Prelude
  imports Main "HOL-Library.AList" "HOL-Library.Char_ord" "HOL-Library.List_Lexorder"
    "HOL-Library.Product_Lexorder" "HOL-Library.Sublist" "HOL-Library.Multiset"
begin

text \<open>
  Shared vocabulary of the development: results of fallible code, decimal printing of
  numbers (Lua's \<open>tostring\<close> and Rust's \<open>Display\<close> on integers), the documented behaviour of
  the Redis data commands that the Lua scripts and pipelines of the sources are written in
  (a Redis hash or sorted set is an association list with distinct keys, in the order in
  which Redis happens to enumerate it), and the generic lemmas the components share.
\<close>

named_theorems script_defs \<open>unfolding of the small operations scripts are made of\<close>

type_synonym ('e, 'a) result = "'e + 'a"

subsection \<open>Decimal numbers\<close>

definition digit_char :: "nat \<Rightarrow> char" where
  "digit_char d = char_of (48 + d)"

fun show_nat :: "nat \<Rightarrow> string" where
  "show_nat n = (if n < 10 then [digit_char n] else show_nat (n div 10) @ [digit_char (n mod 10)])"

declare show_nat.simps [simp del]

subsection \<open>Redis lists\<close>

definition lpush :: "'a \<Rightarrow> 'a list \<Rightarrow> 'a list" where
  [script_defs]: "lpush x xs = x # xs"

definition rpush :: "'a \<Rightarrow> 'a list \<Rightarrow> 'a list" where
  [script_defs]: "rpush x xs = xs @ [x]"

definition lrem :: "'a \<Rightarrow> 'a list \<Rightarrow> 'a list" where
  [script_defs]: "lrem x xs = removeAll x xs"

definition lpos :: "'a \<Rightarrow> 'a list \<Rightarrow> bool" where
  [script_defs]: "lpos x xs \<longleftrightarrow> x \<in> set xs"

text \<open>\<open>LRANGE key n -1\<close> and \<open>LTRIM key 0 (n - 1)\<close> for \<open>n > 0\<close>.\<close>

definition lrange_from :: "nat \<Rightarrow> 'a list \<Rightarrow> 'a list" where
  [script_defs]: "lrange_from n xs = drop n xs"

definition ltrim_to :: "nat \<Rightarrow> 'a list \<Rightarrow> 'a list" where
  [script_defs]: "ltrim_to n xs = take n xs"

subsection \<open>Redis hashes, sorted sets and sets\<close>

definition keys :: "('k \<times> 'v) list \<Rightarrow> 'k list" where
  "keys h = map fst h"

definition hset :: "'k \<Rightarrow> 'v \<Rightarrow> ('k \<times> 'v) list \<Rightarrow> ('k \<times> 'v) list" where
  "hset = AList.update"

definition hdel :: "'k \<Rightarrow> ('k \<times> 'v) list \<Rightarrow> ('k \<times> 'v) list" where
  "hdel = AList.delete"

definition hexists :: "'k \<Rightarrow> ('k \<times> 'v) list \<Rightarrow> bool" where
  [script_defs]: "hexists k h \<longleftrightarrow> k \<in> set (keys h)"

definition zadd :: "'k \<Rightarrow> nat \<Rightarrow> ('k \<times> nat) list \<Rightarrow> ('k \<times> nat) list" where
  "zadd = AList.update"

definition zrem :: "'k \<Rightarrow> ('k \<times> nat) list \<Rightarrow> ('k \<times> nat) list" where
  "zrem = AList.delete"

definition zmember :: "'k \<Rightarrow> ('k \<times> nat) list \<Rightarrow> bool" where
  [script_defs]: "zmember k z \<longleftrightarrow> k \<in> set (keys z)"

text \<open>\<open>ZRANGE\<close> lists a sorted set by score, members of equal score by byte order.\<close>

definition zrange :: "(string \<times> nat) list \<Rightarrow> (string \<times> nat) list" where
  "zrange z = sort_key (\<lambda>(m, sc). (sc, m)) z"

definition zrangebyscore :: "nat \<Rightarrow> nat \<Rightarrow> (string \<times> nat) list \<Rightarrow> string list" where
  "zrangebyscore lo hi z = map fst (zrange (filter (\<lambda>(m, sc). lo \<le> sc \<and> sc \<le> hi) z))"

definition sadd :: "'a \<Rightarrow> 'a list \<Rightarrow> 'a list" where
  [script_defs]: "sadd x xs = (if x \<in> set xs then xs else xs @ [x])"

definition srem :: "'a \<Rightarrow> 'a list \<Rightarrow> 'a list" where
  [script_defs]: "srem x xs = removeAll x xs"

text \<open>
  How a client sees \<open>MULTI\<close>/\<open>EXEC\<close> end: committed, refused because a watched key changed, or an error
  reply whose flag says whether Redis had applied the commands before the reply was lost.
\<close>

datatype exec_reply = ExecCommitted | ExecNil | ExecError bool

subsection \<open>Lemmas\<close>

lemma show_nat_nonempty: "show_nat n \<noteq> []"
  by (subst show_nat.simps) simp

lemma keys_Nil [simp]: "keys [] = []"
  by (simp add: keys_def)

lemma keys_hset [simp]: "keys (hset k v h) = (if k \<in> set (keys h) then keys h else keys h @ [k])"
  by (induction h) (auto simp: hset_def keys_def)

lemma keys_zadd [simp]: "keys (zadd k v h) = (if k \<in> set (keys h) then keys h else keys h @ [k])"
  by (induction h) (auto simp: zadd_def keys_def)

lemma keys_hdel [simp]: "keys (hdel k h) = removeAll k (keys h)"
  by (simp add: hdel_def keys_def delete_keys)

lemma keys_zrem [simp]: "keys (zrem k h) = removeAll k (keys h)"
  by (simp add: zrem_def keys_def delete_keys)

lemma zrange_set [simp]: "set (zrange z) = set z"
  by (simp add: zrange_def)

lemma zrangebyscore_iff:
  "m \<in> set (zrangebyscore lo hi z) \<longleftrightarrow> (\<exists>sc. (m, sc) \<in> set z \<and> lo \<le> sc \<and> sc \<le> hi)"
  by (auto simp: zrangebyscore_def image_iff)

lemma zrangebyscore_keys: "set (zrangebyscore lo hi z) \<subseteq> set (keys z)"
  by (auto simp: zrangebyscore_def keys_def)

lemma distinct_zrangebyscore:
  assumes "distinct (keys z)"
  shows "distinct (zrangebyscore lo hi z)"
proof -
  let ?f = "filter (\<lambda>(m, sc). lo \<le> sc \<and> sc \<le> hi) z"
  have "distinct (map fst ?f)"
    using assms unfolding keys_def by (rule distinct_map_filter)
  moreover have "mset (map fst (zrange ?f)) = mset (map fst ?f)"
    by (simp add: zrange_def)
  ultimately show ?thesis
    unfolding zrangebyscore_def using mset_eq_imp_distinct_iff by blast
qed

end
