(* ===== verification/Twmq_Job.thy ===== *)
theory Twmq_Job
  imports Prelude
begin

text \<open>
  The job vocabulary of the \<open>twmq\<close> crate (\<open>twmq/src/job.rs\<close>, \<open>queue.rs\<close>, \<open>error.rs\<close>,
  \<open>diagnostics.rs\<close> and the delay conversion of \<open>lib.rs\<close>): requeue positions, job errors and
  their retry limits, queue options, bounded diagnostic records. Timestamps are Unix seconds.
  JSON encoding is a third-party crate and is a parameter wherever it is used.
\<close>

type_synonym job_id = string
type_synonym lease_token = string

subsection \<open>Durations and errors\<close>

text \<open>\<open>std::time::Duration\<close>: whole seconds and the nanoseconds below one second.\<close>

datatype duration = Duration (as_secs: nat) (subsec_nanos: nat)

definition is_zero :: "duration \<Rightarrow> bool" where
  "is_zero d \<longleftrightarrow> as_secs d = 0 \<and> subsec_nanos d = 0"

definition delay_to_queue_seconds :: "duration \<Rightarrow> nat" where
  "delay_to_queue_seconds delay =
     (let delay_secs = as_secs delay in
      if is_zero delay then 0 else if delay_secs = 0 then 1 else delay_secs)"

text \<open>
  \<open>+\<close> on \<open>u64\<close> as a release build computes it: the sum wraps at \<open>2 ^ 64\<close>.
\<close>

definition u64_add :: "nat \<Rightarrow> nat \<Rightarrow> nat" where
  "u64_add a b = (a + b) mod 2 ^ 64"

datatype TwmqError =
    RedisError string
  | JsonError string
  | Runtime string
  | WorkerPanic string

datatype RequeuePosition = First | Last

definition position_to_string :: "RequeuePosition \<Rightarrow> string" where
  "position_to_string p = (case p of First \<Rightarrow> ''first'' | Last \<Rightarrow> ''last'')"

definition position_try_from :: "string \<Rightarrow> (unit, RequeuePosition) result" where
  "position_try_from v =
     (if v = ''first'' then Inr First else if v = ''last'' then Inr Last else Inl ())"

record DelayOptions =
  do_delay :: duration
  do_position :: RequeuePosition

datatype 'e JobError = Nack 'e "duration option" RequeuePosition | Fail 'e

type_synonym ('t, 'e) JobResult = "('e JobError, 't) result"

definition map_err_nack ::
  "('x \<Rightarrow> 'e) \<Rightarrow> duration option \<Rightarrow> RequeuePosition \<Rightarrow> ('x, 't) result \<Rightarrow> ('t, 'e) JobResult" where
  "map_err_nack into delay position r =
     (case r of Inr t \<Rightarrow> Inr t | Inl e \<Rightarrow> Inl (Nack (into e) delay position))"

definition map_err_fail :: "('x \<Rightarrow> 'e) \<Rightarrow> ('x, 't) result \<Rightarrow> ('t, 'e) JobResult" where
  "map_err_fail into r = (case r of Inr t \<Rightarrow> Inr t | Inl e \<Rightarrow> Inl (Fail (into e)))"

definition map_err_with_max_retries ::
  "('x \<Rightarrow> 'e) \<Rightarrow> duration option \<Rightarrow> RequeuePosition \<Rightarrow> nat \<Rightarrow> nat \<Rightarrow> ('x, 't) result
     \<Rightarrow> ('t, 'e) JobResult" where
  "map_err_with_max_retries into delay position max_retries current_attempts r =
     (case r of Inr t \<Rightarrow> Inr t
      | Inl e \<Rightarrow> (if current_attempts \<ge> max_retries then Inl (Fail (into e))
                  else Inl (Nack (into e) delay position)))"

definition nack_with_max_retries ::
  "duration option \<Rightarrow> RequeuePosition \<Rightarrow> nat \<Rightarrow> nat \<Rightarrow> 'e \<Rightarrow> 'e JobError" where
  "nack_with_max_retries delay position max_retries current_attempts e =
     (if current_attempts \<ge> max_retries then Fail e else Nack e delay position)"

datatype JobErrorType = ErrNack "duration option" RequeuePosition | ErrFail

record 'e JobErrorRecord =
  er_error :: 'e
  er_attempt :: nat
  er_details :: JobErrorType
  er_created_at :: nat

subsection \<open>Jobs, options and statuses\<close>

record 'd Job =
  jb_id :: job_id
  jb_data :: 'd
  jb_attempts :: nat
  jb_created_at :: nat
  jb_processed_at :: "nat option"
  jb_finished_at :: "nat option"

record 'd BorrowedJob =
  bj_job :: "'d Job"
  bj_lease_token :: lease_token

record 'd JobOptions =
  jo_data :: 'd
  jo_id :: job_id
  jo_delay :: "DelayOptions option"

datatype JobStatus = Pending | Active | Delayed | Success | Failed

datatype CancelResult = CancelledImmediately | CancellationPending | NotFound

datatype IdempotencyMode = Permanent | ActiveMode

record QueueOptions =
  max_success :: nat
  max_failed :: nat
  lease_duration :: duration
  local_concurrency :: nat
  polling_interval :: duration
  always_poll :: bool
  idempotency_mode :: IdempotencyMode

definition default_queue_options :: QueueOptions where
  "default_queue_options =
     \<lparr> max_success = 1000, max_failed = 10000, lease_duration = Duration 30 0,
       local_concurrency = 100, polling_interval = Duration 0 100000000,
       always_poll = False, idempotency_mode = Permanent \<rparr>"

subsection \<open>Bounded diagnostics\<close>

definition MAX_JOB_ERROR_RECORDS :: nat where
  "MAX_JOB_ERROR_RECORDS = 100"

definition MAX_JOB_ERROR_RECORD_BYTES :: nat where
  "MAX_JOB_ERROR_RECORD_BYTES = 16 * 1024"

record LimitedWriter =
  lw_bytes :: string
  lw_exceeded :: bool

definition limited_write :: "string \<Rightarrow> LimitedWriter \<Rightarrow> bool \<times> LimitedWriter" where
  "limited_write bytes w =
     (if length bytes > MAX_JOB_ERROR_RECORD_BYTES - length (lw_bytes w)
      then (False, w\<lparr>lw_exceeded := True\<rparr>)
      else (True, w\<lparr>lw_bytes := lw_bytes w @ bytes\<rparr>))"

text \<open>
  \<open>serde_json::to_writer\<close> hands the writer a sequence of chunks, and then either ends or fails
  on its own (\<open>None\<close>); it stops at the first write the writer refuses.
\<close>

fun to_writer :: "string list \<Rightarrow> bool \<Rightarrow> LimitedWriter \<Rightarrow> bool \<times> LimitedWriter" where
  "to_writer [] ok w = (ok, w)"
| "to_writer (c # cs) ok w =
     (case limited_write c w of (False, w') \<Rightarrow> (False, w') | (True, w') \<Rightarrow> to_writer cs ok w')"

text \<open>
  \<open>encode_record\<close>: the chunks and the outcome of the third-party serializer on the record,
  and its text for the omission marker (attempt, creation time and details only), are arguments.
\<close>

type_synonym 'e record_serializer = "'e JobErrorRecord \<Rightarrow> string list \<times> bool"
type_synonym marker_serializer = "nat \<Rightarrow> nat \<Rightarrow> JobErrorType \<Rightarrow> (TwmqError, string) result"

definition encode_record :: "'e record_serializer \<Rightarrow> marker_serializer \<Rightarrow> 'e JobErrorRecord
    \<Rightarrow> (TwmqError, string) result" where
  "encode_record ser marker rec =
     (case to_writer (fst (ser rec)) (snd (ser rec)) \<lparr>lw_bytes = [], lw_exceeded = False\<rparr> of
        (True, w) \<Rightarrow> Inr (lw_bytes w)
      | (False, w) \<Rightarrow> (if lw_exceeded w
                       then marker (er_attempt rec) (er_created_at rec) (er_details rec)
                       else Inl (JsonError ''serializer'')))"

definition append_record :: "string \<Rightarrow> string list \<Rightarrow> string list" where
  "append_record record errors = ltrim_to MAX_JOB_ERROR_RECORDS (lpush record errors)"

subsection \<open>Lemmas\<close>

lemma u64_add_exact: "a + b < 2 ^ 53 \<Longrightarrow> u64_add a b = a + b"
  unfolding u64_add_def by (rule mod_less) (erule less_le_trans, simp)

lemma delay_to_queue_seconds_zero_iff: "delay_to_queue_seconds d = 0 \<longleftrightarrow> is_zero d"
  by (auto simp: delay_to_queue_seconds_def is_zero_def Let_def)

lemma position_roundtrip: "position_try_from (position_to_string p) = Inr p"
  by (cases p) (simp_all add: position_try_from_def position_to_string_def)

lemma length_append_record: "length (append_record r es) \<le> MAX_JOB_ERROR_RECORDS"
  by (simp add: append_record_def ltrim_to_def)

lemma to_writer_result:
  assumes "to_writer cs ok w = (b, w')" and "length (lw_bytes w) \<le> MAX_JOB_ERROR_RECORD_BYTES"
    and "\<not> lw_exceeded w"
  shows "if length (lw_bytes w) + length (concat cs) \<le> MAX_JOB_ERROR_RECORD_BYTES
         then b = ok \<and> lw_bytes w' = lw_bytes w @ concat cs \<and> \<not> lw_exceeded w'
         else \<not> b \<and> lw_exceeded w'"
  using assms
proof (induction cs ok w rule: to_writer.induct)
  case (1 ok w)
  then show ?case by auto
next
  case (2 c cs ok w)
  show ?case
  proof (cases "length c > MAX_JOB_ERROR_RECORD_BYTES - length (lw_bytes w)")
    case True
    with 2 show ?thesis by (auto simp: limited_write_def)
  next
    case False
    let ?w = "w\<lparr>lw_bytes := lw_bytes w @ c\<rparr>"
    have wr: "limited_write c w = (True, ?w)" using False by (simp add: limited_write_def)
    have "to_writer cs ok ?w = (b, w')" using "2.prems"(1) wr by simp
    from "2.IH" [OF wr [symmetric] refl this] False "2.prems" show ?thesis
      by (simp add: add.assoc split: if_splits)
  qed
qed

text \<open>
  A record of at most 16384 bytes is stored exactly as the serializer wrote it; a longer one is
  replaced by the omission marker, never by a prefix; a serializer failure within the limit is
  reported.
\<close>

lemma encode_record_cases:
  "encode_record ser marker rec =
     (if length (concat (fst (ser rec))) > MAX_JOB_ERROR_RECORD_BYTES
      then marker (er_attempt rec) (er_created_at rec) (er_details rec)
      else if snd (ser rec) then Inr (concat (fst (ser rec))) else Inl (JsonError ''serializer''))"
proof -
  obtain b w' where tw:
    "to_writer (fst (ser rec)) (snd (ser rec)) \<lparr>lw_bytes = [], lw_exceeded = False\<rparr> = (b, w')"
    by fastforce
  from to_writer_result [OF tw] show ?thesis
    by (auto simp: encode_record_def tw split: if_splits bool.splits)
qed

end
