(* ===== verification/Twmq_Transaction.thy ===== *)
theory Twmq_Transaction
  imports Twmq_Job
begin

text \<open>
  The lease-protected commit of \<open>twmq/src/transaction.rs\<close>: a pool of connections that are
  owned by one acknowledgement at a time, and the WATCH / EXISTS / MULTI-EXEC loop of
  \<open>commit_if_leased\<close>. What other clients and the network do while the loop runs is an
  argument (one \<open>attempt_env\<close> per iteration): the writes of others before the lease is read
  and between the read and EXEC, which commands fail, and how EXEC answers. A lost EXEC reply
  is an error whether or not Redis applied the commands.
\<close>

record 's attempt_env =
  before_read :: "'s \<Rightarrow> 's"
  before_exec :: "'s \<Rightarrow> 's"
  watch_ok :: bool
  read_ok :: bool
  unwatch_ok :: bool
  exec_answer :: exec_reply

subsection \<open>The connection pool\<close>

definition checkout :: "('c \<Rightarrow> bool) \<Rightarrow> 'c option \<Rightarrow> 'c list \<Rightarrow> (TwmqError, 'c) result \<times> 'c list" where
  "checkout probe connect idle =
     (let connection = (if idle = [] then None else Some (last idle));
          rest = butlast idle;
          fresh = (case connect of None \<Rightarrow> Inl (RedisError ''connect'') | Some c \<Rightarrow> Inr c)
      in case connection of
           Some c \<Rightarrow> (if probe c then (Inr c, rest) else (fresh, rest))
         | None \<Rightarrow> (fresh, rest))"

definition checkin :: "'c \<Rightarrow> 'c list \<Rightarrow> 'c list" where
  "checkin c idle = idle @ [c]"

subsection \<open>The commit loop\<close>

fun commit_loop ::
  "nat \<Rightarrow> ('s \<Rightarrow> bool) \<Rightarrow> ('s \<Rightarrow> 's) \<Rightarrow> (nat \<Rightarrow> 's attempt_env) \<Rightarrow> 's \<Rightarrow> (TwmqError, bool) result \<times> 's"
where
  "commit_loop 0 lease_exists transaction env s =
     (Inl (Runtime ''Lease changed repeatedly while completing a job''), s)"
| "commit_loop (Suc n) lease_exists transaction env s =
     (let e = env n; s1 = before_read e s in
      if \<not> watch_ok e then (Inl (RedisError ''WATCH''), s1)
      else if \<not> read_ok e then (Inl (RedisError ''EXISTS''), s1)
      else if \<not> lease_exists s1 then
        (if unwatch_ok e then (Inr False, s1) else (Inl (RedisError ''UNWATCH''), s1))
      else
        let s2 = before_exec e s1 in
        case exec_answer e of
          ExecCommitted \<Rightarrow> (Inr True, transaction s2)
        | ExecNil \<Rightarrow> commit_loop n lease_exists transaction env s2
        | ExecError applied \<Rightarrow>
            (Inl (RedisError ''EXEC''), if applied then transaction s2 else s2))"

text \<open>\<open>commit_if_leased\<close>: the connection goes back to the pool exactly when the loop answers.\<close>

definition commit_if_leased ::
  "('c \<Rightarrow> bool) \<Rightarrow> 'c option \<Rightarrow> ('s \<Rightarrow> bool) \<Rightarrow> ('s \<Rightarrow> 's) \<Rightarrow> (nat \<Rightarrow> 's attempt_env) \<Rightarrow> 'c list \<Rightarrow> 's
     \<Rightarrow> (TwmqError, bool) result \<times> 'c list \<times> 's" where
  "commit_if_leased probe connect lease_exists transaction env idle s =
     (case checkout probe connect idle of
        (Inl e, rest) \<Rightarrow> (Inl e, rest, s)
      | (Inr c, rest) \<Rightarrow>
          (case commit_loop 10 lease_exists transaction env s of
             (Inl e, s') \<Rightarrow> (Inl e, rest, s')
           | (Inr b, s') \<Rightarrow> (Inr b, checkin c rest, s')))"

subsection \<open>What the environment guarantees\<close>

text \<open>
  The documented behaviour of WATCH: EXEC applies the transaction only if the watched key is
  still there, untouched. \<open>guarded\<close> states it for every iteration.
\<close>

definition watch_guarantee :: "('s \<Rightarrow> bool) \<Rightarrow> (nat \<Rightarrow> 's attempt_env) \<Rightarrow> bool" where
  "watch_guarantee lease_exists env \<longleftrightarrow>
     (\<forall>n s. lease_exists s \<longrightarrow>
        exec_answer (env n) = ExecCommitted \<or> exec_answer (env n) = ExecError True \<longrightarrow>
        lease_exists (before_exec (env n) s))"

text \<open>Other clients act by steps of a relation \<open>R\<close> on the store.\<close>

definition env_within :: "('s \<Rightarrow> 's \<Rightarrow> bool) \<Rightarrow> (nat \<Rightarrow> 's attempt_env) \<Rightarrow> bool" where
  "env_within R env \<longleftrightarrow> (\<forall>n s. R\<^sup>*\<^sup>* s (before_read (env n) s) \<and> R\<^sup>*\<^sup>* s (before_exec (env n) s))"

text \<open>An environment in which nobody else acts and every command succeeds.\<close>

definition quiet_env :: "nat \<Rightarrow> 's attempt_env" where
  "quiet_env n = \<lparr>before_read = id, before_exec = id, watch_ok = True, read_ok = True,
     unwatch_ok = True, exec_answer = ExecCommitted\<rparr>"

subsection \<open>Lemmas\<close>

lemma quiet_env_within: "env_within R quiet_env"
  by (simp add: env_within_def quiet_env_def)

lemma commit_loop_quiet: "live s \<Longrightarrow> 0 < n \<Longrightarrow> commit_loop n live tr quiet_env s = (Inr True, tr s)"
  by (cases n) (simp_all add: quiet_env_def)

lemma commit_loop_quiet_iff:
  "commit_loop 1 live tr quiet_env s = (Inr True, t) \<longleftrightarrow> live s \<and> t = tr s"
  by (auto simp: quiet_env_def Let_def split: if_splits)

text \<open>Every run of the loop is a run of the others with the transaction applied at most once.\<close>

lemma commit_loop_cases:
  assumes "commit_loop n live tr env s = (r, s')" and "env_within R env"
    and "watch_guarantee live env"
  shows "(r = Inr True \<and> (\<exists>u. R\<^sup>*\<^sup>* s u \<and> live u \<and> s' = tr u))
       \<or> (r = Inr False \<and> R\<^sup>*\<^sup>* s s' \<and> \<not> live s')
       \<or> (\<exists>e. r = Inl e \<and> (R\<^sup>*\<^sup>* s s' \<or> (\<exists>u. R\<^sup>*\<^sup>* s u \<and> live u \<and> s' = tr u)))"
  using assms
proof (induction n live tr env s rule: commit_loop.induct)
  case (1 live tr env s)
  then show ?case by auto
next
  case (2 n live tr env s)
  let ?s1 = "before_read (env n) s"
  let ?s2 = "before_exec (env n) ?s1"
  have R1: "R\<^sup>*\<^sup>* s ?s1" and R2: "R\<^sup>*\<^sup>* ?s1 ?s2"
    using "2.prems"(2) by (auto simp: env_within_def)
  have R12: "R\<^sup>*\<^sup>* s ?s2" using R1 R2 by (rule rtranclp_trans)
  show ?case
  proof (cases "watch_ok (env n) \<and> read_ok (env n) \<and> live ?s1 \<and> exec_answer (env n) = ExecNil")
    case True
    then have "commit_loop n live tr env ?s2 = (r, s')" using "2.prems"(1) by (simp add: Let_def)
    from "2.IH" [OF refl refl _ _ _ refl _ this] True "2.prems"
    have IH: "(r = Inr True \<and> (\<exists>u. R\<^sup>*\<^sup>* ?s2 u \<and> live u \<and> s' = tr u))
       \<or> (r = Inr False \<and> R\<^sup>*\<^sup>* ?s2 s' \<and> \<not> live s')
       \<or> (\<exists>e. r = Inl e \<and> (R\<^sup>*\<^sup>* ?s2 s' \<or> (\<exists>u. R\<^sup>*\<^sup>* ?s2 u \<and> live u \<and> s' = tr u)))"
      by simp
    then show ?thesis using rtranclp_trans [OF R12] by blast
  next
    case False
    with "2.prems" R1 R12 show ?thesis
      by (auto simp: Let_def watch_guarantee_def split: if_splits exec_reply.splits)
  qed
qed

lemma commit_if_leased_cases:
  assumes "commit_if_leased probe connect live tr env idle s = (r, idle', s')" and "env_within R env"
    and "watch_guarantee live env"
  shows "(R\<^sup>*\<^sup>* s s' \<and> r \<noteq> Inr True) \<or> (\<exists>u. R\<^sup>*\<^sup>* s u \<and> live u \<and> s' = tr u)"
proof -
  obtain r0 s0 where l: "commit_loop 10 live tr env s = (r0, s0)" by fastforce
  then consider "\<exists>e. r = Inl e" and "s' = s" | "r = r0" and "s' = s0"
    using assms(1)
    by (auto simp: commit_if_leased_def split: prod.splits sum.splits simp del: commit_loop.simps)
  then show ?thesis using commit_loop_cases [OF l assms(2,3)] by cases auto
qed

lemma commit_loop_False:
  "commit_loop n live tr env s = (Inr False, s') \<Longrightarrow> \<not> live s'"
  by (induction n live tr env s rule: commit_loop.induct)
     (auto simp: Let_def split: if_splits exec_reply.splits)

text \<open>
  The interface between a lease-protected store and its completions. A provider names its
  stores, its lease keys, when a key is live, how a pipeline runs, which pipelines consume
  a key, and the steps of other clients; it promises that a consumed key is gone and
  that no step of others brings a dead key back.
\<close>

locale lease_fence =
  fixes live :: "'k \<Rightarrow> 's \<Rightarrow> bool"
    and run :: "'p \<Rightarrow> 's \<Rightarrow> 's"
    and consumes :: "'k \<Rightarrow> 'p \<Rightarrow> bool"
    and others :: "'k \<Rightarrow> 's \<Rightarrow> 's \<Rightarrow> bool"
  assumes consumed: "consumes k p \<Longrightarrow> \<not> live k (run p s)"
    and not_revived: "others k s t \<Longrightarrow> \<not> live k s \<Longrightarrow> \<not> live k t"
begin

lemma dead_stays_dead: "(others k)\<^sup>*\<^sup>* s t \<Longrightarrow> \<not> live k s \<Longrightarrow> \<not> live k t"
  by (induction rule: rtranclp_induct) (auto dest: not_revived)

lemma dead_lease_never_commits:
  assumes "commit_loop n (live k) (run p) env s = (r, s')" and "env_within (others k) env"
    and "watch_guarantee (live k) env" and "\<not> live k s"
  shows "r \<noteq> Inr True \<and> (others k)\<^sup>*\<^sup>* s s'"
  using commit_loop_cases [OF assms(1-3)] dead_stays_dead [OF _ assms(4)] by blast

text \<open>
  Two acknowledgements with the same lease: once one has applied its pipeline, the other can
  only observe that the lease is gone, or fail, without having written anything.
\<close>

lemma second_commit_is_fenced:
  assumes "commit_loop n (live k) (run p) env s = (Inr True, s1)"
    and "env_within (others k) env" and "watch_guarantee (live k) env" and "consumes k p"
    and "(others k)\<^sup>*\<^sup>* s1 s2"
    and "commit_loop m (live k) (run q) env' s2 = (r, s3)"
    and "env_within (others k) env'" and "watch_guarantee (live k) env'"
  shows "r \<noteq> Inr True \<and> (others k)\<^sup>*\<^sup>* s2 s3"
proof -
  from commit_loop_cases [OF assms(1-3)] assms(4) have "\<not> live k s1"
    using consumed by auto
  then have "\<not> live k s2" using assms(5) dead_stays_dead by blast
  with assms(6-8) show ?thesis by (rule dead_lease_never_commits)
qed

end

end
