(* ===== verification/Twmq_Queue.thy ===== *)
theory Twmq_Queue
  imports Twmq_Transaction
begin

text \<open>
  The single-lane durable queue of \<open>twmq/src/lib.rs\<close>. The Redis keys of one queue are the
  fields of a record; a Lua script is one function on it, a pipeline is a list of commands
  run in order by EXEC. A lease key is live while it is in \<open>q_leases\<close>; Redis may expire
  it at any moment. A script call takes a \<open>fate\<close>: whether the script ran and whether its
  reply arrived. The handler and JSON are arguments.
\<close>

subsection \<open>State\<close>

text \<open>The fields of a job's metadata hash; a missing field is \<open>None\<close>.\<close>

record job_meta =
  m_created_at :: "nat option"
  m_attempts :: "nat option"
  m_processed_at :: "nat option"
  m_finished_at :: "nat option"
  m_reentry_position :: "string option"
  m_lease_token :: "lease_token option"

definition empty_meta :: job_meta where
  "empty_meta = \<lparr> m_created_at = None, m_attempts = None, m_processed_at = None,
     m_finished_at = None, m_reentry_position = None, m_lease_token = None \<rparr>"

text \<open>\<open>q_external\<close> records, in order, the commands hooks applied to keys outside the queue.\<close>

record 'h queue =
  q_pending :: "job_id list"
  q_delayed :: "(job_id \<times> nat) list"
  q_active :: "(job_id \<times> nat) list"
  q_success :: "job_id list"
  q_failed :: "job_id list"
  q_data :: "job_id \<rightharpoonup> string"
  q_meta :: "job_id \<Rightarrow> job_meta"
  q_results :: "job_id \<rightharpoonup> string"
  q_errors :: "job_id \<Rightarrow> string list"
  q_dedupe :: "job_id set"
  q_cancels :: "job_id list"
  q_leases :: "job_id \<times> lease_token \<rightharpoonup> nat"
  q_external :: "'h list"

definition empty_queue :: "'h queue" where
  "empty_queue = \<lparr> q_pending = [], q_delayed = [], q_active = [], q_success = [], q_failed = [],
     q_data = Map.empty, q_meta = (\<lambda>_. empty_meta), q_results = Map.empty, q_errors = (\<lambda>_. []),
     q_dedupe = {}, q_cancels = [], q_leases = Map.empty, q_external = [] \<rparr>"

definition upd_meta :: "job_id \<Rightarrow> (job_meta \<Rightarrow> job_meta) \<Rightarrow> 'h queue \<Rightarrow> 'h queue" where
  [script_defs]: "upd_meta j f s = s\<lparr>q_meta := (q_meta s)(j := f (q_meta s j))\<rparr>"

text \<open>\<open>HINCRBY meta attempts 1\<close>: a missing field counts as 0.\<close>

definition hincr_attempts :: "job_id \<Rightarrow> 'h queue \<Rightarrow> 'h queue" where
  [script_defs]: "hincr_attempts j =
     upd_meta j (\<lambda>m. m\<lparr>m_attempts := Some (case m_attempts m of None \<Rightarrow> 1 | Some a \<Rightarrow> a + 1)\<rparr>)"

text \<open>What became of a script call: delivered, never run, or run with its reply lost.\<close>

datatype fate = Delivered | NotRun | ReplyLost

definition invoke :: "fate \<Rightarrow> ('s \<Rightarrow> 'r \<times> 's) \<Rightarrow> 's \<Rightarrow> (TwmqError, 'r) result \<times> 's" where
  "invoke f script s =
     (case f of
        Delivered \<Rightarrow> (Inr (fst (script s)), snd (script s))
      | NotRun \<Rightarrow> (Inl (RedisError ''invoke''), s)
      | ReplyLost \<Rightarrow> (Inl (RedisError ''invoke''), snd (script s)))"

subsection \<open>push\<close>

definition push_script :: "job_id \<Rightarrow> string \<Rightarrow> nat \<Rightarrow> nat \<Rightarrow> string \<Rightarrow> 'h queue \<Rightarrow> (nat \<times> job_id) \<times> 'h queue" where
  "push_script job_id job_data now delay reentry_position s =
     (if job_id \<in> q_dedupe s then ((0, job_id), s)
      else
        let s = s\<lparr>q_data := (q_data s)(job_id \<mapsto> job_data)\<rparr>;
            s = upd_meta job_id (\<lambda>m. m\<lparr>m_created_at := Some now\<rparr>) s;
            s = upd_meta job_id (\<lambda>m. m\<lparr>m_attempts := Some 0\<rparr>) s;
            s = s\<lparr>q_dedupe := insert job_id (q_dedupe s)\<rparr>;
            s = (if delay > 0 then
                   let process_at = now + delay;
                       s = upd_meta job_id (\<lambda>m. m\<lparr>m_reentry_position := Some reentry_position\<rparr>) s
                   in s\<lparr>q_delayed := zadd job_id process_at (q_delayed s)\<rparr>
                 else s\<lparr>q_pending := rpush job_id (q_pending s)\<rparr>)
        in ((1, job_id), s))"

definition push :: "('d \<Rightarrow> string option) \<Rightarrow> nat \<Rightarrow> fate \<Rightarrow> 'd JobOptions \<Rightarrow> 'h queue
    \<Rightarrow> (TwmqError, 'd Job) result \<times> 'h queue" where
  "push to_json now f opts s =
     (let job = \<lparr>jb_id = jo_id opts, jb_data = jo_data opts, jb_attempts = 0,
                 jb_created_at = now, jb_processed_at = None, jb_finished_at = None\<rparr>
      in case to_json (jb_data job) of
           None \<Rightarrow> (Inl (JsonError ''to_string''), s)
         | Some job_data \<Rightarrow>
             let delay = (case jo_delay opts of Some d \<Rightarrow> d
                          | None \<Rightarrow> \<lparr>do_delay = Duration 0 0, do_position = Last\<rparr>);
                 delay_secs = delay_to_queue_seconds (do_delay delay);
                 position_string = position_to_string (do_position delay)
             in case invoke f (push_script (jo_id opts) job_data now delay_secs position_string) s of
                  (Inl e, s') \<Rightarrow> (Inl e, s')
                | (Inr _, s') \<Rightarrow> (Inr job, s'))"

subsection \<open>Reading jobs\<close>

definition parse_u32 :: "nat \<Rightarrow> nat option" where
  "parse_u32 n = (if n < 2 ^ 32 then Some n else None)"

definition parse_u64 :: "nat \<Rightarrow> nat option" where
  "parse_u64 n = (if n < 2 ^ 64 then Some n else None)"

definition unwrap_or :: "'a \<Rightarrow> 'a option \<Rightarrow> 'a" where
  "unwrap_or d v = (case v of None \<Rightarrow> d | Some x \<Rightarrow> x)"

definition get_job :: "(string \<Rightarrow> 'd option) \<Rightarrow> job_id \<Rightarrow> 'h queue \<Rightarrow> (TwmqError, 'd Job option) result" where
  "get_job from_json job_id s =
     (case q_data s job_id of
        None \<Rightarrow> Inr None
      | Some data_json \<Rightarrow>
          (case from_json data_json of
             None \<Rightarrow> Inl (JsonError ''from_str'')
           | Some data_t \<Rightarrow>
               let meta_map = q_meta s job_id in
               Inr (Some
                 \<lparr>jb_id = job_id, jb_data = data_t,
                  jb_attempts = unwrap_or 0 (Option.bind (m_attempts meta_map) parse_u32),
                  jb_created_at = unwrap_or 0 (Option.bind (m_created_at meta_map) parse_u64),
                  jb_processed_at = Option.bind (m_processed_at meta_map) parse_u64,
                  jb_finished_at = Option.bind (m_finished_at meta_map) parse_u64\<rparr>)))"

definition count_status :: "JobStatus \<Rightarrow> 'h queue \<Rightarrow> nat" where
  "count_status status s =
     (case status of
        Pending \<Rightarrow> length (q_pending s)
      | Active \<Rightarrow> length (q_active s)
      | Delayed \<Rightarrow> length (q_delayed s)
      | Success \<Rightarrow> length (q_success s)
      | Failed \<Rightarrow> length (q_failed s))"

subsection \<open>The commands of a completion pipeline\<close>

datatype 'h pipe_cmd =
    DelLease job_id lease_token
  | HdelActive job_id
  | LpushSuccess job_id
  | LpushFailed job_id
  | HsetFinishedAt job_id nat
  | HdelLeaseToken job_id
  | HsetResult job_id string
  | SremDedupe job_id
  | AppendError job_id string
  | HsetReentryPosition job_id string
  | ZaddDelayed job_id nat
  | LpushPending job_id
  | RpushPending job_id
  | HsetData job_id string
  | HsetCreatedAt job_id nat
  | HsetAttempts job_id nat
  | SaddDedupe job_id
  | External 'h

fun exec_cmd :: "'h pipe_cmd \<Rightarrow> 'h queue \<Rightarrow> 'h queue" where
  "exec_cmd (DelLease j t) s = s\<lparr>q_leases := (q_leases s)((j, t) := None)\<rparr>"
| "exec_cmd (HdelActive j) s = s\<lparr>q_active := hdel j (q_active s)\<rparr>"
| "exec_cmd (LpushSuccess j) s = s\<lparr>q_success := lpush j (q_success s)\<rparr>"
| "exec_cmd (LpushFailed j) s = s\<lparr>q_failed := lpush j (q_failed s)\<rparr>"
| "exec_cmd (HsetFinishedAt j t) s = upd_meta j (\<lambda>m. m\<lparr>m_finished_at := Some t\<rparr>) s"
| "exec_cmd (HdelLeaseToken j) s = upd_meta j (\<lambda>m. m\<lparr>m_lease_token := None\<rparr>) s"
| "exec_cmd (HsetResult j r) s = s\<lparr>q_results := (q_results s)(j \<mapsto> r)\<rparr>"
| "exec_cmd (SremDedupe j) s = s\<lparr>q_dedupe := q_dedupe s - {j}\<rparr>"
| "exec_cmd (AppendError j r) s = s\<lparr>q_errors := (q_errors s)(j := append_record r (q_errors s j))\<rparr>"
| "exec_cmd (HsetReentryPosition j p) s = upd_meta j (\<lambda>m. m\<lparr>m_reentry_position := Some p\<rparr>) s"
| "exec_cmd (ZaddDelayed j t) s = s\<lparr>q_delayed := zadd j t (q_delayed s)\<rparr>"
| "exec_cmd (LpushPending j) s = s\<lparr>q_pending := lpush j (q_pending s)\<rparr>"
| "exec_cmd (RpushPending j) s = s\<lparr>q_pending := rpush j (q_pending s)\<rparr>"
| "exec_cmd (HsetData j d) s = s\<lparr>q_data := (q_data s)(j \<mapsto> d)\<rparr>"
| "exec_cmd (HsetCreatedAt j t) s = upd_meta j (\<lambda>m. m\<lparr>m_created_at := Some t\<rparr>) s"
| "exec_cmd (HsetAttempts j n) s = upd_meta j (\<lambda>m. m\<lparr>m_attempts := Some n\<rparr>) s"
| "exec_cmd (SaddDedupe j) s = s\<lparr>q_dedupe := insert j (q_dedupe s)\<rparr>"
| "exec_cmd (External h) s = s\<lparr>q_external := q_external s @ [h]\<rparr>"

text \<open>EXEC runs the queued commands in order, with nothing in between.\<close>

definition exec_pipeline :: "'h pipe_cmd list \<Rightarrow> 'h queue \<Rightarrow> 'h queue" where
  "exec_pipeline p s = fold exec_cmd p s"

text \<open>
  \<open>TransactionContext::queue_job\<close>: a hook adds a job to the target queue inside its own
  pipeline. Unlike \<open>push\<close> it does not consult the deduplication set.
\<close>

definition queue_job_commands :: "nat \<Rightarrow> job_id \<Rightarrow> string \<Rightarrow> DelayOptions option \<Rightarrow> 'h pipe_cmd list" where
  "queue_job_commands now j job_data delay =
     [HsetData j job_data, HsetCreatedAt j now, HsetAttempts j 0, SaddDedupe j]
     @ (case delay of
          Some d \<Rightarrow> [HsetReentryPosition j (position_to_string (do_position d)),
                     ZaddDelayed j (u64_add now (delay_to_queue_seconds (do_delay d)))]
        | None \<Rightarrow> [RpushPending j])"

definition queue_job :: "('d \<Rightarrow> string option) \<Rightarrow> nat \<Rightarrow> 'd JobOptions \<Rightarrow> (TwmqError, 'h pipe_cmd list) result" where
  "queue_job to_json now opts =
     (case to_json (jo_data opts) of
        None \<Rightarrow> Inl (JsonError ''to_string'')
      | Some job_data \<Rightarrow> Inr (queue_job_commands now (jo_id opts) job_data (jo_delay opts)))"

text \<open>The parts of \<open>DurableExecution\<close> the queue calls, and the JSON encodings it needs.\<close>

record ('d, 'o, 'e, 'h) handler =
  on_success :: "'d BorrowedJob \<Rightarrow> 'o \<Rightarrow> 'h pipe_cmd list"
  on_nack :: "'d BorrowedJob \<Rightarrow> 'e \<Rightarrow> duration option \<Rightarrow> RequeuePosition \<Rightarrow> 'h pipe_cmd list"
  on_fail :: "'d BorrowedJob \<Rightarrow> 'e \<Rightarrow> 'h pipe_cmd list"
  on_queue_error :: "'d option Job \<Rightarrow> TwmqError \<Rightarrow> 'h pipe_cmd list"
  user_cancelled :: 'e
  output_json :: "'o \<Rightarrow> string option"
  error_json :: "'e record_serializer"
  marker_json :: marker_serializer

subsection \<open>Cancellation\<close>

definition cancel_script :: "job_id \<Rightarrow> nat \<Rightarrow> 'h queue \<Rightarrow> CancelResult \<times> 'h queue" where
  "cancel_script job_id now s =
     (if lpos job_id (q_pending s) then
        (CancelledImmediately,
         upd_meta job_id (\<lambda>m. m\<lparr>m_finished_at := Some now\<rparr>)
           (s\<lparr>q_pending := lrem job_id (q_pending s), q_failed := lpush job_id (q_failed s)\<rparr>))
      else if zmember job_id (q_delayed s) then
        (CancelledImmediately,
         upd_meta job_id (\<lambda>m. m\<lparr>m_finished_at := Some now\<rparr>)
           (s\<lparr>q_delayed := zrem job_id (q_delayed s), q_failed := lpush job_id (q_failed s)\<rparr>))
      else if hexists job_id (q_active s) then
        (CancellationPending, s\<lparr>q_cancels := sadd job_id (q_cancels s)\<rparr>)
      else (NotFound, s))"

text \<open>The fail hook of a cancelled job, run as its own atomic pipeline; \<open>f\<close> is the fate of EXEC.\<close>

definition process_cancelled_job ::
  "(string \<Rightarrow> 'd option) \<Rightarrow> ('d, 'o, 'e, 'h) handler \<Rightarrow> fate \<Rightarrow> job_id \<Rightarrow> 'h queue
     \<Rightarrow> (TwmqError, unit) result \<times> 'h queue" where
  "process_cancelled_job from_json h f job_id s =
     (case get_job from_json job_id s of
        Inl e \<Rightarrow> (Inl e, s)
      | Inr None \<Rightarrow> (Inr (), s)
      | Inr (Some job) \<Rightarrow>
          let borrowed_job = \<lparr>bj_job = job, bj_lease_token = ''cancelled''\<rparr>;
              pipeline = on_fail h borrowed_job (user_cancelled h)
          in invoke f (\<lambda>s. ((), exec_pipeline pipeline s)) s)"

definition cancel_job ::
  "(string \<Rightarrow> 'd option) \<Rightarrow> ('d, 'o, 'e, 'h) handler \<Rightarrow> nat \<Rightarrow> fate \<Rightarrow> fate \<Rightarrow> job_id \<Rightarrow> 'h queue
     \<Rightarrow> (TwmqError, CancelResult) result \<times> 'h queue" where
  "cancel_job from_json h now f f' job_id s =
     (case invoke f (cancel_script job_id now) s of
        (Inl e, s') \<Rightarrow> (Inl e, s')
      | (Inr CancelledImmediately, s') \<Rightarrow>
          (Inr CancelledImmediately, snd (process_cancelled_job from_json h f' job_id s'))
      | (Inr r, s') \<Rightarrow> (Inr r, s'))"

subsection \<open>pop\_batch\_jobs: the four steps of the script\<close>

text \<open>Step 1: an active job whose lease key is gone, or that has no token, is pending again.\<close>

definition cleanup_lease :: "job_id \<Rightarrow> 'h queue \<times> job_id list \<Rightarrow> 'h queue \<times> job_id list" where
  "cleanup_lease job_id = (\<lambda>(s, timed_out_jobs).
     case m_lease_token (q_meta s job_id) of
       Some current_lease_token \<Rightarrow>
         (if q_leases s (job_id, current_lease_token) = None then
            let s = hincr_attempts job_id s;
                s = upd_meta job_id (\<lambda>m. m\<lparr>m_lease_token := None\<rparr>) s;
                s = s\<lparr>q_active := hdel job_id (q_active s)\<rparr>;
                s = s\<lparr>q_pending := lpush job_id (q_pending s)\<rparr>
            in (s, timed_out_jobs @ [job_id])
          else (s, timed_out_jobs))
     | None \<Rightarrow>
         let s = hincr_attempts job_id s;
             s = s\<lparr>q_active := hdel job_id (q_active s)\<rparr>;
             s = s\<lparr>q_pending := lpush job_id (q_pending s)\<rparr>
         in (s, timed_out_jobs @ [job_id]))"

definition cleanup_expired_leases :: "'h queue \<Rightarrow> 'h queue \<times> job_id list" where
  "cleanup_expired_leases s = fold cleanup_lease (keys (q_active s)) (s, [])"

text \<open>Step 2: cancellation requests of jobs that are no longer active.\<close>

definition process_cancellation :: "nat \<Rightarrow> job_id \<Rightarrow> 'h queue \<times> job_id list \<Rightarrow> 'h queue \<times> job_id list" where
  "process_cancellation now job_id = (\<lambda>(s, cancelled_jobs).
     if hexists job_id (q_active s) then (s, cancelled_jobs)
     else
       let is_pending = lpos job_id (q_pending s);
           is_delayed = zmember job_id (q_delayed s)
       in if \<not> is_pending \<and> \<not> is_delayed \<and> lpos job_id (q_success s)
          then (s\<lparr>q_cancels := srem job_id (q_cancels s)\<rparr>, cancelled_jobs)
          else
            let s = s\<lparr>q_pending := lrem job_id (q_pending s)\<rparr>;
                s = s\<lparr>q_delayed := zrem job_id (q_delayed s)\<rparr>;
                s = s\<lparr>q_failed := lrem job_id (q_failed s)\<rparr>;
                s = s\<lparr>q_failed := lpush job_id (q_failed s)\<rparr>;
                s = upd_meta job_id (\<lambda>m. m\<lparr>m_finished_at := Some now\<rparr>) s
            in (s\<lparr>q_cancels := srem job_id (q_cancels s)\<rparr>, cancelled_jobs @ [job_id]))"

definition process_cancellations :: "nat \<Rightarrow> 'h queue \<Rightarrow> 'h queue \<times> job_id list" where
  "process_cancellations now s = fold (process_cancellation now) (q_cancels s) (s, [])"

text \<open>Step 3: delayed jobs that are due re-enter pending at their stored position.\<close>

definition release_delayed :: "job_id \<Rightarrow> 'h queue \<Rightarrow> 'h queue" where
  "release_delayed job_id s =
     (let reentry_position = unwrap_or ''last'' (m_reentry_position (q_meta s job_id));
          s = s\<lparr>q_delayed := zrem job_id (q_delayed s)\<rparr>;
          s = upd_meta job_id (\<lambda>m. m\<lparr>m_reentry_position := None\<rparr>) s
      in if reentry_position = ''first''
         then s\<lparr>q_pending := lpush job_id (q_pending s)\<rparr>
         else s\<lparr>q_pending := rpush job_id (q_pending s)\<rparr>)"

definition process_delayed_jobs :: "nat \<Rightarrow> 'h queue \<Rightarrow> 'h queue" where
  "process_delayed_jobs now s = fold release_delayed (zrangebyscore 0 now (q_delayed s)) s"

text \<open>Step 4: pop from the head of pending, and lease what still has data.\<close>

fun lpop_batch :: "nat \<Rightarrow> 'a list \<Rightarrow> 'a list \<times> 'a list" where
  "lpop_batch 0 xs = ([], xs)"
| "lpop_batch (Suc n) [] = ([], [])"
| "lpop_batch (Suc n) (x # xs) = (case lpop_batch n xs of (ys, rest) \<Rightarrow> (x # ys, rest))"

definition make_lease_token :: "nat \<Rightarrow> job_id \<Rightarrow> nat \<Rightarrow> string \<Rightarrow> lease_token" where
  "make_lease_token now job_id attempts pop_id =
     show_nat now @ ''_'' @ job_id @ ''_'' @ show_nat attempts @ ''_'' @ pop_id"

text \<open>One row of the script's reply: id, data, attempts, creation and processing time, token.\<close>

type_synonym popped_row = "job_id \<times> string \<times> nat \<times> nat \<times> nat \<times> lease_token"

definition lease_popped :: "nat \<Rightarrow> string \<Rightarrow> nat \<Rightarrow> job_id \<Rightarrow> 'h queue \<times> popped_row list
    \<Rightarrow> 'h queue \<times> popped_row list" where
  "lease_popped now pop_id lease_seconds job_id = (\<lambda>(s, result_jobs).
     case q_data s job_id of
       None \<Rightarrow> (s, result_jobs)
     | Some job_data \<Rightarrow>
         let s = upd_meta job_id (\<lambda>m. m\<lparr>m_processed_at := Some now\<rparr>) s;
             created_at = unwrap_or now (m_created_at (q_meta s job_id));
             s = hincr_attempts job_id s;
             attempts = unwrap_or 0 (m_attempts (q_meta s job_id));
             lease_token = make_lease_token now job_id attempts pop_id;
             s = s\<lparr>q_leases := (q_leases s)
                   ((job_id, lease_token) := (if lease_seconds = 0 then None else Some lease_seconds))\<rparr>;
             s = upd_meta job_id (\<lambda>m. m\<lparr>m_lease_token := Some lease_token\<rparr>) s;
             s = s\<lparr>q_active := hset job_id attempts (q_active s)\<rparr>
         in (s, result_jobs @ [(job_id, job_data, attempts, created_at, now, lease_token)]))"

definition pop_pending :: "nat \<Rightarrow> string \<Rightarrow> nat \<Rightarrow> nat \<Rightarrow> 'h queue \<Rightarrow> 'h queue \<times> popped_row list" where
  "pop_pending now pop_id batch_size lease_seconds s =
     (case lpop_batch batch_size (q_pending s) of
        (popped_job_ids, rest) \<Rightarrow>
          fold (lease_popped now pop_id lease_seconds) popped_job_ids (s\<lparr>q_pending := rest\<rparr>, []))"

definition pop_script :: "nat \<Rightarrow> string \<Rightarrow> nat \<Rightarrow> nat \<Rightarrow> 'h queue
    \<Rightarrow> (popped_row list \<times> job_id list \<times> job_id list) \<times> 'h queue" where
  "pop_script now pop_id batch_size lease_seconds s =
     (let (s, timed_out_jobs) = cleanup_expired_leases s;
          (s, cancelled_jobs) = process_cancellations now s;
          s = process_delayed_jobs now s;
          (s, result_jobs) = pop_pending now pop_id batch_size lease_seconds s
      in ((result_jobs, cancelled_jobs, timed_out_jobs), s))"

text \<open>
  The rows as jobs: a row whose data parses is borrowed, one whose data does not is handed
  to \<open>complete_job_queue_error\<close> with its lease token in a spawned task.
\<close>

definition decode_row :: "(string \<Rightarrow> 'd option) \<Rightarrow> nat \<Rightarrow> popped_row
    \<Rightarrow> ('d BorrowedJob, 'd option Job \<times> lease_token) result" where
  "decode_row from_json now row =
     (case row of (job_id, job_data, attempts, created_at, processed_at, lease_token) \<Rightarrow>
        (case from_json job_data of
           Some data_t \<Rightarrow>
             Inl \<lparr>bj_job = \<lparr>jb_id = job_id, jb_data = data_t,
                             jb_attempts = unwrap_or 1 (parse_u32 attempts),
                             jb_created_at = unwrap_or now (parse_u64 created_at),
                             jb_processed_at = Some (unwrap_or now (parse_u64 processed_at)),
                             jb_finished_at = None\<rparr>,
                  bj_lease_token = lease_token\<rparr>
         | None \<Rightarrow>
             Inr (\<lparr>jb_id = job_id, jb_data = None,
                   jb_attempts = unwrap_or 1 (parse_u32 attempts),
                   jb_created_at = unwrap_or now (parse_u64 created_at),
                   jb_processed_at = parse_u64 processed_at,
                   jb_finished_at = Some now\<rparr>, lease_token)))"

definition partition_rows :: "('a, 'b) result list \<Rightarrow> 'a list \<times> 'b list" where
  "partition_rows rs =
     (List.map_filter (\<lambda>r. case r of Inl a \<Rightarrow> Some a | Inr _ \<Rightarrow> None) rs,
      List.map_filter (\<lambda>r. case r of Inr b \<Rightarrow> Some b | Inl _ \<Rightarrow> None) rs)"

text \<open>\<open>pop_batch_jobs\<close>: the borrowed jobs, the jobs to fail, and the cancelled jobs whose
  fail hook is spawned.\<close>

definition pop_batch_jobs ::
  "(string \<Rightarrow> 'd option) \<Rightarrow> QueueOptions \<Rightarrow> nat \<Rightarrow> string \<Rightarrow> fate \<Rightarrow> nat \<Rightarrow> 'h queue
     \<Rightarrow> (TwmqError, 'd BorrowedJob list \<times> ('d option Job \<times> lease_token) list \<times> job_id list) result
        \<times> 'h queue" where
  "pop_batch_jobs from_json opts now pop_id f batch_size s =
     (case invoke f (pop_script now pop_id batch_size (as_secs (lease_duration opts))) s of
        (Inl e, s') \<Rightarrow> (Inl e, s')
      | (Inr (job_results, cancelled_jobs, timed_out_jobs), s') \<Rightarrow>
          (case partition_rows (map (decode_row from_json now) job_results) of
             (jobs, queue_errors) \<Rightarrow> (Inr (jobs, queue_errors, cancelled_jobs), s')))"

subsection \<open>Completion\<close>

text \<open>The commands of \<open>add_success_operations\<close>, once the result is serialized.\<close>

definition success_commands :: "QueueOptions \<Rightarrow> nat \<Rightarrow> job_id \<Rightarrow> lease_token \<Rightarrow> string \<Rightarrow> 'h pipe_cmd list" where
  "success_commands opts now j tok result_json =
     [DelLease j tok, HdelActive j, LpushSuccess j, HsetFinishedAt j now, HdelLeaseToken j, HsetResult j result_json]
     @ (if idempotency_mode opts = ActiveMode then [SremDedupe j] else [])"

definition add_success_operations ::
  "('d, 'o, 'e, 'h) handler \<Rightarrow> QueueOptions \<Rightarrow> nat \<Rightarrow> 'd BorrowedJob \<Rightarrow> 'o \<Rightarrow> (TwmqError, 'h pipe_cmd list) result" where
  "add_success_operations h opts now job result =
     (case output_json h result of
        None \<Rightarrow> Inl (JsonError ''to_string'')
      | Some result_json \<Rightarrow> Inr (success_commands opts now (jb_id (bj_job job)) (bj_lease_token job) result_json))"

text \<open>The commands of \<open>add_nack_operations\<close>, once the error record is encoded.\<close>

definition nack_commands :: "nat \<Rightarrow> job_id \<Rightarrow> lease_token \<Rightarrow> string \<Rightarrow> duration option \<Rightarrow> RequeuePosition
    \<Rightarrow> 'h pipe_cmd list" where
  "nack_commands now j tok text delay position =
     [DelLease j tok, HdelActive j, HdelLeaseToken j, AppendError j text]
     @ (case delay of
          Some delay_duration \<Rightarrow>
            [HsetReentryPosition j (position_to_string position),
             ZaddDelayed j (u64_add now (delay_to_queue_seconds delay_duration))]
        | None \<Rightarrow> (case position of First \<Rightarrow> [LpushPending j] | Last \<Rightarrow> [RpushPending j]))"

definition add_nack_operations ::
  "('d, 'o, 'e, 'h) handler \<Rightarrow> nat \<Rightarrow> 'd BorrowedJob \<Rightarrow> 'e \<Rightarrow> duration option \<Rightarrow> RequeuePosition
     \<Rightarrow> (TwmqError, 'h pipe_cmd list) result" where
  "add_nack_operations h now job error delay position =
     (let error_record = \<lparr>er_error = error, er_attempt = jb_attempts (bj_job job),
                          er_details = ErrNack delay position, er_created_at = now\<rparr>
      in case encode_record (error_json h) (marker_json h) error_record of
           Inl e \<Rightarrow> Inl e
         | Inr text \<Rightarrow> Inr (nack_commands now (jb_id (bj_job job)) (bj_lease_token job) text delay position))"

text \<open>The commands that fail a job, shared by \<open>add_fail_operations\<close> and \<open>complete_job_queue_error\<close>.\<close>

definition fail_commands :: "QueueOptions \<Rightarrow> nat \<Rightarrow> job_id \<Rightarrow> lease_token \<Rightarrow> string \<Rightarrow> 'h pipe_cmd list" where
  "fail_commands opts now j tok text =
     [DelLease j tok, HdelActive j, LpushFailed j, HsetFinishedAt j now, HdelLeaseToken j, AppendError j text]
     @ (if idempotency_mode opts = ActiveMode then [SremDedupe j] else [])"

definition add_fail_operations ::
  "('d, 'o, 'e, 'h) handler \<Rightarrow> QueueOptions \<Rightarrow> nat \<Rightarrow> 'd BorrowedJob \<Rightarrow> 'e \<Rightarrow> (TwmqError, 'h pipe_cmd list) result" where
  "add_fail_operations h opts now job error =
     (let error_record = \<lparr>er_error = error, er_attempt = jb_attempts (bj_job job),
                          er_details = ErrFail, er_created_at = now\<rparr>
      in case encode_record (error_json h) (marker_json h) error_record of
           Inl e \<Rightarrow> Inl e
         | Inr text \<Rightarrow> Inr (fail_commands opts now (jb_id (bj_job job)) (bj_lease_token job) text))"

text \<open>The pipeline \<open>complete_job\<close> builds: the hook's commands, then the queue's own.\<close>

definition completion_pipeline ::
  "('d, 'o, 'e, 'h) handler \<Rightarrow> QueueOptions \<Rightarrow> nat \<Rightarrow> 'd BorrowedJob \<Rightarrow> ('o, 'e) JobResult
     \<Rightarrow> (TwmqError, 'h pipe_cmd list) result" where
  "completion_pipeline h opts now job result =
     (case result of
        Inr output \<Rightarrow>
          map_sum id (\<lambda>ops. on_success h job output @ ops) (add_success_operations h opts now job output)
      | Inl (Nack error delay position) \<Rightarrow>
          map_sum id (\<lambda>ops. on_nack h job error delay position @ ops)
            (add_nack_operations h now job error delay position)
      | Inl (Fail error) \<Rightarrow>
          map_sum id (\<lambda>ops. on_fail h job error @ ops) (add_fail_operations h opts now job error))"

subsection \<open>Pruning\<close>

text \<open>Both trim scripts delete a trimmed job's records unless it is live or still listed.\<close>

definition prune_job :: "('h queue \<Rightarrow> job_id list) \<Rightarrow> ('h queue \<Rightarrow> job_id list) \<Rightarrow> job_id
    \<Rightarrow> 'h queue \<times> nat \<Rightarrow> 'h queue \<times> nat" where
  "prune_job this other j = (\<lambda>(s, actually_deleted).
     let has_retained_history = lpos j (this s) \<or> lpos j (other s);
         is_active = hexists j (q_active s);
         is_pending = lpos j (q_pending s);
         is_delayed = zmember j (q_delayed s)
     in if \<not> is_active \<and> \<not> is_pending \<and> \<not> is_delayed \<and> \<not> has_retained_history then
          (s\<lparr>q_dedupe := q_dedupe s - {j}, q_cancels := srem j (q_cancels s),
             q_data := (q_data s)(j := None), q_meta := (q_meta s)(j := empty_meta),
             q_results := (q_results s)(j := None), q_errors := (q_errors s)(j := [])\<rparr>,
           actually_deleted + 1)
        else (s, actually_deleted))"

definition prune_success_script :: "nat \<Rightarrow> 'h queue \<Rightarrow> nat \<times> 'h queue" where
  "prune_success_script max_len s =
     (let job_ids_to_delete = lrange_from max_len (q_success s) in
      if job_ids_to_delete = [] then (0, s)
      else let s = s\<lparr>q_success := (if max_len = 0 then [] else ltrim_to max_len (q_success s))\<rparr>;
               (s, n) = fold (prune_job q_success q_failed) job_ids_to_delete (s, 0)
           in (n, s))"

definition prune_failed_script :: "nat \<Rightarrow> 'h queue \<Rightarrow> nat \<times> 'h queue" where
  "prune_failed_script max_len s =
     (let job_ids_to_delete = lrange_from max_len (q_failed s) in
      if job_ids_to_delete = [] then (0, s)
      else let s = s\<lparr>q_failed := (if max_len = 0 then [] else ltrim_to max_len (q_failed s))\<rparr>;
               (s, n) = fold (prune_job q_failed q_success) job_ids_to_delete (s, 0)
           in (n, s))"

definition post_success_completion :: "QueueOptions \<Rightarrow> fate \<Rightarrow> 'h queue \<Rightarrow> (TwmqError, unit) result \<times> 'h queue" where
  "post_success_completion opts f s =
     (case invoke f (prune_success_script (max_success opts)) s of
        (Inl e, s') \<Rightarrow> (Inl e, s') | (Inr _, s') \<Rightarrow> (Inr (), s'))"

definition post_nack_completion :: "'h queue \<Rightarrow> (TwmqError, unit) result \<times> 'h queue" where
  "post_nack_completion s = (Inr (), s)"

definition post_fail_completion :: "QueueOptions \<Rightarrow> fate \<Rightarrow> 'h queue \<Rightarrow> (TwmqError, unit) result \<times> 'h queue" where
  "post_fail_completion opts f s =
     (case invoke f (prune_failed_script (max_failed opts)) s of
        (Inl e, s') \<Rightarrow> (Inl e, s') | (Inr _, s') \<Rightarrow> (Inr (), s'))"

subsection \<open>complete\_job\<close>

definition lease_exists :: "job_id \<times> lease_token \<Rightarrow> 'h queue \<Rightarrow> bool" where
  "lease_exists k s \<longleftrightarrow> q_leases s k \<noteq> None"

text \<open>
  \<open>complete_job\<close>: build the pipeline, commit it under the lease, prune if it committed.
\<close>

definition complete_job ::
  "('d, 'o, 'e, 'h) handler \<Rightarrow> QueueOptions \<Rightarrow> nat \<Rightarrow> ('c \<Rightarrow> bool) \<Rightarrow> 'c option
     \<Rightarrow> (nat \<Rightarrow> 'h queue attempt_env) \<Rightarrow> fate \<Rightarrow> 'd BorrowedJob \<Rightarrow> ('o, 'e) JobResult
     \<Rightarrow> 'c list \<Rightarrow> 'h queue \<Rightarrow> (TwmqError, unit) result \<times> 'c list \<times> 'h queue" where
  "complete_job h opts now probe connect env f job result idle s =
     (case completion_pipeline h opts now job result of
        Inl e \<Rightarrow> (Inl e, idle, s)
      | Inr hook_pipeline \<Rightarrow>
          (case commit_if_leased probe connect (lease_exists (jb_id (bj_job job), bj_lease_token job))
                  (exec_pipeline hook_pipeline) env idle s of
             (Inl e, idle', s') \<Rightarrow> (Inl e, idle', s')
           | (Inr False, idle', s') \<Rightarrow> (Inr (), idle', s')
           | (Inr True, idle', s') \<Rightarrow>
               (case (case result of
                        Inr _ \<Rightarrow> post_success_completion opts f s'
                      | Inl (Nack _ _ _) \<Rightarrow> post_nack_completion s'
                      | Inl (Fail _) \<Rightarrow> post_fail_completion opts f s') of
                  (r, s'') \<Rightarrow> (r, idle', s''))))"

definition queue_error_pipeline ::
  "('d, 'o, 'e, 'h) handler \<Rightarrow> QueueOptions \<Rightarrow> nat \<Rightarrow> 'd option Job \<Rightarrow> lease_token \<Rightarrow> 'e
     \<Rightarrow> (TwmqError, 'h pipe_cmd list) result" where
  "queue_error_pipeline h opts now job tok error =
     (let twmq_error = Runtime ''Job processing failed with user error'';
          error_record = \<lparr>er_error = error, er_attempt = jb_attempts job,
                          er_details = ErrFail, er_created_at = now\<rparr>
      in case encode_record (error_json h) (marker_json h) error_record of
           Inl e \<Rightarrow> Inl e
         | Inr text \<Rightarrow> Inr (on_queue_error h job twmq_error @ fail_commands opts now (jb_id job) tok text))"

definition complete_job_queue_error ::
  "('d, 'o, 'e, 'h) handler \<Rightarrow> QueueOptions \<Rightarrow> nat \<Rightarrow> ('c \<Rightarrow> bool) \<Rightarrow> 'c option
     \<Rightarrow> (nat \<Rightarrow> 'h queue attempt_env) \<Rightarrow> fate \<Rightarrow> 'd option Job \<Rightarrow> lease_token \<Rightarrow> 'e
     \<Rightarrow> 'c list \<Rightarrow> 'h queue \<Rightarrow> (TwmqError, unit) result \<times> 'c list \<times> 'h queue" where
  "complete_job_queue_error h opts now probe connect env f job tok error idle s =
     (case queue_error_pipeline h opts now job tok error of
        Inl e \<Rightarrow> (Inl e, idle, s)
      | Inr hook_pipeline \<Rightarrow>
          (case commit_if_leased probe connect (lease_exists (jb_id job, tok))
                  (exec_pipeline hook_pipeline) env idle s of
             (Inl e, idle', s') \<Rightarrow> (Inl e, idle', s')
           | (Inr False, idle', s') \<Rightarrow> (Inr (), idle', s')
           | (Inr True, idle', s') \<Rightarrow>
               (case post_fail_completion opts f s' of (r, s'') \<Rightarrow> (r, idle', s''))))"

subsection \<open>Administration of the deduplication set\<close>

definition remove_from_dedupe_set :: "job_id \<Rightarrow> 'h queue \<Rightarrow> 'h queue" where
  "remove_from_dedupe_set job_id s = s\<lparr>q_dedupe := q_dedupe s - {job_id}\<rparr>"

definition empty_dedupe_set :: "'h queue \<Rightarrow> 'h queue" where
  "empty_dedupe_set s = s\<lparr>q_dedupe := {}\<rparr>"

end
