(* ===== verification/Twmq_Queue_Inv.thy ===== *)
theory Twmq_Queue_Inv
  imports Twmq_Queue
begin

text \<open>
  The invariant of the single-lane queue, the atomic steps its clients and Redis can take,
  and the proof that every step keeps the invariant. Steps are the units Redis runs
  atomically (a Lua script, an EXEC, a key expiry), so any interleaving of workers is a
  sequence of steps.
\<close>

subsection \<open>The invariant\<close>

text \<open>Jobs that are waiting, delayed or running.\<close>

definition live_ids :: "'h queue \<Rightarrow> job_id list" where
  "live_ids s = q_pending s @ keys (q_delayed s) @ keys (q_active s)"

definition located :: "'h queue \<Rightarrow> job_id set" where
  "located s = set (live_ids s) \<union> set (q_success s) \<union> set (q_failed s)"

text \<open>
  A job is in at most one runnable place, once; every runnable job has its data and is
  deduplicated; what is deduplicated, stored or asked to be cancelled is in some list; a live
  lease is the one the metadata names, and exactly the active jobs have a token.
\<close>

definition queue_inv :: "'h queue \<Rightarrow> bool" where
  "queue_inv s \<longleftrightarrow>
     distinct (live_ids s)
   \<and> set (live_ids s) \<subseteq> q_dedupe s
   \<and> set (live_ids s) \<subseteq> dom (q_data s)
   \<and> q_dedupe s \<subseteq> located s
   \<and> dom (q_data s) \<subseteq> located s
   \<and> (\<forall>j t. q_leases s (j, t) \<noteq> None \<longrightarrow> m_lease_token (q_meta s j) = Some t)
   \<and> (\<forall>j. m_lease_token (q_meta s j) \<noteq> None \<longleftrightarrow> j \<in> set (keys (q_active s)))
   \<and> distinct (q_cancels s)
   \<and> set (q_cancels s) \<subseteq> located s
   \<and> (\<forall>j. length (q_errors s j) \<le> MAX_JOB_ERROR_RECORDS)"

text \<open>
  Between the pops and the leases of a batch the popped jobs are in no list:
  \<open>popping js s\<close> is the invariant with \<open>js\<close> still in flight.
\<close>

definition popping :: "job_id list \<Rightarrow> 'h queue \<Rightarrow> bool" where
  "popping js s \<longleftrightarrow> queue_inv (s\<lparr>q_pending := js @ q_pending s\<rparr>)"

subsection \<open>Steps\<close>

text \<open>
  What happened, and to whom. A hook of some completion that submits a job with \<open>queue_job\<close> and
  the two operations that remove deduplication marks do not look at the lists; their events record
  whether they hit jobs that were waiting, delayed or running.
\<close>

datatype queue_event =
    EPush job_id
  | ECancel job_id
  | EPop string
  | ECommit job_id lease_token
  | EPrune
  | EExpire job_id lease_token
  | EHook
  | EEnqueue job_id bool
  | EForget job_id bool
  | EForgetAll bool

text \<open>
  An orderly event: a job submitted by a hook is not live under its id, and no deduplication mark
  is taken from a live job.
\<close>

fun orderly :: "queue_event \<Rightarrow> bool" where
  "orderly (EEnqueue j was_live) = (\<not> was_live)"
| "orderly (EForget j was_live) = (\<not> was_live)"
| "orderly (EForgetAll some_live) = (\<not> some_live)"
| "orderly _ = True"

definition is_external :: "'h pipe_cmd \<Rightarrow> bool" where
  "is_external c \<longleftrightarrow> (\<exists>h. c = External h)"

text \<open>The queue's own part of a completion pipeline for job \<open>j\<close> held with token \<open>tok\<close>.\<close>

inductive completion_commands :: "QueueOptions \<Rightarrow> job_id \<Rightarrow> lease_token \<Rightarrow> 'h pipe_cmd list \<Rightarrow> bool"
  for opts j tok where
  success: "completion_commands opts j tok (success_commands opts now j tok res)"
| nack: "completion_commands opts j tok (nack_commands now j tok text delay position)"
| fail: "completion_commands opts j tok (fail_commands opts now j tok text)"

text \<open>
  A completion is the commit loop of its lease key with nothing in between: WATCH makes any other
  interleaving a retry. The hooks of a completion write outside the queue; the jobs they submit to
  it are the steps \<open>enqueue\<close>, which come first in the pipeline.
\<close>

inductive queue_step :: "QueueOptions \<Rightarrow> 'h queue \<Rightarrow> queue_event \<Rightarrow> 'h queue \<Rightarrow> bool" for opts where
  push: "queue_step opts s (EPush j) (snd (push_script j d now delay pos s))"
| cancel: "queue_step opts s (ECancel j) (snd (cancel_script j now s))"
| pop: "queue_step opts s (EPop pop_id) (snd (pop_script now pop_id batch lease_seconds s))"
| commit: "list_all is_external hook \<Longrightarrow> completion_commands opts j tok ops
    \<Longrightarrow> commit_loop 1 (lease_exists (j, tok)) (exec_pipeline (hook @ ops)) quiet_env s = (Inr True, t)
    \<Longrightarrow> queue_step opts s (ECommit j tok) t"
| prune_success: "queue_step opts s EPrune (snd (prune_success_script (max_success opts) s))"
| prune_failed: "queue_step opts s EPrune (snd (prune_failed_script (max_failed opts) s))"
| expire: "queue_step opts s (EExpire j tok) (s\<lparr>q_leases := (q_leases s)((j, tok) := None)\<rparr>)"
| hook: "list_all is_external hook \<Longrightarrow> queue_step opts s EHook (exec_pipeline hook s)"
| enqueue: "queue_step opts s (EEnqueue j (j \<in> set (live_ids s)))
    (exec_pipeline (queue_job_commands now j d delay) s)"
| forget: "queue_step opts s (EForget j (j \<in> set (live_ids s))) (remove_from_dedupe_set j s)"
| forget_all: "queue_step opts s (EForgetAll (live_ids s \<noteq> [])) (empty_dedupe_set s)"

inductive queue_run :: "QueueOptions \<Rightarrow> 'h queue \<Rightarrow> queue_event list \<Rightarrow> 'h queue \<Rightarrow> bool" for opts where
  start: "queue_run opts s [] s"
| step: "queue_run opts s evs t \<Longrightarrow> queue_step opts t e u \<Longrightarrow> queue_run opts s (evs @ [e]) u"

subsection \<open>Lemmas on the parts of scripts\<close>

lemma lpop_batch_eq: "lpop_batch n xs = (take n xs, drop n xs)"
  by (induction n xs rule: lpop_batch.induct) auto

declare distinct_removeAll [simp]

lemmas queue_inv_defs = queue_inv_def live_ids_def located_def

lemma queue_inv_empty: "queue_inv empty_queue"
  by (simp add: queue_inv_defs empty_queue_def empty_meta_def)

lemma push_script_inv: "queue_inv s \<Longrightarrow> queue_inv (snd (push_script j d now delay pos s))"
  by (auto simp: push_script_def Let_def queue_inv_defs script_defs)

lemma cancel_script_inv: "queue_inv s \<Longrightarrow> queue_inv (snd (cancel_script j now s))"
  by (auto simp: cancel_script_def Let_def queue_inv_defs script_defs)

lemma inv_lease_token: "queue_inv s \<Longrightarrow> q_leases s (j, t) = Some n \<Longrightarrow> m_lease_token (q_meta s j) = Some t"
  by (simp add: queue_inv_def)

lemma inv_token_active: "queue_inv s \<Longrightarrow> m_lease_token (q_meta s j) = Some t \<Longrightarrow> j \<in> set (keys (q_active s))"
  by (auto simp: queue_inv_def)

lemma inv_active_token:
  assumes "queue_inv s" and "j \<in> set (keys (q_active s))"
  obtains t where "m_lease_token (q_meta s j) = Some t"
  using assms unfolding queue_inv_def by blast

lemma inv_no_token_no_lease: "queue_inv s \<Longrightarrow> m_lease_token (q_meta s j) = None \<Longrightarrow> q_leases s (j, t) = None"
  by (cases "q_leases s (j, t)") (auto dest: inv_lease_token)

lemma inv_other_lease: "queue_inv s \<Longrightarrow> m_lease_token (q_meta s j) = Some t \<Longrightarrow> t' \<noteq> t \<Longrightarrow> q_leases s (j, t') = None"
  by (cases "q_leases s (j, t')") (auto dest: inv_lease_token)

text \<open>Step 1 of the pop script: jobs go back from active to pending.\<close>

lemma requeue_active_inv:
  assumes "queue_inv s" and "j \<in> set (keys (q_active s))"
    and "m_lease_token (q_meta s j) = Some t" and "q_leases s (j, t) = None"
  shows "queue_inv (fst (cleanup_lease j (s, acc)))"
proof -
  have "q_leases s (j, ta) = None" for ta
    using assms by (cases "ta = t") (auto intro: inv_other_lease)
  with assms show ?thesis
    by (auto simp: cleanup_lease_def Let_def queue_inv_defs script_defs)
qed

lemma cleanup_lease_inv:
  assumes "queue_inv s" and "j \<in> set (keys (q_active s))"
  shows "queue_inv (fst (cleanup_lease j (s, acc)))"
proof -
  from assms obtain t where t: "m_lease_token (q_meta s j) = Some t"
    by (rule inv_active_token)
  show ?thesis
  proof (cases "q_leases s (j, t)")
    case None
    with assms t show ?thesis by (rule requeue_active_inv)
  next
    case (Some n)
    with assms(1) t show ?thesis by (simp add: cleanup_lease_def)
  qed
qed

lemma cleanup_lease_active:
  "set (keys (q_active s)) - {j} \<subseteq> set (keys (q_active (fst (cleanup_lease j (s, acc)))))"
  by (auto simp: cleanup_lease_def Let_def script_defs split: option.splits)

lemma fold_cleanup_lease_inv:
  assumes "queue_inv s" and "distinct js" and "set js \<subseteq> set (keys (q_active s))"
  shows "queue_inv (fst (fold cleanup_lease js (s, acc)))"
  using assms
proof (induction js arbitrary: s acc)
  case Nil
  then show ?case by simp
next
  case (Cons j js)
  obtain s' acc' where s': "cleanup_lease j (s, acc) = (s', acc')" by fastforce
  have "queue_inv s'" using Cons.prems cleanup_lease_inv [of s j acc] s' by simp
  moreover have "set js \<subseteq> set (keys (q_active s'))"
    using Cons.prems cleanup_lease_active [of s j acc] s' by auto
  ultimately show ?case using Cons.prems Cons.IH s' by simp
qed

lemma cleanup_expired_leases_inv: "queue_inv s \<Longrightarrow> queue_inv (fst (cleanup_expired_leases s))"
  unfolding cleanup_expired_leases_def
  by (rule fold_cleanup_lease_inv) (auto simp: queue_inv_defs)

text \<open>Steps 2 and 3.\<close>

lemma process_cancellation_inv:
  "queue_inv s \<Longrightarrow> queue_inv (fst (process_cancellation now j (s, acc)))"
  by (auto simp: process_cancellation_def Let_def queue_inv_defs script_defs)

lemma fold_process_cancellation_inv:
  "queue_inv s \<Longrightarrow> queue_inv (fst (fold (process_cancellation now) js (s, acc)))"
proof (induction js arbitrary: s acc)
  case (Cons j js)
  obtain s' acc' where s': "process_cancellation now j (s, acc) = (s', acc')" by fastforce
  with process_cancellation_inv [OF Cons.prems, of now j acc] Cons.IH show ?case by simp
qed simp

lemma process_cancellations_inv: "queue_inv s \<Longrightarrow> queue_inv (fst (process_cancellations now s))"
  unfolding process_cancellations_def by (rule fold_process_cancellation_inv)

lemma release_delayed_inv:
  "queue_inv s \<Longrightarrow> j \<in> set (keys (q_delayed s)) \<Longrightarrow> queue_inv (release_delayed j s)"
  by (auto simp: release_delayed_def Let_def queue_inv_defs script_defs)

lemma release_delayed_keys: "keys (q_delayed (release_delayed j s)) = removeAll j (keys (q_delayed s))"
  by (simp add: release_delayed_def Let_def script_defs)

lemma fold_release_delayed_inv:
  assumes "queue_inv s" and "distinct js" and "set js \<subseteq> set (keys (q_delayed s))"
  shows "queue_inv (fold release_delayed js s)"
  using assms
proof (induction js arbitrary: s)
  case (Cons j js)
  then have "queue_inv (release_delayed j s)" by (simp add: release_delayed_inv)
  moreover have "set js \<subseteq> set (keys (q_delayed (release_delayed j s)))"
    using Cons.prems by (auto simp: release_delayed_keys)
  ultimately show ?case using Cons.prems Cons.IH by simp
qed simp

lemma process_delayed_jobs_inv: "queue_inv s \<Longrightarrow> queue_inv (process_delayed_jobs now s)"
  unfolding process_delayed_jobs_def
  by (rule fold_release_delayed_inv)
     (auto simp: queue_inv_defs distinct_zrangebyscore dest: zrangebyscore_keys [THEN subsetD])

text \<open>Step 4: jobs leave the in-flight list one by one as they are leased.\<close>

lemma lease_popped_inv:
  assumes "popping (j # js) s"
  shows "popping js (fst (lease_popped now pop_id secs j (s, acc)))"
proof -
  let ?s = "s\<lparr>q_pending := (j # js) @ q_pending s\<rparr>"
  have inv: "queue_inv ?s" using assms by (simp add: popping_def)
  then obtain d where d: "q_data s j = Some d"
    by (auto simp: queue_inv_defs)
  have act: "j \<notin> set (keys (q_active s))" using inv by (auto simp: queue_inv_defs)
  then have tok: "m_lease_token (q_meta s j) = None"
    using inv_token_active [OF inv, of j] by (cases "m_lease_token (q_meta s j)") auto
  have lea: "q_leases s (j, ta) = None" for ta
    using inv_no_token_no_lease [OF inv, of j ta] tok by simp
  show ?thesis
    using inv act tok lea unfolding popping_def
    by (auto simp: lease_popped_def d Let_def queue_inv_defs script_defs split: if_splits)
qed

lemma fold_lease_popped_inv:
  "popping js s \<Longrightarrow> queue_inv (fst (fold (lease_popped now pop_id secs) js (s, acc)))"
proof (induction js arbitrary: s acc)
  case Nil
  then show ?case by (simp add: popping_def)
next
  case (Cons j js)
  obtain s' acc' where s': "lease_popped now pop_id secs j (s, acc) = (s', acc')" by fastforce
  with lease_popped_inv [OF Cons.prems, of now pop_id secs acc] Cons.IH show ?case by simp
qed

lemma pop_pending_inv: "queue_inv s \<Longrightarrow> queue_inv (fst (pop_pending now pop_id batch secs s))"
  by (simp add: pop_pending_def lpop_batch_eq fold_lease_popped_inv popping_def)

lemma pop_script_inv: "queue_inv s \<Longrightarrow> queue_inv (snd (pop_script now pop_id batch secs s))"
  by (simp add: pop_script_def Let_def case_prod_beta pop_pending_inv process_delayed_jobs_inv
      process_cancellations_inv cleanup_expired_leases_inv)

text \<open>Completion pipelines.\<close>

lemma exec_pipeline_Nil [simp]: "exec_pipeline [] s = s"
  by (simp add: exec_pipeline_def)

lemma exec_pipeline_Cons [simp]: "exec_pipeline (c # p) s = exec_pipeline p (exec_cmd c s)"
  by (simp add: exec_pipeline_def)

lemma exec_pipeline_append [simp]: "exec_pipeline (p @ q) s = exec_pipeline q (exec_pipeline p s)"
  by (simp add: exec_pipeline_def)

lemma exec_external:
  "list_all is_external hook \<Longrightarrow> \<exists>es. exec_pipeline hook s = s\<lparr>q_external := es\<rparr>"
proof (induction hook arbitrary: s)
  case Nil
  show ?case by (rule exI [of _ "q_external s"]) simp
next
  case (Cons c hook)
  then obtain h where c: "c = External h" by (auto simp: is_external_def)
  from Cons obtain es where
    "exec_pipeline hook (exec_cmd c s) = (exec_cmd c s)\<lparr>q_external := es\<rparr>" by auto
  then show ?case by (auto simp: c)
qed

lemma external_inv: "queue_inv (s\<lparr>q_external := es\<rparr>) = queue_inv s"
  by (simp add: queue_inv_defs)

lemma hook_inv: "list_all is_external hook \<Longrightarrow> queue_inv s \<Longrightarrow> queue_inv (exec_pipeline hook s)"
  using exec_external [of hook s] by (auto simp: external_inv)

lemma held_job_facts:
  assumes "queue_inv s" and "lease_exists (j, tok) s"
  shows "j \<in> set (keys (q_active s))" and "m_lease_token (q_meta s j) = Some tok"
    and "\<And>t. t \<noteq> tok \<Longrightarrow> q_leases s (j, t) = None" and "j \<notin> set (q_pending s)"
    and "j \<notin> set (keys (q_delayed s))" and "j \<in> q_dedupe s"
proof -
  show tok: "m_lease_token (q_meta s j) = Some tok"
    using assms by (auto simp: lease_exists_def dest: inv_lease_token)
  show act: "j \<in> set (keys (q_active s))" using assms(1) tok by (rule inv_token_active)
  show "\<And>t. t \<noteq> tok \<Longrightarrow> q_leases s (j, t) = None"
    using assms(1) tok by (blast intro: inv_other_lease)
  show "j \<notin> set (q_pending s)" and "j \<notin> set (keys (q_delayed s))" and "j \<in> q_dedupe s"
    using act assms(1) by (auto simp: queue_inv_defs)
qed

lemma success_commands_inv:
  assumes "queue_inv s" and "lease_exists (j, tok) s"
  shows "queue_inv (exec_pipeline (success_commands opts now j tok res) s)"
  using assms(1) held_job_facts [OF assms]
  by (auto simp: success_commands_def queue_inv_defs script_defs)

lemma fail_commands_inv:
  assumes "queue_inv s" and "lease_exists (j, tok) s"
  shows "queue_inv (exec_pipeline (fail_commands opts now j tok text) s)"
  using assms(1) held_job_facts [OF assms]
  by (auto simp: fail_commands_def queue_inv_defs script_defs length_append_record)

lemma nack_commands_inv:
  assumes "queue_inv s" and "lease_exists (j, tok) s"
  shows "queue_inv (exec_pipeline (nack_commands now j tok text delay position) s)"
  using assms(1) held_job_facts [OF assms]
  by (cases delay; cases position)
     (auto simp: nack_commands_def queue_inv_defs script_defs length_append_record)

lemma completion_commands_inv:
  assumes "queue_inv s" and "lease_exists (j, tok) s" and "completion_commands opts j tok ops"
  shows "queue_inv (exec_pipeline ops s)"
  using assms(3,1,2)
  by cases (simp_all add: success_commands_inv fail_commands_inv nack_commands_inv)

text \<open>Pruning: a trimmed job keeps its records while it is live or listed.\<close>

definition pruning :: "job_id list \<Rightarrow> 'h queue \<Rightarrow> bool" where
  "pruning js s \<longleftrightarrow> queue_inv (s\<lparr>q_failed := q_failed s @ js\<rparr>)"

lemma prune_job_inv:
  assumes "pruning (j # js) s"
    and "(this, other) = (q_success, q_failed) \<or> (this, other) = (q_failed, q_success)"
  shows "pruning js (fst (prune_job this other j (s, n)))"
proof -
  let ?s = "s\<lparr>q_failed := q_failed s @ j # js\<rparr>"
  have inv: "queue_inv ?s" using assms(1) by (simp add: pruning_def)
  have lea: "q_leases s (j, t) = None" if "j \<notin> set (keys (q_active s))" for t
    using that inv_no_token_no_lease [OF inv, of j t] inv_token_active [OF inv, of j]
    by (cases "m_lease_token (q_meta s j)") auto
  show ?thesis
    using inv assms(2) lea unfolding pruning_def
    by (auto simp: prune_job_def Let_def queue_inv_defs script_defs empty_meta_def split: if_splits)
qed

lemma fold_prune_job_inv:
  assumes "(this, other) = (q_success, q_failed) \<or> (this, other) = (q_failed, q_success)"
  shows "pruning js s \<Longrightarrow> queue_inv (fst (fold (prune_job this other) js (s, n)))"
proof (induction js arbitrary: s n)
  case Nil
  then show ?case by (simp add: pruning_def)
next
  case (Cons j js)
  obtain s' n' where s': "prune_job this other j (s, n) = (s', n')" by fastforce
  with prune_job_inv [OF Cons.prems assms, of n] Cons.IH show ?case by simp
qed

lemma prune_success_script_inv: "queue_inv s \<Longrightarrow> queue_inv (snd (prune_success_script n s))"
proof -
  assume inv: "queue_inv s"
  let ?t = "s\<lparr>q_success := (if n = 0 then [] else ltrim_to n (q_success s))\<rparr>"
  have "set (q_success s) = set (q_success ?t) \<union> set (lrange_from n (q_success s))"
    by (auto simp: script_defs simp flip: set_append)
  then have "pruning (lrange_from n (q_success s)) ?t"
    using inv by (auto simp: pruning_def queue_inv_defs)
  from fold_prune_job_inv [OF _ this, of q_success q_failed 0] inv show ?thesis
    by (simp add: prune_success_script_def Let_def case_prod_beta)
qed

lemma prune_failed_script_inv: "queue_inv s \<Longrightarrow> queue_inv (snd (prune_failed_script n s))"
proof -
  assume inv: "queue_inv s"
  let ?t = "s\<lparr>q_failed := (if n = 0 then [] else ltrim_to n (q_failed s))\<rparr>"
  have "set (q_failed s) = set (q_failed ?t) \<union> set (lrange_from n (q_failed s))"
    by (auto simp: script_defs simp flip: set_append)
  then have "pruning (lrange_from n (q_failed s)) ?t"
    using inv by (auto simp: pruning_def queue_inv_defs)
  from fold_prune_job_inv [OF _ this, of q_failed q_success 0] inv show ?thesis
    by (simp add: prune_failed_script_def Let_def case_prod_beta)
qed

lemma expire_inv: "queue_inv s \<Longrightarrow> queue_inv (s\<lparr>q_leases := (q_leases s)(k := None)\<rparr>)"
  by (auto simp: queue_inv_defs)

lemma enqueue_inv:
  assumes "queue_inv s" and "j \<notin> set (live_ids s)"
  shows "queue_inv (exec_pipeline (queue_job_commands now j d delay) s)"
  using assms
  by (cases delay) (auto simp: queue_job_commands_def queue_inv_defs script_defs)

lemma forget_inv:
  "queue_inv s \<Longrightarrow> j \<notin> set (live_ids s) \<Longrightarrow> queue_inv (remove_from_dedupe_set j s)"
  "queue_inv s \<Longrightarrow> live_ids s = [] \<Longrightarrow> queue_inv (empty_dedupe_set s)"
  by (auto simp: remove_from_dedupe_set_def empty_dedupe_set_def queue_inv_defs)

lemma commit_inv:
  assumes "queue_inv s" and "lease_exists (j, tok) s" and "list_all is_external hook"
    and "completion_commands opts j tok ops"
  shows "queue_inv (exec_pipeline (hook @ ops) s)"
proof -
  obtain es where es: "exec_pipeline hook s = s\<lparr>q_external := es\<rparr>"
    using exec_external assms(3) by blast
  with assms show ?thesis
    by (simp add: completion_commands_inv external_inv lease_exists_def)
qed

lemma queue_step_inv: "queue_step opts s e t \<Longrightarrow> orderly e \<Longrightarrow> queue_inv s \<Longrightarrow> queue_inv t"
proof (induction rule: queue_step.induct)
  case (commit hook j tok ops s t)
  then have "lease_exists (j, tok) s" and "t = exec_pipeline (hook @ ops) s"
    by (simp_all only: commit_loop_quiet_iff)
  with commit show ?case by (simp only: commit_inv)
qed (simp_all add: push_script_inv cancel_script_inv pop_script_inv prune_success_script_inv
      prune_failed_script_inv expire_inv hook_inv enqueue_inv forget_inv)

lemma queue_run_inv:
  "queue_run opts s evs t \<Longrightarrow> list_all orderly evs \<Longrightarrow> queue_inv s \<Longrightarrow> queue_inv t"
  by (induction rule: queue_run.induct) (auto intro: queue_step_inv)

end
