(* ===== verification/Twmq_Queue_Store.thy ===== *)
theory Twmq_Queue_Store
  imports Twmq_Queue_Inv
begin

text \<open>
  What holds of the single-lane queue however its clients behave, also when hooks submit ids that
  are still live and deduplication marks are removed from live jobs: nothing that is stored is
  lost. Every step keeps it.
\<close>

subsection \<open>The invariant of the stored jobs\<close>

text \<open>
  A stored job is in some list, a running one has its data and is the only kind that has a lease
  token, and only stored jobs are deduplicated or marked for cancellation.
\<close>

definition store_inv :: "'h queue \<Rightarrow> bool" where
  "store_inv s \<longleftrightarrow>
     distinct (keys (q_delayed s)) \<and> distinct (keys (q_active s)) \<and> distinct (q_cancels s)
   \<and> set (keys (q_active s)) \<subseteq> dom (q_data s)
   \<and> q_dedupe s \<subseteq> dom (q_data s)
   \<and> set (q_cancels s) \<subseteq> dom (q_data s)
   \<and> dom (q_data s) \<subseteq> located s
   \<and> (\<forall>j. m_lease_token (q_meta s j) \<noteq> None \<longleftrightarrow> j \<in> set (keys (q_active s)))
   \<and> (\<forall>j. length (q_errors s j) \<le> MAX_JOB_ERROR_RECORDS)"

lemmas store_inv_defs = store_inv_def live_ids_def located_def

lemma store_inv_empty: "store_inv empty_queue"
  by (simp add: store_inv_defs empty_queue_def empty_meta_def)

subsection \<open>Scripts\<close>

lemma push_script_store: "store_inv s \<Longrightarrow> store_inv (snd (push_script j d now delay pos s))"
  by (auto simp: push_script_def Let_def store_inv_defs script_defs)

lemma cancel_script_store: "store_inv s \<Longrightarrow> store_inv (snd (cancel_script j now s))"
  by (auto simp: cancel_script_def Let_def store_inv_defs script_defs)

lemma cleanup_lease_store: "store_inv s \<Longrightarrow> store_inv (fst (cleanup_lease j (s, acc)))"
  by (auto simp: cleanup_lease_def Let_def store_inv_defs script_defs split: option.splits)

lemma process_cancellation_store: "store_inv s \<Longrightarrow> store_inv (fst (process_cancellation now j (s, acc)))"
  by (auto simp: process_cancellation_def Let_def store_inv_defs script_defs)

lemma release_delayed_store: "store_inv s \<Longrightarrow> store_inv (release_delayed j s)"
  by (auto simp: release_delayed_def Let_def store_inv_defs script_defs)

text \<open>A fact that every iteration of a script loop keeps holds at the end.\<close>

lemma fold_pair_invariant:
  assumes "\<And>x s acc. x \<in> set xs \<Longrightarrow> P s \<Longrightarrow> P (fst (f x (s, acc)))" and "P s"
  shows "P (fst (fold f xs (s, acc)))"
  using assms
proof (induction xs arbitrary: s acc)
  case (Cons x xs)
  obtain s' acc' where "f x (s, acc) = (s', acc')" by fastforce
  with Cons.prems(1) [of x s acc] Cons show ?case by simp
qed simp

text \<open>The popped batch \<open>js\<close> that is not leased yet counts as pending.\<close>

lemma lease_popped_store:
  assumes "store_inv (s\<lparr>q_pending := (j # js) @ q_pending s\<rparr>)"
  shows "store_inv ((fst (lease_popped now pop_id secs j (s, acc)))\<lparr>q_pending :=
           js @ q_pending (fst (lease_popped now pop_id secs j (s, acc)))\<rparr>)"
  using assms
  by (cases "q_data s j") (auto simp: lease_popped_def Let_def store_inv_defs script_defs)

lemma fold_lease_popped_store:
  "store_inv (s\<lparr>q_pending := js @ q_pending s\<rparr>) \<Longrightarrow> store_inv (fst (fold (lease_popped now pop_id secs) js (s, acc)))"
proof (induction js arbitrary: s acc)
  case (Cons j js)
  obtain s' acc' where s': "lease_popped now pop_id secs j (s, acc) = (s', acc')" by fastforce
  with lease_popped_store [OF Cons.prems, of now pop_id secs acc] Cons.IH show ?case by simp
qed simp

lemma pop_script_store: "store_inv s \<Longrightarrow> store_inv (snd (pop_script now pop_id batch secs s))"
proof -
  assume s: "store_inv s"
  define s1 where "s1 = fst (cleanup_expired_leases s)"
  define s2 where "s2 = fst (process_cancellations now s1)"
  define s3 where "s3 = process_delayed_jobs now s2"
  have "store_inv s1" unfolding s1_def cleanup_expired_leases_def
    by (rule fold_pair_invariant [where P = store_inv]) (rule cleanup_lease_store s, assumption?)+
  then have "store_inv s2" unfolding s2_def process_cancellations_def
    by (intro fold_pair_invariant [where P = store_inv]) (rule process_cancellation_store)
  then have "store_inv s3" unfolding s3_def process_delayed_jobs_def
    by (intro fold_invariant [where P = store_inv and Q = "\<lambda>_. True"]) (auto intro: release_delayed_store)
  then have "store_inv (fst (pop_pending now pop_id batch secs s3))"
    using fold_lease_popped_store [where s = "s3\<lparr>q_pending := drop batch (q_pending s3)\<rparr>" and js = "take batch (q_pending s3)"]
    by (simp add: pop_pending_def lpop_batch_eq)
  then show ?thesis
    by (simp add: pop_script_def Let_def case_prod_beta s1_def s2_def s3_def)
qed

subsection \<open>Pipelines and pruning\<close>

lemma completion_store:
  assumes "store_inv s" and "completion_commands opts j tok ops"
  shows "store_inv (exec_pipeline ops s)"
  using assms(2,1)
  by cases (auto simp: success_commands_def nack_commands_def fail_commands_def store_inv_defs script_defs
      length_append_record split: option.splits RequeuePosition.splits)

lemma external_store: "store_inv (s\<lparr>q_external := es\<rparr>) = store_inv s"
  by (simp add: store_inv_defs)

lemma hook_store: "list_all is_external hook \<Longrightarrow> store_inv s \<Longrightarrow> store_inv (exec_pipeline hook s)"
  using exec_external [of hook s] by (auto simp: external_store)

lemma enqueue_store: "store_inv s \<Longrightarrow> store_inv (exec_pipeline (queue_job_commands now j d delay) s)"
  by (cases delay) (auto simp: queue_job_commands_def store_inv_defs script_defs)

lemma prune_job_store:
  assumes "store_inv (s\<lparr>q_failed := q_failed s @ j # js\<rparr>)"
    and "(this, other) = (q_success, q_failed) \<or> (this, other) = (q_failed, q_success)"
  shows "store_inv ((fst (prune_job this other j (s, n)))\<lparr>q_failed :=
           q_failed (fst (prune_job this other j (s, n))) @ js\<rparr>)"
  using assms
  by (auto simp: prune_job_def Let_def store_inv_defs script_defs empty_meta_def split: if_splits)

lemma fold_prune_job_store:
  assumes "(this, other) = (q_success, q_failed) \<or> (this, other) = (q_failed, q_success)"
  shows "store_inv (s\<lparr>q_failed := q_failed s @ js\<rparr>) \<Longrightarrow> store_inv (fst (fold (prune_job this other) js (s, n)))"
proof (induction js arbitrary: s n)
  case (Cons j js)
  obtain s' n' where s': "prune_job this other j (s, n) = (s', n')" by fastforce
  with prune_job_store [OF Cons.prems assms, of n] Cons.IH show ?case by simp
qed simp

lemma prune_success_store: "store_inv s \<Longrightarrow> store_inv (snd (prune_success_script n s))"
proof -
  assume inv: "store_inv s"
  let ?t = "s\<lparr>q_success := (if n = 0 then [] else ltrim_to n (q_success s))\<rparr>"
  have "set (q_success s) = set (q_success ?t) \<union> set (lrange_from n (q_success s))"
    by (auto simp: script_defs simp flip: set_append)
  then have "store_inv (?t\<lparr>q_failed := q_failed ?t @ lrange_from n (q_success s)\<rparr>)"
    using inv by (auto simp: store_inv_defs)
  from fold_prune_job_store [OF _ this, of q_success q_failed 0] inv show ?thesis
    by (simp add: prune_success_script_def Let_def case_prod_beta)
qed

lemma prune_failed_store: "store_inv s \<Longrightarrow> store_inv (snd (prune_failed_script n s))"
proof -
  assume inv: "store_inv s"
  let ?t = "s\<lparr>q_failed := (if n = 0 then [] else ltrim_to n (q_failed s))\<rparr>"
  have "set (q_failed s) = set (q_failed ?t) \<union> set (lrange_from n (q_failed s))"
    by (auto simp: script_defs simp flip: set_append)
  then have "store_inv (?t\<lparr>q_failed := q_failed ?t @ lrange_from n (q_failed s)\<rparr>)"
    using inv by (auto simp: store_inv_defs)
  from fold_prune_job_store [OF _ this, of q_failed q_success 0] inv show ?thesis
    by (simp add: prune_failed_script_def Let_def case_prod_beta)
qed

subsection \<open>Every step\<close>

lemma queue_step_store: "queue_step opts s e t \<Longrightarrow> store_inv s \<Longrightarrow> store_inv t"
proof (induction rule: queue_step.induct)
  case (commit hook j tok ops s t)
  then have "t = exec_pipeline (hook @ ops) s" by (simp only: commit_loop_quiet_iff)
  then show ?case using completion_store [OF hook_store [OF commit.hyps(1)] commit.hyps(2)] commit.prems by simp
next
  case (expire s j tok)
  then show ?case by (simp add: store_inv_defs)
next
  case (forget s j)
  then show ?case by (auto simp: remove_from_dedupe_set_def store_inv_defs)
next
  case (forget_all s)
  then show ?case by (auto simp: empty_dedupe_set_def store_inv_defs)
qed (simp_all add: push_script_store cancel_script_store pop_script_store prune_success_store
      prune_failed_store hook_store enqueue_store)

lemma queue_run_store: "queue_run opts s evs t \<Longrightarrow> store_inv s \<Longrightarrow> store_inv t"
  by (induction rule: queue_run.induct) (auto intro: queue_step_store)

end
