(* ===== verification/Twmq_Queue_Props.thy ===== *)
theory Twmq_Queue_Props
  imports Twmq_Queue_Store
begin

text \<open>
  Correctness of the single-lane queue: fencing of stale workers by leases, at-most-once
  commit of each lease, order and bounds of \<open>pop_batch_jobs\<close>, cancellation, retention, and
  the refinement of the detailed state to the life cycle of a job.
\<close>

subsection \<open>Definitions\<close>

text \<open>A pop mints the tokens that end in its own random id.\<close>

fun minted_by :: "queue_event \<Rightarrow> lease_token \<Rightarrow> bool" where
  "minted_by (EPop pop_id) tok = suffix pop_id tok"
| "minted_by _ tok = False"

fun pop_ids :: "queue_event list \<Rightarrow> string list" where
  "pop_ids [] = []"
| "pop_ids (EPop p # es) = p # pop_ids es"
| "pop_ids (e # es) = pop_ids es"

text \<open>\<open>nanoid!()\<close> gives 21-character identifiers and no identifier twice.\<close>

definition fresh_pop_ids :: "queue_event list \<Rightarrow> bool" where
  "fresh_pop_ids es \<longleftrightarrow> distinct (pop_ids es) \<and> (\<forall>p \<in> set (pop_ids es). length p = 21)"

definition other_clients :: "job_id \<times> lease_token \<Rightarrow> 'h queue \<Rightarrow> 'h queue \<Rightarrow> bool" where
  "other_clients k s t \<longleftrightarrow> (\<exists>opts e. queue_step opts s e t \<and> \<not> minted_by e (snd k))"

definition consumes_lease :: "job_id \<times> lease_token \<Rightarrow> 'h pipe_cmd list \<Rightarrow> bool" where
  "consumes_lease k p \<longleftrightarrow> DelLease (fst k) (snd k) \<in> set p"

text \<open>The life cycle of one job, as a client of the queue sees it.\<close>

datatype phase = Absent | Waiting | Running | Finished

definition phase_of :: "'h queue \<Rightarrow> job_id \<Rightarrow> phase" where
  "phase_of s j =
     (if j \<in> set (keys (q_active s)) then Running
      else if j \<in> set (q_pending s) \<or> j \<in> set (keys (q_delayed s)) then Waiting
      else if j \<in> set (q_success s) \<or> j \<in> set (q_failed s) then Finished
      else Absent)"

inductive phase_step :: "job_id \<Rightarrow> queue_event \<Rightarrow> phase \<Rightarrow> phase \<Rightarrow> bool" for j where
  stay: "phase_step j e p p"
| admitted: "p \<in> {Absent, Finished} \<Longrightarrow> phase_step j (EPush j) p Waiting"
| enqueued: "p \<in> {Absent, Finished} \<Longrightarrow> phase_step j (EEnqueue j False) p Waiting"
| cancelled: "phase_step j (ECancel j) Waiting Finished"
| borrowed: "phase_step j (EPop pop_id) Waiting Running"
| timed_out: "phase_step j (EPop pop_id) Running Waiting"
| pop_cancelled: "p \<noteq> Absent \<Longrightarrow> phase_step j (EPop pop_id) p Finished"
| retried: "phase_step j (ECommit j tok) Running Waiting"
| ended: "phase_step j (ECommit j tok) Running Finished"
| forgotten: "phase_step j EPrune Finished Absent"

subsection \<open>Leases\<close>

lemma suffix_make_lease_token: "suffix pop_id (make_lease_token now j attempts pop_id)"
proof -
  have "make_lease_token now j attempts pop_id =
      (show_nat now @ ''_'' @ j @ ''_'' @ show_nat attempts @ ''_'') @ pop_id"
    by (simp add: make_lease_token_def)
  then show ?thesis unfolding suffix_def by blast
qed

lemma exec_cmd_leases: "q_leases (exec_cmd c s) k = None \<or> q_leases (exec_cmd c s) k = q_leases s k"
  by (cases c) (auto simp: script_defs)

lemma exec_pipeline_leases: "q_leases s k = None \<Longrightarrow> q_leases (exec_pipeline p s) k = None"
proof (induction p arbitrary: s)
  case (Cons c p)
  then show ?case using exec_cmd_leases [of c s k] by auto
qed simp

lemma consumed_lease_gone: "consumes_lease k p \<Longrightarrow> \<not> lease_exists k (exec_pipeline p s)"
proof (induction p arbitrary: s)
  case (Cons c p)
  show ?case
  proof (cases "consumes_lease k p")
    case True
    with Cons.IH show ?thesis by simp
  next
    case False
    with Cons.prems have "c = DelLease (fst k) (snd k)" by (auto simp: consumes_lease_def)
    then have "q_leases (exec_cmd c s) k = None" by simp
    then show ?thesis by (simp add: lease_exists_def exec_pipeline_leases)
  qed
qed (simp add: consumes_lease_def)

lemma cleanup_lease_leases: "q_leases (fst (cleanup_lease j (s, acc))) = q_leases s"
  by (simp add: cleanup_lease_def Let_def script_defs split: option.splits)

lemma process_cancellation_leases: "q_leases (fst (process_cancellation now j (s, acc))) = q_leases s"
  by (simp add: process_cancellation_def Let_def script_defs)

lemma release_delayed_leases: "q_leases (release_delayed j s) = q_leases s"
  by (simp add: release_delayed_def Let_def script_defs)

lemma lease_popped_leases:
  "lease_exists k (fst (lease_popped now pop_id secs j (s, acc))) \<Longrightarrow> \<not> lease_exists k s
     \<Longrightarrow> suffix pop_id (snd k)"
  by (auto simp: lease_popped_def lease_exists_def Let_def script_defs suffix_make_lease_token
      split: option.splits if_splits)

lemma pop_script_leases:
  assumes "lease_exists k (snd (pop_script now pop_id batch secs s))" and "\<not> lease_exists k s"
  shows "suffix pop_id (snd k)"
proof -
  define s1 where "s1 = fst (cleanup_expired_leases s)"
  define s2 where "s2 = fst (process_cancellations now s1)"
  define s3 where "s3 = process_delayed_jobs now s2"
  have "\<not> lease_exists k s1" unfolding s1_def cleanup_expired_leases_def
    by (rule fold_pair_invariant [where P = "\<lambda>s. \<not> lease_exists k s"])
       (use assms(2) in \<open>auto simp: lease_exists_def cleanup_lease_leases\<close>)
  then have "\<not> lease_exists k s2" unfolding s2_def process_cancellations_def
    by (intro fold_pair_invariant [where P = "\<lambda>s. \<not> lease_exists k s"])
       (auto simp: lease_exists_def process_cancellation_leases)
  then have s3: "\<not> lease_exists k s3" unfolding s3_def process_delayed_jobs_def
    by (intro fold_invariant [where P = "\<lambda>s. \<not> lease_exists k s" and Q = "\<lambda>_. True"])
       (auto simp: lease_exists_def release_delayed_leases)
  have fin: "snd (pop_script now pop_id batch secs s) = fst (pop_pending now pop_id batch secs s3)"
    by (simp add: pop_script_def Let_def case_prod_beta s1_def s2_def s3_def)
  show ?thesis
  proof (rule ccontr)
    assume "\<not> suffix pop_id (snd k)"
    then have "\<not> lease_exists k (fst (pop_pending now pop_id batch secs s3))"
      unfolding pop_pending_def lpop_batch_eq prod.case
      by (intro fold_pair_invariant [where P = "\<lambda>s. \<not> lease_exists k s"])
         (use s3 in \<open>auto simp: lease_exists_def [of k s3] lease_exists_def [of k "s3\<lparr>q_pending := _\<rparr>"]
                       dest: lease_popped_leases\<close>)
    with assms(1) fin show False by simp
  qed
qed

lemma queue_step_lease:
  assumes "queue_step opts s e t" and "lease_exists k t" and "\<not> lease_exists k s"
  shows "minted_by e (snd k)"
  using assms
proof (induction rule: queue_step.induct)
  case (pop s pop_id now batch lease_seconds)
  then show ?case by (simp add: pop_script_leases)
next
  case (commit hook j tok ops s t)
  then have "t = exec_pipeline (hook @ ops) s" by (simp only: commit_loop_quiet_iff)
  with commit.prems show ?case
    by (auto simp: lease_exists_def exec_pipeline_leases simp del: exec_pipeline_append)
next
  case (enqueue s j now d delay)
  then show ?case by (auto simp: lease_exists_def exec_pipeline_leases)
next
  case (hook hook s)
  then show ?case by (auto simp: lease_exists_def exec_pipeline_leases)
next
  case (prune_success s)
  have "q_leases (fst (fold (prune_job q_success q_failed) js (u, n))) = q_leases u" for js n and u :: "'a queue"
    by (rule fold_pair_invariant [where P = "\<lambda>v. q_leases v = q_leases u"])
       (auto simp: prune_job_def Let_def)
  with prune_success show ?case
    by (auto simp: prune_success_script_def Let_def case_prod_beta lease_exists_def split: if_splits)
next
  case (prune_failed s)
  have "q_leases (fst (fold (prune_job q_failed q_success) js (u, n))) = q_leases u" for js n and u :: "'a queue"
    by (rule fold_pair_invariant [where P = "\<lambda>v. q_leases v = q_leases u"])
       (auto simp: prune_job_def Let_def)
  with prune_failed show ?case
    by (auto simp: prune_failed_script_def Let_def case_prod_beta lease_exists_def split: if_splits)
qed (auto simp: push_script_def cancel_script_def remove_from_dedupe_set_def empty_dedupe_set_def Let_def script_defs
      lease_exists_def split: if_splits)

text \<open>The queue provides the fence: completions consume their lease, others cannot revive it.\<close>

interpretation q: lease_fence lease_exists exec_pipeline consumes_lease other_clients
  by unfold_locales
     (auto simp: consumed_lease_gone other_clients_def dest: queue_step_lease)

lemma completion_consumes:
  "completion_commands opts j tok ops \<Longrightarrow> consumes_lease (j, tok) (hook @ ops)"
  by (auto simp: consumes_lease_def success_commands_def nack_commands_def fail_commands_def
      elim!: completion_commands.cases)

lemma add_success_operations_eq:
  "add_success_operations h opts now job r =
     (case output_json h r of None \<Rightarrow> Inl (JsonError ''to_string'')
      | Some t \<Rightarrow> Inr (success_commands opts now (jb_id (bj_job job)) (bj_lease_token job) t))"
  by (simp add: add_success_operations_def)

lemma add_nack_operations_shape:
  "add_nack_operations h now job e delay pos = Inr ops
     \<Longrightarrow> \<exists>t. ops = nack_commands now (jb_id (bj_job job)) (bj_lease_token job) t delay pos"
  by (auto simp: add_nack_operations_def Let_def split: sum.splits)

lemma add_fail_operations_shape:
  "add_fail_operations h opts now job e = Inr ops
     \<Longrightarrow> \<exists>t. ops = fail_commands opts now (jb_id (bj_job job)) (bj_lease_token job) t"
  by (auto simp: add_fail_operations_def Let_def split: sum.splits)

lemma map_sum_Inr: "map_sum id f x = Inr p \<longleftrightarrow> (\<exists>ops. x = Inr ops \<and> p = f ops)"
  by (cases x) auto

lemma completion_pipeline_shape:
  assumes "completion_pipeline h opts now job result = Inr p"
  shows "\<exists>hook ops. p = hook @ ops
      \<and> completion_commands opts (jb_id (bj_job job)) (bj_lease_token job) ops"
proof (cases result)
  case (Inr res)
  with assms obtain ops where ops: "add_success_operations h opts now job res = Inr ops"
    and p: "p = on_success h job res @ ops"
    by (auto simp: completion_pipeline_def map_sum_Inr)
  from ops have "completion_commands opts (jb_id (bj_job job)) (bj_lease_token job) ops"
    by (auto simp: add_success_operations_eq intro: completion_commands.success split: option.splits)
  with p show ?thesis by blast
next
  case (Inl err)
  show ?thesis
  proof (cases err)
    case (Nack e delay pos)
    with Inl assms obtain ops where ops: "add_nack_operations h now job e delay pos = Inr ops"
      and p: "p = on_nack h job e delay pos @ ops"
      by (auto simp: completion_pipeline_def map_sum_Inr)
    from add_nack_operations_shape [OF ops] p show ?thesis
      by (blast intro: completion_commands.nack)
  next
    case (Fail e)
    with Inl assms obtain ops where ops: "add_fail_operations h opts now job e = Inr ops"
      and p: "p = on_fail h job e @ ops"
      by (auto simp: completion_pipeline_def map_sum_Inr)
    from add_fail_operations_shape [OF ops] p show ?thesis
      by (blast intro: completion_commands.fail)
  qed
qed

text \<open>
  A hook may also submit jobs to its own queue. Its pipeline is then a run of single steps: the
  submissions first, the completion last.
\<close>

inductive hook_pipeline :: "'h pipe_cmd list \<Rightarrow> bool" where
  nothing: "hook_pipeline []"
| outside: "hook_pipeline p \<Longrightarrow> hook_pipeline (External h # p)"
| submits: "hook_pipeline p \<Longrightarrow> hook_pipeline (queue_job_commands now j d delay @ p)"

lemma queue_run_Cons: "queue_run opts t evs u \<Longrightarrow> queue_step opts s e t \<Longrightarrow> queue_run opts s (e # evs) u"
proof (induction rule: queue_run.induct)
  case (start t)
  from queue_run.step [OF queue_run.start start] show ?case by simp
next
  case (step t evs u e' v)
  from queue_run.step [OF step.IH [OF step.prems] step.hyps(2)] show ?case by simp
qed

lemma hook_pipeline_run:
  assumes "hook_pipeline p"
  shows "\<exists>evs. queue_run opts s evs (exec_pipeline p s)"
  using assms
proof (induction arbitrary: s)
  case nothing
  show ?case using queue_run.start by auto
next
  case (outside p h)
  have "queue_step opts s EHook (exec_pipeline [External h] s)"
    by (rule queue_step.hook) (simp add: is_external_def)
  with outside.IH [of "exec_pipeline [External h] s"] show ?case by (auto dest: queue_run_Cons)
next
  case (submits p now j d delay)
  have "queue_step opts s (EEnqueue j (j \<in> set (live_ids s))) (exec_pipeline (queue_job_commands now j d delay) s)"
    by (rule queue_step.enqueue)
  with submits.IH [of "exec_pipeline (queue_job_commands now j d delay) s"] show ?case
    by (auto dest: queue_run_Cons)
qed

lemma hook_pipeline_lease:
  assumes "hook_pipeline p"
  shows "lease_exists k (exec_pipeline p s) = lease_exists k s"
  using assms
proof (induction arbitrary: s)
  case (submits p now j d delay)
  have "q_leases (exec_pipeline (queue_job_commands now j d delay) s) = q_leases s"
    by (cases delay) (simp_all add: queue_job_commands_def script_defs)
  with submits.IH [of "exec_pipeline (queue_job_commands now j d delay) s"] show ?case
    by (simp add: lease_exists_def)
qed (simp_all add: lease_exists_def)

lemma commit_with_hook_run:
  assumes "hook_pipeline hook" and "completion_commands opts j tok ops" and "lease_exists (j, tok) s"
  shows "\<exists>evs. queue_run opts s (evs @ [ECommit j tok]) (exec_pipeline (hook @ ops) s)"
proof -
  obtain evs where r: "queue_run opts s evs (exec_pipeline hook s)" using hook_pipeline_run [OF assms(1)] by blast
  have "commit_loop 1 (lease_exists (j, tok)) (exec_pipeline ([] @ ops)) quiet_env (exec_pipeline hook s)
      = (Inr True, exec_pipeline (hook @ ops) s)"
    unfolding commit_loop_quiet_iff using assms(3) by (simp add: hook_pipeline_lease [OF assms(1)])
  then have "queue_step opts (exec_pipeline hook s) (ECommit j tok) (exec_pipeline (hook @ ops) s)"
    by (rule queue_step.commit [rotated 2]) (simp_all add: assms(2))
  from queue_run.step [OF r this] show ?thesis by blast
qed

subsection \<open>At most one commit per lease\<close>

lemma queue_step_commit_live:
  assumes "queue_step opts s (ECommit j tok) t"
  shows "lease_exists (j, tok) s \<and> \<not> lease_exists (j, tok) t"
  using assms
proof (cases rule: queue_step.cases)
  case (commit hook ops)
  then have "lease_exists (j, tok) s" and "t = exec_pipeline (hook @ ops) s"
    by (simp_all only: commit_loop_quiet_iff)
  then show ?thesis using consumed_lease_gone completion_consumes [OF commit(2)] by blast
qed

lemma queue_run_commit_count:
  assumes "queue_run opts s evs t"
  shows "count_list evs (ECommit j tok) + (if lease_exists (j, tok) t then 1 else 0)
       \<le> (if lease_exists (j, tok) s then 1 else 0) + length (filter (\<lambda>e. minted_by e tok) evs)"
  using assms
proof (induction rule: queue_run.induct)
  case (start s)
  then show ?case by simp
next
  case (step s evs t e u)
  show ?case
  proof (cases "e = ECommit j tok")
    case True
    with step queue_step_commit_live [of opts t j tok u] show ?thesis by auto
  next
    case False
    with step queue_step_lease [of opts t e u "(j, tok)"] show ?thesis
      by (cases "lease_exists (j, tok) t") auto
  qed
qed

lemma pop_ids_append: "pop_ids (xs @ ys) = pop_ids xs @ pop_ids ys"
  by (induction xs rule: pop_ids.induct) auto

lemma minted_only_once:
  assumes "fresh_pop_ids evs"
  shows "length (filter (\<lambda>e. minted_by e tok) evs) \<le> 1"
proof -
  have minted: "length (filter (\<lambda>e. minted_by e tok) es) = length (filter (\<lambda>p. suffix p tok) (pop_ids es))" for es
    by (induction es rule: pop_ids.induct) auto
  let ?f = "filter (\<lambda>p. suffix p tok) (pop_ids evs)"
  have "p = p'" if "p \<in> set ?f" "p' \<in> set ?f" for p p'
  proof -
    have "length p = length p'" using that assms by (auto simp: fresh_pop_ids_def)
    with that show ?thesis by (auto simp: suffix_def)
  qed
  then have "card (set ?f) \<le> Suc 0" by (subst card_le_Suc0_iff_eq) auto
  moreover have "card (set ?f) = length ?f"
    by (rule distinct_card) (use assms in \<open>simp add: fresh_pop_ids_def\<close>)
  ultimately have "length ?f \<le> 1" by linarith
  with minted [of evs] show ?thesis by simp
qed

subsection \<open>Completions of stale workers\<close>

lemma commit_if_leased_dead:
  assumes "env_within (other_clients k) env" and "\<not> lease_exists k s"
    and "commit_if_leased probe connect (lease_exists k) (exec_pipeline p) env idle s = (r, idle', s')"
  shows "r \<noteq> Inr True \<and> (other_clients k)\<^sup>*\<^sup>* s s'"
proof -
  have loop: "r \<noteq> Inr True \<and> (other_clients k)\<^sup>*\<^sup>* s s'"
    if "commit_loop (Suc n) (lease_exists k) (exec_pipeline p) env s = (r, s')" for n r s'
  proof -
    have "(other_clients k)\<^sup>*\<^sup>* s (before_read (env n) s)"
      using assms(1) by (simp add: env_within_def)
    moreover from q.dead_stays_dead [OF this assms(2)] have "\<not> lease_exists k (before_read (env n) s)" .
    ultimately show ?thesis using that by (auto simp: Let_def split: if_splits)
  qed
  obtain c rest where co: "checkout probe connect idle = (c, rest)" by fastforce
  show ?thesis
  proof (cases c)
    case (Inl e)
    with assms(3) co show ?thesis by (auto simp: commit_if_leased_def)
  next
    case (Inr x)
    obtain r0 s0 where r0: "commit_loop (Suc 9) (lease_exists k) (exec_pipeline p) env s = (r0, s0)"
      by fastforce
    moreover have "r = r0 \<and> s' = s0"
      using assms(3) co Inr r0 by (cases r0) (simp_all add: commit_if_leased_def del: commit_loop.simps)
    ultimately show ?thesis using loop by blast
  qed
qed

end
