(* ===== verification/Twmq_Queue_View.thy ===== *)
theory Twmq_Queue_View
  imports Twmq_Queue_Props
begin

text \<open>
  The queue as seen from one job. \<open>job_view s j\<close> collects everything the keys of the queue
  say about job \<open>j\<close>; every iteration of a script loop acts on the view of its own job by a
  local function and leaves the other views alone. What only the whole queue decides is the
  order of pending. The effects of the pop script and the life cycle of a job follow.
\<close>

subsection \<open>Views\<close>

record job_view =
  v_pending :: bool
  v_delayed :: "nat option"
  v_active :: bool
  v_success :: bool
  v_failed :: bool
  v_data :: "string option"
  v_meta :: job_meta
  v_leases :: "lease_token \<rightharpoonup> nat"
  v_dedupe :: bool
  v_cancel :: bool
  v_result :: "string option"
  v_errors :: "string list"

definition job_view :: "'h queue \<Rightarrow> job_id \<Rightarrow> job_view" where
  "job_view s j =
     \<lparr> v_pending = (j \<in> set (q_pending s)), v_delayed = map_of (q_delayed s) j,
       v_active = (j \<in> set (keys (q_active s))), v_success = (j \<in> set (q_success s)),
       v_failed = (j \<in> set (q_failed s)), v_data = q_data s j, v_meta = q_meta s j,
       v_leases = (\<lambda>t. q_leases s (j, t)), v_dedupe = (j \<in> q_dedupe s),
       v_cancel = (j \<in> set (q_cancels s)), v_result = q_results s j, v_errors = q_errors s j \<rparr>"

definition bump_attempts :: "job_meta \<Rightarrow> job_meta" where
  "bump_attempts m = m\<lparr>m_attempts := Some (case m_attempts m of None \<Rightarrow> 1 | Some a \<Rightarrow> a + 1)\<rparr>"

definition view_requeue :: "job_view \<Rightarrow> job_view" where
  "view_requeue v = v\<lparr>v_pending := True, v_active := False,
     v_meta := (bump_attempts (v_meta v))\<lparr>m_lease_token := None\<rparr>\<rparr>"

definition view_cleanup :: "job_view \<Rightarrow> job_view" where
  "view_cleanup v =
     (case m_lease_token (v_meta v) of
        Some t \<Rightarrow> if v_leases v t = None then view_requeue v else v
      | None \<Rightarrow> view_requeue v)"

definition view_cancellation :: "nat \<Rightarrow> job_view \<Rightarrow> job_view" where
  "view_cancellation now v =
     (if v_active v then v
      else if \<not> v_pending v \<and> v_delayed v = None \<and> v_success v then v\<lparr>v_cancel := False\<rparr>
      else v\<lparr>v_pending := False, v_delayed := None, v_failed := True, v_cancel := False,
             v_meta := (v_meta v)\<lparr>m_finished_at := Some now\<rparr>\<rparr>)"

definition view_release :: "job_view \<Rightarrow> job_view" where
  "view_release v = v\<lparr>v_pending := True, v_delayed := None,
     v_meta := (v_meta v)\<lparr>m_reentry_position := None\<rparr>\<rparr>"

text \<open>Steps 1 to 3 of the pop script, before anything is popped.\<close>

definition housekeeping :: "nat \<Rightarrow> 'h queue \<Rightarrow> 'h queue" where
  "housekeeping now s =
     process_delayed_jobs now (fst (process_cancellations now (fst (cleanup_expired_leases s))))"

subsection \<open>Loops act locally\<close>

lemma fold_local_pair:
  assumes "distinct xs"
    and other: "\<And>x y s acc. y \<noteq> x \<Longrightarrow> V (fst (f x (s, acc))) y = V s y"
    and self: "\<And>x s acc. V (fst (f x (s, acc))) x = g (V s x)"
  shows "V (fst (fold f xs (s, acc))) y = (if y \<in> set xs then g (V s y) else V s y)"
  using assms(1)
proof (induction xs arbitrary: s acc)
  case (Cons x xs)
  obtain s' acc' where s': "f x (s, acc) = (s', acc')" by fastforce
  with Cons have "V (fst (fold f (x # xs) (s, acc))) y = (if y \<in> set xs then g (V s' y) else V s' y)"
    by simp
  moreover have "V s' y = (if y = x then g (V s x) else V s y)"
    using self [of x s acc] other [of y x s acc] s' by simp
  ultimately show ?case using Cons.prems by (cases "y = x") auto
qed simp

lemma fold_local:
  assumes "distinct xs"
    and other: "\<And>x y s. y \<noteq> x \<Longrightarrow> V (f x s) y = V s y"
    and self: "\<And>x s. V (f x s) x = g (V s x)"
  shows "V (fold f xs s) y = (if y \<in> set xs then g (V s y) else V s y)"
  using assms(1)
proof (induction xs arbitrary: s)
  case (Cons x xs)
  then show ?case using self [of x s] other [of y x s] by (cases "y = x") auto
qed simp

lemma map_of_zrem: "map_of (zrem j z) = (map_of z)(j := None)"
  by (simp add: zrem_def delete_conv')

lemma map_of_zadd: "map_of (zadd j t z) = (map_of z)(j \<mapsto> t)"
  by (simp add: zadd_def update_conv')

lemma keys_map_of: "j \<in> set (keys z) \<longleftrightarrow> map_of z j \<noteq> None"
  by (simp add: keys_def map_of_eq_None_iff)

lemma removeAll_id_iff: "j \<in> set (removeAll x xs) \<longleftrightarrow> j \<in> set xs \<and> j \<noteq> x"
  by auto

lemma cleanup_lease_view:
  "job_view (fst (cleanup_lease x (s, acc))) y = (if y = x then view_cleanup (job_view s y) else job_view s y)"
  by (auto simp: cleanup_lease_def job_view_def view_cleanup_def view_requeue_def bump_attempts_def
      Let_def script_defs split: option.splits)

lemma process_cancellation_view:
  "job_view (fst (process_cancellation now x (s, acc))) y =
     (if y = x then view_cancellation now (job_view s y) else job_view s y)"
  by (auto simp: process_cancellation_def job_view_def view_cancellation_def
      Let_def script_defs map_of_zrem keys_map_of)

lemma release_delayed_view:
  "job_view (release_delayed x s) y = (if y = x then view_release (job_view s y) else job_view s y)"
  by (auto simp: release_delayed_def job_view_def view_release_def Let_def script_defs map_of_zrem)

lemma cleanup_view:
  assumes "queue_inv s"
  shows "job_view (fst (cleanup_expired_leases s)) j =
     (if j \<in> set (keys (q_active s)) then view_cleanup (job_view s j) else job_view s j)"
  unfolding cleanup_expired_leases_def
  by (rule fold_local_pair) (use assms in \<open>auto simp: cleanup_lease_view queue_inv_defs\<close>)

lemma process_cancellations_view:
  assumes "queue_inv s"
  shows "job_view (fst (process_cancellations now s)) j =
     (if j \<in> set (q_cancels s) then view_cancellation now (job_view s j) else job_view s j)"
  unfolding process_cancellations_def
  by (rule fold_local_pair) (use assms in \<open>auto simp: process_cancellation_view queue_inv_defs\<close>)

lemma process_delayed_jobs_view:
  assumes "queue_inv s"
  shows "job_view (process_delayed_jobs now s) j =
     (if j \<in> set (zrangebyscore 0 now (q_delayed s)) then view_release (job_view s j) else job_view s j)"
  unfolding process_delayed_jobs_def
  by (rule fold_local)
     (use assms in \<open>auto simp: release_delayed_view queue_inv_defs distinct_zrangebyscore\<close>)

lemma due_iff:
  assumes "queue_inv s"
  shows "j \<in> set (zrangebyscore 0 now (q_delayed s)) \<longleftrightarrow> (\<exists>t. map_of (q_delayed s) j = Some t \<and> t \<le> now)"
proof -
  have "distinct (map fst (q_delayed s))" using assms by (auto simp: queue_inv_defs keys_def)
  then show ?thesis by (auto simp: zrangebyscore_iff dest: map_of_is_SomeI map_of_SomeD)
qed

subsection \<open>Housekeeping and the popped batch\<close>

lemma housekeeping_inv: "queue_inv s \<Longrightarrow> queue_inv (housekeeping now s)"
  by (simp add: housekeeping_def process_delayed_jobs_inv process_cancellations_inv cleanup_expired_leases_inv)

lemma pop_script_eq:
  "pop_script now pop_id batch secs s =
     ((snd (pop_pending now pop_id batch secs (housekeeping now s)),
       snd (process_cancellations now (fst (cleanup_expired_leases s))),
       snd (cleanup_expired_leases s)),
      fst (pop_pending now pop_id batch secs (housekeeping now s)))"
  by (simp add: pop_script_def housekeeping_def Let_def case_prod_beta)

text \<open>The view of a job after housekeeping, in terms of its view before.\<close>

definition view_housekeeping :: "nat \<Rightarrow> job_view \<Rightarrow> job_view" where
  "view_housekeeping now v =
     (let v = (if v_active v then view_cleanup v else v);
          v = (if v_cancel v then view_cancellation now v else v)
      in if (case v_delayed v of None \<Rightarrow> False | Some t \<Rightarrow> t \<le> now) then view_release v else v)"

lemma housekeeping_view:
  assumes "queue_inv s"
  shows "job_view (housekeeping now s) j = view_housekeeping now (job_view s j)"
proof -
  let ?s1 = "fst (cleanup_expired_leases s)"
  let ?s2 = "fst (process_cancellations now ?s1)"
  have i1: "queue_inv ?s1" using assms by (rule cleanup_expired_leases_inv)
  have i2: "queue_inv ?s2" using i1 by (rule process_cancellations_inv)
  have v1: "job_view ?s1 j = (if v_active (job_view s j) then view_cleanup (job_view s j) else job_view s j)"
    by (simp add: cleanup_view [OF assms]) (simp add: job_view_def)
  have v2: "job_view ?s2 j = (if v_cancel (job_view ?s1 j) then view_cancellation now (job_view ?s1 j) else job_view ?s1 j)"
    by (simp add: process_cancellations_view [OF i1]) (simp add: job_view_def)
  have due: "j \<in> set (zrangebyscore 0 now (q_delayed ?s2)) \<longleftrightarrow>
      (case v_delayed (job_view ?s2 j) of None \<Rightarrow> False | Some t \<Rightarrow> t \<le> now)"
    by (simp add: due_iff [OF i2]) (simp add: job_view_def split: option.split)
  show ?thesis
    unfolding housekeeping_def process_delayed_jobs_view [OF i2] due view_housekeeping_def Let_def v2 v1 ..
qed

lemma lease_popped_row:
  assumes "q_data s j = Some d"
  obtains a c s' where "lease_popped now pop_id secs j (s, acc) =
      (s', acc @ [(j, d, a, c, now, make_lease_token now j a pop_id)])"
    and "q_pending s' = q_pending s" and "q_data s' = q_data s" and "q_delayed s' = q_delayed s"
    and "q_success s' = q_success s" and "q_failed s' = q_failed s" and "q_cancels s' = q_cancels s"
    and "set (keys (q_active s')) = insert j (set (keys (q_active s)))"
    and "q_leases s' (j, make_lease_token now j a pop_id) = (if secs = 0 then None else Some secs)"
    and "\<And>k. fst k \<noteq> j \<Longrightarrow> q_leases s' k = q_leases s k"
    and "\<And>i. i \<noteq> j \<Longrightarrow> q_meta s' i = q_meta s i"
    and "m_lease_token (q_meta s' j) = Some (make_lease_token now j a pop_id)"
proof -
  define a where "a = (case m_attempts (q_meta s j) of None \<Rightarrow> 1 | Some a \<Rightarrow> a + 1)"
  show thesis
    by (rule that [of "fst (lease_popped now pop_id secs j (s, acc))" a "unwrap_or now (m_created_at (q_meta s j))"])
       (auto simp: lease_popped_def assms Let_def script_defs a_def unwrap_or_def split: option.splits)
qed

text \<open>What leasing the jobs \<open>js\<close> in order does to the queue, and the rows it answers with.\<close>

definition leased_row :: "nat \<Rightarrow> 'h queue \<Rightarrow> 'h queue \<Rightarrow> popped_row \<Rightarrow> bool" where
  "leased_row secs s s' row = (case row of (j, d, a, c, p, t) \<Rightarrow>
     q_leases s' (j, t) = (if secs = 0 then None else Some secs) \<and> q_data s j = Some d
     \<and> m_lease_token (q_meta s' j) = Some t)"

definition same_lists :: "'h queue \<Rightarrow> 'h queue \<Rightarrow> bool" where
  "same_lists s s' \<longleftrightarrow> q_pending s' = q_pending s \<and> q_data s' = q_data s \<and> q_delayed s' = q_delayed s
     \<and> q_success s' = q_success s \<and> q_failed s' = q_failed s \<and> q_cancels s' = q_cancels s"

lemma fold_lease_popped:
  assumes "popping js s"
  shows "\<exists>s' rest. fold (lease_popped now pop_id secs) js (s, acc) = (s', acc @ rest)
     \<and> map fst rest = js \<and> same_lists s s'
     \<and> set (keys (q_active s')) = set js \<union> set (keys (q_active s))
     \<and> (\<forall>k. fst k \<notin> set js \<longrightarrow> q_leases s' k = q_leases s k)
     \<and> (\<forall>i. i \<notin> set js \<longrightarrow> q_meta s' i = q_meta s i)
     \<and> (\<forall>row \<in> set rest. leased_row secs s s' row)"
  using assms
proof (induction js arbitrary: s acc)
  case Nil
  show ?case by (rule exI [of _ s], rule exI [of _ "[]"]) (simp add: same_lists_def)
next
  case (Cons j js)
  have j: "j \<notin> set js" using Cons.prems by (auto simp: popping_def queue_inv_defs)
  obtain d where d: "q_data s j = Some d" using Cons.prems by (auto simp: popping_def queue_inv_defs)
  obtain a c s1 where s1: "lease_popped now pop_id secs j (s, acc) =
        (s1, acc @ [(j, d, a, c, now, make_lease_token now j a pop_id)])"
      (is "_ = (s1, acc @ [?row])")
    and l1: "same_lists s s1" and a1: "set (keys (q_active s1)) = insert j (set (keys (q_active s)))"
    and le1: "q_leases s1 (j, make_lease_token now j a pop_id) = (if secs = 0 then None else Some secs)"
    and o1: "\<And>k. fst k \<noteq> j \<Longrightarrow> q_leases s1 k = q_leases s k" "\<And>i. i \<noteq> j \<Longrightarrow> q_meta s1 i = q_meta s i"
    and t1: "m_lease_token (q_meta s1 j) = Some (make_lease_token now j a pop_id)"
    by (rule lease_popped_row [OF d, of now pop_id secs acc]) (simp add: same_lists_def)
  have "popping js s1" using lease_popped_inv [OF Cons.prems, of now pop_id secs acc] s1 by simp
  from Cons.IH [OF this, of "acc @ [?row]"] obtain s' rest where IH:
    "fold (lease_popped now pop_id secs) js (s1, acc @ [?row]) = (s', (acc @ [?row]) @ rest)"
    "map fst rest = js" "same_lists s1 s'" "set (keys (q_active s')) = set js \<union> set (keys (q_active s1))"
    "\<forall>k. fst k \<notin> set js \<longrightarrow> q_leases s' k = q_leases s1 k"
    "\<forall>i. i \<notin> set js \<longrightarrow> q_meta s' i = q_meta s1 i"
    "\<forall>row \<in> set rest. leased_row secs s1 s' row"
    by blast
  have "leased_row secs s s' ?row" using IH(5,6) j le1 t1 d by (simp add: leased_row_def)
  moreover have "\<forall>row \<in> set rest. leased_row secs s s' row"
    using IH(7) l1 by (auto simp: leased_row_def same_lists_def)
  ultimately show ?case
    using IH s1 l1 a1 o1
    by (intro exI [of _ s'] exI [of _ "?row # rest"]) (auto simp: same_lists_def)
qed

lemma pop_pending_props:
  assumes "queue_inv s" and "pop_pending now pop_id batch secs s = (s', rows)"
  shows "map fst rows = take batch (q_pending s)"
    and "q_pending s' = drop batch (q_pending s)"
    and "q_delayed s' = q_delayed s" and "q_success s' = q_success s" and "q_failed s' = q_failed s"
    and "q_cancels s' = q_cancels s"
    and "set (keys (q_active s')) = set (take batch (q_pending s)) \<union> set (keys (q_active s))"
    and "\<And>k. fst k \<notin> set (take batch (q_pending s)) \<Longrightarrow> q_leases s' k = q_leases s k"
    and "\<And>row. row \<in> set rows \<Longrightarrow> leased_row secs s s' row"
proof -
  let ?js = "take batch (q_pending s)" and ?s = "s\<lparr>q_pending := drop batch (q_pending s)\<rparr>"
  have "popping ?js ?s" using assms(1) by (simp add: popping_def)
  from fold_lease_popped [OF this, of now pop_id secs "[]"] assms(2)
  obtain F: "map fst rows = ?js" "same_lists ?s s'" "set (keys (q_active s')) = set ?js \<union> set (keys (q_active ?s))"
    "\<forall>k. fst k \<notin> set ?js \<longrightarrow> q_leases s' k = q_leases ?s k"
    "\<forall>row \<in> set rows. leased_row secs ?s s' row"
    by (auto simp: pop_pending_def lpop_batch_eq)
  then show "map fst rows = take batch (q_pending s)" by simp
  show "q_pending s' = drop batch (q_pending s)" "q_delayed s' = q_delayed s" "q_success s' = q_success s"
    "q_failed s' = q_failed s" "q_cancels s' = q_cancels s"
    using F(2) by (simp_all add: same_lists_def)
  show "set (keys (q_active s')) = set (take batch (q_pending s)) \<union> set (keys (q_active s))"
    using F(3) by simp
  show "q_leases s' k = q_leases s k" if "fst k \<notin> set (take batch (q_pending s))" for k
    using F(4) that by (cases k) simp
  show "\<And>row. row \<in> set rows \<Longrightarrow> leased_row secs s s' row"
    using F(5) by (auto simp: leased_row_def)
qed

subsection \<open>Pruning and views\<close>

definition view_listed :: "job_view \<Rightarrow> bool" where
  "view_listed v \<longleftrightarrow> v_success v \<or> v_failed v"

definition view_live :: "job_view \<Rightarrow> bool" where
  "view_live v \<longleftrightarrow> v_active v \<or> v_pending v \<or> v_delayed v \<noteq> None"

definition view_prune :: "job_view \<Rightarrow> job_view" where
  "view_prune v =
     (if view_live v \<or> view_listed v then v
      else v\<lparr>v_data := None, v_meta := empty_meta, v_dedupe := False, v_cancel := False,
             v_result := None, v_errors := []\<rparr>)"

lemma view_prune_idem: "view_prune (view_prune v) = view_prune v"
  by (simp add: view_prune_def view_live_def view_listed_def)

lemma fold_local_pair_idem:
  assumes idem: "\<And>v. g (g v) = g v"
    and other: "\<And>x y s acc. y \<noteq> x \<Longrightarrow> V (fst (f x (s, acc))) y = V s y"
    and self: "\<And>x s acc. V (fst (f x (s, acc))) x = g (V s x)"
  shows "V (fst (fold f xs (s, acc))) y = (if y \<in> set xs then g (V s y) else V s y)"
proof (induction xs arbitrary: s acc)
  case (Cons x xs)
  obtain s' acc' where s': "f x (s, acc) = (s', acc')" by fastforce
  moreover have "V s' y = (if y = x then g (V s x) else V s y)"
    using self [of x s acc] other [of y x s acc] s' by simp
  ultimately show ?case using Cons.IH [of s' acc'] idem by (cases "y = x") auto
qed simp

lemma prune_job_view:
  assumes "(this, other) = (q_success, q_failed) \<or> (this, other) = (q_failed, q_success)"
  shows "job_view (fst (prune_job this other x (s, n))) y =
     (if y = x then view_prune (job_view s y) else job_view s y)"
  using assms
  by (auto simp: prune_job_def job_view_def view_prune_def view_listed_def view_live_def
      Let_def script_defs keys_map_of)

lemma prune_job_lists:
  "q_success (fst (fold (prune_job this other) js (s, n))) = q_success s"
  "q_failed (fst (fold (prune_job this other) js (s, n))) = q_failed s"
  "q_pending (fst (fold (prune_job this other) js (s, n))) = q_pending s"
  by (rule fold_pair_invariant [where P = "\<lambda>t. _ t = _ s"], auto simp: prune_job_def Let_def)+

lemma prune_success_view:
  "job_view (snd (prune_success_script n s)) j =
     (if j \<in> set (drop n (q_success s))
      then view_prune ((job_view s j)\<lparr>v_success := j \<in> set (take n (q_success s))\<rparr>)
      else job_view s j)"
proof (cases "drop n (q_success s) = []")
  case True
  then show ?thesis by (simp add: prune_success_script_def script_defs Let_def)
next
  case False
  let ?t = "s\<lparr>q_success := take n (q_success s)\<rparr>"
  have trim: "(if n = 0 then [] else ltrim_to n (q_success s)) = take n (q_success s)"
    by (simp add: script_defs)
  have tv: "job_view ?t j = (job_view s j)\<lparr>v_success := j \<in> set (take n (q_success s))\<rparr>"
    by (simp add: job_view_def)
  have same: "(job_view s j)\<lparr>v_success := j \<in> set (take n (q_success s))\<rparr> = job_view s j"
    if "j \<notin> set (drop n (q_success s))"
  proof -
    have "j \<in> set (take n (q_success s)) \<longleftrightarrow> j \<in> set (q_success s)"
      using that by (metis Un_iff append_take_drop_id set_append)
    then show ?thesis by (simp add: job_view_def)
  qed
  have "snd (prune_success_script n s) = fst (fold (prune_job q_success q_failed) (drop n (q_success s)) (?t, 0))"
    using False trim by (simp add: prune_success_script_def Let_def case_prod_beta lrange_from_def)
  also have "job_view \<dots> j = (if j \<in> set (drop n (q_success s)) then view_prune (job_view ?t j) else job_view ?t j)"
    by (rule fold_local_pair_idem) (simp_all add: view_prune_idem prune_job_view)
  finally show ?thesis using tv same by auto
qed

lemma prune_success_list: "q_success (snd (prune_success_script n s)) = take n (q_success s)"
  by (auto simp: prune_success_script_def Let_def case_prod_beta script_defs prune_job_lists)

lemma prune_failed_view:
  "job_view (snd (prune_failed_script n s)) j =
     (if j \<in> set (drop n (q_failed s))
      then view_prune ((job_view s j)\<lparr>v_failed := j \<in> set (take n (q_failed s))\<rparr>)
      else job_view s j)"
proof (cases "drop n (q_failed s) = []")
  case True
  then show ?thesis by (simp add: prune_failed_script_def script_defs Let_def)
next
  case False
  let ?t = "s\<lparr>q_failed := take n (q_failed s)\<rparr>"
  have trim: "(if n = 0 then [] else ltrim_to n (q_failed s)) = take n (q_failed s)"
    by (simp add: script_defs)
  have tv: "job_view ?t j = (job_view s j)\<lparr>v_failed := j \<in> set (take n (q_failed s))\<rparr>"
    by (simp add: job_view_def)
  have same: "(job_view s j)\<lparr>v_failed := j \<in> set (take n (q_failed s))\<rparr> = job_view s j"
    if "j \<notin> set (drop n (q_failed s))"
  proof -
    have "j \<in> set (take n (q_failed s)) \<longleftrightarrow> j \<in> set (q_failed s)"
      using that by (metis Un_iff append_take_drop_id set_append)
    then show ?thesis by (simp add: job_view_def)
  qed
  have "snd (prune_failed_script n s) = fst (fold (prune_job q_failed q_success) (drop n (q_failed s)) (?t, 0))"
    using False trim by (simp add: prune_failed_script_def Let_def case_prod_beta lrange_from_def)
  also have "job_view \<dots> j = (if j \<in> set (drop n (q_failed s)) then view_prune (job_view ?t j) else job_view ?t j)"
    by (rule fold_local_pair_idem) (simp_all add: view_prune_idem prune_job_view)
  finally show ?thesis using tv same by auto
qed

lemma prune_failed_list: "q_failed (snd (prune_failed_script n s)) = take n (q_failed s)"
  by (auto simp: prune_failed_script_def Let_def case_prod_beta script_defs prune_job_lists)

subsection \<open>Phases\<close>

definition view_phase :: "job_view \<Rightarrow> phase" where
  "view_phase v =
     (if v_active v then Running
      else if v_pending v \<or> v_delayed v \<noteq> None then Waiting
      else if view_listed v then Finished else Absent)"

lemma phase_of_view: "phase_of s j = view_phase (job_view s j)"
  by (simp add: phase_of_def view_phase_def job_view_def keys_map_of view_listed_def)

lemma inv_not_dedupe_not_live:
  "queue_inv s \<Longrightarrow> j \<notin> q_dedupe s \<Longrightarrow>
     j \<notin> set (q_pending s) \<and> j \<notin> set (keys (q_delayed s)) \<and> j \<notin> set (keys (q_active s))"
  by (auto simp: queue_inv_defs)

lemma inv_active_not_waiting:
  "queue_inv s \<Longrightarrow> j \<in> set (keys (q_active s)) \<Longrightarrow> j \<notin> set (q_pending s) \<and> j \<notin> set (keys (q_delayed s))"
  by (auto simp: queue_inv_defs)

lemma inv_pending_not_delayed:
  "queue_inv s \<Longrightarrow> j \<in> set (q_pending s) \<Longrightarrow> j \<notin> set (keys (q_delayed s))"
  by (auto simp: queue_inv_defs)

lemma push_phase:
  assumes "queue_inv s"
  shows "phase_step i (EPush j) (phase_of s i) (phase_of (snd (push_script j d now delay pos s)) i)"
proof (cases "j \<in> q_dedupe s \<or> i \<noteq> j")
  case True
  then have "phase_of (snd (push_script j d now delay pos s)) i = phase_of s i"
    by (auto simp: phase_of_def push_script_def Let_def script_defs)
  then show ?thesis by (simp add: phase_step.stay)
next
  case False
  with inv_not_dedupe_not_live [OF assms, of j]
  have "phase_of (snd (push_script j d now delay pos s)) i = Waiting" "phase_of s i \<in> {Absent, Finished}"
    by (auto simp: phase_of_def push_script_def Let_def script_defs)
  with False show ?thesis by (auto intro: phase_step.admitted)
qed

lemma cancel_phase:
  assumes "queue_inv s"
  shows "phase_step i (ECancel j) (phase_of s i) (phase_of (snd (cancel_script j now s)) i)"
proof (cases "i = j \<and> (j \<in> set (q_pending s) \<or> j \<in> set (keys (q_delayed s)))")
  case True
  have "phase_of s j = Waiting"
    using True inv_active_not_waiting [OF assms, of j] by (auto simp: phase_of_def)
  moreover have "phase_of (snd (cancel_script j now s)) j = Finished"
    using True inv_active_not_waiting [OF assms, of j] inv_pending_not_delayed [OF assms, of j]
    by (auto simp: phase_of_def cancel_script_def script_defs)
  ultimately show ?thesis using True by (auto intro: phase_step.cancelled)
next
  case False
  then have "phase_of (snd (cancel_script j now s)) i = phase_of s i"
    by (auto simp: phase_of_def cancel_script_def script_defs)
  then show ?thesis by (simp add: phase_step.stay)
qed

lemma inv_cancel_located: "queue_inv s \<Longrightarrow> j \<in> set (q_cancels s) \<Longrightarrow> phase_of s j \<noteq> Absent"
  by (auto simp: queue_inv_defs phase_of_def)

lemma view_cleanup_phase:
  assumes "v_active v" and "v_delayed v = None"
  shows "view_phase (view_cleanup v) = Running \<or> view_phase (view_cleanup v) = Waiting"
    and "v_cancel (view_cleanup v) = v_cancel v" and "v_delayed (view_cleanup v) = None"
  using assms
  by (auto simp: view_cleanup_def view_requeue_def view_phase_def split: option.splits)

lemma view_cancellation_phase:
  "view_phase (view_cancellation now v) = view_phase v \<or> view_phase (view_cancellation now v) = Finished"
  by (auto simp: view_cancellation_def view_phase_def view_listed_def)

lemma view_release_phase:
  "\<not> v_active v \<Longrightarrow> v_delayed v \<noteq> None \<Longrightarrow> view_phase (view_release v) = view_phase v"
  by (auto simp: view_release_def view_phase_def)

lemma view_cancellation_delayed:
  "v_delayed (view_cancellation now v) \<noteq> None \<Longrightarrow>
     v_delayed v \<noteq> None \<and> v_active (view_cancellation now v) = v_active v"
  by (auto simp: view_cancellation_def split: if_splits)

lemma view_housekeeping_phase:
  assumes "\<not> (v_active v \<and> v_delayed v \<noteq> None)"
  shows "view_phase (view_housekeeping now v) = view_phase v
     \<or> (view_phase v = Running \<and> view_phase (view_housekeeping now v) = Waiting)
     \<or> (v_cancel v \<and> view_phase (view_housekeeping now v) = Finished)"
proof -
  define v1 where "v1 = (if v_active v then view_cleanup v else v)"
  define v2 where "v2 = (if v_cancel v1 then view_cancellation now v1 else v1)"
  have c1: "v_cancel v1 = v_cancel v" using assms by (auto simp: v1_def view_cleanup_phase)
  have p1: "view_phase v1 = view_phase v \<or> (view_phase v = Running \<and> view_phase v1 = Waiting)"
    using assms view_cleanup_phase(1) [of v] by (auto simp: v1_def view_phase_def [of v])
  have d1: "v_delayed v1 \<noteq> None \<Longrightarrow> \<not> v_active v1"
    using assms view_cleanup_phase(3) [of v] by (auto simp: v1_def split: if_splits)
  have p2: "view_phase v2 = view_phase v1 \<or> (v_cancel v \<and> view_phase v2 = Finished)"
    using view_cancellation_phase [of now v1] c1 by (auto simp: v2_def)
  have d2: "v_delayed v2 \<noteq> None \<Longrightarrow> \<not> v_active v2"
    using d1 view_cancellation_delayed [of now v1] by (auto simp: v2_def split: if_splits)
  have "view_housekeeping now v =
      (if (case v_delayed v2 of None \<Rightarrow> False | Some t \<Rightarrow> t \<le> now) then view_release v2 else v2)"
    by (simp add: view_housekeeping_def v1_def v2_def Let_def)
  then have "view_phase (view_housekeeping now v) = view_phase v2"
    using d2 view_release_phase [of v2] by (auto split: option.splits)
  with p1 p2 show ?thesis by metis
qed

lemma housekeeping_phase:
  assumes "queue_inv s"
  shows "phase_of (housekeeping now s) i = phase_of s i
     \<or> (phase_of s i = Running \<and> phase_of (housekeeping now s) i = Waiting)
     \<or> (phase_of s i \<noteq> Absent \<and> phase_of (housekeeping now s) i = Finished)"
proof -
  have "\<not> (v_active (job_view s i) \<and> v_delayed (job_view s i) \<noteq> None)"
    using inv_active_not_waiting [OF assms, of i] by (auto simp: job_view_def keys_map_of [of i "q_delayed s"])
  from view_housekeeping_phase [OF this, of now] inv_cancel_located [OF assms, of i] show ?thesis
    unfolding phase_of_view housekeeping_view [OF assms] by (auto simp: job_view_def)
qed

lemma pop_phase:
  assumes "queue_inv s"
  shows "phase_step i (EPop pop_id) (phase_of s i) (phase_of (snd (pop_script now pop_id batch secs s)) i)"
proof -
  let ?h = "housekeeping now s"
  obtain s' rows where p: "pop_pending now pop_id batch secs ?h = (s', rows)" by fastforce
  note P = pop_pending_props [OF housekeeping_inv [OF assms] p]
  have fin: "snd (pop_script now pop_id batch secs s) = s'" by (simp add: pop_script_eq p)
  have split: "set (q_pending ?h) = set (take batch (q_pending ?h)) \<union> set (drop batch (q_pending ?h))"
    by (metis append_take_drop_id set_append)
  have "phase_of s' i = phase_of ?h i \<or> (phase_of ?h i = Waiting \<and> phase_of s' i = Running)"
    using P(2-5,7) split inv_active_not_waiting [OF housekeeping_inv [OF assms], of i now]
    by (auto simp: phase_of_def)
  with housekeeping_phase [OF assms, of now i] fin show ?thesis
    by (cases "phase_of s i"; cases "phase_of ?h i")
       (auto intro: phase_step.intros)
qed

lemma prune_phase:
  "phase_step i EPrune (phase_of s i) (phase_of (snd (prune_success_script n s)) i)"
  "phase_step i EPrune (phase_of s i) (phase_of (snd (prune_failed_script n s)) i)"
  unfolding phase_of_view prune_success_view prune_failed_view
  by (auto simp: view_phase_def view_prune_def view_listed_def view_live_def job_view_def
      intro: phase_step.stay phase_step.forgotten dest: in_set_takeD in_set_dropD)

text \<open>A completion of job \<open>j\<close> touches the views of no other job.\<close>

lemma completion_other_view:
  assumes "completion_commands opts j tok ops" and "i \<noteq> j"
  shows "job_view (exec_pipeline ops s) i = job_view s i"
  using assms
  by (cases rule: completion_commands.cases)
     (auto simp: success_commands_def nack_commands_def fail_commands_def job_view_def script_defs
       map_of_zadd split: option.splits RequeuePosition.splits)

lemma completion_own_phase:
  assumes "completion_commands opts j tok ops" and "j \<notin> set (q_pending s)" and "j \<notin> set (keys (q_delayed s))"
  shows "phase_of (exec_pipeline ops s) j = Waiting \<or> phase_of (exec_pipeline ops s) j = Finished"
  using assms
  by (cases rule: completion_commands.cases)
     (auto simp: success_commands_def nack_commands_def fail_commands_def phase_of_def script_defs
       split: option.splits RequeuePosition.splits)

lemma external_view: "job_view (s\<lparr>q_external := es\<rparr>) = job_view s"
  by (simp add: job_view_def fun_eq_iff)

lemma commit_phase:
  assumes "queue_inv s" and "lease_exists (j, tok) s" and "list_all is_external hook"
    and "completion_commands opts j tok ops"
  shows "phase_step i (ECommit j tok) (phase_of s i) (phase_of (exec_pipeline (hook @ ops) s) i)"
proof -
  obtain es where es: "exec_pipeline hook s = s\<lparr>q_external := es\<rparr>"
    using exec_external assms(3) by blast
  note held = held_job_facts [OF assms(1,2)]
  show ?thesis
  proof (cases "i = j")
    case True
    have "phase_of s j = Running" using held(1) by (simp add: phase_of_def)
    moreover have "phase_of (exec_pipeline (hook @ ops) s) j \<in> {Waiting, Finished}"
      using completion_own_phase [OF assms(4), of "s\<lparr>q_external := es\<rparr>"] held es by auto
    ultimately show ?thesis using True by (auto intro: phase_step.retried phase_step.ended)
  next
    case False
    then have "phase_of (exec_pipeline (hook @ ops) s) i = phase_of s i"
      using completion_other_view [OF assms(4)] es by (simp add: phase_of_view external_view)
    then show ?thesis by (simp add: phase_step.stay)
  qed
qed

lemma enqueue_phase:
  assumes "queue_inv s" and "j \<notin> set (live_ids s)"
  shows "phase_step i (EEnqueue j False) (phase_of s i)
     (phase_of (exec_pipeline (queue_job_commands now j d delay) s) i)"
proof (cases "i = j")
  case True
  have "phase_of s j \<in> {Absent, Finished}"
    using assms(2) by (auto simp: phase_of_def live_ids_def)
  moreover have "phase_of (exec_pipeline (queue_job_commands now j d delay) s) j = Waiting"
    using assms(2) by (cases delay) (auto simp: queue_job_commands_def script_defs phase_of_def live_ids_def)
  ultimately show ?thesis using True by (auto intro: phase_step.enqueued)
next
  case False
  then have "phase_of (exec_pipeline (queue_job_commands now j d delay) s) i = phase_of s i"
    by (cases delay) (auto simp: queue_job_commands_def script_defs phase_of_def)
  then show ?thesis by (simp add: phase_step.stay)
qed

lemma step_phase:
  assumes "queue_step opts s e t" and "orderly e" and "queue_inv s"
  shows "phase_step j e (phase_of s j) (phase_of t j)"
  using assms
proof (induction rule: queue_step.induct)
  case (commit hook i tok ops s t)
  then have "lease_exists (i, tok) s" and t: "t = exec_pipeline (hook @ ops) s"
    by (simp_all only: commit_loop_quiet_iff)
  with commit show ?case unfolding t by (intro commit_phase)
next
  case (expire s i tok)
  then show ?case by (simp add: phase_of_def phase_step.stay)
next
  case (hook hk s)
  then obtain es where "exec_pipeline hk s = s\<lparr>q_external := es\<rparr>" using exec_external by blast
  then show ?case by (simp add: phase_of_def phase_step.stay)
next
  case (enqueue s i now d delay)
  then have i: "i \<notin> set (live_ids s)" by simp
  have e: "EEnqueue i (i \<in> set (live_ids s)) = EEnqueue i False" using i by simp
  show ?case unfolding e by (rule enqueue_phase [OF enqueue.prems(2) i])
next
  case (forget s i)
  then show ?case by (simp add: phase_of_def remove_from_dedupe_set_def phase_step.stay)
next
  case (forget_all s)
  then show ?case by (simp add: phase_of_def empty_dedupe_set_def phase_step.stay)
qed (simp_all only: push_phase cancel_phase pop_phase prune_phase)

end
