(* ===== verification/Twmq_Queue_Thms.thy ===== *)
theory Twmq_Queue_Thms
  imports Twmq_Queue_View
begin

text \<open>
  The properties of the single-lane queue, each for every interleaving of its clients or for
  every state that satisfies the queue invariant, with the runs that witness them.
\<close>

subsection \<open>A concrete run for the witnesses\<close>

definition demo_pop_id :: string where
  "demo_pop_id = replicate 21 (CHR ''x'')"

definition demo_pushed :: "unit queue" where
  "demo_pushed = snd (push_script ''a'' ''1'' 5 0 ''last'' empty_queue)"

definition demo_two :: "unit queue" where
  "demo_two = snd (push_script ''b'' ''2'' 6 9 ''first'' demo_pushed)"

definition demo_popped :: "unit queue" where
  "demo_popped = snd (pop_script 7 demo_pop_id 1 30 demo_pushed)"

definition demo_token :: lease_token where
  "demo_token = make_lease_token 7 ''a'' 1 demo_pop_id"

definition demo_done :: "unit queue" where
  "demo_done = exec_pipeline (success_commands default_queue_options 8 ''a'' demo_token ''ok'') demo_popped"

definition demo_job :: "unit BorrowedJob" where
  "demo_job = \<lparr>bj_job = \<lparr>jb_id = ''a'', jb_data = (), jb_attempts = 1, jb_created_at = 5,
     jb_processed_at = Some 7, jb_finished_at = None\<rparr>, bj_lease_token = demo_token\<rparr>"

definition demo_handler :: "(unit, unit, unit, unit) handler" where
  "demo_handler = \<lparr>on_success = \<lambda>_ _. [External ()], on_nack = \<lambda>_ _ _ _. [], on_fail = \<lambda>_ _. [],
     on_queue_error = \<lambda>_ _. [], user_cancelled = (), output_json = \<lambda>_. Some ''ok'',
     error_json = \<lambda>_. ([], True), marker_json = \<lambda>_ _ _. Inr []\<rparr>"

lemma demo_run_pushed: "queue_run default_queue_options empty_queue [EPush ''a''] demo_pushed"
  using queue_run.step [OF queue_run.start queue_step.push] by (simp add: demo_pushed_def)

lemma demo_run_two: "queue_run default_queue_options empty_queue [EPush ''a'', EPush ''b''] demo_two"
  using queue_run.step [OF demo_run_pushed queue_step.push] by (simp add: demo_two_def)

lemma demo_run_popped:
  "queue_run default_queue_options empty_queue [EPush ''a'', EPop demo_pop_id] demo_popped"
  using queue_run.step [OF demo_run_pushed queue_step.pop] by (simp add: demo_popped_def)

lemma demo_inv: "queue_inv demo_pushed" "queue_inv demo_two" "queue_inv demo_popped"
  using queue_run_inv [OF demo_run_pushed] queue_run_inv [OF demo_run_two] queue_run_inv [OF demo_run_popped]
  by (simp_all add: queue_inv_empty)

lemma demo_lease: "lease_exists (''a'', demo_token) demo_popped"
  by code_simp

lemma demo_run_done:
  "queue_run default_queue_options empty_queue
     [EPush ''a'', EPop demo_pop_id, ECommit ''a'' demo_token] demo_done"
proof -
  have "commit_loop 1 (lease_exists (''a'', demo_token))
      (exec_pipeline ([] @ success_commands default_queue_options 8 ''a'' demo_token ''ok'')) quiet_env demo_popped
      = (Inr True, demo_done)"
    unfolding commit_loop_quiet_iff by (simp add: demo_lease demo_done_def)
  then have "queue_step default_queue_options demo_popped (ECommit ''a'' demo_token) demo_done"
    by (rule queue_step.commit [rotated 2]) (simp_all add: completion_commands.success)
  from queue_run.step [OF demo_run_popped this] show ?thesis by simp
qed

subsection \<open>Safety of every interleaving\<close>

text \<open>
  C12. In every state that any interleaving of pushes, cancellations, polls, lease-fenced
  completions, prunes, hook commands, jobs submitted by hooks, removals of deduplication marks and
  lease expiries can reach from an empty queue, no stored job is lost: it is in some list; a
  running job has its data, and exactly the running jobs have a lease token; only stored jobs are
  deduplicated or marked for cancellation. When, in addition, hooks submitted only ids that
  were not live and deduplication marks were removed only from jobs that were not live, a job is
  in at most one of pending, delayed and active, once; every such job still has its data and its
  deduplication mark; and a live lease key is the one the metadata of an active job names.
\<close>

theorem queue_reachable_inv:
  assumes "queue_run opts empty_queue evs s"
  shows "store_inv s \<and> (list_all orderly evs \<longrightarrow> queue_inv s)"
  using queue_run_store [OF assms store_inv_empty] queue_run_inv [OF assms _ queue_inv_empty] by blast

theorem queue_reachable_inv_witness: "store_inv demo_done \<and> queue_inv demo_done \<and> q_success demo_done = [''a'']"
proof -
  have "list_all orderly [EPush ''a'', EPop demo_pop_id, ECommit ''a'' demo_token]" by simp
  moreover have "q_success demo_popped = []" by code_simp
  then have "q_success demo_done = [''a'']"
    by (simp add: demo_done_def success_commands_def default_queue_options_def script_defs)
  ultimately show ?thesis using queue_reachable_inv [OF demo_run_done] by blast
qed

lemma stale_complete_job:
  assumes "\<not> lease_exists (jb_id (bj_job job), bj_lease_token job) s"
    and "env_within (other_clients (jb_id (bj_job job), bj_lease_token job)) env"
    and "complete_job h opts now probe connect env f job result idle s = (r, idle', s')"
  shows "(other_clients (jb_id (bj_job job), bj_lease_token job))\<^sup>*\<^sup>* s s'"
proof (cases "completion_pipeline h opts now job result")
  case (Inl e)
  with assms(3) show ?thesis by (simp add: complete_job_def)
next
  case (Inr p)
  let ?k = "(jb_id (bj_job job), bj_lease_token job)"
  obtain b i s1 where c: "commit_if_leased probe connect (lease_exists ?k) (exec_pipeline p) env idle s = (b, i, s1)"
    by (metis prod_cases3)
  from commit_if_leased_dead [OF assms(2,1) c] have "b \<noteq> Inr True" and "(other_clients ?k)\<^sup>*\<^sup>* s s1"
    by simp_all
  with assms(3) Inr c show ?thesis
    by (cases b) (auto simp: complete_job_def split: bool.splits)
qed

text \<open>
  C1. Each lease token commits at most once: in every run whose polls draw fresh random ids, at
  most one completion transaction of a job is executed under a given token, whatever duplicated,
  delayed or stale workers try; and once it is, every later \<open>complete_job\<close> with that token,
  whatever its result, its hooks and the network do, leaves the queue as the other clients alone
  could have left it.
\<close>

theorem lease_commits_at_most_once:
  assumes "queue_run opts (empty_queue :: 'h queue) evs s" and "fresh_pop_ids evs"
  shows "count_list evs (ECommit (jb_id (bj_job job)) (bj_lease_token job)) \<le> 1
    \<and> (ECommit (jb_id (bj_job job)) (bj_lease_token job) \<in> set evs
       \<and> env_within (other_clients (jb_id (bj_job job), bj_lease_token job)) env
       \<and> complete_job h opts' now probe connect env f job result idle s = (r, idle', s')
       \<longrightarrow> (other_clients (jb_id (bj_job job), bj_lease_token job))\<^sup>*\<^sup>* s s')"
proof -
  let ?j = "jb_id (bj_job job)" and ?tok = "bj_lease_token job"
  have "\<not> lease_exists (?j, ?tok) (empty_queue :: 'h queue)" by (simp add: lease_exists_def empty_queue_def)
  then have bound: "count_list evs (ECommit ?j ?tok) + (if lease_exists (?j, ?tok) s then 1 else 0) \<le> 1"
    using queue_run_commit_count [OF assms(1), of ?j ?tok] minted_only_once [OF assms(2), of ?tok]
    by simp
  have "\<not> lease_exists (?j, ?tok) s" if "ECommit ?j ?tok \<in> set evs"
  proof -
    have "count_list evs (ECommit ?j ?tok) \<noteq> 0" using that by (simp add: count_list_0_iff)
    then show ?thesis using bound by (auto split: if_splits)
  qed
  then show ?thesis using bound stale_complete_job by (auto split: if_splits)
qed

theorem lease_commits_at_most_once_witness:
  "fresh_pop_ids [EPush ''a'', EPop demo_pop_id, ECommit ''a'' demo_token]
   \<and> count_list [EPush ''a'', EPop demo_pop_id, ECommit ''a'' demo_token] (ECommit ''a'' demo_token) \<le> 1
   \<and> (\<exists>r idle' s'. complete_job demo_handler default_queue_options 9 (\<lambda>_. True) (Some ()) quiet_env Delivered
       demo_job (Inr ()) [] demo_done = (r, idle', s')
     \<and> (other_clients (''a'', demo_token))\<^sup>*\<^sup>* demo_done s')"
proof -
  obtain r idle' s' where c: "complete_job demo_handler default_queue_options 9 (\<lambda>_. True) (Some ()) quiet_env
      Delivered demo_job (Inr ()) [] demo_done = (r, idle', s')"
    by (metis prod_cases3)
  have f: "fresh_pop_ids [EPush ''a'', EPop demo_pop_id, ECommit ''a'' demo_token]"
    by (simp add: fresh_pop_ids_def demo_pop_id_def)
  have j: "jb_id (bj_job demo_job) = ''a''" "bj_lease_token demo_job = demo_token" by (simp_all add: demo_job_def)
  note once = lease_commits_at_most_once [OF demo_run_done f, where job = demo_job and env = quiet_env
      and h = demo_handler and opts' = default_queue_options, unfolded j]
  have "ECommit ''a'' demo_token \<in> set [EPush ''a'', EPop demo_pop_id, ECommit ''a'' demo_token]" by simp
  with conjunct2 [OF once] c quiet_env_within have "(other_clients (''a'', demo_token))\<^sup>*\<^sup>* demo_done s'" by blast
  with conjunct1 [OF once] c f show ?thesis by blast
qed

text \<open>
  C6. Every completion is fenced: whatever other clients do between the commands of
  \<open>complete_job\<close>, as long as EXEC keeps the documented guarantee of WATCH, the call either
  leaves the queue to the others, or applies its whole pipeline exactly once, at a moment when
  the job's lease was live, followed at most by the prune of the list it pushed to. In
  particular a lost reply is never answered by a second application.
\<close>

theorem complete_job_is_fenced:
  assumes "watch_guarantee (lease_exists (jb_id (bj_job job), bj_lease_token job)) env"
    and "env_within (other_clients (jb_id (bj_job job), bj_lease_token job)) env"
    and "complete_job h opts now probe connect env f job result idle s = (r, idle', s')"
  shows "(other_clients (jb_id (bj_job job), bj_lease_token job))\<^sup>*\<^sup>* s s'
     \<or> (\<exists>p u. completion_pipeline h opts now job result = Inr p
          \<and> (other_clients (jb_id (bj_job job), bj_lease_token job))\<^sup>*\<^sup>* s u
          \<and> lease_exists (jb_id (bj_job job), bj_lease_token job) u
          \<and> s' \<in> {exec_pipeline p u, snd (prune_success_script (max_success opts) (exec_pipeline p u)),
                   snd (prune_failed_script (max_failed opts) (exec_pipeline p u))})"
proof (cases "completion_pipeline h opts now job result")
  case (Inl e)
  with assms(3) show ?thesis by (simp add: complete_job_def)
next
  case (Inr p)
  let ?k = "(jb_id (bj_job job), bj_lease_token job)"
  obtain b i s1 where c: "commit_if_leased probe connect (lease_exists ?k) (exec_pipeline p) env idle s = (b, i, s1)"
    by (metis prod_cases3)
  from commit_if_leased_cases [OF c assms(2,1)]
  have "(other_clients ?k)\<^sup>*\<^sup>* s s1 \<and> b \<noteq> Inr True
      \<or> (\<exists>u. (other_clients ?k)\<^sup>*\<^sup>* s u \<and> lease_exists ?k u \<and> s1 = exec_pipeline p u)" by blast
  moreover have "b \<noteq> Inr True \<Longrightarrow> s' = s1"
    using assms(3) Inr c by (cases b) (auto simp: complete_job_def split: bool.splits)
  moreover have "s' \<in> {s1, snd (prune_success_script (max_success opts) s1), snd (prune_failed_script (max_failed opts) s1)}"
    using assms(3) Inr c
    by (auto simp: complete_job_def post_success_completion_def post_nack_completion_def post_fail_completion_def
        invoke_def split: sum.splits bool.splits JobError.splits fate.splits prod.splits)
  ultimately show ?thesis using Inr by blast
qed

theorem complete_job_is_fenced_witness:
  "watch_guarantee (lease_exists (jb_id (bj_job demo_job), bj_lease_token demo_job)) quiet_env
   \<and> (\<exists>r idle' s'. complete_job demo_handler default_queue_options 8 (\<lambda>_. True) (Some ()) quiet_env Delivered
       demo_job (Inr ()) [] demo_popped = (r, idle', s')
     \<and> ((other_clients (jb_id (bj_job demo_job), bj_lease_token demo_job))\<^sup>*\<^sup>* demo_popped s'
        \<or> (\<exists>p u. completion_pipeline demo_handler default_queue_options 8 demo_job (Inr ()) = Inr p
             \<and> lease_exists (jb_id (bj_job demo_job), bj_lease_token demo_job) u
             \<and> s' \<in> {exec_pipeline p u, snd (prune_success_script 1000 (exec_pipeline p u)),
                   snd (prune_failed_script 10000 (exec_pipeline p u))})))"
proof -
  obtain r idle' s' where c: "complete_job demo_handler default_queue_options 8 (\<lambda>_. True) (Some ()) quiet_env
      Delivered demo_job (Inr ()) [] demo_popped = (r, idle', s')"
    by (metis prod_cases3)
  have w: "watch_guarantee (lease_exists (jb_id (bj_job demo_job), bj_lease_token demo_job)) quiet_env"
    by (simp add: watch_guarantee_def quiet_env_def)
  have m: "max_success default_queue_options = 1000" "max_failed default_queue_options = 10000"
    by (simp_all add: default_queue_options_def)
  from complete_job_is_fenced [OF w quiet_env_within c, unfolded m] c w show ?thesis by blast
qed

subsection \<open>Completion\<close>

lemma commit_quiet:
  assumes "live s"
  shows "\<exists>idle'. commit_if_leased (\<lambda>_. True) (Some c) live tr quiet_env idle s = (Inr True, idle', tr s)"
  using commit_loop_quiet [of live s 10 tr] assms
  by (simp add: commit_if_leased_def checkout_def checkin_def Let_def)

lemma exec_external_map: "exec_pipeline (map External cmds) u = u\<lparr>q_external := q_external u @ cmds\<rparr>"
  by (induction cmds arbitrary: u) simp_all

lemma success_commands_effect:
  assumes "queue_inv s" and "lease_exists (j, tok) s"
    and t_def: "t = exec_pipeline (success_commands opts now j tok res) s"
  shows "q_success t = j # q_success s" and "q_results t j = Some res" and "phase_of t j = Finished"
    and "q_external t = q_external s" and "\<not> lease_exists (j, tok) t"
    and "j \<in> q_dedupe t \<longleftrightarrow> idempotency_mode opts = Permanent"
  using held_job_facts [OF assms(1,2)] IdempotencyMode.exhaust [of "idempotency_mode opts"]
  by (auto simp: t_def success_commands_def script_defs phase_of_def lease_exists_def)

lemma prune_success_keeps_head:
  assumes "q_success s = j # rest" and "0 < n"
  shows "job_view (snd (prune_success_script n s)) j = job_view s j"
    and "q_success (snd (prune_success_script n s)) = j # take (n - 1) rest"
proof -
  have j: "j \<in> set (take n (q_success s))" using assms by (cases n) auto
  then have eq: "(job_view s j)\<lparr>v_success := j \<in> set (take n (q_success s))\<rparr> = job_view s j"
    using assms by (simp add: job_view_def)
  have "view_prune (job_view s j) = job_view s j"
    using assms by (simp add: view_prune_def view_listed_def job_view_def)
  then show "job_view (snd (prune_success_script n s)) j = job_view s j"
    unfolding prune_success_view eq by simp
  show "q_success (snd (prune_success_script n s)) = j # take (n - 1) rest"
    using assms by (cases n) (simp_all add: prune_success_list)
qed

lemma same_view:
  assumes "job_view s j = job_view t j"
  shows "q_results s j = q_results t j" and "phase_of s j = phase_of t j"
    and "lease_exists (j, tok) s = lease_exists (j, tok) t" and "(j \<in> q_dedupe s) = (j \<in> q_dedupe t)"
    and "q_errors s j = q_errors t j" and "q_data s j = q_data t j" and "q_meta s j = q_meta t j"
    and "(j \<in> set (q_pending s)) = (j \<in> set (q_pending t))"
  using arg_cong [OF assms, of v_result] arg_cong [OF assms, of view_phase]
    fun_cong [OF arg_cong [OF assms, of v_leases], of tok] arg_cong [OF assms, of v_dedupe]
    arg_cong [OF assms, of v_errors] arg_cong [OF assms, of v_data] arg_cong [OF assms, of v_meta]
    arg_cong [OF assms, of v_pending]
  by (simp_all add: phase_of_view lease_exists_def) (simp_all add: job_view_def)

lemma prune_success_external: "q_external (snd (prune_success_script n s)) = q_external s"
proof -
  have "q_external (fst (fold (prune_job q_success q_failed) js (u, m))) = q_external u" for js m and u :: "'a queue"
    by (rule fold_pair_invariant [where P = "\<lambda>v. q_external v = q_external u"])
       (auto simp: prune_job_def Let_def)
  then show ?thesis by (auto simp: prune_success_script_def Let_def case_prod_beta)
qed

text \<open>
  C18. A worker that still holds its lease and is not interfered with completes its job for good:
  \<open>complete_job\<close> on a success answers Ok, and then the job is at the head of the success list
  with its result stored, it is neither waiting nor running, its lease is consumed, the
  hook's commands have been applied exactly once, and its id stays deduplicated exactly in
  permanent mode.
\<close>

theorem complete_job_success:
  assumes "queue_inv s" and "lease_exists (jb_id (bj_job job), bj_lease_token job) s"
    and "output_json h res = Some text" and "on_success h job res = map External cmds"
    and "0 < max_success opts"
  shows "\<exists>idle' s'. complete_job h opts now (\<lambda>_. True) (Some c) quiet_env Delivered job (Inr res) idle s
            = (Inr (), idle', s')
     \<and> hd (q_success s') = jb_id (bj_job job) \<and> q_results s' (jb_id (bj_job job)) = Some text
     \<and> phase_of s' (jb_id (bj_job job)) = Finished
     \<and> \<not> lease_exists (jb_id (bj_job job), bj_lease_token job) s'
     \<and> q_external s' = q_external s @ cmds
     \<and> (jb_id (bj_job job) \<in> q_dedupe s' \<longleftrightarrow> idempotency_mode opts = Permanent)"
proof -
  let ?j = "jb_id (bj_job job)" and ?tok = "bj_lease_token job"
  define u where "u = s\<lparr>q_external := q_external s @ cmds\<rparr>"
  define t where "t = exec_pipeline (success_commands opts now ?j ?tok text) u"
  define s' where "s' = snd (prune_success_script (max_success opts) t)"
  have u: "queue_inv u" "lease_exists (?j, ?tok) u"
    using assms(1,2) by (simp_all add: u_def external_inv lease_exists_def)
  note E = success_commands_effect [OF u t_def]
  note K = prune_success_keeps_head [OF E(1) assms(5), folded s'_def]
  have pipe: "completion_pipeline h opts now job (Inr res) =
      Inr (map External cmds @ success_commands opts now ?j ?tok text)"
    using assms(3,4) by (simp add: completion_pipeline_def add_success_operations_eq)
  obtain idle' where commit: "commit_if_leased (\<lambda>_. True) (Some c) (lease_exists (?j, ?tok))
      (exec_pipeline (map External cmds @ success_commands opts now ?j ?tok text)) quiet_env idle s
      = (Inr True, idle', t)"
    using commit_quiet [of "lease_exists (?j, ?tok)" s c
        "exec_pipeline (map External cmds @ success_commands opts now ?j ?tok text)" idle] assms(2)
    by (auto simp: t_def u_def exec_external_map)
  have "complete_job h opts now (\<lambda>_. True) (Some c) quiet_env Delivered job (Inr res) idle s = (Inr (), idle', s')"
    using pipe commit by (simp add: complete_job_def post_success_completion_def invoke_def s'_def)
  moreover have "hd (q_success s') = ?j" using K(2) by simp
  moreover have "q_external s' = q_external s @ cmds"
    using E(4) by (simp add: s'_def prune_success_external u_def)
  moreover have "q_results s' ?j = Some text" "phase_of s' ?j = Finished" "\<not> lease_exists (?j, ?tok) s'"
      "?j \<in> q_dedupe s' \<longleftrightarrow> idempotency_mode opts = Permanent"
    using same_view [OF K(1)] E(2,3,5,6) by simp_all
  ultimately show ?thesis by blast
qed

theorem complete_job_success_witness:
  "\<exists>idle' s'. complete_job demo_handler default_queue_options 8 (\<lambda>_. True) (Some ()) quiet_env
      Delivered demo_job (Inr ()) [] demo_popped = (Inr (), idle', s')
    \<and> hd (q_success s') = ''a''"
proof -
  have "lease_exists (jb_id (bj_job demo_job), bj_lease_token demo_job) demo_popped"
    using demo_lease by (simp add: demo_job_def)
  from complete_job_success [OF demo_inv(3) this, of demo_handler "()" "''ok''" "[()]"
      default_queue_options 8 "()" "[]"]
  show ?thesis by (auto simp: demo_handler_def demo_job_def default_queue_options_def)
qed

end
