(* ===== verification/Twmq_Pop_Thms.thy ===== *)
theory Twmq_Pop_Thms
  imports Twmq_Queue_Thms
begin

text \<open>
  What one poll of the single-lane queue (\<open>pop_batch_jobs\<close>) promises: the order and the
  bound of the batch, the leases of the jobs handed out, recovery of lost jobs, delays and
  cancellations.
\<close>

subsection \<open>The poll in terms of housekeeping\<close>

lemma pop_lists:
  assumes "queue_inv s" and "pop_script now pop_id batch secs s = ((rows, cancelled, timed_out), s')"
  shows "map fst rows = take batch (q_pending (housekeeping now s))"
    and "q_pending s' = drop batch (q_pending (housekeeping now s))"
    and "q_delayed s' = q_delayed (housekeeping now s)"
    and "q_failed s' = q_failed (housekeeping now s)"
    and "q_cancels s' = q_cancels (housekeeping now s)"
    and "set (keys (q_active s')) = set (map fst rows) \<union> set (keys (q_active (housekeeping now s)))"
    and "\<And>row. row \<in> set rows \<Longrightarrow> leased_row secs (housekeeping now s) s' row"
proof -
  have p: "pop_pending now pop_id batch secs (housekeeping now s) = (s', rows)"
    using assms(2) by (auto simp: pop_script_eq prod_eq_iff)
  note P = pop_pending_props [OF housekeeping_inv [OF assms(1)] p]
  show "map fst rows = take batch (q_pending (housekeeping now s))"
    "q_pending s' = drop batch (q_pending (housekeeping now s))"
    "q_delayed s' = q_delayed (housekeeping now s)" "q_failed s' = q_failed (housekeeping now s)"
    "q_cancels s' = q_cancels (housekeeping now s)"
    "set (keys (q_active s')) = set (map fst rows) \<union> set (keys (q_active (housekeeping now s)))"
    using P(1-7) by simp_all
  show "\<And>row. row \<in> set rows \<Longrightarrow> leased_row secs (housekeeping now s) s' row" by (rule P(9))
qed

lemma handed_out_or_waiting:
  assumes "queue_inv s" and "pop_script now pop_id batch secs s = ((rows, cancelled, timed_out), s')"
  shows "j \<in> set (q_pending (housekeeping now s)) \<longleftrightarrow> j \<in> set (map fst rows) \<or> j \<in> set (q_pending s')"
  using pop_lists(1,2) [OF assms] by (metis Un_iff append_take_drop_id set_append)

lemma housekeeping_cases:
  assumes "queue_inv s"
  shows "j \<in> set (q_pending (housekeeping now s)) \<longleftrightarrow> v_pending (view_housekeeping now (job_view s j))"
    and "map_of (q_delayed (housekeeping now s)) j = v_delayed (view_housekeeping now (job_view s j))"
    and "j \<in> set (q_failed (housekeeping now s)) \<longleftrightarrow> v_failed (view_housekeeping now (job_view s j))"
    and "j \<in> set (keys (q_active (housekeeping now s))) \<longleftrightarrow> v_active (view_housekeeping now (job_view s j))"
    and "j \<in> set (q_cancels (housekeeping now s)) \<longleftrightarrow> v_cancel (view_housekeeping now (job_view s j))"
  unfolding housekeeping_view [OF assms, symmetric] by (simp_all add: job_view_def)

text \<open>A pending list without duplicates: a batch never holds a job twice.\<close>

lemma inv_pending_distinct: "queue_inv s \<Longrightarrow> distinct (q_pending s)"
  by (simp add: queue_inv_defs)

lemma housekeeping_data: "queue_inv s \<Longrightarrow> q_data (housekeeping now s) j = q_data s j"
proof -
  assume "queue_inv s"
  from arg_cong [OF housekeeping_view [OF this, of now j], of v_data]
  have "q_data (housekeeping now s) j = v_data (view_housekeeping now (job_view s j))"
    by (simp add: job_view_def)
  also have "\<dots> = v_data (job_view s j)"
    by (simp add: view_housekeeping_def view_cleanup_def view_requeue_def view_cancellation_def view_release_def
        Let_def split: option.splits)
  finally show ?thesis by (simp add: job_view_def)
qed

subsection \<open>The batch\<close>

text \<open>
  C24. A poll hands out the head of the pending list, in order, after housekeeping: at most as
  many jobs as asked for, none twice, the rest of the list untouched; and every job handed
  out comes with its stored data, is running, and has a live lease under the token in its row.
\<close>

theorem pop_hands_out_leased_head:
  assumes "queue_inv s" and "0 < secs"
    and "pop_script now pop_id batch secs s = ((rows, cancelled, timed_out), s')"
  shows "map fst rows = take batch (q_pending (housekeeping now s))
     \<and> q_pending s' = drop batch (q_pending (housekeeping now s))
     \<and> length rows \<le> batch \<and> distinct (map fst rows)
     \<and> list_all (\<lambda>(j, d, a, c, p, t). lease_exists (j, t) s' \<and> q_data s j = Some d \<and> phase_of s' j = Running) rows"
proof (intro conjI)
  note P = pop_lists [OF assms(1,3)]
  show "map fst rows = take batch (q_pending (housekeeping now s))"
    "q_pending s' = drop batch (q_pending (housekeeping now s))" by (fact P(1), fact P(2))
  have "length (map fst rows) \<le> batch" unfolding P(1) by simp
  then show "length rows \<le> batch" by simp
  show "distinct (map fst rows)"
    unfolding P(1) using inv_pending_distinct [OF housekeeping_inv [OF assms(1)]] by simp
  show "list_all (\<lambda>(j, d, a, c, p, t). lease_exists (j, t) s' \<and> q_data s j = Some d \<and> phase_of s' j = Running) rows"
    unfolding list_all_iff
  proof safe
    fix j d a c p t
    assume r: "(j, d, a, c, p, t) \<in> set rows"
    then have "j \<in> set (map fst rows)" by force
    then show "phase_of s' j = Running" by (simp add: phase_of_def P(6))
    from P(7) [OF r] assms show "lease_exists (j, t) s'" "q_data s j = Some d"
      by (simp_all add: leased_row_def lease_exists_def housekeeping_data)
  qed
qed

lemma demo_pop_reply:
  "pop_script 7 demo_pop_id 1 30 demo_pushed = (([(''a'', ''1'', 1, 5, 7, demo_token)], [], []), demo_popped)"
proof (rule prod_eqI)
  show "fst (pop_script 7 demo_pop_id 1 30 demo_pushed) = fst (([(''a'', ''1'', 1, 5, 7, demo_token)], [], []), demo_popped)"
    by code_simp
  show "snd (pop_script 7 demo_pop_id 1 30 demo_pushed) = snd (([(''a'', ''1'', 1, 5, 7, demo_token)], [], []), demo_popped)"
    by (simp add: demo_popped_def)
qed

theorem pop_hands_out_leased_head_witness:
  "map fst [(''a'', ''1'', 1::nat, 5::nat, 7::nat, demo_token)] = take 1 (q_pending (housekeeping 7 demo_pushed))
   \<and> lease_exists (''a'', demo_token) demo_popped"
  using pop_hands_out_leased_head [OF demo_inv(1) _ demo_pop_reply] by simp

subsection \<open>Recovery\<close>

text \<open>
  C25. A worker that dies loses its job to the next one: a job that is active, whose lease key is
  gone and that nobody asked to cancel, is after the next poll either handed out in its batch or
  waiting in pending. A job whose lease is still live is in no other worker's batch and stays
  active with the same token.
\<close>

theorem pop_recovers_lost_jobs:
  assumes "queue_inv s" and "j \<in> set (keys (q_active s))"
    and "pop_script now pop_id batch secs s = ((rows, cancelled, timed_out), s')"
  shows "(\<not> lease_exists (j, tok) s \<longrightarrow> m_lease_token (q_meta s j) = Some tok \<longrightarrow> j \<notin> set (q_cancels s)
            \<longrightarrow> j \<in> set (map fst rows) \<or> j \<in> set (q_pending s'))
       \<and> (lease_exists (j, tok) s
            \<longrightarrow> j \<notin> set (map fst rows) \<and> phase_of s' j = Running)"
proof (intro conjI impI)
  have a: "v_active (job_view s j)" "\<not> v_pending (job_view s j)" "v_delayed (job_view s j) = None"
    using assms(2) inv_active_not_waiting [OF assms(1,2)] by (simp_all add: job_view_def keys_map_of)
  note H = housekeeping_cases [OF assms(1), where j = j and now = now]
  show "j \<in> set (map fst rows) \<or> j \<in> set (q_pending s')"
    if "\<not> lease_exists (j, tok) s" "m_lease_token (q_meta s j) = Some tok" "j \<notin> set (q_cancels s)"
  proof -
    have "v_leases (job_view s j) tok = None" "m_lease_token (v_meta (job_view s j)) = Some tok"
      "\<not> v_cancel (job_view s j)"
      using that by (simp_all add: job_view_def lease_exists_def)
    with a have "v_pending (view_housekeeping now (job_view s j))"
      by (simp add: view_housekeeping_def view_cleanup_def view_requeue_def)
    with H(1) handed_out_or_waiting [OF assms(1,3)] show ?thesis by simp
  qed
  assume l: "lease_exists (j, tok) s"
  then have "m_lease_token (v_meta (job_view s j)) = Some tok" "v_leases (job_view s j) tok \<noteq> None"
    using inv_lease_token [OF assms(1)] by (auto simp: job_view_def lease_exists_def)
  with a have "view_housekeeping now (job_view s j) = job_view s j"
    by (auto simp: view_housekeeping_def view_cleanup_def view_cancellation_def Let_def)
  with H a have h: "j \<notin> set (q_pending (housekeeping now s))" "j \<in> set (keys (q_active (housekeeping now s)))"
    by simp_all
  then show "j \<notin> set (map fst rows)" using handed_out_or_waiting [OF assms(1,3)] by blast
  show "phase_of s' j = Running" using h(2) pop_lists(6) [OF assms(1,3)] by (simp add: phase_of_def)
qed

lemma demo_active: "''a'' \<in> set (keys (q_active demo_popped))"
  by code_simp

theorem pop_recovers_lost_jobs_witness:
  "\<exists>rows cancelled timed_out s'. pop_script 9 (replicate 21 (CHR ''y'')) 4 30 demo_popped = ((rows, cancelled, timed_out), s')
     \<and> ''a'' \<notin> set (map fst rows) \<and> phase_of s' ''a'' = Running"
proof -
  obtain rows cancelled timed_out s' where
    p: "pop_script 9 (replicate 21 (CHR ''y'')) 4 30 demo_popped = ((rows, cancelled, timed_out), s')"
    by (metis prod_cases3 surj_pair)
  from pop_recovers_lost_jobs [OF demo_inv(3) demo_active p, of demo_token] demo_lease p show ?thesis by blast
qed

subsection \<open>Delays\<close>

text \<open>
  C27. A delay is honoured exactly: a delayed job that nobody cancelled is, at a poll before its
  time, still delayed until the same time and not handed out; at a poll at or after its
  time it is no longer delayed, and is handed out or waiting in pending.
\<close>

theorem pop_honours_delay:
  assumes "queue_inv s" and "map_of (q_delayed s) j = Some t" and "j \<notin> set (q_cancels s)"
    and "pop_script now pop_id batch secs s = ((rows, cancelled, timed_out), s')"
  shows "if now < t then map_of (q_delayed s') j = Some t \<and> j \<notin> set (map fst rows)
         else map_of (q_delayed s') j = None \<and> (j \<in> set (map fst rows) \<or> j \<in> set (q_pending s'))"
proof -
  have k: "j \<in> set (keys (q_delayed s))" using assms(2) by (simp add: keys_map_of)
  then have a: "\<not> v_active (job_view s j)" "\<not> v_pending (job_view s j)" "v_delayed (job_view s j) = Some t"
      "\<not> v_cancel (job_view s j)"
    using assms(2,3) inv_active_not_waiting [OF assms(1)] inv_pending_not_delayed [OF assms(1)]
    by (auto simp: job_view_def)
  then have "view_housekeeping now (job_view s j) = (if t \<le> now then view_release (job_view s j) else job_view s j)"
    by (simp add: view_housekeeping_def)
  with a housekeeping_cases(1,2) [OF assms(1), where j = j and now = now]
    pop_lists(3) [OF assms(1,4)] handed_out_or_waiting [OF assms(1,4), of j]
  show ?thesis by (auto simp: view_release_def)
qed

theorem pop_honours_delay_witness:
  "\<exists>rows cancelled timed_out s'. pop_script 7 demo_pop_id 4 30 demo_two = ((rows, cancelled, timed_out), s')
     \<and> map_of (q_delayed s') ''b'' = Some 15 \<and> ''b'' \<notin> set (map fst rows)"
proof -
  obtain rows cancelled timed_out s' where
    p: "pop_script 7 demo_pop_id 4 30 demo_two = ((rows, cancelled, timed_out), s')"
    by (metis prod_cases3 surj_pair)
  have "map_of (q_delayed demo_two) ''b'' = Some 15" "''b'' \<notin> set (q_cancels demo_two)" by code_simp+
  from pop_honours_delay [OF demo_inv(2) this p] p show ?thesis by auto
qed

subsection \<open>Cancellation\<close>

text \<open>
  A cancellation request on a running job takes effect as soon as the job is not held any
  more: if its lease is gone at a poll, the poll does not hand the job out, the job is in the
  failed list, it is neither waiting nor running, and the request is consumed. While the
  lease is live the request stays.
\<close>

theorem pop_applies_cancellation:
  assumes "queue_inv s" and "j \<in> set (q_cancels s)" and "m_lease_token (q_meta s j) = Some tok"
    and "pop_script now pop_id batch secs s = ((rows, cancelled, timed_out), s')"
  shows "if lease_exists (j, tok) s then j \<in> set (q_cancels s') \<and> phase_of s' j = Running
         else j \<notin> set (map fst rows) \<and> j \<in> set (q_failed s') \<and> phase_of s' j = Finished \<and> j \<notin> set (q_cancels s')"
proof -
  have act: "j \<in> set (keys (q_active s))" by (rule inv_token_active [OF assms(1,3)])
  let ?v = "job_view s j"
  have a: "v_active ?v" "\<not> v_pending ?v" "v_delayed ?v = None" "v_cancel ?v" "m_lease_token (v_meta ?v) = Some tok"
    "v_leases ?v tok = None \<longleftrightarrow> \<not> lease_exists (j, tok) s"
    using assms(2,3) act inv_active_not_waiting [OF assms(1) act]
    by (simp_all add: job_view_def keys_map_of lease_exists_def)
  let ?w = "view_housekeeping now ?v"
  have w: "if lease_exists (j, tok) s then ?w = ?v
       else \<not> v_active ?w \<and> \<not> v_pending ?w \<and> v_delayed ?w = None \<and> v_failed ?w \<and> \<not> v_cancel ?w"
    using a by (auto simp: view_housekeeping_def view_cleanup_def view_cancellation_def view_requeue_def Let_def)
  note H = housekeeping_cases [OF assms(1), where j = j and now = now]
  note P = pop_lists [OF assms(1,4)]
  show ?thesis
    using w a H P(3-6) handed_out_or_waiting [OF assms(1,4), of j]
    by (auto simp: phase_of_def keys_map_of split: if_splits)
qed

definition expire_lease :: "job_id \<times> lease_token \<Rightarrow> 'h queue \<Rightarrow> 'h queue" where
  "expire_lease k s = s\<lparr>q_leases := (q_leases s)(k := None)\<rparr>"

definition demo_cancelled :: "unit queue" where
  "demo_cancelled = expire_lease (''a'', demo_token) (snd (cancel_script ''a'' 8 demo_popped))"

lemma demo_cancelled_inv: "queue_inv demo_cancelled"
  unfolding demo_cancelled_def expire_lease_def by (intro expire_inv cancel_script_inv demo_inv(3))

theorem pop_applies_cancellation_witness:
  "\<exists>rows cancelled timed_out s'. pop_script 9 demo_pop_id 4 30 demo_cancelled = ((rows, cancelled, timed_out), s')
     \<and> ''a'' \<notin> set (map fst rows) \<and> ''a'' \<in> set (q_failed s')"
proof -
  obtain rows cancelled timed_out s' where
    p: "pop_script 9 demo_pop_id 4 30 demo_cancelled = ((rows, cancelled, timed_out), s')"
    by (metis prod_cases3 surj_pair)
  have "''a'' \<in> set (q_cancels demo_cancelled)" "m_lease_token (q_meta demo_cancelled ''a'') = Some demo_token"
    by code_simp+
  from pop_applies_cancellation [OF demo_cancelled_inv this p] p show ?thesis
    by (auto simp: demo_cancelled_def expire_lease_def lease_exists_def)
qed

end
