(* ===== verification/Twmq_Client_Thms.thy ===== *)
theory Twmq_Client_Thms
  imports Twmq_Pop_Thms
begin

text \<open>
  What the clients of the single-lane queue rely on: submitting a job and reading it back,
  resubmission after a lost reply, retries and failures of a held job, retention limits, and
  the life cycle of a job as an abstract state machine the queue refines.
\<close>

subsection \<open>Definitions of the witnesses\<close>

definition demo_options :: "string JobOptions" where
  "demo_options = \<lparr>jo_data = ''1'', jo_id = ''a'', jo_delay = None\<rparr>"

definition demo_bad_job :: "unit option Job" where
  "demo_bad_job = \<lparr>jb_id = ''a'', jb_data = None, jb_attempts = 1, jb_created_at = 5,
     jb_processed_at = Some 7, jb_finished_at = Some 7\<rparr>"

subsection \<open>Submission\<close>

text \<open>
  A job that is submitted can be read back: after an acknowledged push of a job whose id is not
  deduplicated, \<open>get_job\<close> finds the same id and data, no attempts and the time of the
  push; the two later time stamps are those an earlier run under the same id left behind.
\<close>

theorem push_then_get_job:
  assumes "jo_id opts \<notin> q_dedupe s" and "to_json (jo_data opts) = Some text"
    and "from_json text = Some (jo_data opts)" and "now < 2 ^ 64"
  shows "\<exists>s' job. push to_json now Delivered opts s = (Inr job, s')
     \<and> get_job from_json (jo_id opts) s' = Inr (Some
         (job\<lparr>jb_processed_at := Option.bind (m_processed_at (q_meta s (jo_id opts))) parse_u64,
              jb_finished_at := Option.bind (m_finished_at (q_meta s (jo_id opts))) parse_u64\<rparr>))
     \<and> jb_id job = jo_id opts \<and> jb_data job = jo_data opts \<and> jb_attempts job = 0 \<and> jb_created_at job = now"
  using assms
  by (auto simp: push_def invoke_def push_script_def get_job_def Let_def script_defs unwrap_or_def
      parse_u32_def parse_u64_def)

theorem push_then_get_job_witness:
  "\<exists>s' job. push Some 5 Delivered demo_options (empty_queue :: unit queue) = (Inr job, s')
     \<and> jb_data job = ''1'' \<and> jb_created_at job = 5"
proof -
  have p: "jo_id demo_options \<notin> q_dedupe (empty_queue :: unit queue)" "Some (jo_data demo_options) = Some ''1''"
    "Some ''1'' = Some (jo_data demo_options)" "(5::nat) < 2 ^ 64"
    by (simp_all add: demo_options_def empty_queue_def)
  from push_then_get_job [where to_json = Some and from_json = Some, OF p]
  obtain s' job where "push Some 5 Delivered demo_options (empty_queue :: unit queue) = (Inr job, s')"
    "jb_data job = jo_data demo_options" "jb_created_at job = 5"
    by (elim exE conjE) (rule that)
  with p(2) show ?thesis by simp
qed

text \<open>
  C35. Submission is idempotent over a faulty network: when the push script ran, whether or not its
  reply arrived, every further push under the same id, with whatever data and delay, leaves the
  queue as it is until the id is released.
\<close>

theorem push_retry_is_idempotent:
  assumes "to_json (jo_data opts) = Some text" and "f \<noteq> NotRun" and "jo_id opts' = jo_id opts"
  shows "snd (push to_json now' f' opts' (snd (push to_json now f opts s))) = snd (push to_json now f opts s)"
proof -
  have d: "jo_id opts \<in> q_dedupe (snd (push to_json now f opts s))"
    using assms(1,2)
    by (cases f) (simp_all add: push_def invoke_def push_script_def Let_def script_defs)
  have r: "push_script (jo_id opts) x y z w t = ((0, jo_id opts), t)" if "jo_id opts \<in> q_dedupe t"
    for x y z w and t :: "'b queue"
    using that by (simp add: push_script_def)
  have "snd (push to_json now' f' opts' t) = t" if "jo_id opts \<in> q_dedupe t" for t :: "'b queue"
    using r [OF that] assms(3)
    by (cases f') (simp_all add: push_def invoke_def Let_def split: option.split)
  then show ?thesis using d by simp
qed

theorem push_retry_is_idempotent_witness:
  "snd (push Some 9 Delivered demo_options (snd (push Some 5 ReplyLost demo_options (empty_queue :: unit queue))))
     = snd (push Some 5 ReplyLost demo_options (empty_queue :: unit queue))"
  by (rule push_retry_is_idempotent [of Some demo_options "''1''"]) (simp_all add: demo_options_def)

text \<open>
  In active idempotency mode an id is not free again once its job is cancelled: cancelling a
  waiting job ends it, yet the id stays in the deduplication set, so a later push of
  the same id is dropped.
\<close>

theorem cancelled_id_stays_deduplicated:
  assumes "queue_inv s" and "phase_of s j = Waiting"
  shows "fst (cancel_script j now s) = CancelledImmediately
     \<and> phase_of (snd (cancel_script j now s)) j = Finished
     \<and> push_script j d now' delay pos (snd (cancel_script j now s)) = ((0, j), snd (cancel_script j now s))"
proof -
  have w: "j \<in> set (q_pending s) \<or> j \<in> set (keys (q_delayed s))" "j \<notin> set (keys (q_active s))"
    using assms(2) by (auto simp: phase_of_def split: if_splits)
  then have "j \<in> q_dedupe s" using inv_not_dedupe_not_live [OF assms(1)] by blast
  with w inv_pending_not_delayed [OF assms(1), of j] show ?thesis
    by (auto simp: cancel_script_def push_script_def phase_of_def script_defs)
qed

theorem cancelled_id_stays_deduplicated_witness:
  "push_script ''a'' ''2'' 9 0 ''last'' (snd (cancel_script ''a'' 8 demo_pushed))
     = ((0, ''a''), snd (cancel_script ''a'' 8 demo_pushed))"
proof -
  have "phase_of demo_pushed ''a'' = Waiting" by code_simp
  from cancelled_id_stays_deduplicated [OF demo_inv(1) this] show ?thesis by blast
qed

subsection \<open>Retries and failures of a held job\<close>

lemma nack_commands_effect:
  assumes "queue_inv s" and "lease_exists (j, tok) s"
    and t_def: "t = exec_pipeline (nack_commands now j tok text delay position) s"
  shows "phase_of t j = Waiting" and "hd (q_errors t j) = text" and "\<not> lease_exists (j, tok) t"
    and "q_external t = q_external s" and "m_attempts (q_meta t j) = m_attempts (q_meta s j)"
    and "case delay of
           Some d \<Rightarrow> map_of (q_delayed t) j = Some (u64_add now (delay_to_queue_seconds d))
                     \<and> m_reentry_position (q_meta t j) = Some (position_to_string position)
         | None \<Rightarrow> q_pending t = (case position of First \<Rightarrow> j # q_pending s | Last \<Rightarrow> q_pending s @ [j])"
  using held_job_facts [OF assms(1,2)]
  by (auto simp: t_def nack_commands_def script_defs phase_of_def lease_exists_def append_record_def
      MAX_JOB_ERROR_RECORDS_def map_of_zadd split: option.split RequeuePosition.split)

text \<open>
  C30. A worker that holds its lease and gives a job back puts it where it asked for:
  \<open>complete_job\<close> on a nack answers Ok; the job waits again, its lease is consumed and its
  attempt count unchanged, the newest diagnostic is the encoded error, the hook's commands have
  been applied once; with a delay it is delayed until exactly that time with its re-entry
  position stored, without one it is at the head or at the end of pending. The release time has
  to be below \<open>2 ^ 53\<close>, where neither the 64-bit sum nor the score of a sorted set loses
  anything.
\<close>

theorem complete_job_nack:
  assumes "queue_inv s" and "lease_exists (jb_id (bj_job job), bj_lease_token job) s"
    and "encode_record (error_json h) (marker_json h)
           \<lparr>er_error = e, er_attempt = jb_attempts (bj_job job), er_details = ErrNack delay position,
            er_created_at = now\<rparr> = Inr text"
    and "on_nack h job e delay position = map External cmds"
    and "case delay of Some d \<Rightarrow> now + delay_to_queue_seconds d < 2 ^ 53 | None \<Rightarrow> True"
  shows "\<exists>idle' s'. complete_job h opts now (\<lambda>_. True) (Some c) quiet_env f job (Inl (Nack e delay position)) idle s
            = (Inr (), idle', s')
     \<and> phase_of s' (jb_id (bj_job job)) = Waiting \<and> hd (q_errors s' (jb_id (bj_job job))) = text
     \<and> \<not> lease_exists (jb_id (bj_job job), bj_lease_token job) s'
     \<and> q_external s' = q_external s @ cmds
     \<and> m_attempts (q_meta s' (jb_id (bj_job job))) = m_attempts (q_meta s (jb_id (bj_job job)))
     \<and> (case delay of
           Some d \<Rightarrow> map_of (q_delayed s') (jb_id (bj_job job)) = Some (now + delay_to_queue_seconds d)
                     \<and> m_reentry_position (q_meta s' (jb_id (bj_job job))) = Some (position_to_string position)
         | None \<Rightarrow> q_pending s' = (case position of First \<Rightarrow> jb_id (bj_job job) # q_pending s
                                      | Last \<Rightarrow> q_pending s @ [jb_id (bj_job job)]))"
proof -
  let ?j = "jb_id (bj_job job)" and ?tok = "bj_lease_token job"
  define u where "u = s\<lparr>q_external := q_external s @ cmds\<rparr>"
  define t where "t = exec_pipeline (nack_commands now ?j ?tok text delay position) u"
  have u: "queue_inv u" "lease_exists (?j, ?tok) u" "q_external u = q_external s @ cmds"
    "q_meta u = q_meta s" "q_pending u = q_pending s"
    using assms(1,2) by (simp_all add: u_def external_inv lease_exists_def)
  note E = nack_commands_effect [OF u(1,2) t_def, unfolded u(3-5)]
  have pipe: "completion_pipeline h opts now job (Inl (Nack e delay position)) =
      Inr (map External cmds @ nack_commands now ?j ?tok text delay position)"
    using assms(3,4) by (simp add: completion_pipeline_def add_nack_operations_def)
  obtain idle' where "commit_if_leased (\<lambda>_. True) (Some c) (lease_exists (?j, ?tok))
      (exec_pipeline (map External cmds @ nack_commands now ?j ?tok text delay position)) quiet_env idle s
      = (Inr True, idle', t)"
    using commit_quiet [of "lease_exists (?j, ?tok)" s c
        "exec_pipeline (map External cmds @ nack_commands now ?j ?tok text delay position)" idle] assms(2)
    by (auto simp: t_def u_def exec_external_map)
  with pipe have "complete_job h opts now (\<lambda>_. True) (Some c) quiet_env f job (Inl (Nack e delay position)) idle s
      = (Inr (), idle', t)"
    by (simp add: complete_job_def post_nack_completion_def)
  moreover have "case delay of
           Some d \<Rightarrow> map_of (q_delayed t) ?j = Some (now + delay_to_queue_seconds d)
                     \<and> m_reentry_position (q_meta t ?j) = Some (position_to_string position)
         | None \<Rightarrow> q_pending t = (case position of First \<Rightarrow> ?j # q_pending s | Last \<Rightarrow> q_pending s @ [?j])"
    using E(6) assms(5) by (cases delay) (simp_all add: u64_add_exact)
  ultimately show ?thesis using E(1-5) by (intro exI conjI) assumption+
qed

theorem complete_job_nack_witness:
  "\<exists>idle' s'. complete_job demo_handler default_queue_options 8 (\<lambda>_. True) (Some ()) quiet_env
      Delivered demo_job (Inl (Nack () (Some (Duration 4 0)) Last)) [] demo_popped = (Inr (), idle', s')
    \<and> map_of (q_delayed s') ''a'' = Some 12"
proof -
  have l: "lease_exists (jb_id (bj_job demo_job), bj_lease_token demo_job) demo_popped"
    using demo_lease by (simp add: demo_job_def)
  have e: "encode_record (error_json demo_handler) (marker_json demo_handler)
       \<lparr>er_error = (), er_attempt = jb_attempts (bj_job demo_job), er_details = ErrNack (Some (Duration 4 0)) Last,
            er_created_at = 8\<rparr> = Inr []"
    by (simp add: encode_record_cases demo_handler_def)
  have n: "on_nack demo_handler demo_job () (Some (Duration 4 0)) Last = map External []"
    by (simp add: demo_handler_def)
  have j: "jb_id (bj_job demo_job) = ''a''" by (simp add: demo_job_def)
  have d: "8 + delay_to_queue_seconds (Duration 4 0) = 12"
    by (simp add: delay_to_queue_seconds_def is_zero_def)
  have b: "case Some (Duration 4 0) of Some d \<Rightarrow> 8 + delay_to_queue_seconds d < 2 ^ 53 | None \<Rightarrow> True"
    by (simp add: d)
  from complete_job_nack [OF demo_inv(3) l e n b, of default_queue_options "()" Delivered "[]", unfolded j]
  show ?thesis by (elim exE conjE) (rule exI, rule exI, rule conjI, assumption, simp add: d)
qed

lemma fail_commands_effect:
  assumes "queue_inv s" and "lease_exists (j, tok) s"
    and t_def: "t = exec_pipeline (fail_commands opts now j tok text) s"
  shows "q_failed t = j # q_failed s" and "hd (q_errors t j) = text" and "phase_of t j = Finished"
    and "q_external t = q_external s" and "\<not> lease_exists (j, tok) t"
    and "j \<in> q_dedupe t \<longleftrightarrow> idempotency_mode opts = Permanent"
  using held_job_facts [OF assms(1,2)] IdempotencyMode.exhaust [of "idempotency_mode opts"]
  by (auto simp: t_def fail_commands_def script_defs phase_of_def lease_exists_def append_record_def
      MAX_JOB_ERROR_RECORDS_def)

lemma prune_failed_keeps_head:
  assumes "q_failed s = j # rest" and "0 < n"
  shows "job_view (snd (prune_failed_script n s)) j = job_view s j"
    and "q_failed (snd (prune_failed_script n s)) = j # take (n - 1) rest"
proof -
  have j: "j \<in> set (take n (q_failed s))" using assms by (cases n) auto
  then have eq: "(job_view s j)\<lparr>v_failed := j \<in> set (take n (q_failed s))\<rparr> = job_view s j"
    using assms by (simp add: job_view_def)
  have "view_prune (job_view s j) = job_view s j"
    using assms by (simp add: view_prune_def view_listed_def job_view_def)
  then show "job_view (snd (prune_failed_script n s)) j = job_view s j"
    unfolding prune_failed_view eq by simp
  show "q_failed (snd (prune_failed_script n s)) = j # take (n - 1) rest"
    using assms by (cases n) (simp_all add: prune_failed_list)
qed

text \<open>
  C32. A job whose stored data cannot be read is failed for good, not retried:
  \<open>complete_job_queue_error\<close> under a live lease answers Ok, and the job heads the failed
  list, its newest diagnostic is the encoded error, it is neither waiting nor running, its
  lease is consumed and its id stays deduplicated exactly in permanent mode.
\<close>

theorem complete_job_queue_error_fails_job:
  assumes "queue_inv s" and "lease_exists (jb_id job, tok) s"
    and "encode_record (error_json h) (marker_json h)
           \<lparr>er_error = e, er_attempt = jb_attempts job, er_details = ErrFail, er_created_at = now\<rparr> = Inr text"
    and "on_queue_error h job (Runtime ''Job processing failed with user error'') = map External cmds"
    and "0 < max_failed opts"
  shows "\<exists>idle' s'. complete_job_queue_error h opts now (\<lambda>_. True) (Some c) quiet_env Delivered job tok e idle s
            = (Inr (), idle', s')
     \<and> hd (q_failed s') = jb_id job \<and> hd (q_errors s' (jb_id job)) = text
     \<and> phase_of s' (jb_id job) = Finished \<and> \<not> lease_exists (jb_id job, tok) s'
     \<and> (jb_id job \<in> q_dedupe s' \<longleftrightarrow> idempotency_mode opts = Permanent)"
proof -
  let ?j = "jb_id job"
  define u where "u = s\<lparr>q_external := q_external s @ cmds\<rparr>"
  define t where "t = exec_pipeline (fail_commands opts now ?j tok text) u"
  define s' where "s' = snd (prune_failed_script (max_failed opts) t)"
  have u: "queue_inv u" "lease_exists (?j, tok) u"
    using assms(1,2) by (simp_all add: u_def external_inv lease_exists_def)
  note E = fail_commands_effect [OF u t_def]
  note K = prune_failed_keeps_head [OF E(1) assms(5), folded s'_def]
  have pipe: "queue_error_pipeline h opts now job tok e = Inr (map External cmds @ fail_commands opts now ?j tok text)"
    using assms(3,4) by (simp add: queue_error_pipeline_def)
  obtain idle' where "commit_if_leased (\<lambda>_. True) (Some c) (lease_exists (?j, tok))
      (exec_pipeline (map External cmds @ fail_commands opts now ?j tok text)) quiet_env idle s
      = (Inr True, idle', t)"
    using commit_quiet [of "lease_exists (?j, tok)" s c
        "exec_pipeline (map External cmds @ fail_commands opts now ?j tok text)" idle] assms(2)
    by (auto simp: t_def u_def exec_external_map)
  with pipe have "complete_job_queue_error h opts now (\<lambda>_. True) (Some c) quiet_env Delivered job tok e idle s
      = (Inr (), idle', s')"
    by (simp add: complete_job_queue_error_def post_fail_completion_def invoke_def s'_def)
  moreover have "hd (q_failed s') = ?j" using K(2) by simp
  moreover have "hd (q_errors s' ?j) = text" "phase_of s' ?j = Finished" "\<not> lease_exists (?j, tok) s'"
      "?j \<in> q_dedupe s' \<longleftrightarrow> idempotency_mode opts = Permanent"
    using same_view [OF K(1)] E(2,3,5,6) by simp_all
  ultimately show ?thesis by blast
qed

theorem complete_job_queue_error_fails_job_witness:
  "\<exists>idle' s'. complete_job_queue_error demo_handler default_queue_options 8 (\<lambda>_. True) (Some ()) quiet_env
      Delivered demo_bad_job demo_token () [] demo_popped = (Inr (), idle', s')
    \<and> hd (q_failed s') = ''a''"
proof -
  have j: "jb_id demo_bad_job = ''a''" by (simp add: demo_bad_job_def)
  have l: "lease_exists (jb_id demo_bad_job, demo_token) demo_popped" using demo_lease j by simp
  have e: "encode_record (error_json demo_handler) (marker_json demo_handler)
       \<lparr>er_error = (), er_attempt = jb_attempts demo_bad_job, er_details = ErrFail, er_created_at = 8\<rparr> = Inr []"
    by (simp add: encode_record_cases demo_handler_def)
  have n: "on_queue_error demo_handler demo_bad_job (Runtime ''Job processing failed with user error'') = map External []"
    by (simp add: demo_handler_def)
  have m: "0 < max_failed default_queue_options" by (simp add: default_queue_options_def)
  from complete_job_queue_error_fails_job [OF demo_inv(3) l e n m, of "()" "[]", unfolded j]
  show ?thesis by blast
qed

subsection \<open>Retention\<close>

text \<open>
  Pruning forgets exactly what nothing needs: the success list is cut to the newest \<open>n\<close>
  entries, a job cut from it loses its data, metadata, result, diagnostics and deduplication mark
  exactly when it is not listed any more, is not in the failed list and is neither waiting nor
  running; every other job keeps all of them.
\<close>

theorem prune_success_forgets_exactly:
  "let s' = snd (prune_success_script n s) in
     q_success s' = take n (q_success s)
   \<and> (if j \<in> set (drop n (q_success s)) \<and> j \<notin> set (take n (q_success s)) \<and> j \<notin> set (q_failed s)
         \<and> phase_of s j \<notin> {Waiting, Running}
      then q_data s' j = None \<and> q_meta s' j = empty_meta \<and> q_results s' j = None \<and> q_errors s' j = []
           \<and> j \<notin> q_dedupe s'
      else q_data s' j = q_data s j \<and> q_meta s' j = q_meta s j \<and> q_results s' j = q_results s j
           \<and> q_errors s' j = q_errors s j \<and> (j \<in> q_dedupe s' \<longleftrightarrow> j \<in> q_dedupe s))"
proof -
  let ?s' = "snd (prune_success_script n s)"
  let ?v = "job_view ?s' j"
  have v: "q_data ?s' j = v_data ?v" "q_meta ?s' j = v_meta ?v" "q_results ?s' j = v_result ?v"
    "q_errors ?s' j = v_errors ?v" "j \<in> q_dedupe ?s' \<longleftrightarrow> v_dedupe ?v"
    by (simp_all add: job_view_def)
  show ?thesis
    unfolding Let_def v prune_success_view prune_success_list phase_of_view
    by (auto simp: view_prune_def view_live_def view_listed_def view_phase_def job_view_def keys_map_of)
qed

subsection \<open>Life cycle\<close>

text \<open>
  C23. The queue refines the life cycle of a job: in every run in which hooks submit only ids that
  are not live and deduplication marks are removed only from jobs that are not live, each step of
  each client moves each job along one transition of the abstract machine (absent, waiting,
  running, finished) that the step's event allows, or leaves it where it is. Only a poll can start
  a job, only its own completion, a poll or a cancellation can end it, only a push or the hook of
  another job admits it, only a prune forgets it.
\<close>

theorem queue_refines_life_cycle:
  assumes "queue_run opts empty_queue evs s" and "queue_step opts s e t" and "list_all orderly (evs @ [e])"
  shows "phase_step j e (phase_of s j) (phase_of t j)"
proof -
  have "queue_inv s" by (rule queue_run_inv [OF assms(1) _ queue_inv_empty]) (use assms(3) in simp)
  with assms(2,3) show ?thesis by (intro step_phase) simp_all
qed

theorem queue_refines_life_cycle_witness:
  "phase_step ''a'' (EPop demo_pop_id) (phase_of demo_pushed ''a'') (phase_of demo_popped ''a'')"
proof -
  have "queue_step default_queue_options demo_pushed (EPop demo_pop_id) demo_popped"
    unfolding demo_popped_def by (rule queue_step.pop)
  from queue_refines_life_cycle [OF demo_run_pushed this] show ?thesis by simp
qed

text \<open>A finished job that is deduplicated and that no worker holds.\<close>

definition spent :: "job_id \<Rightarrow> 'h queue \<Rightarrow> bool" where
  "spent j s \<longleftrightarrow> j \<in> q_dedupe s \<and> phase_of s j = Finished \<and> (\<forall>tok. \<not> lease_exists (j, tok) s)"

text \<open>The events that can bring a spent job back: pruning, a hook that submits its id, the removal
  of its deduplication mark.\<close>

fun revives :: "job_id \<Rightarrow> queue_event \<Rightarrow> bool" where
  "revives j EPrune = True"
| "revives j (EEnqueue i was_live) = (i = j)"
| "revives j (EForget i was_live) = (i = j)"
| "revives j (EForgetAll some_live) = True"
| "revives j _ = False"

lemma spent_iff:
  "spent j s \<longleftrightarrow> j \<in> q_dedupe s \<and> j \<notin> set (live_ids s) \<and> (j \<in> set (q_success s) \<or> j \<in> set (q_failed s))
     \<and> (\<forall>tok. q_leases s (j, tok) = None)"
  by (auto simp: spent_def phase_of_def live_ids_def lease_exists_def)

lemma spent_pop:
  assumes "spent j s"
  shows "spent j (snd (pop_script now pop_id batch secs s))"
proof -
  define s1 where "s1 = fst (cleanup_expired_leases s)"
  define s2 where "s2 = fst (process_cancellations now s1)"
  define s3 where "s3 = process_delayed_jobs now s2"
  have "spent j s1" unfolding s1_def cleanup_expired_leases_def
  proof (rule fold_pair_invariant [where P = "spent j"])
    fix x acc and u :: "'a queue" assume "x \<in> set (keys (q_active s))" and "spent j u"
    moreover from this assms have "x \<noteq> j" by (auto simp: spent_iff live_ids_def)
    ultimately show "spent j (fst (cleanup_lease x (u, acc)))"
      by (auto simp: cleanup_lease_def Let_def spent_iff live_ids_def script_defs split: option.splits)
  qed (rule assms)
  then have s2: "spent j s2" unfolding s2_def process_cancellations_def
  proof (intro fold_pair_invariant [where P = "spent j"])
    fix x acc and u :: "'a queue" assume "spent j u"
    then show "spent j (fst (process_cancellation now x (u, acc)))"
      by (auto simp: process_cancellation_def Let_def spent_iff live_ids_def script_defs)
  qed
  have s3: "spent j s3" unfolding s3_def process_delayed_jobs_def
  proof (rule fold_invariant [where P = "spent j" and Q = "\<lambda>x. x \<noteq> j"])
    show "x \<noteq> j" if "x \<in> set (zrangebyscore 0 now (q_delayed s2))" for x
      using that s2 zrangebyscore_keys [of 0 now "q_delayed s2"] by (auto simp: spent_iff live_ids_def)
    show "spent j (release_delayed x u)" if "x \<noteq> j" "spent j u" for x and u :: "'a queue"
      using that by (auto simp: release_delayed_def Let_def spent_iff live_ids_def script_defs)
  qed (rule s2)
  have "spent j (fst (pop_pending now pop_id batch secs s3))"
    unfolding pop_pending_def lpop_batch_eq prod.case
  proof (rule fold_pair_invariant [where P = "spent j"])
    show "spent j (s3\<lparr>q_pending := drop batch (q_pending s3)\<rparr>)"
      using s3 by (auto simp: spent_iff live_ids_def dest: in_set_dropD)
    fix x acc and u :: "'a queue" assume "x \<in> set (take batch (q_pending s3))" and "spent j u"
    moreover from this s3 have "x \<noteq> j" by (auto simp: spent_iff live_ids_def dest: in_set_takeD)
    ultimately show "spent j (fst (lease_popped now pop_id secs x (u, acc)))"
      by (auto simp: lease_popped_def Let_def spent_iff live_ids_def script_defs split: option.split)
  qed
  then show ?thesis by (simp add: pop_script_def Let_def case_prod_beta s1_def s2_def s3_def)
qed

lemma spent_commit:
  assumes "spent j s" and "lease_exists (i, tok) s" and "list_all is_external hook"
    and "completion_commands opts i tok ops" and "idempotency_mode opts = Permanent"
  shows "spent j (exec_pipeline (hook @ ops) s)"
proof -
  obtain es where es: "exec_pipeline hook s = s\<lparr>q_external := es\<rparr>" using exec_external assms(3) by blast
  have "i \<noteq> j" using assms(1,2) by (auto simp: spent_def)
  with assms(4,1,5) show ?thesis
    by cases (auto simp: es success_commands_def nack_commands_def fail_commands_def spent_iff live_ids_def script_defs
        split: option.splits RequeuePosition.splits)
qed

lemma spent_step:
  assumes "queue_step opts s e t" and "idempotency_mode opts = Permanent" and "\<not> revives j e" and "spent j s"
  shows "spent j t"
  using assms
proof (induction rule: queue_step.induct)
  case (commit hook i tok ops s t)
  then have "lease_exists (i, tok) s" and t: "t = exec_pipeline (hook @ ops) s"
    by (simp_all only: commit_loop_quiet_iff)
  with commit show ?case unfolding t by (intro spent_commit)
next
  case (hook hk s)
  then obtain es where "exec_pipeline hk s = s\<lparr>q_external := es\<rparr>" using exec_external by blast
  with hook show ?case by (simp add: spent_iff live_ids_def)
next
  case (enqueue s i now d delay)
  then show ?case by (cases delay) (auto simp: queue_job_commands_def spent_iff live_ids_def script_defs)
next
  case (pop s now pop_id batch secs)
  then show ?case by (intro spent_pop)
qed (auto simp: push_script_def cancel_script_def remove_from_dedupe_set_def Let_def spent_iff live_ids_def script_defs)

text \<open>
  C28. In permanent mode a job is run to its end at most once per retention period: from the moment
  an admitted job is finished and no lease of it is live, no sequence of steps of any clients makes
  it wait or run again, unless one of them prunes, removes its deduplication mark, or is a hook that
  submits its id again, which \<open>queue_job\<close> does without asking the deduplication set.
\<close>

theorem permanent_mode_finished_is_final:
  assumes "queue_run opts s evs t" and "idempotency_mode opts = Permanent"
    and "j \<in> q_dedupe s" and "phase_of s j = Finished" and "\<And>tok. \<not> lease_exists (j, tok) s"
    and "\<not> list_ex (revives j) evs"
  shows "phase_of t j = Finished"
proof -
  have "spent j s" using assms(3-5) by (simp add: spent_def)
  with assms(1,2,6) have "spent j t"
    by (induction rule: queue_run.induct) (auto intro: spent_step)
  then show ?thesis by (simp add: spent_def)
qed

theorem permanent_mode_finished_is_final_witness:
  "phase_of (snd (push_script ''a'' ''2'' 9 0 ''last'' (snd (cancel_script ''a'' 8 demo_pushed)))) ''a'' = Finished"
proof -
  let ?s = "snd (cancel_script ''a'' 8 demo_pushed)"
  have r: "queue_run default_queue_options ?s ([] @ [EPush ''a'']) (snd (push_script ''a'' ''2'' 9 0 ''last'' ?s))"
    by (rule queue_run.step [OF queue_run.start queue_step.push])
  have "\<not> lease_exists (''a'', tok) ?s" for tok
    by (simp add: lease_exists_def cancel_script_def demo_pushed_def push_script_def empty_queue_def script_defs)
  moreover have "''a'' \<in> q_dedupe ?s" "phase_of ?s ''a'' = Finished" by code_simp+
  ultimately show ?thesis
    by (intro permanent_mode_finished_is_final [OF r]) (simp_all add: default_queue_options_def)
qed

end
