(* ===== verification/Twmq_Multilane.thy ===== *)
theory Twmq_Multilane
  imports Twmq_Queue
begin

text \<open>
  The multilane queue of \<open>twmq/src/multilane.rs\<close>. Pending, delayed and active jobs are kept per
  lane, everything else per queue, and the lanes themselves in a sorted set whose score is the time
  of their last visit. Scripts, pipelines, leases and fates are as in the single-lane queue. What
  hooks do is recorded, in order, as the commands they add to the pipeline.
\<close>

subsection \<open>State\<close>

type_synonym lane_id = string

record lane_meta = job_meta +
  m_lane_id :: "lane_id option"

definition empty_lane_meta :: lane_meta where
  "empty_lane_meta = \<lparr> m_created_at = None, m_attempts = None, m_processed_at = None,
     m_finished_at = None, m_reentry_position = None, m_lease_token = None, m_lane_id = None \<rparr>"

record 'h mqueue =
  mq_lanes :: "(lane_id \<times> nat) list"
  mq_pending :: "lane_id \<Rightarrow> job_id list"
  mq_delayed :: "lane_id \<Rightarrow> (job_id \<times> nat) list"
  mq_active :: "lane_id \<Rightarrow> (job_id \<times> nat) list"
  mq_success :: "job_id list"
  mq_failed :: "job_id list"
  mq_data :: "job_id \<rightharpoonup> string"
  mq_meta :: "job_id \<Rightarrow> lane_meta"
  mq_results :: "job_id \<rightharpoonup> string"
  mq_errors :: "job_id \<Rightarrow> string list"
  mq_dedupe :: "job_id set"
  mq_cancels :: "job_id list"
  mq_leases :: "job_id \<times> lease_token \<rightharpoonup> nat"
  mq_external :: "'h pipe_cmd list"

definition empty_mqueue :: "'h mqueue" where
  "empty_mqueue = \<lparr> mq_lanes = [], mq_pending = (\<lambda>_. []), mq_delayed = (\<lambda>_. []), mq_active = (\<lambda>_. []),
     mq_success = [], mq_failed = [], mq_data = Map.empty, mq_meta = (\<lambda>_. empty_lane_meta),
     mq_results = Map.empty, mq_errors = (\<lambda>_. []), mq_dedupe = {}, mq_cancels = [],
     mq_leases = Map.empty, mq_external = [] \<rparr>"

definition mupd_meta :: "job_id \<Rightarrow> (lane_meta \<Rightarrow> lane_meta) \<Rightarrow> 'h mqueue \<Rightarrow> 'h mqueue" where
  [script_defs]: "mupd_meta j f s = s\<lparr>mq_meta := (mq_meta s)(j := f (mq_meta s j))\<rparr>"

definition mhincr_attempts :: "job_id \<Rightarrow> 'h mqueue \<Rightarrow> 'h mqueue" where
  [script_defs]: "mhincr_attempts j =
     mupd_meta j (\<lambda>m. m\<lparr>m_attempts := Some (case m_attempts m of None \<Rightarrow> 1 | Some a \<Rightarrow> a + 1)\<rparr>)"

definition upd_pending :: "lane_id \<Rightarrow> (job_id list \<Rightarrow> job_id list) \<Rightarrow> 'h mqueue \<Rightarrow> 'h mqueue" where
  [script_defs]: "upd_pending l f s = s\<lparr>mq_pending := (mq_pending s)(l := f (mq_pending s l))\<rparr>"

definition upd_delayed :: "lane_id \<Rightarrow> ((job_id \<times> nat) list \<Rightarrow> (job_id \<times> nat) list) \<Rightarrow> 'h mqueue \<Rightarrow> 'h mqueue" where
  [script_defs]: "upd_delayed l f s = s\<lparr>mq_delayed := (mq_delayed s)(l := f (mq_delayed s l))\<rparr>"

definition upd_active :: "lane_id \<Rightarrow> ((job_id \<times> nat) list \<Rightarrow> (job_id \<times> nat) list) \<Rightarrow> 'h mqueue \<Rightarrow> 'h mqueue" where
  [script_defs]: "upd_active l f s = s\<lparr>mq_active := (mq_active s)(l := f (mq_active s l))\<rparr>"

subsection \<open>Submission and reads\<close>

text \<open>\<open>ZADD NX\<close>: a lane that is known keeps its score.\<close>

definition zadd_nx :: "'k \<Rightarrow> nat \<Rightarrow> ('k \<times> nat) list \<Rightarrow> ('k \<times> nat) list" where
  "zadd_nx k score z = (if zmember k z then z else zadd k score z)"

definition mpush_script :: "lane_id \<Rightarrow> job_id \<Rightarrow> string \<Rightarrow> nat \<Rightarrow> nat \<Rightarrow> string \<Rightarrow> 'h mqueue
    \<Rightarrow> (nat \<times> job_id) \<times> 'h mqueue" where
  "mpush_script lane_id job_id job_data now delay reentry_position s =
     (if job_id \<in> mq_dedupe s then ((0, job_id), s)
      else
        let s = s\<lparr>mq_data := (mq_data s)(job_id \<mapsto> job_data)\<rparr>;
            s = mupd_meta job_id (\<lambda>m. m\<lparr>m_created_at := Some now\<rparr>) s;
            s = mupd_meta job_id (\<lambda>m. m\<lparr>m_attempts := Some 0\<rparr>) s;
            s = mupd_meta job_id (\<lambda>m. m\<lparr>m_lane_id := Some lane_id\<rparr>) s;
            s = s\<lparr>mq_dedupe := insert job_id (mq_dedupe s)\<rparr>;
            s = s\<lparr>mq_lanes := zadd_nx lane_id 0 (mq_lanes s)\<rparr>;
            s = (if delay > 0 then
                   let process_at = now + delay;
                       s = mupd_meta job_id (\<lambda>m. m\<lparr>m_reentry_position := Some reentry_position\<rparr>) s
                   in upd_delayed lane_id (zadd job_id process_at) s
                 else upd_pending lane_id (rpush job_id) s)
        in ((1, job_id), s))"

definition push_to_lane :: "('d \<Rightarrow> string option) \<Rightarrow> nat \<Rightarrow> fate \<Rightarrow> lane_id \<Rightarrow> 'd JobOptions \<Rightarrow> 'h mqueue
    \<Rightarrow> (TwmqError, 'd Job) result \<times> 'h mqueue" where
  "push_to_lane to_json now f lane_id opts s =
     (let job = \<lparr>jb_id = jo_id opts, jb_data = jo_data opts, jb_attempts = 0,
                 jb_created_at = now, jb_processed_at = None, jb_finished_at = None\<rparr>
      in case to_json (jb_data job) of
           None \<Rightarrow> (Inl (JsonError ''to_string''), s)
         | Some job_data \<Rightarrow>
             let delay = (case jo_delay opts of Some d \<Rightarrow> d
                          | None \<Rightarrow> \<lparr>do_delay = Duration 0 0, do_position = Last\<rparr>);
                 delay_secs = delay_to_queue_seconds (do_delay delay);
                 position_string = position_to_string (do_position delay)
             in case invoke f (mpush_script lane_id (jo_id opts) job_data now delay_secs position_string) s of
                  (Inl e, s') \<Rightarrow> (Inl e, s')
                | (Inr _, s') \<Rightarrow> (Inr job, s'))"

definition mget_job :: "(string \<Rightarrow> 'd option) \<Rightarrow> job_id \<Rightarrow> 'h mqueue \<Rightarrow> (TwmqError, 'd Job option) result" where
  "mget_job from_json job_id s =
     (case mq_data s job_id of
        None \<Rightarrow> Inr None
      | Some data_json \<Rightarrow>
          (case from_json data_json of
             None \<Rightarrow> Inl (JsonError ''from_str'')
           | Some data_t \<Rightarrow>
               let meta_map = mq_meta s job_id in
               Inr (Some
                 \<lparr>jb_id = job_id, jb_data = data_t,
                  jb_attempts = unwrap_or 0 (Option.bind (m_attempts meta_map) parse_u32),
                  jb_created_at = unwrap_or 0 (Option.bind (m_created_at meta_map) parse_u64),
                  jb_processed_at = Option.bind (m_processed_at meta_map) parse_u64,
                  jb_finished_at = Option.bind (m_finished_at meta_map) parse_u64\<rparr>)))"

definition lane_names :: "'h mqueue \<Rightarrow> lane_id list" where
  "lane_names s = map fst (zrange (mq_lanes s))"

definition mcount :: "JobStatus \<Rightarrow> lane_id option \<Rightarrow> 'h mqueue \<Rightarrow> nat" where
  "mcount status lane s =
     (let over = (\<lambda>f. case lane of Some l \<Rightarrow> f l | None \<Rightarrow> sum_list (map f (lane_names s))) in
      case status of
        Pending \<Rightarrow> over (\<lambda>l. length (mq_pending s l))
      | Active \<Rightarrow> over (\<lambda>l. length (mq_active s l))
      | Delayed \<Rightarrow> over (\<lambda>l. length (mq_delayed s l))
      | Success \<Rightarrow> length (mq_success s)
      | Failed \<Rightarrow> length (mq_failed s))"

definition lanes_count :: "'h mqueue \<Rightarrow> nat" where
  "lanes_count s = length (mq_lanes s)"

subsection \<open>The commands of a completion pipeline\<close>

datatype 'h mpipe_cmd =
    MDelLease job_id lease_token
  | MHdelActive lane_id job_id
  | MLpushSuccess job_id
  | MLpushFailed job_id
  | MHsetFinishedAt job_id nat
  | MHdelLeaseToken job_id
  | MHsetResult job_id string
  | MSremDedupe job_id
  | MAppendError job_id string
  | MHsetReentryPosition job_id string
  | MZaddDelayed lane_id job_id nat
  | MLpushPending lane_id job_id
  | MRpushPending lane_id job_id
  | MExternal "'h pipe_cmd"

fun mexec_cmd :: "'h mpipe_cmd \<Rightarrow> 'h mqueue \<Rightarrow> 'h mqueue" where
  "mexec_cmd (MDelLease j t) s = s\<lparr>mq_leases := (mq_leases s)((j, t) := None)\<rparr>"
| "mexec_cmd (MHdelActive l j) s = upd_active l (hdel j) s"
| "mexec_cmd (MLpushSuccess j) s = s\<lparr>mq_success := lpush j (mq_success s)\<rparr>"
| "mexec_cmd (MLpushFailed j) s = s\<lparr>mq_failed := lpush j (mq_failed s)\<rparr>"
| "mexec_cmd (MHsetFinishedAt j t) s = mupd_meta j (\<lambda>m. m\<lparr>m_finished_at := Some t\<rparr>) s"
| "mexec_cmd (MHdelLeaseToken j) s = mupd_meta j (\<lambda>m. m\<lparr>m_lease_token := None\<rparr>) s"
| "mexec_cmd (MHsetResult j r) s = s\<lparr>mq_results := (mq_results s)(j \<mapsto> r)\<rparr>"
| "mexec_cmd (MSremDedupe j) s = s\<lparr>mq_dedupe := mq_dedupe s - {j}\<rparr>"
| "mexec_cmd (MAppendError j r) s = s\<lparr>mq_errors := (mq_errors s)(j := append_record r (mq_errors s j))\<rparr>"
| "mexec_cmd (MHsetReentryPosition j p) s = mupd_meta j (\<lambda>m. m\<lparr>m_reentry_position := Some p\<rparr>) s"
| "mexec_cmd (MZaddDelayed l j t) s = upd_delayed l (zadd j t) s"
| "mexec_cmd (MLpushPending l j) s = upd_pending l (lpush j) s"
| "mexec_cmd (MRpushPending l j) s = upd_pending l (rpush j) s"
| "mexec_cmd (MExternal h) s = s\<lparr>mq_external := mq_external s @ [h]\<rparr>"

definition mexec_pipeline :: "'h mpipe_cmd list \<Rightarrow> 'h mqueue \<Rightarrow> 'h mqueue" where
  "mexec_pipeline p s = fold mexec_cmd p s"

subsection \<open>Cancellation\<close>

definition mcancel_script :: "job_id \<Rightarrow> nat \<Rightarrow> 'h mqueue \<Rightarrow> CancelResult \<times> 'h mqueue" where
  "mcancel_script job_id now s =
     (case m_lane_id (mq_meta s job_id) of
        None \<Rightarrow> (NotFound, s)
      | Some lane_id \<Rightarrow>
          (if lpos job_id (mq_pending s lane_id) then
             (CancelledImmediately,
              mupd_meta job_id (\<lambda>m. m\<lparr>m_finished_at := Some now\<rparr>)
                ((upd_pending lane_id (lrem job_id) s)\<lparr>mq_failed := lpush job_id (mq_failed s)\<rparr>))
           else if zmember job_id (mq_delayed s lane_id) then
             (CancelledImmediately,
              mupd_meta job_id (\<lambda>m. m\<lparr>m_finished_at := Some now\<rparr>)
                ((upd_delayed lane_id (zrem job_id) s)\<lparr>mq_failed := lpush job_id (mq_failed s)\<rparr>))
           else if hexists job_id (mq_active s lane_id) then
             (CancellationPending, s\<lparr>mq_cancels := sadd job_id (mq_cancels s)\<rparr>)
           else (NotFound, s)))"

definition mprocess_cancelled_job ::
  "(string \<Rightarrow> 'd option) \<Rightarrow> ('d, 'o, 'e, 'h) handler \<Rightarrow> fate \<Rightarrow> job_id \<Rightarrow> 'h mqueue
     \<Rightarrow> (TwmqError, unit) result \<times> 'h mqueue" where
  "mprocess_cancelled_job from_json h f job_id s =
     (case mget_job from_json job_id s of
        Inl e \<Rightarrow> (Inl e, s)
      | Inr None \<Rightarrow> (Inr (), s)
      | Inr (Some job) \<Rightarrow>
          let borrowed_job = \<lparr>bj_job = job, bj_lease_token = ''cancelled''\<rparr>;
              pipeline = map MExternal (on_fail h borrowed_job (user_cancelled h))
          in invoke f (\<lambda>s. ((), mexec_pipeline pipeline s)) s)"

definition mcancel_job ::
  "(string \<Rightarrow> 'd option) \<Rightarrow> ('d, 'o, 'e, 'h) handler \<Rightarrow> nat \<Rightarrow> fate \<Rightarrow> fate \<Rightarrow> job_id \<Rightarrow> 'h mqueue
     \<Rightarrow> (TwmqError, CancelResult) result \<times> 'h mqueue" where
  "mcancel_job from_json h now f f' job_id s =
     (case invoke f (mcancel_script job_id now) s of
        (Inl e, s') \<Rightarrow> (Inl e, s')
      | (Inr CancelledImmediately, s') \<Rightarrow>
          (Inr CancelledImmediately, snd (mprocess_cancelled_job from_json h f' job_id s'))
      | (Inr r, s') \<Rightarrow> (Inr r, s'))"

subsection \<open>pop\_batch\_jobs: helpers on one lane\<close>

definition mcleanup_lease :: "lane_id \<Rightarrow> job_id \<Rightarrow> 'h mqueue \<times> (lane_id \<times> job_id) list
    \<Rightarrow> 'h mqueue \<times> (lane_id \<times> job_id) list" where
  "mcleanup_lease lane_id job_id = (\<lambda>(s, timed_out_jobs).
     case m_lease_token (mq_meta s job_id) of
       Some current_lease_token \<Rightarrow>
         (if mq_leases s (job_id, current_lease_token) = None then
            let s = mhincr_attempts job_id s;
                s = mupd_meta job_id (\<lambda>m. m\<lparr>m_lease_token := None\<rparr>) s;
                s = upd_active lane_id (hdel job_id) s;
                s = upd_pending lane_id (lpush job_id) s
            in (s, timed_out_jobs @ [(lane_id, job_id)])
          else (s, timed_out_jobs))
     | None \<Rightarrow>
         let s = mhincr_attempts job_id s;
             s = upd_active lane_id (hdel job_id) s;
             s = upd_pending lane_id (lpush job_id) s
         in (s, timed_out_jobs @ [(lane_id, job_id)]))"

definition cleanup_lane_leases :: "lane_id \<Rightarrow> 'h mqueue \<times> (lane_id \<times> job_id) list
    \<Rightarrow> 'h mqueue \<times> (lane_id \<times> job_id) list" where
  "cleanup_lane_leases lane_id st = fold (mcleanup_lease lane_id) (keys (mq_active (fst st) lane_id)) st"

definition mrelease_delayed :: "lane_id \<Rightarrow> job_id \<Rightarrow> 'h mqueue \<Rightarrow> 'h mqueue" where
  "mrelease_delayed lane_id job_id s =
     (let reentry_position = unwrap_or ''last'' (m_reentry_position (mq_meta s job_id));
          s = upd_delayed lane_id (zrem job_id) s;
          s = mupd_meta job_id (\<lambda>m. m\<lparr>m_reentry_position := None\<rparr>) s
      in if reentry_position = ''first''
         then upd_pending lane_id (lpush job_id) s
         else upd_pending lane_id (rpush job_id) s)"

definition mprocess_delayed_jobs :: "nat \<Rightarrow> lane_id \<Rightarrow> 'h mqueue \<Rightarrow> 'h mqueue" where
  "mprocess_delayed_jobs now lane_id s =
     fold (mrelease_delayed lane_id) (zrangebyscore 0 now (mq_delayed s lane_id)) s"

text \<open>\<open>RPOP\<close>: the job comes off the tail of the pending list.\<close>

definition pop_job_from_lane :: "nat \<Rightarrow> string \<Rightarrow> nat \<Rightarrow> lane_id \<Rightarrow> 'h mqueue \<Rightarrow> popped_row option \<times> 'h mqueue" where
  "pop_job_from_lane now pop_id lease_seconds lane_id s =
     (if mq_pending s lane_id = [] then (None, s)
      else
        let job_id = last (mq_pending s lane_id);
            s = upd_pending lane_id butlast s
        in case mq_data s job_id of
             None \<Rightarrow> (None, s)
           | Some job_data \<Rightarrow>
               let s = mupd_meta job_id (\<lambda>m. m\<lparr>m_processed_at := Some now\<rparr>) s;
                   created_at = unwrap_or now (m_created_at (mq_meta s job_id));
                   s = mhincr_attempts job_id s;
                   attempts = unwrap_or 0 (m_attempts (mq_meta s job_id));
                   lease_token = make_lease_token now job_id attempts pop_id;
                   s = s\<lparr>mq_leases := (mq_leases s)
                         ((job_id, lease_token) := (if lease_seconds = 0 then None else Some lease_seconds))\<rparr>;
                   s = mupd_meta job_id (\<lambda>m. m\<lparr>m_lease_token := Some lease_token\<rparr>) s;
                   s = upd_active lane_id (hset job_id attempts) s
               in (Some (job_id, job_data, attempts, created_at, now, lease_token), s))"

subsection \<open>pop\_batch\_jobs: cancellations and the round over the lanes\<close>

type_synonym lane_jobs = "(lane_id \<times> job_id) list"

definition mprocess_cancellation :: "nat \<Rightarrow> job_id \<Rightarrow> 'h mqueue \<times> lane_jobs \<times> lane_jobs
    \<Rightarrow> 'h mqueue \<times> lane_jobs \<times> lane_jobs" where
  "mprocess_cancellation now job_id = (\<lambda>(s, cancelled_jobs, timed_out_jobs).
     case m_lane_id (mq_meta s job_id) of
       None \<Rightarrow> (s, cancelled_jobs, timed_out_jobs)
     | Some lane_id \<Rightarrow>
         (case cleanup_lane_leases lane_id (s, timed_out_jobs) of (s, timed_out_jobs) \<Rightarrow>
            if hexists job_id (mq_active s lane_id) then (s, cancelled_jobs, timed_out_jobs)
            else
              let is_pending = lpos job_id (mq_pending s lane_id);
                  is_delayed = zmember job_id (mq_delayed s lane_id)
              in if \<not> is_pending \<and> \<not> is_delayed \<and> lpos job_id (mq_success s)
                 then (s\<lparr>mq_cancels := srem job_id (mq_cancels s)\<rparr>, cancelled_jobs, timed_out_jobs)
                 else
                   let s = upd_pending lane_id (lrem job_id) s;
                       s = upd_delayed lane_id (zrem job_id) s;
                       s = s\<lparr>mq_failed := lrem job_id (mq_failed s)\<rparr>;
                       s = s\<lparr>mq_failed := lpush job_id (mq_failed s)\<rparr>;
                       s = mupd_meta job_id (\<lambda>m. m\<lparr>m_finished_at := Some now\<rparr>) s
                   in (s\<lparr>mq_cancels := srem job_id (mq_cancels s)\<rparr>,
                       cancelled_jobs @ [(lane_id, job_id)], timed_out_jobs)))"

definition mprocess_cancellations :: "nat \<Rightarrow> 'h mqueue \<Rightarrow> 'h mqueue \<times> lane_jobs \<times> lane_jobs" where
  "mprocess_cancellations now s = fold (mprocess_cancellation now) (mq_cancels s) (s, [], [])"

text \<open>
  The local variables of the loop over the lanes. A slot is \<open>None\<close> once its lane was found
  empty; \<open>lc_index\<close> counts from 1 as in the script.
\<close>

record lane_cursor =
  lc_slots :: "(lane_id \<times> nat) option list"
  lc_index :: nat
  lc_popped :: nat
  lc_empty :: nat
  lc_rows :: "(lane_id \<times> popped_row) list"
  lc_timed_out :: lane_jobs

definition next_lane :: "nat \<Rightarrow> lane_cursor \<Rightarrow> lane_cursor" where
  "next_lane total_lanes c =
     c\<lparr>lc_index := (if lc_index c + 1 > total_lanes then 1 else lc_index c + 1)\<rparr>"

text \<open>Housekeeping of a lane, only if its score shows no visit at this time.\<close>

definition refresh_lane :: "nat \<Rightarrow> lane_id \<Rightarrow> nat \<Rightarrow> lane_cursor \<times> 'h mqueue \<Rightarrow> lane_cursor \<times> 'h mqueue" where
  "refresh_lane now lane_id last_score = (\<lambda>(c, s).
     if last_score \<noteq> now then
       (case cleanup_lane_leases lane_id (s, lc_timed_out c) of (s, timed_out_jobs) \<Rightarrow>
          let s = mprocess_delayed_jobs now lane_id s;
              s = s\<lparr>mq_lanes := zadd lane_id now (mq_lanes s)\<rparr>
          in (c\<lparr>lc_timed_out := timed_out_jobs,
                lc_slots := (lc_slots c)[lc_index c - 1 := Some (lane_id, now)]\<rparr>, s))
     else (c, s))"

definition forget_empty_lane :: "lane_id \<Rightarrow> 'h mqueue \<Rightarrow> 'h mqueue" where
  "forget_empty_lane lane_id s =
     (if length (mq_pending s lane_id) = 0 \<and> length (mq_delayed s lane_id) = 0 \<and> length (mq_active s lane_id) = 0
      then s\<lparr>mq_lanes := zrem lane_id (mq_lanes s)\<rparr> else s)"

definition lane_visit :: "nat \<Rightarrow> string \<Rightarrow> nat \<Rightarrow> nat \<Rightarrow> lane_cursor \<times> 'h mqueue \<Rightarrow> lane_cursor \<times> 'h mqueue" where
  "lane_visit now pop_id lease_seconds total_lanes = (\<lambda>(c, s).
     case lc_slots c ! (lc_index c - 1) of
       None \<Rightarrow> (next_lane total_lanes c, s)
     | Some (lane_id, last_score) \<Rightarrow>
         (case refresh_lane now lane_id last_score (c, s) of (c, s) \<Rightarrow>
            (case pop_job_from_lane now pop_id lease_seconds lane_id s of
               (Some row, s) \<Rightarrow>
                 (next_lane total_lanes
                    (c\<lparr>lc_rows := lc_rows c @ [(lane_id, row)], lc_popped := lc_popped c + 1\<rparr>), s)
             | (None, s) \<Rightarrow>
                 (next_lane total_lanes
                    (c\<lparr>lc_slots := (lc_slots c)[lc_index c - 1 := None], lc_empty := lc_empty c + 1\<rparr>),
                  forget_empty_lane lane_id s))))"

partial_function (option) lane_loop ::
  "nat \<Rightarrow> string \<Rightarrow> nat \<Rightarrow> nat \<Rightarrow> nat \<Rightarrow> lane_cursor \<times> 'h mqueue \<Rightarrow> (lane_cursor \<times> 'h mqueue) option"
where
  "lane_loop now pop_id batch_size lease_seconds total_lanes cs =
     (if lc_popped (fst cs) < batch_size \<and> lc_empty (fst cs) < total_lanes
      then lane_loop now pop_id batch_size lease_seconds total_lanes
             (lane_visit now pop_id lease_seconds total_lanes cs)
      else Some cs)"

declare lane_loop.simps [code]

definition mpop_script :: "nat \<Rightarrow> string \<Rightarrow> nat \<Rightarrow> nat \<Rightarrow> 'h mqueue
    \<Rightarrow> (((lane_id \<times> popped_row) list \<times> lane_jobs \<times> lane_jobs) \<times> 'h mqueue) option" where
  "mpop_script now pop_id batch_size lease_seconds s =
     (case mprocess_cancellations now s of (s, cancelled_jobs, timed_out_jobs) \<Rightarrow>
        let lanes_with_scores = zrange (mq_lanes s);
            total_lanes = length lanes_with_scores
        in if total_lanes = 0 then Some (([], cancelled_jobs, timed_out_jobs), s)
           else
             map_option (\<lambda>(c, s). ((lc_rows c, cancelled_jobs, lc_timed_out c), s))
               (lane_loop now pop_id batch_size lease_seconds total_lanes
                  (\<lparr>lc_slots = map Some lanes_with_scores, lc_index = 1, lc_popped = 0, lc_empty = 0,
                    lc_rows = [], lc_timed_out = timed_out_jobs\<rparr>, s)))"

text \<open>The whole call, once the script's loop has ended.\<close>

definition mpop_batch_jobs ::
  "(string \<Rightarrow> 'd option) \<Rightarrow> QueueOptions \<Rightarrow> nat \<Rightarrow> string \<Rightarrow> fate \<Rightarrow> nat \<Rightarrow> 'h mqueue
     \<Rightarrow> ((TwmqError, (lane_id \<times> 'd BorrowedJob) list \<times> (lane_id \<times> 'd option Job \<times> lease_token) list \<times> lane_jobs) result
        \<times> 'h mqueue) option" where
  "mpop_batch_jobs from_json opts now pop_id f batch_size s =
     Option.bind (mpop_script now pop_id batch_size (as_secs (lease_duration opts)) s) (\<lambda>reply.
       case invoke f (\<lambda>_. reply) s of
         (Inl e, s') \<Rightarrow> Some (Inl e, s')
       | (Inr (job_results, cancelled_jobs, timed_out_jobs), s') \<Rightarrow>
           (case partition_rows (map (\<lambda>(l, row). map_sum (Pair l) (Pair l) (decode_row from_json now row)) job_results) of
              (jobs, queue_errors) \<Rightarrow> Some (Inr (jobs, queue_errors, cancelled_jobs), s')))"

subsection \<open>Completion\<close>

definition msuccess_commands :: "QueueOptions \<Rightarrow> nat \<Rightarrow> job_id \<Rightarrow> lease_token \<Rightarrow> string \<Rightarrow> 'h mpipe_cmd list" where
  "msuccess_commands opts now j tok result_json =
     [MDelLease j tok, MLpushSuccess j, MHsetFinishedAt j now, MHdelLeaseToken j, MHsetResult j result_json]
     @ (if idempotency_mode opts = ActiveMode then [MSremDedupe j] else [])"

definition madd_success_operations ::
  "('d, 'o, 'e, 'h) handler \<Rightarrow> QueueOptions \<Rightarrow> nat \<Rightarrow> 'd BorrowedJob \<Rightarrow> 'o \<Rightarrow> (TwmqError, 'h mpipe_cmd list) result" where
  "madd_success_operations h opts now job result =
     (case output_json h result of
        None \<Rightarrow> Inl (JsonError ''to_string'')
      | Some result_json \<Rightarrow>
          Inr (msuccess_commands opts now (jb_id (bj_job job)) (bj_lease_token job) result_json))"

definition mnack_commands :: "job_id \<Rightarrow> lease_token \<Rightarrow> string \<Rightarrow> 'h mpipe_cmd list" where
  "mnack_commands j tok error_text = [MDelLease j tok, MHdelLeaseToken j, MAppendError j error_text]"

definition madd_nack_operations ::
  "('d, 'o, 'e, 'h) handler \<Rightarrow> nat \<Rightarrow> 'd BorrowedJob \<Rightarrow> 'e \<Rightarrow> duration option \<Rightarrow> RequeuePosition
     \<Rightarrow> (TwmqError, 'h mpipe_cmd list) result" where
  "madd_nack_operations h now job error delay position =
     (let error_record = \<lparr>er_error = error, er_attempt = jb_attempts (bj_job job),
                          er_details = ErrNack delay position, er_created_at = now\<rparr>
      in case encode_record (error_json h) (marker_json h) error_record of
           Inl e \<Rightarrow> Inl e
         | Inr text \<Rightarrow> Inr (mnack_commands (jb_id (bj_job job)) (bj_lease_token job) text))"

definition mfail_commands :: "QueueOptions \<Rightarrow> nat \<Rightarrow> job_id \<Rightarrow> lease_token \<Rightarrow> string \<Rightarrow> 'h mpipe_cmd list" where
  "mfail_commands opts now j tok error_text =
     [MDelLease j tok, MLpushFailed j, MHsetFinishedAt j now, MHdelLeaseToken j, MAppendError j error_text]
     @ (if idempotency_mode opts = ActiveMode then [MSremDedupe j] else [])"

definition madd_fail_operations ::
  "('d, 'o, 'e, 'h) handler \<Rightarrow> QueueOptions \<Rightarrow> nat \<Rightarrow> 'd BorrowedJob \<Rightarrow> 'e \<Rightarrow> (TwmqError, 'h mpipe_cmd list) result" where
  "madd_fail_operations h opts now job error =
     (let error_record = \<lparr>er_error = error, er_attempt = jb_attempts (bj_job job),
                          er_details = ErrFail, er_created_at = now\<rparr>
      in case encode_record (error_json h) (marker_json h) error_record of
           Inl e \<Rightarrow> Inl e
         | Inr text \<Rightarrow> Inr (mfail_commands opts now (jb_id (bj_job job)) (bj_lease_token job) text))"

text \<open>What \<open>complete_job\<close> adds for a job given back: off the active hash, onto its lane again.\<close>

definition requeue_commands :: "nat \<Rightarrow> lane_id \<Rightarrow> job_id \<Rightarrow> duration option \<Rightarrow> RequeuePosition \<Rightarrow> 'h mpipe_cmd list" where
  "requeue_commands now lane_id j delay position =
     MHdelActive lane_id j #
     (case delay of
        Some delay_duration \<Rightarrow>
          [MHsetReentryPosition j (position_to_string position),
           MZaddDelayed lane_id j (u64_add now (delay_to_queue_seconds delay_duration))]
      | None \<Rightarrow> (case position of First \<Rightarrow> [MLpushPending lane_id j] | Last \<Rightarrow> [MRpushPending lane_id j]))"

definition mcompletion_pipeline ::
  "('d, 'o, 'e, 'h) handler \<Rightarrow> QueueOptions \<Rightarrow> nat \<Rightarrow> lane_id \<Rightarrow> 'd BorrowedJob \<Rightarrow> ('o, 'e) JobResult
     \<Rightarrow> (TwmqError, 'h mpipe_cmd list) result" where
  "mcompletion_pipeline h opts now lane_id job result =
     (let j = jb_id (bj_job job) in
      case result of
        Inr output \<Rightarrow>
          map_sum id (\<lambda>ops. map MExternal (on_success h job output) @ ops @ [MHdelActive lane_id j])
            (madd_success_operations h opts now job output)
      | Inl (Nack error delay position) \<Rightarrow>
          map_sum id (\<lambda>ops. map MExternal (on_nack h job error delay position) @ ops
                            @ requeue_commands now lane_id j delay position)
            (madd_nack_operations h now job error delay position)
      | Inl (Fail error) \<Rightarrow>
          map_sum id (\<lambda>ops. map MExternal (on_fail h job error) @ ops @ [MHdelActive lane_id j])
            (madd_fail_operations h opts now job error))"

definition mprune_job :: "('h mqueue \<Rightarrow> job_id list) \<Rightarrow> ('h mqueue \<Rightarrow> job_id list) \<Rightarrow> job_id
    \<Rightarrow> 'h mqueue \<times> nat \<Rightarrow> 'h mqueue \<times> nat" where
  "mprune_job this other j = (\<lambda>(s, actually_deleted).
     let has_retained_history = lpos j (this s) \<or> lpos j (other s);
         should_delete = \<not> has_retained_history;
         should_delete = (case m_lane_id (mq_meta s j) of
             Some lane_id \<Rightarrow>
               (if hexists j (mq_active s lane_id) \<or> lpos j (mq_pending s lane_id) \<or> zmember j (mq_delayed s lane_id)
                then False else should_delete)
           | None \<Rightarrow> should_delete)
     in if should_delete then
          (s\<lparr>mq_dedupe := mq_dedupe s - {j}, mq_cancels := srem j (mq_cancels s),
             mq_data := (mq_data s)(j := None), mq_meta := (mq_meta s)(j := empty_lane_meta),
             mq_results := (mq_results s)(j := None), mq_errors := (mq_errors s)(j := [])\<rparr>,
           actually_deleted + 1)
        else (s, actually_deleted))"

definition mprune_success_script :: "nat \<Rightarrow> 'h mqueue \<Rightarrow> nat \<times> 'h mqueue" where
  "mprune_success_script max_len s =
     (let job_ids_to_delete = lrange_from max_len (mq_success s) in
      if job_ids_to_delete = [] then (0, s)
      else let s = s\<lparr>mq_success := (if max_len = 0 then [] else ltrim_to max_len (mq_success s))\<rparr>;
               (s, n) = fold (mprune_job mq_success mq_failed) job_ids_to_delete (s, 0)
           in (n, s))"

definition mprune_failed_script :: "nat \<Rightarrow> 'h mqueue \<Rightarrow> nat \<times> 'h mqueue" where
  "mprune_failed_script max_len s =
     (let job_ids_to_delete = lrange_from max_len (mq_failed s) in
      if job_ids_to_delete = [] then (0, s)
      else let s = s\<lparr>mq_failed := (if max_len = 0 then [] else ltrim_to max_len (mq_failed s))\<rparr>;
               (s, n) = fold (mprune_job mq_failed mq_success) job_ids_to_delete (s, 0)
           in (n, s))"

definition mpost_success_completion :: "QueueOptions \<Rightarrow> fate \<Rightarrow> 'h mqueue \<Rightarrow> (TwmqError, unit) result \<times> 'h mqueue" where
  "mpost_success_completion opts f s =
     (case invoke f (mprune_success_script (max_success opts)) s of
        (Inl e, s') \<Rightarrow> (Inl e, s') | (Inr _, s') \<Rightarrow> (Inr (), s'))"

definition mpost_nack_completion :: "'h mqueue \<Rightarrow> (TwmqError, unit) result \<times> 'h mqueue" where
  "mpost_nack_completion s = (Inr (), s)"

definition mpost_fail_completion :: "QueueOptions \<Rightarrow> fate \<Rightarrow> 'h mqueue \<Rightarrow> (TwmqError, unit) result \<times> 'h mqueue" where
  "mpost_fail_completion opts f s =
     (case invoke f (mprune_failed_script (max_failed opts)) s of
        (Inl e, s') \<Rightarrow> (Inl e, s') | (Inr _, s') \<Rightarrow> (Inr (), s'))"

definition mlease_exists :: "job_id \<times> lease_token \<Rightarrow> 'h mqueue \<Rightarrow> bool" where
  "mlease_exists k s \<longleftrightarrow> mq_leases s k \<noteq> None"

text \<open>
  The lane is read from the metadata before the transaction; \<open>read_ok\<close> is whether that read
  reached Redis. A job without a lane is an error.
\<close>

definition mcomplete_job ::
  "('d, 'o, 'e, 'h) handler \<Rightarrow> QueueOptions \<Rightarrow> nat \<Rightarrow> ('c \<Rightarrow> bool) \<Rightarrow> 'c option
     \<Rightarrow> (nat \<Rightarrow> 'h mqueue attempt_env) \<Rightarrow> bool \<Rightarrow> fate \<Rightarrow> 'd BorrowedJob \<Rightarrow> ('o, 'e) JobResult
     \<Rightarrow> 'c list \<Rightarrow> 'h mqueue \<Rightarrow> (TwmqError, unit) result \<times> 'c list \<times> 'h mqueue" where
  "mcomplete_job h opts now probe connect env hget_ok f job result idle s =
     (if \<not> hget_ok then (Inl (RedisError ''HGET''), idle, s)
      else case m_lane_id (mq_meta s (jb_id (bj_job job))) of
        None \<Rightarrow> (Inl (Runtime (''Job '' @ jb_id (bj_job job) @ '' missing lane_id in metadata'')), idle, s)
      | Some lane_id \<Rightarrow>
          (case mcompletion_pipeline h opts now lane_id job result of
             Inl e \<Rightarrow> (Inl e, idle, s)
           | Inr hook_pipeline \<Rightarrow>
               (case commit_if_leased probe connect (mlease_exists (jb_id (bj_job job), bj_lease_token job))
                       (mexec_pipeline hook_pipeline) env idle s of
                  (Inl e, idle', s') \<Rightarrow> (Inl e, idle', s')
                | (Inr False, idle', s') \<Rightarrow> (Inr (), idle', s')
                | (Inr True, idle', s') \<Rightarrow>
                    (case (case result of
                             Inr _ \<Rightarrow> mpost_success_completion opts f s'
                           | Inl (Nack _ _ _) \<Rightarrow> mpost_nack_completion s'
                           | Inl (Fail _) \<Rightarrow> mpost_fail_completion opts f s') of
                       (r, s'') \<Rightarrow> (r, idle', s'')))))"

definition munreadable_commands ::
  "QueueOptions \<Rightarrow> nat \<Rightarrow> lane_id \<Rightarrow> job_id \<Rightarrow> lease_token \<Rightarrow> string \<Rightarrow> 'h mpipe_cmd list" where
  "munreadable_commands opts now lane_id j tok error_text =
     [MDelLease j tok, MHdelActive lane_id j, MLpushFailed j, MHsetFinishedAt j now, MHdelLeaseToken j,
      MAppendError j error_text]
     @ (if idempotency_mode opts = ActiveMode then [MSremDedupe j] else [])"

definition mqueue_error_pipeline ::
  "('d, 'o, 'e, 'h) handler \<Rightarrow> QueueOptions \<Rightarrow> nat \<Rightarrow> lane_id \<Rightarrow> 'd option Job \<Rightarrow> lease_token \<Rightarrow> 'e
     \<Rightarrow> (TwmqError, 'h mpipe_cmd list) result" where
  "mqueue_error_pipeline h opts now lane_id job tok error =
     (let twmq_error = Runtime ''Job processing failed with user error'';
          error_record = \<lparr>er_error = error, er_attempt = jb_attempts job,
                          er_details = ErrFail, er_created_at = now\<rparr>
      in case encode_record (error_json h) (marker_json h) error_record of
           Inl e \<Rightarrow> Inl e
         | Inr text \<Rightarrow>
             Inr (map MExternal (on_queue_error h job twmq_error)
                  @ munreadable_commands opts now lane_id (jb_id job) tok text))"

definition mcomplete_job_queue_error ::
  "('d, 'o, 'e, 'h) handler \<Rightarrow> QueueOptions \<Rightarrow> nat \<Rightarrow> ('c \<Rightarrow> bool) \<Rightarrow> 'c option
     \<Rightarrow> (nat \<Rightarrow> 'h mqueue attempt_env) \<Rightarrow> bool \<Rightarrow> fate \<Rightarrow> 'd option Job \<Rightarrow> lease_token \<Rightarrow> 'e
     \<Rightarrow> 'c list \<Rightarrow> 'h mqueue \<Rightarrow> (TwmqError, unit) result \<times> 'c list \<times> 'h mqueue" where
  "mcomplete_job_queue_error h opts now probe connect env hget_ok f job tok error idle s =
     (if \<not> hget_ok then (Inl (RedisError ''HGET''), idle, s)
      else
        let lane_id = unwrap_or ''unknown'' (m_lane_id (mq_meta s (jb_id job)))
        in case mqueue_error_pipeline h opts now lane_id job tok error of
             Inl e \<Rightarrow> (Inl e, idle, s)
           | Inr hook_pipeline \<Rightarrow>
               (case commit_if_leased probe connect (mlease_exists (jb_id job, tok))
                       (mexec_pipeline hook_pipeline) env idle s of
                  (Inl e, idle', s') \<Rightarrow> (Inl e, idle', s')
                | (Inr False, idle', s') \<Rightarrow> (Inr (), idle', s')
                | (Inr True, idle', s') \<Rightarrow>
                    (case mpost_fail_completion opts f s' of (r, s'') \<Rightarrow> (r, idle', s''))))"

end
