(* ===== verification/Twmq_Multilane_Inv.thy ===== *)
theory Twmq_Multilane_Inv
  imports Twmq_Multilane Twmq_Queue_Props
begin

text \<open>
  The invariant of the multilane queue and its preservation by every operation of every client.
\<close>

subsection \<open>Definitions\<close>

definition lane_live :: "'h mqueue \<Rightarrow> lane_id \<Rightarrow> job_id list" where
  "lane_live s l = mq_pending s l @ keys (mq_delayed s l) @ keys (mq_active s l)"

text \<open>
  A live job is in one list of one lane, the lane its metadata names, which is listed; it has data
  and is deduplicated. A live lease is the one the metadata names; exactly the active jobs have a token.
\<close>

definition minv :: "'h mqueue \<Rightarrow> bool" where
  "minv s \<longleftrightarrow>
     (\<forall>l. distinct (lane_live s l))
   \<and> (\<forall>l j. j \<in> set (lane_live s l) \<longrightarrow>
        m_lane_id (mq_meta s j) = Some l \<and> j \<in> mq_dedupe s \<and> mq_data s j \<noteq> None \<and> l \<in> set (keys (mq_lanes s)))
   \<and> (\<forall>j t. mq_leases s (j, t) \<noteq> None \<longrightarrow> m_lease_token (mq_meta s j) = Some t)
   \<and> (\<forall>l j. j \<in> set (keys (mq_active s l)) \<longrightarrow> m_lease_token (mq_meta s j) \<noteq> None)
   \<and> (\<forall>j. m_lease_token (mq_meta s j) \<noteq> None \<longrightarrow> j \<in> set (keys (mq_active s (the (m_lane_id (mq_meta s j))))))
   \<and> distinct (keys (mq_lanes s)) \<and> distinct (mq_cancels s)
   \<and> (\<forall>j. length (mq_errors s j) \<le> MAX_JOB_ERROR_RECORDS)"

text \<open>The state after the job \<open>j\<close> was taken off its lane, whose pending list is now \<open>js\<close>, and leased.\<close>

definition popped_state :: "nat \<Rightarrow> nat \<Rightarrow> lane_id \<Rightarrow> job_id list \<Rightarrow> job_id \<Rightarrow> nat \<Rightarrow> lease_token \<Rightarrow> 'h mqueue \<Rightarrow> 'h mqueue" where
  "popped_state now secs l js j a tok s =
     s\<lparr>mq_pending := (mq_pending s)(l := js), mq_active := (mq_active s)(l := hset j a (mq_active s l)),
       mq_meta := (mq_meta s)(j := (mq_meta s j)\<lparr>m_processed_at := Some now, m_attempts := Some a, m_lease_token := Some tok\<rparr>),
       mq_leases := (mq_leases s)((j, tok) := (if secs = 0 then None else Some secs))\<rparr>"

subsection \<open>Submission and cancellation\<close>

lemmas minv_defs = minv_def lane_live_def

lemma minv_empty: "minv empty_mqueue"
  by (simp add: minv_defs empty_mqueue_def empty_lane_meta_def MAX_JOB_ERROR_RECORDS_def)

lemma keys_zadd_nx [simp]: "set (keys (zadd_nx k n z)) = insert k (set (keys z))"
  "distinct (keys (zadd_nx k n z)) = distinct (keys z)"
  by (auto simp: zadd_nx_def script_defs)

lemma mpush_script_inv:
  assumes "minv s" shows "minv (snd (mpush_script l j d now delay pos s))"
proof (cases "j \<in> mq_dedupe s")
  case True
  then show ?thesis using assms by (simp add: mpush_script_def)
next
  case False
  then have "\<And>l. j \<notin> set (lane_live s l)" using assms by (auto simp: minv_def)
  with False assms show ?thesis
    by (auto simp: mpush_script_def minv_defs Let_def script_defs)
qed

lemma minv_lane: "minv s \<Longrightarrow> j \<in> set (lane_live s l) \<Longrightarrow> m_lane_id (mq_meta s j) = Some l"
  by (simp add: minv_def)

lemma minv_elsewhere:
  "minv s \<Longrightarrow> m_lane_id (mq_meta s j) = Some l \<Longrightarrow> l' \<noteq> l \<Longrightarrow>
     j \<notin> set (mq_pending s l') \<and> j \<notin> set (keys (mq_delayed s l')) \<and> j \<notin> set (keys (mq_active s l'))"
  using minv_lane [of s j l'] by (auto simp: lane_live_def)

lemma mcancel_script_inv:
  assumes "minv s" shows "minv (snd (mcancel_script j now s))"
proof (cases "m_lane_id (mq_meta s j)")
  case None
  then show ?thesis using assms by (simp add: mcancel_script_def)
next
  case (Some l)
  show ?thesis
    using assms Some minv_elsewhere [OF assms Some] by (auto simp: mcancel_script_def minv_defs script_defs)
qed

subsection \<open>Housekeeping of a lane\<close>

lemma minv_lease_token: "minv s \<Longrightarrow> mq_leases s (j, t) = Some n \<Longrightarrow> m_lease_token (mq_meta s j) = Some t"
  by (auto simp: minv_def)

lemma minv_token_active:
  "minv s \<Longrightarrow> m_lease_token (mq_meta s j) = Some t \<Longrightarrow> m_lane_id (mq_meta s j) = Some l \<Longrightarrow> j \<in> set (keys (mq_active s l))"
  unfolding minv_def by fastforce

lemma minv_one_lane: "minv s \<Longrightarrow> j \<in> set (lane_live s l) \<Longrightarrow> j \<in> set (lane_live s l') \<Longrightarrow> l = l'"
  by (metis minv_lane option.inject)

text \<open>Moving a job without a live lease from the active hash of its lane to its pending list.\<close>

lemma mrequeue_active_inv:
  assumes "minv s" and "j \<in> set (keys (mq_active s l))" and "\<And>t. mq_leases s (j, t) = None"
    and "\<And>m. m_lease_token (f m) = None" and "\<And>m. m_lane_id (f m) = m_lane_id m"
  shows "minv (upd_pending l (lpush j) (upd_active l (hdel j) (mupd_meta j f s)))"
proof -
  have other: "j \<notin> set (keys (mq_active s l'))" if "l' \<noteq> l" for l'
    using minv_one_lane [OF assms(1), of j l l'] assms(2) that by (auto simp: lane_live_def)
  show ?thesis
    using assms other by (auto simp: minv_defs script_defs)
qed

lemma minv_active_lane: "minv s \<Longrightarrow> j \<in> set (keys (mq_active s l)) \<Longrightarrow> m_lane_id (mq_meta s j) = Some l"
  by (rule minv_lane) (simp_all add: lane_live_def)

lemma mcleanup_lease_inv:
  assumes "minv s" and "j \<in> set (keys (mq_active s l))"
  shows "minv (fst (mcleanup_lease l j (s, acc)))"
proof -
  obtain t where t: "m_lease_token (mq_meta s j) = Some t" using assms by (fastforce simp: minv_def)
  show ?thesis
  proof (cases "mq_leases s (j, t)")
    case None
    have "mq_leases s (j, t') = None" for t'
    proof (cases "mq_leases s (j, t')")
      case (Some n)
      from minv_lease_token [OF assms(1) this] t None Some show ?thesis by simp
    qed simp
    note R = mrequeue_active_inv [OF assms this, of "\<lambda>m. m\<lparr>m_attempts := Some (case m_attempts m of None \<Rightarrow> 1 | Some a \<Rightarrow> a + 1),
        m_lease_token := None\<rparr>"]
    have "fst (mcleanup_lease l j (s, acc)) = upd_pending l (lpush j) (upd_active l (hdel j)
        (mupd_meta j (\<lambda>m. m\<lparr>m_attempts := Some (case m_attempts m of None \<Rightarrow> 1 | Some a \<Rightarrow> a + 1), m_lease_token := None\<rparr>) s))"
      using t None by (simp add: mcleanup_lease_def Let_def mhincr_attempts_def mupd_meta_def)
    then show ?thesis using R by simp
  next
    case (Some n)
    then show ?thesis using assms t by (simp add: mcleanup_lease_def)
  qed
qed

lemma mcleanup_lease_active:
  "set (keys (mq_active s l)) - {j} \<subseteq> set (keys (mq_active (fst (mcleanup_lease l j (s, acc))) l))"
  by (auto simp: mcleanup_lease_def Let_def script_defs split: option.split)

lemma fold_mcleanup_lease_inv:
  "minv s \<Longrightarrow> distinct js \<Longrightarrow> set js \<subseteq> set (keys (mq_active s l)) \<Longrightarrow>
     minv (fst (fold (mcleanup_lease l) js (s, acc)))"
proof (induction js arbitrary: s acc)
  case (Cons j js)
  obtain s' acc' where s': "mcleanup_lease l j (s, acc) = (s', acc')" by fastforce
  have "minv s'" using mcleanup_lease_inv [OF Cons.prems(1), of j l acc] Cons.prems(3) s' by simp
  moreover have "set js \<subseteq> set (keys (mq_active s' l))"
    using mcleanup_lease_active [of s l j acc] Cons.prems(2,3) s' by auto
  ultimately show ?case using Cons.IH Cons.prems(2) s' by simp
qed simp

lemma minv_active_distinct: "minv s \<Longrightarrow> distinct (keys (mq_active s l))"
  by (simp add: minv_defs)

lemma cleanup_lane_leases_inv: "minv s \<Longrightarrow> minv (fst (cleanup_lane_leases l (s, acc)))"
  by (simp add: cleanup_lane_leases_def fold_mcleanup_lease_inv minv_active_distinct)

lemma mrelease_delayed_inv:
  assumes "minv s" and "j \<in> set (keys (mq_delayed s l))"
  shows "minv (mrelease_delayed l j s)"
proof -
  have "m_lane_id (mq_meta s j) = Some l" by (rule minv_lane [OF assms(1)]) (simp add: lane_live_def assms(2))
  from minv_elsewhere [OF assms(1) this] show ?thesis
    using assms by (auto simp: mrelease_delayed_def minv_defs Let_def script_defs)
qed

lemma mrelease_delayed_keys: "keys (mq_delayed (mrelease_delayed l j s) l) = removeAll j (keys (mq_delayed s l))"
  by (simp add: mrelease_delayed_def Let_def script_defs)

lemma fold_mrelease_delayed_inv:
  "minv s \<Longrightarrow> distinct js \<Longrightarrow> set js \<subseteq> set (keys (mq_delayed s l)) \<Longrightarrow> minv (fold (mrelease_delayed l) js s)"
proof (induction js arbitrary: s)
  case (Cons j js)
  have "minv (mrelease_delayed l j s)" using mrelease_delayed_inv Cons.prems(1,3) by auto
  moreover have "set js \<subseteq> set (keys (mq_delayed (mrelease_delayed l j s) l))"
    using Cons.prems(2,3) by (auto simp: mrelease_delayed_keys)
  ultimately show ?case using Cons.IH Cons.prems(2) by simp
qed simp

lemma mprocess_delayed_jobs_inv: "minv s \<Longrightarrow> minv (mprocess_delayed_jobs now l s)"
  unfolding mprocess_delayed_jobs_def
  by (rule fold_mrelease_delayed_inv)
     (auto simp: minv_defs distinct_zrangebyscore dest: zrangebyscore_keys [THEN subsetD])

subsection \<open>Popping\<close>

lemma pop_job_Nil: "mq_pending s l = [] \<Longrightarrow> pop_job_from_lane now pop_id secs l s = (None, s)"
  by (simp add: pop_job_from_lane_def)

lemma pop_job_snoc:
  assumes "mq_pending s l = js @ [j]" and "mq_data s j = Some d"
    and "a = (case m_attempts (mq_meta s j) of None \<Rightarrow> 1 | Some a \<Rightarrow> a + 1)"
    and "tok = make_lease_token now j a pop_id"
  shows "pop_job_from_lane now pop_id secs l s =
    (Some (j, d, a, unwrap_or now (m_created_at (mq_meta s j)), now, tok), popped_state now secs l js j a tok s)"
  using assms(1,2)
  by (simp add: pop_job_from_lane_def popped_state_def Let_def mupd_meta_def mhincr_attempts_def upd_pending_def
      upd_active_def unwrap_or_def assms(3,4))

lemma minv_pending_lane: "minv s \<Longrightarrow> j \<in> set (mq_pending s l) \<Longrightarrow> m_lane_id (mq_meta s j) = Some l"
  by (rule minv_lane) (simp_all add: lane_live_def)

lemma minv_pending_no_lease:
  assumes "minv s" and "j \<in> set (mq_pending s l)"
  shows "mq_leases s (j, t) = None" and "m_lease_token (mq_meta s j) = None"
proof -
  have lane: "m_lane_id (mq_meta s j) = Some l" by (rule minv_pending_lane [OF assms])
  have "j \<notin> set (keys (mq_active s l))" using assms by (fastforce simp: minv_defs)
  then show tok: "m_lease_token (mq_meta s j) = None"
    using minv_token_active [OF assms(1) _ lane] by (cases "m_lease_token (mq_meta s j)") auto
  show "mq_leases s (j, t) = None"
    using minv_lease_token [OF assms(1), of j t] tok by (cases "mq_leases s (j, t)") auto
qed

text \<open>A step that concerns one job of one lane keeps the invariant if it does so there.\<close>

lemma minv_local:
  assumes "minv s" and "m_lane_id (mq_meta s j) = Some l" and "m_lane_id (mq_meta t j) = Some l"
    and lanes: "\<And>l'. l' \<noteq> l \<Longrightarrow> mq_pending t l' = mq_pending s l' \<and> mq_delayed t l' = mq_delayed s l' \<and> mq_active t l' = mq_active s l'"
    and live: "distinct (lane_live t l)" "set (lane_live t l) \<subseteq> insert j (set (lane_live s l))"
    and act: "set (keys (mq_active t l)) - {j} = set (keys (mq_active s l)) - {j}"
    and other: "\<And>i. i \<noteq> j \<Longrightarrow> mq_meta t i = mq_meta s i \<and> mq_data t i = mq_data s i \<and> (i \<in> mq_dedupe t \<longleftrightarrow> i \<in> mq_dedupe s)"
    and self: "j \<in> set (lane_live t l) \<Longrightarrow> j \<in> mq_dedupe t \<and> mq_data t j \<noteq> None \<and> l \<in> set (keys (mq_lanes t))"
    and names: "set (keys (mq_lanes s)) \<subseteq> set (keys (mq_lanes t))" "distinct (keys (mq_lanes t))" "distinct (mq_cancels t)"
    and lease: "\<And>i tok. i \<noteq> j \<Longrightarrow> mq_leases t (i, tok) = mq_leases s (i, tok)"
      "\<And>tok. mq_leases t (j, tok) \<noteq> None \<Longrightarrow> m_lease_token (mq_meta t j) = Some tok"
      "m_lease_token (mq_meta t j) \<noteq> None \<longleftrightarrow> j \<in> set (keys (mq_active t l))"
    and errors: "\<And>i. length (mq_errors t i) \<le> MAX_JOB_ERROR_RECORDS"
  shows "minv t"
proof -
  have off: "j \<notin> set (lane_live s l')" if "l' \<noteq> l" for l'
    using minv_elsewhere [OF assms(1,2) that] by (simp add: lane_live_def)
  have same: "lane_live t l' = lane_live s l'" if "l' \<noteq> l" for l' using lanes [OF that] by (simp add: lane_live_def)
  have 1: "distinct (lane_live t l')" for l' using live(1) same [of l'] assms(1) by (cases "l' = l") (auto simp: minv_def)
  have 2: "m_lane_id (mq_meta t i) = Some l' \<and> i \<in> mq_dedupe t \<and> mq_data t i \<noteq> None \<and> l' \<in> set (keys (mq_lanes t))"
    if i: "i \<in> set (lane_live t l')" for i l'
  proof (cases "i = j")
    case True
    with i same [of l'] off [of l'] have "l' = l" by (cases "l' = l") auto
    with True i self assms(3) show ?thesis by simp
  next
    case False
    with i same [of l'] live(2) have "i \<in> set (lane_live s l')" by (cases "l' = l") auto
    with assms(1) names(1) other [OF False] show ?thesis by (auto simp: minv_def)
  qed
  have 3: "m_lease_token (mq_meta t i) = Some tok" if "mq_leases t (i, tok) \<noteq> None" for i tok
    using that lease(1) [of i tok] lease(2) other [of i] assms(1) by (cases "i = j") (auto simp: minv_def)
  have act_iff: "i \<in> set (keys (mq_active t l')) \<longleftrightarrow> i \<in> set (keys (mq_active s l'))" if "i \<noteq> j" for i l'
    using act lanes [of l'] that by (cases "l' = l") auto
  have 4: "m_lease_token (mq_meta t i) \<noteq> None" if "i \<in> set (keys (mq_active t l'))" for i l'
  proof (cases "i = j")
    case True
    with that have "l' = l" using lanes [of l'] minv_elsewhere [OF assms(1,2), of l'] by (cases "l' = l") auto
    with True that lease(3) show ?thesis by simp
  next
    case False
    with that act_iff [OF False] other [OF False] assms(1) show ?thesis by (simp add: minv_def)
  qed
  have 5: "i \<in> set (keys (mq_active t (the (m_lane_id (mq_meta t i)))))" if "m_lease_token (mq_meta t i) \<noteq> None" for i
    using that lease(3) assms(1,3) other [of i] act_iff [of i] by (cases "i = j") (auto simp: minv_def)
  show ?thesis using 1 2 3 4 5 names(2,3) errors by (simp add: minv_def)
qed

lemma popped_state_inv:
  assumes "minv s" and js: "mq_pending s l = js @ [j]"
  shows "minv (popped_state now secs l js j a tok s)"
proof -
  have j: "j \<in> set (mq_pending s l)" by (simp add: js)
  note lane = minv_pending_lane [OF assms(1) j]
  have "distinct (lane_live s l)" using assms(1) by (simp add: minv_def)
  then have dl: "distinct (js @ keys (mq_delayed s l) @ keys (mq_active s l))" "j \<notin> set js"
    "j \<notin> set (keys (mq_delayed s l))" "j \<notin> set (keys (mq_active s l))"
    by (auto simp: lane_live_def js)
  have jl: "j \<in> mq_dedupe s" "mq_data s j \<noteq> None" "l \<in> set (keys (mq_lanes s))"
    using assms(1) j by (auto simp: minv_defs)
  have names: "distinct (keys (mq_lanes s))" "distinct (mq_cancels s)"
    "length (mq_errors s i) \<le> MAX_JOB_ERROR_RECORDS" for i
    using assms(1) by (simp_all add: minv_def)
  have live: "lane_live (popped_state now secs l js j a tok s) l =
      js @ keys (mq_delayed s l) @ keys (hset j a (mq_active s l))"
    by (simp add: popped_state_def lane_live_def)
  show ?thesis
  proof (rule minv_local [OF assms(1) lane])
    show "distinct (lane_live (popped_state now secs l js j a tok s) l)"
      unfolding live using dl by (auto simp: script_defs)
    show "set (lane_live (popped_state now secs l js j a tok s) l) \<subseteq> insert j (set (lane_live s l))"
      unfolding live by (auto simp: script_defs lane_live_def js)
    show "mq_leases (popped_state now secs l js j a tok s) (j, tok') \<noteq> None \<Longrightarrow>
        m_lease_token (mq_meta (popped_state now secs l js j a tok s) j) = Some tok'" for tok'
      using minv_pending_no_lease(1) [OF assms(1) j, of tok'] by (cases "tok' = tok") (simp_all add: popped_state_def)
  qed (use lane jl names in \<open>simp_all add: popped_state_def script_defs\<close>)
qed

text \<open>On a state with the invariant a pop finds no pending job, or takes the last one.\<close>

lemma pop_job_cases:
  assumes "minv s"
  obtains "mq_pending s l = []" "pop_job_from_lane now pop_id secs l s = (None, s)"
  | js j d a c tok where "mq_pending s l = js @ [j]" "mq_data s j = Some d" "tok = make_lease_token now j a pop_id"
      "pop_job_from_lane now pop_id secs l s = (Some (j, d, a, c, now, tok), popped_state now secs l js j a tok s)"
proof (cases "mq_pending s l" rule: rev_cases)
  case Nil
  then show ?thesis using that(1) pop_job_Nil by blast
next
  case (snoc js j)
  have "j \<in> set (lane_live s l)" using snoc by (simp add: lane_live_def)
  then obtain d where d: "mq_data s j = Some d" using assms by (fastforce simp: minv_def)
  from that(2) [OF snoc d refl pop_job_snoc [OF snoc d refl refl]] show ?thesis .
qed

lemma pop_job_from_lane_inv: "minv s \<Longrightarrow> minv (snd (pop_job_from_lane now pop_id secs l s))"
  by (rule pop_job_cases [of s l now pop_id secs]) (simp_all add: popped_state_inv)

subsection \<open>Cancellations\<close>

text \<open>What housekeeping of a lane leaves alone.\<close>

definition lane_frame :: "lane_id \<Rightarrow> 'h mqueue \<Rightarrow> 'h mqueue \<Rightarrow> bool" where
  "lane_frame l s t \<longleftrightarrow>
     mq_leases t = mq_leases s \<and> mq_data t = mq_data s \<and> mq_dedupe t = mq_dedupe s
   \<and> mq_success t = mq_success s \<and> mq_failed t = mq_failed s \<and> mq_cancels t = mq_cancels s
   \<and> (\<forall>i. m_lane_id (mq_meta t i) = m_lane_id (mq_meta s i))
   \<and> (\<forall>l'. l' \<noteq> l \<longrightarrow> mq_pending t l' = mq_pending s l' \<and> mq_delayed t l' = mq_delayed s l' \<and> mq_active t l' = mq_active s l')
   \<and> (\<forall>l' i tok. mq_leases s (i, tok) \<noteq> None \<longrightarrow> m_lease_token (mq_meta s i) = Some tok \<longrightarrow>
        (i \<in> set (keys (mq_active s l')) \<longrightarrow> i \<in> set (keys (mq_active t l'))) \<and> m_lease_token (mq_meta t i) = Some tok)"

lemma lane_frame_refl: "lane_frame l s s"
  by (simp add: lane_frame_def)

lemma lane_frame_trans: "lane_frame l s t \<Longrightarrow> lane_frame l t u \<Longrightarrow> lane_frame l s u"
  unfolding lane_frame_def by simp

lemma mcleanup_lease_frame: "lane_frame l s (fst (mcleanup_lease l j (s, acc)))"
  by (auto simp: lane_frame_def mcleanup_lease_def Let_def script_defs split: option.splits)

lemma cleanup_lane_leases_frame: "lane_frame l s (fst (cleanup_lane_leases l (s, acc)))"
  unfolding cleanup_lane_leases_def
  by (rule fold_pair_invariant [where P = "lane_frame l s"])
     (auto intro: lane_frame_refl lane_frame_trans mcleanup_lease_frame)

lemma cleanup_lane_leases_lanes: "mq_lanes (fst (cleanup_lane_leases l (s, acc))) = mq_lanes s"
  unfolding cleanup_lane_leases_def
  by (rule fold_pair_invariant [where P = "\<lambda>t. mq_lanes t = mq_lanes s"])
     (auto simp: mcleanup_lease_def Let_def script_defs split: option.splits)

lemma mrelease_delayed_frame: "lane_frame l s (mrelease_delayed l j s)"
  by (auto simp: lane_frame_def mrelease_delayed_def Let_def script_defs)

lemma mprocess_delayed_jobs_frame: "lane_frame l s (mprocess_delayed_jobs now l s)"
proof -
  have "lane_frame l s (fold (mrelease_delayed l) js s)" for js
    by (induction js arbitrary: s) (auto intro: lane_frame_refl lane_frame_trans mrelease_delayed_frame)
  then show ?thesis by (simp add: mprocess_delayed_jobs_def)
qed

lemma mprocess_delayed_jobs_lanes: "mq_lanes (mprocess_delayed_jobs now l s) = mq_lanes s"
proof -
  have "mq_lanes (fold (mrelease_delayed l) js s) = mq_lanes s" for js
    by (induction js arbitrary: s) (simp_all add: mrelease_delayed_def Let_def script_defs)
  then show ?thesis by (simp add: mprocess_delayed_jobs_def)
qed

lemma mcancel_waiting_inv:
  assumes "minv s" and "m_lane_id (mq_meta s j) = Some l" and "j \<notin> set (keys (mq_active s l))"
  shows "minv ((mupd_meta j (\<lambda>m. m\<lparr>m_finished_at := Some now\<rparr>)
           ((upd_delayed l (zrem j) (upd_pending l (lrem j) s))\<lparr>mq_failed := fl\<rparr>))
           \<lparr>mq_cancels := srem j (mq_cancels s)\<rparr>)" (is "minv ?t")
proof -
  have names: "distinct (keys (mq_lanes s))" "distinct (mq_cancels s)" "distinct (lane_live s l)"
    "length (mq_errors s i) \<le> MAX_JOB_ERROR_RECORDS" for i
    using assms(1) by (simp_all add: minv_def)
  have tok: "m_lease_token (mq_meta s j) = None"
    using minv_token_active [OF assms(1) _ assms(2)] assms(3) by (cases "m_lease_token (mq_meta s j)") auto
  have "mq_leases s (j, t) = None" for t
    using minv_lease_token [OF assms(1), of j t] tok by (cases "mq_leases s (j, t)") auto
  with names tok assms(2,3) show ?thesis
    by (intro minv_local [OF assms(1,2), of ?t]) (auto simp: script_defs lane_live_def)
qed

lemma mprocess_cancellation_inv:
  assumes "minv s"
  shows "minv (fst (mprocess_cancellation now j (s, acc)))"
proof (cases "m_lane_id (mq_meta s j)")
  case None
  then show ?thesis using assms by (cases acc) (simp add: mprocess_cancellation_def)
next
  case (Some l)
  obtain cs ts where acc: "acc = (cs, ts)" by fastforce
  obtain u ts' where u: "cleanup_lane_leases l (s, ts) = (u, ts')" by fastforce
  have i: "minv u" using cleanup_lane_leases_inv [OF assms, of l ts] u by simp
  have lane: "m_lane_id (mq_meta u j) = Some l"
    using cleanup_lane_leases_frame [of l s ts] u Some by (simp add: lane_frame_def)
  have c: "distinct (srem j (mq_cancels u))" using i by (simp add: minv_def script_defs)
  have i': "minv (u\<lparr>mq_cancels := srem j (mq_cancels u)\<rparr>)"
    using i c by (simp add: minv_defs)
  show ?thesis
    using mcancel_waiting_inv [OF i lane, where now = now and fl = "lpush j (lrem j (mq_failed u))"] i i'
    by (auto simp: mprocess_cancellation_def Some acc u Let_def mupd_meta_def upd_pending_def upd_delayed_def hexists_def)
qed

lemma mprocess_cancellations_inv: "minv s \<Longrightarrow> minv (fst (mprocess_cancellations now s))"
  unfolding mprocess_cancellations_def
  by (rule fold_pair_invariant [where P = minv]) (auto intro: mprocess_cancellation_inv)

subsection \<open>One visit of a lane\<close>

lemma minv_lanes:
  assumes "minv s" and "\<And>l. lane_live s l \<noteq> [] \<Longrightarrow> l \<in> set (keys z)" and "distinct (keys z)"
  shows "minv (s\<lparr>mq_lanes := z\<rparr>)"
proof -
  have "lane_live (s\<lparr>mq_lanes := z\<rparr>) = lane_live s" by (simp add: lane_live_def fun_eq_iff)
  moreover have "l \<in> set (keys z)" if "j \<in> set (lane_live s l)" for j l using assms(2) [of l] that by force
  ultimately show ?thesis using assms(1,3) by (simp add: minv_def)
qed

lemma minv_listed: "minv s \<Longrightarrow> lane_live s l \<noteq> [] \<Longrightarrow> l \<in> set (keys (mq_lanes s))"
  by (metis list.set_intros(1) minv_def neq_Nil_conv)

lemma forget_empty_lane_inv:
  assumes "minv s" shows "minv (forget_empty_lane l s)"
proof -
  have "distinct (keys (mq_lanes s))" using assms by (simp add: minv_def)
  moreover have "l' \<in> set (keys (zrem l (mq_lanes s)))" if "lane_live s l = []" "lane_live s l' \<noteq> []" for l'
    using minv_listed [OF assms that(2)] that by (cases "l' = l") (auto simp: script_defs)
  moreover have "lane_live s l = []"
    if "length (mq_pending s l) = 0 \<and> length (mq_delayed s l) = 0 \<and> length (mq_active s l) = 0"
    using that by (simp add: lane_live_def keys_def)
  ultimately show ?thesis
    using assms minv_lanes [OF assms, of "zrem l (mq_lanes s)"] by (auto simp: forget_empty_lane_def)
qed

lemma zadd_lane_inv: "minv s \<Longrightarrow> minv (s\<lparr>mq_lanes := zadd l now (mq_lanes s)\<rparr>)"
  by (rule minv_lanes) (auto simp: minv_listed, simp add: minv_def)

lemma refresh_lane_inv: "minv s \<Longrightarrow> minv (snd (refresh_lane now l score (c, s)))"
  by (auto simp: refresh_lane_def Let_def zadd_lane_inv mprocess_delayed_jobs_inv
      dest: cleanup_lane_leases_inv [of s l "lc_timed_out c"] split: prod.splits)

lemma lane_visit_None:
  "lc_slots c ! (lc_index c - 1) = None \<Longrightarrow> lane_visit now pop_id secs n (c, s) = (next_lane n c, s)"
  by (simp add: lane_visit_def)

lemma lane_visit_Some:
  assumes "lc_slots c ! (lc_index c - 1) = Some (l, score)" and "refresh_lane now l score (c, s) = (c', u)"
    and "pop_job_from_lane now pop_id secs l u = (r, v)"
  shows "lane_visit now pop_id secs n (c, s) =
     (case r of
        Some row \<Rightarrow> (next_lane n (c'\<lparr>lc_rows := lc_rows c' @ [(l, row)], lc_popped := lc_popped c' + 1\<rparr>), v)
      | None \<Rightarrow> (next_lane n (c'\<lparr>lc_slots := (lc_slots c')[lc_index c' - 1 := None], lc_empty := lc_empty c' + 1\<rparr>),
                 forget_empty_lane l v))"
  using assms by (simp add: lane_visit_def split: option.split)

lemma lane_visit_inv: "minv s \<Longrightarrow> minv (snd (lane_visit now pop_id secs n (c, s)))"
proof (cases "lc_slots c ! (lc_index c - 1)")
  case (Some ls)
  assume i: "minv s"
  obtain l score where ls: "ls = (l, score)" by fastforce
  obtain c' u where u: "refresh_lane now l score (c, s) = (c', u)" by fastforce
  obtain r v where v: "pop_job_from_lane now pop_id secs l u = (r, v)" by fastforce
  have "minv u" using refresh_lane_inv [OF i, of now l score c] u by simp
  then have "minv v" using pop_job_from_lane_inv [of u now pop_id secs l] v by simp
  then show ?thesis
    using lane_visit_Some [OF Some [unfolded ls] u v] by (simp add: forget_empty_lane_inv split: option.split)
qed (simp add: lane_visit_def)

end
