(* ===== verification/Twmq_Multilane_Pop.thy ===== *)
theory Twmq_Multilane_Pop
  imports Twmq_Multilane_Inv
begin

text \<open>
  The round over the lanes in the multilane poll: it always ends, it takes as many jobs as were
  asked for or empties every lane, no lane gets more than one job ahead of a lane that still
  waits, and every job handed out is leased.
\<close>

subsection \<open>Invariants of the round\<close>

text \<open>\<open>L\<close> lists the lanes in the order of their slots.\<close>

definition cursor_inv :: "lane_id list \<Rightarrow> lane_cursor \<Rightarrow> bool" where
  "cursor_inv L c \<longleftrightarrow>
     distinct L \<and> length (lc_slots c) = length L \<and> 1 \<le> lc_index c \<and> lc_index c \<le> length L
   \<and> lc_empty c = count_list (lc_slots c) None \<and> lc_popped c = length (lc_rows c)
   \<and> (\<forall>i < length L. \<forall>l score. lc_slots c ! i = Some (l, score) \<longrightarrow> l = L ! i)
   \<and> fst ` set (lc_rows c) \<subseteq> set L"

definition rows_of :: "lane_id \<Rightarrow> lane_cursor \<Rightarrow> nat" where
  "rows_of l c = count_list (map fst (lc_rows c)) l"

text \<open>In round \<open>r\<close> each lane still in the round has given \<open>r\<close> jobs, or \<open>r + 1\<close> behind the cursor.\<close>

definition fair_inv :: "lane_id list \<Rightarrow> lane_cursor \<Rightarrow> bool" where
  "fair_inv L c \<longleftrightarrow>
     (\<exists>r. \<forall>i < length L.
        (let due = (if i + 1 < lc_index c then r + 1 else r)
         in rows_of (L ! i) c \<le> due \<and> (lc_slots c ! i \<noteq> None \<longrightarrow> rows_of (L ! i) c = due)))"

definition work_inv :: "lane_id list \<Rightarrow> lane_cursor \<Rightarrow> 'h mqueue \<Rightarrow> bool" where
  "work_inv L c s \<longleftrightarrow>
     (\<forall>i < length L. lc_slots c ! i = None \<longrightarrow> mq_pending s (L ! i) = [])
   \<and> (\<forall>l. mq_pending s l \<noteq> [] \<longrightarrow> l \<in> set L)"

definition leased_rows :: "nat \<Rightarrow> lane_cursor \<Rightarrow> 'h mqueue \<Rightarrow> bool" where
  "leased_rows secs c s \<longleftrightarrow>
     list_all (\<lambda>(l, j, d, a, cr, p, tok). mq_leases s (j, tok) = Some secs \<and> m_lease_token (mq_meta s j) = Some tok
       \<and> j \<in> set (keys (mq_active s l))) (lc_rows c)"

definition round_inv :: "lane_id list \<Rightarrow> nat \<Rightarrow> nat \<Rightarrow> lane_cursor \<Rightarrow> 'h mqueue \<Rightarrow> bool" where
  "round_inv L batch secs c s \<longleftrightarrow>
     cursor_inv L c \<and> minv s \<and> fair_inv L c \<and> work_inv L c s \<and> leased_rows secs c s \<and> lc_popped c \<le> batch"

subsection \<open>One visit\<close>

lemma refresh_lane_frame: "lane_frame l s (snd (refresh_lane now l score (c, s)))"
proof (cases "score = now")
  case True
  then show ?thesis by (simp add: refresh_lane_def lane_frame_refl)
next
  case False
  obtain u ts where u: "cleanup_lane_leases l (s, lc_timed_out c) = (u, ts)" by fastforce
  have f: "lane_frame l s u" using cleanup_lane_leases_frame [of l s "lc_timed_out c"] u by simp
  have "lane_frame l s (mprocess_delayed_jobs now l u)"
    by (rule lane_frame_trans [OF f mprocess_delayed_jobs_frame])
  then have "lane_frame l s ((mprocess_delayed_jobs now l u)\<lparr>mq_lanes := z\<rparr>)" for z
    by (simp add: lane_frame_def)
  then show ?thesis using False u by (simp add: refresh_lane_def Let_def)
qed

lemma refresh_lane_cursor:
  assumes "refresh_lane now l score (c, s) = (c', u)"
  shows "lc_index c' = lc_index c \<and> lc_popped c' = lc_popped c \<and> lc_empty c' = lc_empty c \<and> lc_rows c' = lc_rows c"
    and "lc_slots c' = lc_slots c \<or> lc_slots c' = (lc_slots c)[lc_index c - 1 := Some (l, now)]"
  using assms by (auto simp: refresh_lane_def Let_def split: prod.splits if_splits)

lemma lane_visit_cases:
  assumes "cursor_inv L c" and "minv s" and "i = lc_index c - 1"
    and "lane_visit now pop_id secs n (c, s) = (c', s')"
  obtains (skipped) "lc_slots c ! i = None" "c' = next_lane n c" "s' = s"
  | (popped) js j d a cr tok u sl where
      "lc_slots c ! i \<noteq> None" "minv u" "lane_frame (L ! i) s u" "mq_pending u (L ! i) = js @ [j]"
      "tok = make_lease_token now j a pop_id" "s' = popped_state now secs (L ! i) js j a tok u"
      "lc_slots c' = (lc_slots c)[i := Some (L ! i, sl)]" "lc_rows c' = lc_rows c @ [(L ! i, j, d, a, cr, now, tok)]"
      "lc_popped c' = lc_popped c + 1" "lc_empty c' = lc_empty c" "lc_index c' = lc_index (next_lane n c)"
  | (emptied) u where
      "lc_slots c ! i \<noteq> None" "minv u" "lane_frame (L ! i) s u" "mq_pending u (L ! i) = []"
      "s' = forget_empty_lane (L ! i) u"
      "lc_slots c' = (lc_slots c)[i := None]" "lc_rows c' = lc_rows c"
      "lc_popped c' = lc_popped c" "lc_empty c' = lc_empty c + 1" "lc_index c' = lc_index (next_lane n c)"
proof (cases "lc_slots c ! i")
  case None
  from lane_visit_None [OF None [unfolded assms(3)], of now pop_id secs n s] assms(4) skipped [OF None]
  show ?thesis by simp
next
  case (Some ls)
  obtain l score where ls: "ls = (l, score)" by fastforce
  have i: "i < length L" "i < length (lc_slots c)" using assms(1,3) by (auto simp: cursor_inv_def)
  have l: "l = L ! i" using assms(1) i Some ls by (auto simp: cursor_inv_def)
  obtain c1 u where u: "refresh_lane now l score (c, s) = (c1, u)" by fastforce
  obtain r v where v: "pop_job_from_lane now pop_id secs l u = (r, v)" by fastforce
  have mu: "minv u" using refresh_lane_inv [OF assms(2), of now l score c] u by simp
  have fr: "lane_frame l s u" using refresh_lane_frame [of l s now score c] u by simp
  note c1 = refresh_lane_cursor [OF u]
  obtain sl where sl: "lc_slots c1 = (lc_slots c)[i := Some (l, sl)]"
    using c1(2) assms(3) Some ls i by (metis list_update_id)
  note visit = lane_visit_Some [OF Some [unfolded ls assms(3)] u v, of n, unfolded assms(4)]
  from mu show ?thesis
  proof (cases rule: pop_job_cases [of u l now pop_id secs])
    case 1
    with v have "r = None" "v = u" by simp_all
    with visit c1(1) sl assms(3)
    have "lc_slots c' = (lc_slots c)[i := None]" "lc_rows c' = lc_rows c"
      "lc_popped c' = lc_popped c" "lc_empty c' = lc_empty c + 1" "lc_index c' = lc_index (next_lane n c)"
      "s' = forget_empty_lane l u"
      by (auto simp: next_lane_def)
    then show ?thesis using emptied 1 mu fr l Some by simp
  next
    case (2 js j d a cr tok)
    with v have "r = Some (j, d, a, cr, now, tok)" "v = popped_state now secs l js j a tok u" by simp_all
    with visit c1(1) sl assms(3)
    have "lc_slots c' = (lc_slots c)[i := Some (l, sl)]" "lc_rows c' = lc_rows c @ [(l, j, d, a, cr, now, tok)]"
      "lc_popped c' = lc_popped c + 1" "lc_empty c' = lc_empty c" "lc_index c' = lc_index (next_lane n c)" "s' = popped_state now secs l js j a tok u"
      by (auto simp: next_lane_def)
    then show ?thesis using popped 2 mu fr l Some by blast
  qed
qed

subsection \<open>The invariants are kept\<close>

lemma count_list_update:
  assumes "i < length xs"
  shows "count_list (xs[i := x]) y + (if xs ! i = y then 1 else 0) = count_list xs y + (if x = y then 1 else 0)"
proof -
  have "xs = take i xs @ xs ! i # drop (Suc i) xs" using assms by (rule id_take_nth_drop)
  then have "count_list xs y = count_list (take i xs) y + (if xs ! i = y then 1 else 0) + count_list (drop (Suc i) xs) y"
    using count_list_append [of "take i xs" "xs ! i # drop (Suc i) xs" y] by simp
  then show ?thesis using assms by (simp add: upd_conv_take_nth_drop)
qed

lemma next_lane_range:
  "1 \<le> lc_index c \<Longrightarrow> lc_index c \<le> n \<Longrightarrow> 1 \<le> lc_index (next_lane n c) \<and> lc_index (next_lane n c) \<le> n"
  by (simp add: next_lane_def)

lemma lane_visit_cursor_inv:
  assumes "cursor_inv L c" and "minv s" and v: "lane_visit now pop_id secs (length L) (c, s) = (c', s')"
  shows "cursor_inv L c'"
proof -
  define i where "i = lc_index c - 1"
  have i: "i < length L" "i < length (lc_slots c)" using assms(1) by (auto simp: cursor_inv_def i_def)
  have r: "1 \<le> lc_index (next_lane (length L) c)" "lc_index (next_lane (length L) c) \<le> length L"
    using assms(1) next_lane_range [of c "length L"] by (simp_all add: cursor_inv_def)
  from assms(1,2) i_def v show ?thesis
  proof (cases rule: lane_visit_cases)
    case skipped
    then show ?thesis using assms(1) r by (simp add: cursor_inv_def) (simp add: next_lane_def)
  next
    case (popped js j d a cr tok u sl)
    have "count_list (lc_slots c') None = count_list (lc_slots c) None"
      using count_list_update [OF i(2), of "Some (L ! i, sl)" None] popped(1,7) by simp
    with popped assms(1) r i show ?thesis unfolding cursor_inv_def by (simp add: nth_list_update)
  next
    case (emptied u)
    have "count_list (lc_slots c') None = count_list (lc_slots c) None + 1"
      using count_list_update [OF i(2), of None None] emptied(1,6) by simp
    with emptied assms(1) r i show ?thesis unfolding cursor_inv_def by (simp add: nth_list_update)
  qed
qed

lemma work_inv_frame:
  assumes "work_inv L c s" and "lane_frame l s u" and "l \<in> set L"
  shows "\<And>l'. l' \<noteq> l \<Longrightarrow> mq_pending u l' = mq_pending s l'" and "\<And>l'. mq_pending u l' \<noteq> [] \<Longrightarrow> l' \<in> set L"
  using assms by (fastforce simp: lane_frame_def work_inv_def)+

lemma lane_visit_work_inv:
  assumes "cursor_inv L c" and "minv s" and "work_inv L c s"
    and v: "lane_visit now pop_id secs (length L) (c, s) = (c', s')"
  shows "work_inv L c' s'"
proof -
  define i where "i = lc_index c - 1"
  have i: "i < length L" "length (lc_slots c) = length L" "distinct L" using assms(1) by (auto simp: cursor_inv_def i_def)
  have neq: "L ! k \<noteq> L ! i" if "k < length L" "k \<noteq> i" for k using that i by (simp add: nth_eq_iff_index_eq)
  from assms(1,2) i_def v show ?thesis
  proof (cases rule: lane_visit_cases)
    case skipped
    then show ?thesis using assms(3) by (simp add: work_inv_def next_lane_def)
  next
    case (popped js j d a cr tok u sl)
    note F = work_inv_frame [OF assms(3) popped(3)]
    have "mq_pending s' (L ! k) = []" if "k < length L" "lc_slots c' ! k = None" for k
    proof -
      have "k \<noteq> i" "lc_slots c ! k = None" using that popped(7) i by (auto simp: nth_list_update split: if_splits)
      then show ?thesis using F(1) [OF nth_mem [OF i(1)] neq [OF that(1)]] neq [OF that(1)] assms(3) that(1) popped(6)
        by (simp add: work_inv_def popped_state_def)
    qed
    moreover have "l' \<in> set L" if "mq_pending s' l' \<noteq> []" for l'
      using that F(2) [OF nth_mem [OF i(1)], of l'] i(1) popped(6) by (cases "l' = L ! i") (auto simp: popped_state_def)
    ultimately show ?thesis by (simp add: work_inv_def)
  next
    case (emptied u)
    note F = work_inv_frame [OF assms(3) emptied(3)]
    have p: "mq_pending s' = mq_pending u" using emptied(5) by (simp add: forget_empty_lane_def)
    have "mq_pending s' (L ! k) = []" if "k < length L" "lc_slots c' ! k = None" for k
    proof (cases "k = i")
      case True
      then show ?thesis using emptied(4) p by simp
    next
      case False
      then have "lc_slots c ! k = None" using that emptied(6) by simp
      then show ?thesis using F(1) [OF nth_mem [OF i(1)] neq [OF that(1) False]] assms(3) that(1) p
        by (simp add: work_inv_def)
    qed
    moreover have "l' \<in> set L" if "mq_pending s' l' \<noteq> []" for l'
      using that F(2) [OF nth_mem [OF i(1)], of l'] p by simp
    ultimately show ?thesis by (simp add: work_inv_def)
  qed
qed

lemma rows_of_snoc: "lc_rows c' = lc_rows c @ [(l, row)] \<Longrightarrow> rows_of l' c' = rows_of l' c + (if l' = l then 1 else 0)"
  by (simp add: rows_of_def)

text \<open>Advancing the cursor past slot \<open>i\<close>, whose lane gave a job, is empty, or was empty before.\<close>

lemma fair_inv_advance:
  assumes "fair_inv L c" and "i = lc_index c - 1" and "i < length L" and "1 \<le> lc_index c"
    and "lc_index c' = lc_index (next_lane (length L) c)"
    and other: "\<And>k. k < length L \<Longrightarrow> k \<noteq> i \<Longrightarrow> rows_of (L ! k) c' = rows_of (L ! k) c \<and> lc_slots c' ! k = lc_slots c ! k"
    and self: "rows_of (L ! i) c' \<le> rows_of (L ! i) c + 1"
      "lc_slots c' ! i \<noteq> None \<Longrightarrow> rows_of (L ! i) c' = rows_of (L ! i) c + 1 \<and> lc_slots c ! i \<noteq> None"
  shows "fair_inv L c'"
proof -
  from assms(1) obtain r where r: "\<And>k. k < length L \<Longrightarrow> rows_of (L ! k) c \<le> (if k + 1 < lc_index c then r + 1 else r)"
    "\<And>k. k < length L \<Longrightarrow> lc_slots c ! k \<noteq> None \<Longrightarrow> rows_of (L ! k) c = (if k + 1 < lc_index c then r + 1 else r)"
    unfolding fair_inv_def Let_def by blast
  have b: "rows_of (L ! k) c' \<le> (if k \<le> i then r + 1 else r)
      \<and> (lc_slots c' ! k \<noteq> None \<longrightarrow> rows_of (L ! k) c' = (if k \<le> i then r + 1 else r))" if "k < length L" for k
  proof (cases "k = i")
    case True
    with r [of i] self assms(2-4) show ?thesis by (auto split: if_splits)
  next
    case False
    moreover have "k + 1 < lc_index c \<longleftrightarrow> k \<le> i" using False assms(2,4) by auto
    ultimately show ?thesis using r [OF that] other [OF that] by simp
  qed
  have ix: "lc_index c' = (if i + 1 = length L then 1 else i + 2)"
    using assms(2-5) by (auto simp: next_lane_def)
  define r' where "r' = (if i + 1 = length L then r + 1 else r)"
  have "(if k \<le> i then r + 1 else r) = (if k + 1 < lc_index c' then r' + 1 else r')" if "k < length L" for k
    using that ix by (auto simp: r'_def)
  then show ?thesis unfolding fair_inv_def Let_def using b by (intro exI [of _ r']) simp
qed

lemma lane_visit_fair_inv:
  assumes "cursor_inv L c" and "minv s" and "fair_inv L c"
    and v: "lane_visit now pop_id secs (length L) (c, s) = (c', s')"
  shows "fair_inv L c'"
proof -
  define i where "i = lc_index c - 1"
  have i: "i < length L" "length (lc_slots c) = length L" "distinct L" "1 \<le> lc_index c"
    using assms(1) by (auto simp: cursor_inv_def i_def)
  have neq: "L ! k \<noteq> L ! i" if "k < length L" "k \<noteq> i" for k using that i by (simp add: nth_eq_iff_index_eq)
  note A = fair_inv_advance [OF assms(3) i_def i(1,4)]
  from assms(1,2) i_def v show ?thesis
  proof (cases rule: lane_visit_cases)
    case skipped
    have "rows_of l c' = rows_of l c" for l using skipped(2) by (simp add: rows_of_def next_lane_def)
    moreover have "lc_slots c' = lc_slots c" using skipped(2) by (simp add: next_lane_def)
    ultimately show ?thesis using skipped(1,2) by (intro A) simp_all
  next
    case (popped js j d a cr tok u sl)
    note R = rows_of_snoc [OF popped(8)]
    show ?thesis
      using popped(1,7,11) i neq by (intro A) (simp_all add: R)
  next
    case (emptied u)
    have "rows_of l c' = rows_of l c" for l using emptied(7) by (simp add: rows_of_def)
    then show ?thesis using emptied(6,10) i by (intro A) simp_all
  qed
qed

lemma leased_rows_frame:
  assumes "leased_rows secs c s" and "lane_frame l s u"
  shows "leased_rows secs c u"
proof -
  have "(\<lambda>(l, j, d, a, cr, p, tok). mq_leases u (j, tok) = Some secs \<and> m_lease_token (mq_meta u j) = Some tok
       \<and> j \<in> set (keys (mq_active u l))) row"
    if "row \<in> set (lc_rows c)" for row
    using that assms unfolding leased_rows_def list_all_iff lane_frame_def by fastforce
  then show ?thesis by (auto simp: leased_rows_def list_all_iff)
qed

lemma lane_visit_leased_rows:
  assumes "cursor_inv L c" and "minv s" and "leased_rows secs c s" and "0 < secs"
    and v: "lane_visit now pop_id secs (length L) (c, s) = (c', s')"
  shows "leased_rows secs c' s'"
proof -
  from assms(1,2) refl v show ?thesis
  proof (cases rule: lane_visit_cases)
    case skipped
    then show ?thesis using assms(3) by (simp add: leased_rows_def next_lane_def)
  next
    case (popped js j d a cr tok u sl)
    have u: "leased_rows secs c u" by (rule leased_rows_frame [OF assms(3) popped(3)])
    have j: "j \<in> set (mq_pending u (L ! (lc_index c - 1)))" using popped(4) by simp
    have "m_lease_token (mq_meta u j) = None" by (rule minv_pending_no_lease(2) [OF popped(2) j])
    then have "\<forall>row \<in> set (lc_rows c). fst (snd row) \<noteq> j"
      using u by (fastforce simp: leased_rows_def list_all_iff)
    then show ?thesis
      using u popped(6,8) assms(4)
      by (fastforce simp: leased_rows_def list_all_iff popped_state_def script_defs)
  next
    case (emptied u)
    have "leased_rows secs c u" by (rule leased_rows_frame [OF assms(3) emptied(3)])
    then show ?thesis using emptied(5,7) by (simp add: leased_rows_def forget_empty_lane_def)
  qed
qed

lemma lane_visit_popped:
  assumes "cursor_inv L c" and "minv s" and "lane_visit now pop_id secs n (c, s) = (c', s')"
  shows "lc_popped c' \<le> lc_popped c + 1"
    and "lc_slots c ! (lc_index c - 1) \<noteq> None \<Longrightarrow> lc_popped c' + lc_empty c' = lc_popped c + lc_empty c + 1
      \<and> lc_popped c \<le> lc_popped c' \<and> lc_empty c \<le> lc_empty c'"
  using assms(1,2) refl assms(3) by (cases rule: lane_visit_cases; simp add: next_lane_def)+

lemma lane_visit_round_inv:
  assumes "round_inv L batch secs c s" and "0 < secs" and "lc_popped c < batch"
    and v: "lane_visit now pop_id secs (length L) (c, s) = (c', s')"
  shows "round_inv L batch secs c' s'"
proof -
  have i: "cursor_inv L c" "minv s" "fair_inv L c" "work_inv L c s" "leased_rows secs c s"
    using assms(1) by (simp_all add: round_inv_def)
  have "minv s'" using lane_visit_inv [OF i(2), of now pop_id secs "length L" c] v by simp
  then show ?thesis
    using lane_visit_cursor_inv [OF i(1,2) v] lane_visit_fair_inv [OF i(1-3) v] lane_visit_work_inv [OF i(1,2,4) v]
      lane_visit_leased_rows [OF i(1,2,5) assms(2) v] lane_visit_popped(1) [OF i(1,2) v] assms(3)
    by (simp add: round_inv_def)
qed

subsection \<open>The loop ends\<close>

definition round_over :: "nat \<Rightarrow> nat \<Rightarrow> lane_cursor \<Rightarrow> bool" where
  "round_over batch n c \<longleftrightarrow> \<not> (lc_popped c < batch \<and> lc_empty c < n)"

lemma count_list_full: "count_list xs y = length xs \<Longrightarrow> i < length xs \<Longrightarrow> xs ! i = y"
proof (induction xs arbitrary: i)
  case (Cons x xs)
  have "count_list xs y \<le> length xs" by (rule count_le_length)
  with Cons show ?case by (cases i) (auto split: if_splits)
qed simp

lemma filled_slot:
  assumes "cursor_inv L c" and "lc_empty c < length L"
  obtains d where "lc_slots c ! ((lc_index c - 1 + d) mod length L) \<noteq> None"
proof -
  let ?n = "length L"
  have n: "length (lc_slots c) = ?n" "lc_index c - 1 < ?n" using assms(1) by (auto simp: cursor_inv_def)
  have "\<exists>k < ?n. lc_slots c ! k \<noteq> None"
  proof (rule ccontr)
    assume "\<not> ?thesis"
    then have "lc_slots c ! k = None" if "k < ?n" for k using that by blast
    then have "lc_slots c = replicate ?n None" using n(1) by (intro nth_equalityI) simp_all
    then have "count_list (lc_slots c) None = ?n" by (simp add: count_list_eq_length_filter del: length_0_conv)
    then show False using assms by (simp add: cursor_inv_def)
  qed
  then obtain k where k: "k < ?n" "lc_slots c ! k \<noteq> None" by blast
  have "(lc_index c - 1 + (?n - (lc_index c - 1) + k)) mod ?n = (?n + k) mod ?n" using n(2) by simp
  also have "\<dots> = k" using k(1) by simp
  finally have "(lc_index c - 1 + (?n - (lc_index c - 1) + k)) mod ?n = k" .
  then show ?thesis using that [of "?n - (lc_index c - 1) + k"] k(2) by simp
qed

lemma next_lane_shift:
  assumes "1 \<le> lc_index c" and "lc_index c \<le> n"
  shows "(lc_index (next_lane n c) - 1 + d) mod n = (lc_index c - 1 + Suc d) mod n"
proof (cases "lc_index c = n")
  case True
  then have "lc_index c - 1 + Suc d = d + n" using assms by simp
  then show ?thesis using True by (simp add: next_lane_def)
next
  case False
  then show ?thesis using assms by (simp add: next_lane_def)
qed

lemma lane_loop_step:
  assumes "lc_popped c < batch" and "lc_empty c < n" and "lane_visit now pop_id secs n (c, s) = (c', s')"
  shows "lane_loop now pop_id batch secs n (c, s) = lane_loop now pop_id batch secs n (c', s')"
  using assms by (subst lane_loop.simps) simp

lemma lane_loop_stop: "round_over batch n c \<Longrightarrow> lane_loop now pop_id batch secs n (c, s) = Some (c, s)"
  by (subst lane_loop.simps) (auto simp: round_over_def)

definition round_ends :: "lane_id list \<Rightarrow> nat \<Rightarrow> string \<Rightarrow> nat \<Rightarrow> nat \<Rightarrow> lane_cursor \<Rightarrow> 'h mqueue \<Rightarrow> bool" where
  "round_ends L now pop_id batch secs c s \<longleftrightarrow>
     (\<exists>c' s'. lane_loop now pop_id batch secs (length L) (c, s) = Some (c', s')
        \<and> round_inv L batch secs c' s' \<and> round_over batch (length L) c')"

lemma round_ends_over:
  "round_inv L batch secs c s \<Longrightarrow> round_over batch (length L) c \<Longrightarrow> round_ends L now pop_id batch secs c s"
  using lane_loop_stop [of batch "length L" c now pop_id secs s] by (simp add: round_ends_def)

lemma round_ends_at_lane:
  fixes s :: "'h mqueue"
  assumes smaller: "\<And>c2 (s2 :: 'h mqueue). round_inv L batch secs c2 s2 \<Longrightarrow>
        (batch - lc_popped c2) + (length L - lc_empty c2) < (m :: nat) \<Longrightarrow> round_ends L now pop_id batch secs c2 s2"
    and "0 < secs" and inv: "round_inv L batch secs c s" and "(batch - lc_popped c) + (length L - lc_empty c) \<le> m"
    and "lc_slots c ! (lc_index c - 1) \<noteq> None"
  shows "round_ends L now pop_id batch secs c s"
proof (cases "round_over batch (length L) c")
  case True
  with inv show ?thesis by (rule round_ends_over)
next
  case False
  then have f: "lc_popped c < batch" "lc_empty c < length L" by (simp_all add: round_over_def)
  obtain c' s' where v: "lane_visit now pop_id secs (length L) (c, s) = (c', s')" by fastforce
  have ci: "cursor_inv L c" "minv s" using inv by (simp_all add: round_inv_def)
  have "(batch - lc_popped c') + (length L - lc_empty c') < (batch - lc_popped c) + (length L - lc_empty c)"
    using lane_visit_popped(2) [OF ci v assms(5)] f by auto
  then have "round_ends L now pop_id batch secs c' s'"
    using smaller [OF lane_visit_round_inv [OF inv assms(2) f(1) v]] assms(4) by simp
  then show ?thesis using lane_loop_step [OF f v] by (simp add: round_ends_def)
qed

text \<open>From the cursor to the next lane still in the round: \<open>d\<close> skipped slots, then a visit.\<close>

lemma round_ends_by_distance:
  fixes s :: "'h mqueue"
  assumes smaller: "\<And>c2 (s2 :: 'h mqueue). round_inv L batch secs c2 s2 \<Longrightarrow>
        (batch - lc_popped c2) + (length L - lc_empty c2) < (m :: nat) \<Longrightarrow> round_ends L now pop_id batch secs c2 s2"
    and "0 < secs"
  shows "round_inv L batch secs c s \<Longrightarrow> (batch - lc_popped c) + (length L - lc_empty c) \<le> m \<Longrightarrow>
      lc_slots c ! ((lc_index c - 1 + d) mod length L) \<noteq> None \<Longrightarrow> round_ends L now pop_id batch secs c s"
proof (induction d arbitrary: c)
  case (0 c)
  have "lc_index c - 1 < length L" using "0.prems"(1) by (auto simp: round_inv_def cursor_inv_def)
  then have "lc_slots c ! (lc_index c - 1) \<noteq> None" using "0.prems"(3) by simp
  with "0.prems"(1,2) show ?case
    using round_ends_at_lane [of L batch secs m now pop_id c s] smaller assms(2) by blast
next
  case (Suc d c)
  show ?case
  proof (cases "lc_slots c ! (lc_index c - 1) = None \<and> \<not> round_over batch (length L) c")
    case True
    have ix: "1 \<le> lc_index c" "lc_index c \<le> length L" using Suc.prems(1) by (auto simp: round_inv_def cursor_inv_def)
    have v: "lane_visit now pop_id secs (length L) (c, s) = (next_lane (length L) c, s)"
      using True lane_visit_None by blast
    have "round_inv L batch secs (next_lane (length L) c) s"
      by (rule lane_visit_round_inv [OF Suc.prems(1) assms(2) _ v]) (use True in \<open>simp add: round_over_def\<close>)
    moreover have "(batch - lc_popped (next_lane (length L) c)) + (length L - lc_empty (next_lane (length L) c)) \<le> m"
      using Suc.prems(2) by (simp add: next_lane_def)
    moreover have "lc_slots (next_lane (length L) c) ! ((lc_index (next_lane (length L) c) - 1 + d) mod length L) \<noteq> None"
      unfolding next_lane_shift [OF ix] using Suc.prems(3) by (simp add: next_lane_def)
    ultimately have "round_ends L now pop_id batch secs (next_lane (length L) c) s" by (rule Suc.IH)
    then show ?thesis
      using lane_loop_step [OF _ _ v, of batch] True by (simp add: round_ends_def round_over_def)
  next
    case False
    then show ?thesis
      using round_ends_at_lane [of L batch secs m now pop_id c s] smaller assms(2) Suc.prems(1,2) round_ends_over
      by blast
  qed
qed

lemma lane_loop_ends:
  assumes "0 < secs"
  shows "round_inv L batch secs c s \<Longrightarrow> round_ends L now pop_id batch secs c s"
proof (induction "(batch - lc_popped c) + (length L - lc_empty c)" arbitrary: c s rule: less_induct)
  case less
  show ?case
  proof (cases "round_over batch (length L) c")
    case True
    with less.prems show ?thesis by (rule round_ends_over)
  next
    case False
    then obtain d where "lc_slots c ! ((lc_index c - 1 + d) mod length L) \<noteq> None"
      using filled_slot [of L c] less.prems by (auto simp: round_inv_def round_over_def)
    then show ?thesis
      using round_ends_by_distance [where m = "(batch - lc_popped c) + (length L - lc_empty c)"] less assms by blast
  qed
qed

subsection \<open>The whole script\<close>

lemma lane_names_props:
  assumes "minv s"
  shows "distinct (lane_names s)" and "set (lane_names s) = set (keys (mq_lanes s))"
proof -
  have "mset (lane_names s) = mset (keys (mq_lanes s))" by (simp add: lane_names_def zrange_def keys_def)
  moreover have "distinct (keys (mq_lanes s))" using assms by (simp add: minv_def)
  ultimately show "distinct (lane_names s)" "set (lane_names s) = set (keys (mq_lanes s))"
    using mset_eq_imp_distinct_iff mset_eq_setD by blast+
qed

lemma pending_listed: "minv s \<Longrightarrow> mq_pending s l \<noteq> [] \<Longrightarrow> l \<in> set (lane_names s)"
  using minv_listed [of s l] lane_names_props(2) [of s] by (simp add: lane_live_def)

definition start_cursor :: "'h mqueue \<Rightarrow> lane_jobs \<Rightarrow> lane_cursor" where
  "start_cursor s timed_out = \<lparr>lc_slots = map Some (zrange (mq_lanes s)), lc_index = 1, lc_popped = 0, lc_empty = 0,
     lc_rows = [], lc_timed_out = timed_out\<rparr>"

lemma start_round_inv:
  assumes "minv s" and "lane_names s \<noteq> []"
  shows "round_inv (lane_names s) batch secs (start_cursor s ts) s"
proof -
  have n: "length (zrange (mq_lanes s)) = length (lane_names s)" by (simp add: lane_names_def)
  have "count_list (map Some (zrange (mq_lanes s))) None = 0" by (simp add: count_list_0_iff)
  moreover have "lane_names s ! i = fst (zrange (mq_lanes s) ! i)" if "i < length (lane_names s)" for i
    using that by (simp add: lane_names_def)
  moreover have "1 \<le> length (lane_names s)" using assms(2) by (cases "lane_names s") simp_all
  ultimately have "cursor_inv (lane_names s) (start_cursor s ts)"
    using lane_names_props(1) [OF assms(1)] n by (auto simp: cursor_inv_def start_cursor_def)
  moreover have "fair_inv (lane_names s) (start_cursor s ts)"
    by (auto simp: fair_inv_def start_cursor_def rows_of_def)
  moreover have "work_inv (lane_names s) (start_cursor s ts) s"
    using pending_listed [OF assms(1)] n by (simp add: work_inv_def start_cursor_def)
  ultimately show ?thesis using assms(1) by (simp add: round_inv_def start_cursor_def leased_rows_def)
qed

text \<open>
  The reply of the script is that of a finished round over the lanes known after the cancellations.
\<close>

lemma mpop_script_round:
  assumes "minv s" and "0 < secs"
  obtains L c cancelled s' where
    "mpop_script now pop_id batch secs s = Some ((lc_rows c, cancelled, lc_timed_out c), s')"
    "minv s'" "lc_popped c = length (lc_rows c)" "lc_popped c \<le> batch" "leased_rows secs c s'"
    "work_inv L c s'" "fair_inv L c" "L \<noteq> [] \<Longrightarrow> cursor_inv L c \<and> round_over batch (length L) c"
proof -
  obtain u cancelled ts where u: "mprocess_cancellations now s = (u, cancelled, ts)" by (metis prod_cases3)
  have i: "minv u" using mprocess_cancellations_inv [OF assms(1), of now] u by simp
  show ?thesis
  proof (cases "lane_names u = []")
    case True
    have "work_inv [] (start_cursor u ts) u" using pending_listed [OF i] True by (auto simp: work_inv_def)
    then show ?thesis
      using that [of "start_cursor u ts" cancelled u "[]"] i u True
      by (simp add: mpop_script_def start_cursor_def lane_names_def leased_rows_def fair_inv_def)
  next
    case False
    have "round_ends (lane_names u) now pop_id batch secs (start_cursor u ts) u"
      by (rule lane_loop_ends [OF assms(2) start_round_inv [OF i False]])
    then obtain c' s' where e: "lane_loop now pop_id batch secs (length (lane_names u)) (start_cursor u ts, u) = Some (c', s')"
        "round_inv (lane_names u) batch secs c' s'" "round_over batch (length (lane_names u)) c'"
      by (auto simp: round_ends_def)
    have "length (zrange (mq_lanes u)) = length (lane_names u)" "zrange (mq_lanes u) \<noteq> []"
      using False by (simp_all add: lane_names_def)
    then have "mpop_script now pop_id batch secs s = Some ((lc_rows c', cancelled, lc_timed_out c'), s')"
      using e(1) False u by (simp add: mpop_script_def start_cursor_def Let_def)
    then show ?thesis using that [of c' cancelled s' "lane_names u"] e(2,3) by (simp add: round_inv_def cursor_inv_def)
  qed
qed

lemma mpop_script_inv:
  assumes "minv s" and "0 < secs" and "mpop_script now pop_id batch secs s = Some (r, t)"
  shows "minv t"
  using mpop_script_round [OF assms(1,2), of now pop_id batch] assms(3) by (metis option.inject prod.inject)

end
