(* ===== verification/Twmq_Multilane_Step.thy ===== *)
theory Twmq_Multilane_Step
  imports Twmq_Multilane_Pop
begin

text \<open>
  The clients of the multilane queue as a step relation: every step keeps the invariant, the lane
  of a leased job cannot change, and the contract of a lease fence holds as for the single queue.
\<close>

subsection \<open>Definitions\<close>

inductive mcompletion_commands :: "QueueOptions \<Rightarrow> lane_id \<Rightarrow> job_id \<Rightarrow> lease_token \<Rightarrow> 'h mpipe_cmd list \<Rightarrow> bool"
  for opts l j tok where
  msuccess: "mcompletion_commands opts l j tok (msuccess_commands opts now j tok res @ [MHdelActive l j])"
| mnack: "mcompletion_commands opts l j tok (mnack_commands j tok text @ requeue_commands now l j delay position)"
| mfail: "mcompletion_commands opts l j tok (mfail_commands opts now j tok text @ [MHdelActive l j])"
| munreadable: "mcompletion_commands opts l j tok (munreadable_commands opts now l j tok text)"

text \<open>A completion commits under a live lease, with the lane the metadata names at that moment.\<close>

inductive mqueue_step :: "QueueOptions \<Rightarrow> 'h mqueue \<Rightarrow> queue_event \<Rightarrow> 'h mqueue \<Rightarrow> bool" for opts where
  push: "mqueue_step opts s (EPush j) (snd (mpush_script l j d now delay pos s))"
| cancel: "mqueue_step opts s (ECancel j) (snd (mcancel_script j now s))"
| pop: "0 < secs \<Longrightarrow> mpop_script now pop_id batch secs s = Some (r, t) \<Longrightarrow> mqueue_step opts s (EPop pop_id) t"
| commit: "mlease_exists (j, tok) s \<Longrightarrow> m_lane_id (mq_meta s j) = Some l \<Longrightarrow> mcompletion_commands opts l j tok ops
    \<Longrightarrow> mqueue_step opts s (ECommit j tok) (mexec_pipeline (map MExternal hook @ ops) s)"
| prune_success: "mqueue_step opts s EPrune (snd (mprune_success_script (max_success opts) s))"
| prune_failed: "mqueue_step opts s EPrune (snd (mprune_failed_script (max_failed opts) s))"
| expire: "mqueue_step opts s (EExpire j tok) (s\<lparr>mq_leases := (mq_leases s)((j, tok) := None)\<rparr>)"
| hook: "mqueue_step opts s EHook (mexec_pipeline (map MExternal hook) s)"

inductive mqueue_run :: "QueueOptions \<Rightarrow> 'h mqueue \<Rightarrow> queue_event list \<Rightarrow> 'h mqueue \<Rightarrow> bool" for opts where
  start: "mqueue_run opts s [] s"
| step: "mqueue_run opts s evs t \<Longrightarrow> mqueue_step opts t e u \<Longrightarrow> mqueue_run opts s (evs @ [e]) u"

definition mother_clients :: "job_id \<times> lease_token \<Rightarrow> 'h mqueue \<Rightarrow> 'h mqueue \<Rightarrow> bool" where
  "mother_clients k s t \<longleftrightarrow> (\<exists>opts e. mqueue_step opts s e t \<and> \<not> minted_by e (snd k))"

definition mconsumes_lease :: "job_id \<times> lease_token \<Rightarrow> 'h mpipe_cmd list \<Rightarrow> bool" where
  "mconsumes_lease k p \<longleftrightarrow> MDelLease (fst k) (snd k) \<in> set p"

subsection \<open>Pipelines\<close>

lemma mexec_pipeline_simps [simp]:
  "mexec_pipeline [] s = s"
  "mexec_pipeline (c # p) s = mexec_pipeline p (mexec_cmd c s)"
  "mexec_pipeline (p @ q) s = mexec_pipeline q (mexec_pipeline p s)"
  by (simp_all add: mexec_pipeline_def)

lemma mexec_dedupe [simp]:
  "mexec_pipeline (if b then [MSremDedupe j] else []) s = s\<lparr>mq_dedupe := mq_dedupe s - (if b then {j} else {})\<rparr>"
  by simp

lemma mexec_external: "mexec_pipeline (map MExternal hook) s = s\<lparr>mq_external := mq_external s @ hook\<rparr>"
  by (induction hook arbitrary: s) simp_all

lemma mexternal_inv: "minv (s\<lparr>mq_external := es\<rparr>) = minv s"
  by (simp add: minv_defs)

text \<open>What a live lease says about its job.\<close>

lemma mheld_facts:
  assumes "minv s" and "mlease_exists (j, tok) s" and "m_lane_id (mq_meta s j) = Some l"
  shows "j \<in> set (keys (mq_active s l))" and "m_lease_token (mq_meta s j) = Some tok"
    and "j \<notin> set (mq_pending s l)" and "j \<notin> set (keys (mq_delayed s l))"
    and "\<And>t. t \<noteq> tok \<Longrightarrow> mq_leases s (j, t) = None" and "j \<in> mq_dedupe s" and "mq_data s j \<noteq> None"
    and "l \<in> set (keys (mq_lanes s))"
proof -
  show tok: "m_lease_token (mq_meta s j) = Some tok"
    using assms(1,2) minv_lease_token by (auto simp: mlease_exists_def)
  show act: "j \<in> set (keys (mq_active s l))" by (rule minv_token_active [OF assms(1) tok assms(3)])
  show "\<And>t. t \<noteq> tok \<Longrightarrow> mq_leases s (j, t) = None"
    using minv_lease_token [OF assms(1)] tok by (metis not_Some_eq option.inject)
  have "distinct (lane_live s l)" using assms(1) by (simp add: minv_def)
  then show "j \<notin> set (mq_pending s l)" "j \<notin> set (keys (mq_delayed s l))" using act by (auto simp: lane_live_def)
  have "j \<in> set (lane_live s l)" using act by (simp add: lane_live_def)
  then show "j \<in> mq_dedupe s" "mq_data s j \<noteq> None" "l \<in> set (keys (mq_lanes s))" using assms(1) by (simp_all add: minv_def)
qed

lemma mcompletion_inv:
  assumes "minv s" and "mlease_exists (j, tok) s" and "m_lane_id (mq_meta s j) = Some l"
    and "mcompletion_commands opts l j tok ops"
  shows "minv (mexec_pipeline ops s)"
proof -
  note H = mheld_facts [OF assms(1-3)]
  have names: "distinct (keys (mq_lanes s))" "distinct (mq_cancels s)" "distinct (lane_live s l)"
    "length (mq_errors s i) \<le> MAX_JOB_ERROR_RECORDS" for i
    using assms(1) by (simp_all add: minv_def)
  from assms(4) show ?thesis
  proof cases
    case (msuccess now res)
    show ?thesis unfolding msuccess
      by (rule minv_local [OF assms(1,3)])
         (use H names assms(3) in \<open>auto simp: msuccess_commands_def script_defs lane_live_def split: if_splits\<close>)
  next
    case (mnack now msg delay position)
    show ?thesis unfolding mnack
      by (rule minv_local [OF assms(1,3)])
         (use H names assms(3) length_append_record in
           \<open>auto simp: mnack_commands_def requeue_commands_def script_defs lane_live_def
              split: option.splits RequeuePosition.splits if_splits\<close>)
  next
    case (mfail now msg)
    show ?thesis unfolding mfail
      by (rule minv_local [OF assms(1,3)])
         (use H names assms(3) length_append_record in \<open>auto simp: mfail_commands_def script_defs lane_live_def split: if_splits\<close>)
  next
    case (munreadable now msg)
    show ?thesis unfolding munreadable
      by (rule minv_local [OF assms(1,3)])
         (use H names assms(3) length_append_record in \<open>auto simp: munreadable_commands_def script_defs lane_live_def split: if_splits\<close>)
  qed
qed

subsection \<open>Pruning\<close>

lemma mprune_job_inv:
  assumes "minv s"
  shows "minv (fst (mprune_job this other j (s, n)))"
proof (cases "fst (mprune_job this other j (s, n)) = s")
  case True
  then show ?thesis using assms by simp
next
  case False
  let ?t = "s\<lparr>mq_dedupe := mq_dedupe s - {j}, mq_cancels := srem j (mq_cancels s),
             mq_data := (mq_data s)(j := None), mq_meta := (mq_meta s)(j := empty_lane_meta),
             mq_results := (mq_results s)(j := None), mq_errors := (mq_errors s)(j := [])\<rparr>"
  have t: "fst (mprune_job this other j (s, n)) = ?t" using False by (auto simp: mprune_job_def Let_def split: if_splits option.splits)
  have off: "j \<notin> set (lane_live s l)" for l
  proof
    assume j: "j \<in> set (lane_live s l)"
    then have "m_lane_id (mq_meta s j) = Some l" by (rule minv_lane [OF assms])
    with j False show False by (auto simp: mprune_job_def Let_def lane_live_def script_defs)
  qed
  have tok: "m_lease_token (mq_meta s j) = None"
    using assms off by (auto simp: minv_def lane_live_def)
  have "mq_leases s (j, x) = None" for x
    using minv_lease_token [OF assms, of j x] tok by (cases "mq_leases s (j, x)") auto
  with off assms show ?thesis
    unfolding t by (auto simp: minv_defs empty_lane_meta_def script_defs)
qed

lemma fold_mprune_job_inv: "minv s \<Longrightarrow> minv (fst (fold (mprune_job this other) js (s, n)))"
  by (rule fold_pair_invariant [where P = minv]) (auto intro: mprune_job_inv)

lemma mprune_scripts_inv:
  assumes "minv s"
  shows "minv (snd (mprune_success_script n s))" and "minv (snd (mprune_failed_script n s))"
proof -
  have "minv (s\<lparr>mq_success := xs\<rparr>)" "minv (s\<lparr>mq_failed := xs\<rparr>)" for xs
    using assms by (simp_all add: minv_defs)
  then show "minv (snd (mprune_success_script n s))" "minv (snd (mprune_failed_script n s))"
    using assms
    by (auto simp: mprune_success_script_def mprune_failed_script_def Let_def case_prod_beta fold_mprune_job_inv)
qed

lemma mqueue_step_inv: "mqueue_step opts s e t \<Longrightarrow> minv s \<Longrightarrow> minv t"
proof (induction rule: mqueue_step.induct)
  case (commit j tok s l ops hk)
  let ?u = "s\<lparr>mq_external := mq_external s @ hk\<rparr>"
  have "minv (mexec_pipeline ops ?u)"
    by (rule mcompletion_inv [OF _ _ _ commit(3)])
       (use commit in \<open>simp_all add: mexternal_inv mlease_exists_def\<close>)
  then show ?case by (simp add: mexec_external)
next
  case (expire s j tok)
  then show ?case by (auto simp: minv_defs)
qed (simp_all add: mpush_script_inv mcancel_script_inv mpop_script_inv mprune_scripts_inv mexec_external mexternal_inv)

lemma mqueue_run_inv: "mqueue_run opts s evs t \<Longrightarrow> minv s \<Longrightarrow> minv t"
  by (induction rule: mqueue_run.induct) (auto intro: mqueue_step_inv)

subsection \<open>Leases and lanes along a poll\<close>

lemma pop_job_leases:
  assumes "\<not> suffix pop_id (snd k)" and "mq_leases s k = None"
  shows "mq_leases (snd (pop_job_from_lane now pop_id secs l s)) k = None"
  using assms suffix_make_lease_token [of pop_id now]
  by (auto simp: pop_job_from_lane_def Let_def script_defs split: option.split)

lemma pop_job_lane_id:
  "m_lane_id (mq_meta (snd (pop_job_from_lane now pop_id secs l s)) i) = m_lane_id (mq_meta s i)"
  by (auto simp: pop_job_from_lane_def Let_def script_defs split: option.split)

lemma forget_empty_lane_frame: "mq_leases (forget_empty_lane l s) = mq_leases s" "mq_meta (forget_empty_lane l s) = mq_meta s"
  by (simp_all add: forget_empty_lane_def)

lemma lane_visit_keeps:
  shows "m_lane_id (mq_meta (snd (lane_visit now pop_id secs n (c, s))) i) = m_lane_id (mq_meta s i)"
    and "\<not> suffix pop_id (snd k) \<Longrightarrow> mq_leases s k = None \<Longrightarrow> mq_leases (snd (lane_visit now pop_id secs n (c, s))) k = None"
proof -
  have "m_lane_id (mq_meta (snd (lane_visit now pop_id secs n (c, s))) i) = m_lane_id (mq_meta s i)
     \<and> (\<not> suffix pop_id (snd k) \<longrightarrow> mq_leases s k = None \<longrightarrow> mq_leases (snd (lane_visit now pop_id secs n (c, s))) k = None)"
  proof (cases "lc_slots c ! (lc_index c - 1)")
    case None
    then show ?thesis by (simp add: lane_visit_None del: One_nat_def)
  next
    case (Some ls)
    obtain l score where ls: "ls = (l, score)" by fastforce
    obtain c' u where u: "refresh_lane now l score (c, s) = (c', u)" by fastforce
    obtain r v where v: "pop_job_from_lane now pop_id secs l u = (r, v)" by fastforce
    have f: "lane_frame l s u" using refresh_lane_frame [of l s now score c] u by simp
    show ?thesis
      using f pop_job_lane_id [of now pop_id secs l u i] pop_job_leases [of pop_id k u now secs l] v
      unfolding lane_visit_Some [OF Some [unfolded ls] u v]
      by (auto simp: lane_frame_def forget_empty_lane_frame split: option.split)
  qed
  then show "m_lane_id (mq_meta (snd (lane_visit now pop_id secs n (c, s))) i) = m_lane_id (mq_meta s i)"
    "\<not> suffix pop_id (snd k) \<Longrightarrow> mq_leases s k = None \<Longrightarrow> mq_leases (snd (lane_visit now pop_id secs n (c, s))) k = None"
    by simp_all
qed

lemma lane_loop_keeps:
  assumes "lane_loop now pop_id batch secs n cs = Some cs'"
  shows "m_lane_id (mq_meta (snd cs') i) = m_lane_id (mq_meta (snd cs) i)
    \<and> (\<not> suffix pop_id (snd k) \<longrightarrow> mq_leases (snd cs) k = None \<longrightarrow> mq_leases (snd cs') k = None)"
proof (rule lane_loop.raw_induct [where P = "\<lambda>now pop_id batch secs n cs cs'.
    m_lane_id (mq_meta (snd cs') i) = m_lane_id (mq_meta (snd cs) i)
    \<and> (\<not> suffix pop_id (snd k) \<longrightarrow> mq_leases (snd cs) k = None \<longrightarrow> mq_leases (snd cs') k = None)", OF _ assms])
  fix lane_loop :: "nat \<Rightarrow> string \<Rightarrow> nat \<Rightarrow> nat \<Rightarrow> nat \<Rightarrow> lane_cursor \<times> 'a mqueue \<Rightarrow> (lane_cursor \<times> 'a mqueue) option"
  fix now pop_id batch secs n cs cs'
  assume IH: "\<And>now pop_id batch secs n cs cs'. lane_loop now pop_id batch secs n cs = Some cs' \<Longrightarrow>
      m_lane_id (mq_meta (snd cs') i) = m_lane_id (mq_meta (snd cs) i)
      \<and> (\<not> suffix pop_id (snd k) \<longrightarrow> mq_leases (snd cs) k = None \<longrightarrow> mq_leases (snd cs') k = None)"
    and b: "(if lc_popped (fst cs) < batch \<and> lc_empty (fst cs) < n
      then lane_loop now pop_id batch secs n (lane_visit now pop_id secs n cs) else Some cs) = Some cs'"
  obtain c s where cs: "cs = (c, s)" by fastforce
  show "m_lane_id (mq_meta (snd cs') i) = m_lane_id (mq_meta (snd cs) i)
      \<and> (\<not> suffix pop_id (snd k) \<longrightarrow> mq_leases (snd cs) k = None \<longrightarrow> mq_leases (snd cs') k = None)"
    using b IH [of now pop_id batch secs n "lane_visit now pop_id secs n cs" cs']
      lane_visit_keeps(1) [of now pop_id secs n c s i] lane_visit_keeps(2) [of pop_id k s now secs n c]
    by (auto simp: cs split: if_splits)
qed

lemma mprocess_cancellation_keeps:
  "m_lane_id (mq_meta (fst (mprocess_cancellation now j (s, acc))) i) = m_lane_id (mq_meta s i)
   \<and> mq_leases (fst (mprocess_cancellation now j (s, acc))) = mq_leases s"
proof (cases "m_lane_id (mq_meta s j)")
  case None
  then show ?thesis by (cases acc) (simp add: mprocess_cancellation_def)
next
  case (Some l)
  obtain cs ts where acc: "acc = (cs, ts)" by fastforce
  obtain u ts' where u: "cleanup_lane_leases l (s, ts) = (u, ts')" by fastforce
  have "lane_frame l s u" using cleanup_lane_leases_frame [of l s ts] u by simp
  then show ?thesis
    by (auto simp: mprocess_cancellation_def Some acc u Let_def script_defs lane_frame_def)
qed

lemma mprocess_cancellations_keeps:
  "m_lane_id (mq_meta (fst (mprocess_cancellations now s)) i) = m_lane_id (mq_meta s i)
   \<and> mq_leases (fst (mprocess_cancellations now s)) = mq_leases s"
  unfolding mprocess_cancellations_def
  by (rule fold_pair_invariant [where P = "\<lambda>u. m_lane_id (mq_meta u i) = m_lane_id (mq_meta s i) \<and> mq_leases u = mq_leases s"])
     (simp_all add: mprocess_cancellation_keeps)

lemma mpop_script_keeps:
  assumes "mpop_script now pop_id batch secs s = Some (r, t)"
  shows "m_lane_id (mq_meta t i) = m_lane_id (mq_meta s i)"
    and "\<not> suffix pop_id (snd k) \<Longrightarrow> mq_leases s k = None \<Longrightarrow> mq_leases t k = None"
proof -
  obtain u cancelled ts where u: "mprocess_cancellations now s = (u, cancelled, ts)" by (metis prod_cases3)
  have s: "m_lane_id (mq_meta u i) = m_lane_id (mq_meta s i)" "mq_leases u = mq_leases s"
    using mprocess_cancellations_keeps [of now s i] u by simp_all
  have "t = u \<or> (\<exists>c cs'. lane_loop now pop_id batch secs (length (zrange (mq_lanes u))) (c, u) = Some cs' \<and> t = snd cs')"
    using assms u by (fastforce simp: mpop_script_def Let_def split: if_splits prod.splits)
  then show "m_lane_id (mq_meta t i) = m_lane_id (mq_meta s i)"
    "\<not> suffix pop_id (snd k) \<Longrightarrow> mq_leases s k = None \<Longrightarrow> mq_leases t k = None"
    using s lane_loop_keeps [where i = i and k = k] by fastforce+
qed

subsection \<open>The fence\<close>

lemma mexec_leases: "mq_leases s k = None \<Longrightarrow> mq_leases (mexec_pipeline p s) k = None"
proof (induction p arbitrary: s)
  case (Cons c p)
  have "mq_leases (mexec_cmd c s) k = None" using Cons.prems by (cases c) (simp_all add: script_defs)
  then show ?case using Cons.IH by simp
qed simp

lemma mconsumed_gone: "mconsumes_lease k p \<Longrightarrow> \<not> mlease_exists k (mexec_pipeline p s)"
proof (induction p arbitrary: s)
  case (Cons c p)
  show ?case
  proof (cases "c = MDelLease (fst k) (snd k)")
    case True
    then show ?thesis by (simp add: mlease_exists_def mexec_leases)
  next
    case False
    then show ?thesis using Cons by (simp add: mconsumes_lease_def)
  qed
qed (simp add: mconsumes_lease_def)

lemma mprune_fold_leases: "mq_leases (fst (fold (mprune_job this other) js (s, n))) = mq_leases s"
  by (rule fold_pair_invariant [where P = "\<lambda>u. mq_leases u = mq_leases s"]) (auto simp: mprune_job_def Let_def)

lemma mprune_leases:
  "mq_leases (snd (mprune_success_script n s)) = mq_leases s" "mq_leases (snd (mprune_failed_script n s)) = mq_leases s"
  by (auto simp: mprune_success_script_def mprune_failed_script_def Let_def case_prod_beta mprune_fold_leases)

lemma mqueue_step_lease:
  assumes "mqueue_step opts s e t" and "mlease_exists k t" and "\<not> mlease_exists k s"
  shows "minted_by e (snd k)"
  using assms
proof (induction rule: mqueue_step.induct)
  case (pop secs now pop_id batch s r t)
  then show ?case using mpop_script_keeps(2) [OF pop(2), of k]
    by (cases "suffix pop_id (snd k)") (auto simp: mlease_exists_def)
qed (auto simp: mlease_exists_def mexec_leases mprune_leases mpush_script_def mcancel_script_def Let_def script_defs
      simp del: mexec_pipeline_simps split: if_splits option.splits)

text \<open>While a job is leased, its lane does not change.\<close>

lemma mqueue_step_lane:
  assumes "mqueue_step opts s e t" and "minv s" and "mlease_exists (j, tok) s" and "mlease_exists (j, tok) t"
    and lane: "m_lane_id (mq_meta s j) = Some l"
  shows "m_lane_id (mq_meta t j) = Some l"
proof -
  note H = mheld_facts [OF assms(2,3) lane]
  have prune: "m_lane_id (mq_meta (fst (fold (mprune_job this other) js (u, n))) j) = Some l"
    if "m_lane_id (mq_meta u j) = Some l" "mq_active u = mq_active s" for this other js n and u :: "'a mqueue"
  proof -
    have "m_lane_id (mq_meta (fst (fold (mprune_job this other) js (u, n))) j) = Some l
        \<and> mq_active (fst (fold (mprune_job this other) js (u, n))) = mq_active s"
      by (rule fold_pair_invariant [where P = "\<lambda>v. m_lane_id (mq_meta v j) = Some l \<and> mq_active v = mq_active s"])
         (use that H(1) in \<open>auto simp: mprune_job_def Let_def script_defs split: option.splits if_splits\<close>)
    then show ?thesis ..
  qed
  from assms(1) show ?thesis
  proof cases
    case (push i l' d now delay pos)
    then show ?thesis using H(6) lane by (auto simp: mpush_script_def Let_def script_defs)
  next
    case (cancel i now)
    then show ?thesis using lane by (auto simp: mcancel_script_def script_defs split: option.splits)
  next
    case (pop secs now pop_id batch r)
    then show ?thesis using mpop_script_keeps(1) [OF pop(3)] lane by simp
  next
    case (commit i tok' l' ops hk)
    show ?thesis
    proof (cases "i = j")
      case True
      with commit assms(2,3,4) mheld_facts(2) [OF assms(2,3) lane] have "tok' = tok"
        using mheld_facts(2) [OF assms(2) _ lane, of tok'] by auto
      moreover have "mconsumes_lease (i, tok') (map MExternal hk @ ops)"
        using commit(5) by (auto simp: mconsumes_lease_def msuccess_commands_def mnack_commands_def mfail_commands_def
            munreadable_commands_def elim!: mcompletion_commands.cases)
      ultimately show ?thesis using mconsumed_gone commit(2) assms(4) True by blast
    next
      case False
      with commit(5) lane show ?thesis unfolding commit(2)
        by (auto simp: mexec_external msuccess_commands_def mnack_commands_def mfail_commands_def
            munreadable_commands_def requeue_commands_def script_defs elim!: mcompletion_commands.cases
            split: option.splits RequeuePosition.splits)
    qed
  qed (use lane prune in \<open>auto simp: mprune_success_script_def mprune_failed_script_def Let_def case_prod_beta mexec_external\<close>)
qed

interpretation mq: lease_fence mlease_exists mexec_pipeline mconsumes_lease mother_clients
  by unfold_locales (auto simp: mconsumed_gone mother_clients_def dest: mqueue_step_lease)

end
