(* ===== verification/Twmq_Multilane_Thms.thy ===== *)
theory Twmq_Multilane_Thms
  imports Twmq_Multilane_Step Twmq_Queue_Thms
begin

text \<open>
  The properties of the multilane queue: its invariant in every interleaving, its polls, the
  fence of its completions, and two behaviours that differ from what its comments promise.
\<close>

subsection \<open>A concrete run for the witnesses\<close>

definition demo_lanes :: "unit mqueue" where
  "demo_lanes = snd (mpush_script ''L1'' ''b'' ''2'' 6 0 ''last'' (snd (mpush_script ''L1'' ''a'' ''1'' 5 0 ''last'' empty_mqueue)))"

lemma demo_lanes_run: "mqueue_run default_queue_options empty_mqueue [EPush ''a'', EPush ''b''] demo_lanes"
  unfolding demo_lanes_def
  using mqueue_run.step [OF mqueue_run.step [OF mqueue_run.start mqueue_step.push] mqueue_step.push] by simp

definition demo_two_lanes :: "unit mqueue" where
  "demo_two_lanes = snd (mpush_script ''L2'' ''c'' ''3'' 6 0 ''last'' demo_lanes)"

lemma demo_lanes_inv: "minv demo_lanes"
  by (rule mqueue_run_inv [OF demo_lanes_run minv_empty])

lemma demo_two_lanes_inv: "minv demo_two_lanes"
  unfolding demo_two_lanes_def by (rule mpush_script_inv [OF demo_lanes_inv])

subsection \<open>Safety\<close>

text \<open>
  C37. In every state that any interleaving of the clients of a multilane queue can reach from an
  empty one, a job is in at most one list of one lane, the lane its metadata names; that
  lane is listed, so no poll can overlook it; the job has data and is deduplicated; and a live
  lease is the one the metadata of an active job names.
\<close>

theorem mqueue_reachable_inv: "mqueue_run opts empty_mqueue evs s \<Longrightarrow> minv s"
  by (rule mqueue_run_inv [OF _ minv_empty])

theorem mqueue_reachable_inv_witness: "minv demo_lanes"
  by (rule mqueue_reachable_inv [OF demo_lanes_run])

lemma others_keep_lane:
  assumes "(mother_clients k)\<^sup>*\<^sup>* s u" and "minv s" and "mlease_exists k u" and "m_lane_id (mq_meta s (fst k)) = Some l"
  shows "minv u \<and> m_lane_id (mq_meta u (fst k)) = Some l"
  using assms(1,3)
proof (induction rule: rtranclp_induct)
  case base
  then show ?case using assms(2,4) by simp
next
  case (step t u)
  have live: "mlease_exists k t" using mq.not_revived step.hyps(2) step.prems by blast
  then have t: "minv t" "m_lane_id (mq_meta t (fst k)) = Some l" using step.IH by simp_all
  obtain opts e where e: "mqueue_step opts t e u" using step.hyps(2) by (auto simp: mother_clients_def)
  show ?case
    using mqueue_step_inv [OF e t(1)] mqueue_step_lane [OF e t(1), of "fst k" "snd k" l] live step.prems t(2) by simp
qed

text \<open>
  C38. Completions of the multilane queue are fenced, and hit the right lane although they read it
  outside the transaction: under the documented guarantee of WATCH, \<open>complete_job\<close> either
  leaves the queue to the others, or applies its whole pipeline exactly once at a moment
  when the lease was live and the lane it had read was still the job's lane, followed at most by a prune.
\<close>

theorem mcomplete_job_is_fenced:
  assumes "watch_guarantee (mlease_exists (jb_id (bj_job job), bj_lease_token job)) env"
    and "env_within (mother_clients (jb_id (bj_job job), bj_lease_token job)) env" and "minv s"
    and "mcomplete_job h opts now probe connect env hget_ok f job result idle s = (r, idle', s')"
  shows "(mother_clients (jb_id (bj_job job), bj_lease_token job))\<^sup>*\<^sup>* s s'
     \<or> (\<exists>p u l. mcompletion_pipeline h opts now l job result = Inr p
          \<and> (mother_clients (jb_id (bj_job job), bj_lease_token job))\<^sup>*\<^sup>* s u
          \<and> mlease_exists (jb_id (bj_job job), bj_lease_token job) u
          \<and> m_lane_id (mq_meta u (jb_id (bj_job job))) = Some l
          \<and> s' \<in> {mexec_pipeline p u, snd (mprune_success_script (max_success opts) (mexec_pipeline p u)),
                   snd (mprune_failed_script (max_failed opts) (mexec_pipeline p u))})"
proof -
  let ?k = "(jb_id (bj_job job), bj_lease_token job)"
  show ?thesis
  proof (cases "\<exists>l p. hget_ok \<and> m_lane_id (mq_meta s (fst ?k)) = Some l \<and> mcompletion_pipeline h opts now l job result = Inr p")
    case False
    then have "s' = s" using assms(4) by (auto simp: mcomplete_job_def split: if_splits option.splits sum.splits)
    then show ?thesis by simp
  next
    case True
    then obtain l p where lp: "hget_ok" "m_lane_id (mq_meta s (fst ?k)) = Some l"
      "mcompletion_pipeline h opts now l job result = Inr p" by blast
    obtain b i s1 where c: "commit_if_leased probe connect (mlease_exists ?k) (mexec_pipeline p) env idle s = (b, i, s1)"
      by (metis prod_cases3)
    from commit_if_leased_cases [OF c assms(2,1)]
    consider "(mother_clients ?k)\<^sup>*\<^sup>* s s1" "b \<noteq> Inr True"
      | u where "(mother_clients ?k)\<^sup>*\<^sup>* s u" "mlease_exists ?k u" "s1 = mexec_pipeline p u" by blast
    then show ?thesis
    proof cases
      case 1
      then have "s' = s1" using assms(4) lp c by (cases b) (auto simp: mcomplete_job_def split: bool.splits)
      with 1 show ?thesis by simp
    next
      case 2
      have "m_lane_id (mq_meta u (fst ?k)) = Some l" using others_keep_lane [OF 2(1) assms(3) 2(2) lp(2)] by simp
      moreover have "s' \<in> {s1, snd (mprune_success_script (max_success opts) s1), snd (mprune_failed_script (max_failed opts) s1)}"
        using assms(4) lp c
        by (auto simp: mcomplete_job_def mpost_success_completion_def mpost_nack_completion_def mpost_fail_completion_def
            invoke_def split: sum.splits bool.splits JobError.splits fate.splits prod.splits)
      ultimately show ?thesis using 2 lp(3) by auto
    qed
  qed
qed

theorem mcomplete_job_is_fenced_witness:
  "\<exists>r idle' s'. mcomplete_job demo_handler default_queue_options 8 (\<lambda>_. True) (Some ()) quiet_env True Delivered
       demo_job (Inr ()) [] demo_lanes = (r, idle', s')
     \<and> ((mother_clients (jb_id (bj_job demo_job), bj_lease_token demo_job))\<^sup>*\<^sup>* demo_lanes s'
        \<or> (\<exists>p u l. mcompletion_pipeline demo_handler default_queue_options 8 l demo_job (Inr ()) = Inr p
             \<and> (mother_clients (jb_id (bj_job demo_job), bj_lease_token demo_job))\<^sup>*\<^sup>* demo_lanes u
             \<and> mlease_exists (jb_id (bj_job demo_job), bj_lease_token demo_job) u
             \<and> m_lane_id (mq_meta u (jb_id (bj_job demo_job))) = Some l))"
proof -
  obtain r idle' s' where c: "mcomplete_job demo_handler default_queue_options 8 (\<lambda>_. True) (Some ()) quiet_env True
      Delivered demo_job (Inr ()) [] demo_lanes = (r, idle', s')"
    by (metis prod_cases3)
  have w: "watch_guarantee (mlease_exists (jb_id (bj_job demo_job), bj_lease_token demo_job)) quiet_env"
    by (simp add: watch_guarantee_def quiet_env_def)
  from mcomplete_job_is_fenced [OF w quiet_env_within demo_lanes_inv c] c show ?thesis by blast
qed

subsection \<open>Polls\<close>

text \<open>
  C39. A poll of the multilane queue always ends, hands out at most as many jobs as asked for, and
  is work-conserving: if it hands out fewer, then afterwards no lane has a pending job. Every
  job handed out is active in its lane under a live lease with the token of its row.
\<close>

theorem mpop_ends_and_fills_batch:
  assumes "minv s" and "0 < secs"
  shows "\<exists>rows cancelled timed_out s'. mpop_script now pop_id batch secs s = Some ((rows, cancelled, timed_out), s')
     \<and> length rows \<le> batch \<and> (length rows < batch \<longrightarrow> (\<forall>l. mq_pending s' l = []))
     \<and> list_all (\<lambda>(l, j, d, a, cr, p, tok). mlease_exists (j, tok) s' \<and> j \<in> set (keys (mq_active s' l))) rows"
proof -
  obtain L c cancelled s' where R:
    "mpop_script now pop_id batch secs s = Some ((lc_rows c, cancelled, lc_timed_out c), s')"
    "lc_popped c = length (lc_rows c)" "lc_popped c \<le> batch" "leased_rows secs c s'" "work_inv L c s'"
    "L \<noteq> [] \<Longrightarrow> cursor_inv L c \<and> round_over batch (length L) c"
    by (rule mpop_script_round [OF assms, of now pop_id batch]) blast
  have "mq_pending s' l = []" if less: "length (lc_rows c) < batch" for l
  proof (rule ccontr)
    assume ne: "mq_pending s' l \<noteq> []"
    then obtain i where i: "i < length L" "L ! i = l" using R(5) by (auto simp: work_inv_def in_set_conv_nth)
    then have "L \<noteq> []" by auto
    from R(6) [OF this] have ci: "cursor_inv L c" and ro: "round_over batch (length L) c" by simp_all
    have len: "length (lc_slots c) = length L" using ci by (simp add: cursor_inv_def)
    have "count_list (lc_slots c) None = length (lc_slots c)"
      using ro ci less R(2) count_le_length [of "lc_slots c" None] by (simp add: round_over_def cursor_inv_def)
    from count_list_full [OF this, of i] i(1) len have "lc_slots c ! i = None" by simp
    then have "mq_pending s' (L ! i) = []" using R(5) i(1) by (simp add: work_inv_def)
    then show False using i(2) ne by simp
  qed
  moreover have "list_all (\<lambda>(l, j, d, a, cr, p, tok). mlease_exists (j, tok) s' \<and> j \<in> set (keys (mq_active s' l))) (lc_rows c)"
    using R(4) by (auto simp: leased_rows_def list_all_iff mlease_exists_def)
  ultimately show ?thesis using R(1-3) by auto
qed

theorem mpop_ends_and_fills_batch_witness:
  "\<exists>rows cancelled timed_out s'. mpop_script 7 demo_pop_id 4 30 demo_lanes = Some ((rows, cancelled, timed_out), s')
     \<and> length rows \<le> 4"
  using mpop_ends_and_fills_batch [OF demo_lanes_inv, of 30 7 demo_pop_id 4] by fastforce

lemma fair_inv_bounds:
  assumes "fair_inv L c" and "i < length L" and "lc_slots c ! i \<noteq> None"
  shows "\<exists>r. (\<forall>k < length L. rows_of (L ! k) c \<le> r + 1) \<and> r \<le> rows_of (L ! i) c"
proof -
  from assms(1) obtain r where r: "\<forall>k < length L. rows_of (L ! k) c \<le> (if k + 1 < lc_index c then r + 1 else r)
      \<and> (lc_slots c ! k \<noteq> None \<longrightarrow> rows_of (L ! k) c = (if k + 1 < lc_index c then r + 1 else r))"
    unfolding fair_inv_def Let_def by blast
  have "rows_of (L ! k) c \<le> r + 1" if "k < length L" for k
    using r that by (cases "k + 1 < lc_index c") (auto intro: le_SucI)
  moreover have "r \<le> rows_of (L ! i) c" using r assms(2,3) by (cases "i + 1 < lc_index c") auto
  ultimately show ?thesis by blast
qed

text \<open>
  C40. A poll is fair between lanes: when it ends, no lane has been given more than one job more than
  a lane that still has pending jobs.
\<close>

theorem mpop_is_fair_to_lanes:
  assumes "minv s" and "0 < secs" and "mpop_script now pop_id batch secs s = Some ((rows, cancelled, timed_out), s')"
    and "mq_pending s' l \<noteq> []"
  shows "count_list (map fst rows) l' \<le> count_list (map fst rows) l + 1"
proof -
  obtain L c cancelled' s1 where C:
    "mpop_script now pop_id batch secs s = Some ((lc_rows c, cancelled', lc_timed_out c), s1)"
    "work_inv L c s1" "fair_inv L c" "L \<noteq> [] \<Longrightarrow> cursor_inv L c \<and> round_over batch (length L) c"
    by (rule mpop_script_round [OF assms(1,2), of now pop_id batch]) blast
  then have R: "lc_rows c = rows" "work_inv L c s'" "fair_inv L c" "L \<noteq> [] \<Longrightarrow> cursor_inv L c"
    using assms(3) by simp_all
  obtain i where i: "i < length L" "L ! i = l" using R(2) assms(4) by (auto simp: work_inv_def in_set_conv_nth)
  have "lc_slots c ! i \<noteq> None"
  proof
    assume "lc_slots c ! i = None"
    then have "mq_pending s' (L ! i) = []" using R(2) i(1) by (simp add: work_inv_def)
    then show False using i(2) assms(4) by simp
  qed
  then obtain r where r: "\<And>k. k < length L \<Longrightarrow> rows_of (L ! k) c \<le> r + 1" "r \<le> rows_of l c"
    using fair_inv_bounds [OF R(3) i(1)] i(2) by blast
  show ?thesis
  proof (cases "l' \<in> set L")
    case True
    then obtain k where k: "k < length L" "L ! k = l'" by (auto simp: in_set_conv_nth)
    have "rows_of l' c \<le> rows_of l c + 1" using r(1) [OF k(1)] r(2) k(2) by simp
    then show ?thesis using R(1) by (simp add: rows_of_def)
  next
    case False
    have "L \<noteq> []" using i(1) by auto
    then have "fst ` set rows \<subseteq> set L" using R(1,4) by (simp add: cursor_inv_def)
    with False have "l' \<notin> set (map fst rows)" by auto
    then have "count_list (map fst rows) l' = 0" by (simp only: count_list_0_iff not_False_eq_True)
    then show ?thesis by simp
  qed
qed

theorem mpop_is_fair_to_lanes_witness:
  "case mpop_script 7 ''x'' 2 30 demo_two_lanes of
     None \<Rightarrow> False
   | Some ((rows, cancelled, timed_out), s') \<Rightarrow>
       mq_pending s' ''L1'' = [''a'']
       \<and> count_list (map fst rows) ''L2'' \<le> count_list (map fst rows) ''L1'' + 1"
proof -
  obtain rows cancelled timed_out s' where p: "mpop_script 7 ''x'' 2 30 demo_two_lanes = Some ((rows, cancelled, timed_out), s')"
    by (rule mpop_script_round [OF demo_two_lanes_inv, of 30 7 "''x''" 2]) auto
  have "case mpop_script 7 ''x'' 2 30 demo_two_lanes of None \<Rightarrow> False | Some (r, s') \<Rightarrow> mq_pending s' ''L1'' = [''a'']"
    by code_simp
  then have a: "mq_pending s' ''L1'' = [''a'']" by (simp add: p)
  with mpop_is_fair_to_lanes [OF demo_two_lanes_inv _ p, of "''L1''" "''L2''"] show ?thesis by (simp add: p)
qed

subsection \<open>Where the code differs from its description\<close>

text \<open>
  Polling a multilane queue with no free permits does no housekeeping at all: without
  cancellation requests the script answers an empty batch and changes nothing, whatever leases
  have expired and whatever delayed jobs are due. The option to poll always promises that housekeeping.
\<close>

theorem mpop_without_permits_skips_housekeeping:
  assumes "mq_cancels s = []"
  shows "mpop_script now pop_id 0 secs s = Some (([], [], []), s)"
proof -
  have "lane_loop now pop_id 0 secs n (c, s) = Some (c, s)" for n c
    by (rule lane_loop_stop) (simp add: round_over_def)
  with assms show ?thesis by (simp add: mpop_script_def mprocess_cancellations_def Let_def)
qed

theorem mpop_without_permits_skips_housekeeping_witness:
  "mpop_script 7 ''x'' 0 30 demo_two_lanes = Some (([], [], []), demo_two_lanes)"
proof -
  have "mq_cancels demo_two_lanes = []" by code_simp
  then show ?thesis by (rule mpop_without_permits_skips_housekeeping)
qed

text \<open>
  Within a lane the position of a retry is inverted: a job given back with position Last is the
  very next job its lane hands out, before every job that was waiting there.
\<close>

theorem requeue_last_is_served_first:
  assumes "mq_data s j = Some d"
  shows "\<exists>a c tok t. pop_job_from_lane now' pop_id secs l (mexec_pipeline (requeue_commands now l j None Last) s)
           = (Some (j, d, a, c, now', tok), t)"
proof -
  let ?t = "mexec_pipeline (requeue_commands now l j None Last) s"
  have "mq_pending ?t l = mq_pending s l @ [j]" "mq_data ?t j = Some d"
    using assms by (simp_all add: requeue_commands_def script_defs)
  from pop_job_snoc [OF this refl refl, of now' pop_id secs] show ?thesis by blast
qed

theorem requeue_last_is_served_first_witness:
  "\<exists>a c tok t. pop_job_from_lane 9 ''x'' 30 ''L1'' (mexec_pipeline (requeue_commands 8 ''L1'' ''a'' None Last) demo_lanes)
           = (Some (''a'', ''1'', a, c, 9, tok), t)"
proof -
  have "mq_data demo_lanes ''a'' = Some ''1''" by code_simp
  then show ?thesis by (rule requeue_last_is_served_first)
qed

end
