(* ===== verification/Twmq_Worker.thy ===== *)
theory Twmq_Worker
  imports Twmq_Queue_Thms
begin

text \<open>
  The worker loop of \<open>twmq/src/lib.rs\<close> (\<open>Queue::work\<close>): a task that polls for as many jobs as
  it has free permits, spawns one handler task per job, and on shutdown waits until every handler
  has finished. The multilane worker has the same loop.
\<close>

subsection \<open>The loop as a step relation\<close>

text \<open>
  Where the loop is: at its select, waiting for the reply of a poll for \<open>n\<close> jobs, with popped
  jobs still to spawn, acquiring all permits, or gone.
\<close>

datatype 'd worker_mode =
    AtSelect
  | Popping nat
  | Spawning "'d BorrowedJob list"
  | Draining
  | Stopped

record 'd worker =
  wk_mode :: "'d worker_mode"
  wk_permits :: nat
  wk_running :: "'d BorrowedJob list"

definition start_worker :: "QueueOptions \<Rightarrow> 'd worker" where
  "start_worker opts = \<lparr>wk_mode = AtSelect, wk_permits = local_concurrency opts, wk_running = []\<rparr>"

definition polls :: "QueueOptions \<Rightarrow> 'd worker \<Rightarrow> bool" where
  "polls opts w \<longleftrightarrow> \<not> (wk_permits w = 0 \<and> \<not> always_poll opts)"

inductive worker_step ::
  "(string \<Rightarrow> 'd option) \<Rightarrow> QueueOptions \<Rightarrow> 'd worker \<times> 'h queue \<Rightarrow> 'd worker \<times> 'h queue \<Rightarrow> bool"
  for from_json opts where
  no_permits: "wk_mode w = AtSelect \<Longrightarrow> \<not> polls opts w \<Longrightarrow> worker_step from_json opts (w, s) (w, s)"
| poll: "wk_mode w = AtSelect \<Longrightarrow> polls opts w \<Longrightarrow>
    worker_step from_json opts (w, s) (w\<lparr>wk_mode := Popping (wk_permits w)\<rparr>, s)"
| reply: "wk_mode w = Popping n \<Longrightarrow>
    pop_batch_jobs from_json opts now pop_id f n s = (Inr (jobs, queue_errors, cancelled), s') \<Longrightarrow>
    worker_step from_json opts (w, s) (w\<lparr>wk_mode := Spawning jobs\<rparr>, s')"
| poll_failed: "wk_mode w = Popping n \<Longrightarrow>
    pop_batch_jobs from_json opts now pop_id f n s = (Inl e, s') \<Longrightarrow>
    worker_step from_json opts (w, s) (w\<lparr>wk_mode := AtSelect\<rparr>, s')"
| spawn: "wk_mode w = Spawning (job # jobs) \<Longrightarrow> 0 < wk_permits w \<Longrightarrow>
    worker_step from_json opts (w, s)
      (w\<lparr>wk_mode := Spawning jobs, wk_permits := wk_permits w - 1, wk_running := job # wk_running w\<rparr>, s)"
| spawned: "wk_mode w = Spawning [] \<Longrightarrow> worker_step from_json opts (w, s) (w\<lparr>wk_mode := AtSelect\<rparr>, s)"
| finish: "job \<in> set (wk_running w) \<Longrightarrow>
    worker_step from_json opts (w, s)
      (w\<lparr>wk_permits := wk_permits w + 1, wk_running := remove1 job (wk_running w)\<rparr>, s')"
| shutdown: "wk_mode w = AtSelect \<or> wk_mode w = Popping n \<Longrightarrow>
    worker_step from_json opts (w, s) (w\<lparr>wk_mode := Draining\<rparr>, s)"
| drained: "wk_mode w = Draining \<Longrightarrow> wk_permits w = local_concurrency opts \<Longrightarrow>
    worker_step from_json opts (w, s) (w\<lparr>wk_mode := Stopped\<rparr>, s)"
| others: "worker_step from_json opts (w, s) (w, s')"

text \<open>Every permit is free or held by a running handler; a batch never exceeds the free permits.\<close>

definition worker_inv :: "QueueOptions \<Rightarrow> 'd worker \<Rightarrow> bool" where
  "worker_inv opts w \<longleftrightarrow>
     wk_permits w + length (wk_running w) = local_concurrency opts
   \<and> (case wk_mode w of
        Popping n \<Rightarrow> n \<le> wk_permits w
      | Spawning jobs \<Rightarrow> length jobs \<le> wk_permits w
      | Stopped \<Rightarrow> wk_running w = []
      | _ \<Rightarrow> True)"

subsection \<open>Lemmas\<close>

lemma lease_popped_length:
  "length (snd (lease_popped now pop_id secs j (s, rows))) \<le> Suc (length rows)"
  by (simp add: lease_popped_def Let_def split: option.split)

lemma fold_lease_popped_length:
  "length (snd (fold (lease_popped now pop_id secs) js (s, rows))) \<le> length rows + length js"
proof (induction js arbitrary: s rows)
  case (Cons j js)
  obtain s' rows' where st: "lease_popped now pop_id secs j (s, rows) = (s', rows')" by fastforce
  have "length rows' \<le> Suc (length rows)" using lease_popped_length [of now pop_id secs j s rows] st by simp
  with Cons.IH [of s' rows'] st show ?case by simp
qed simp

lemma pop_script_length: "length (fst (fst (pop_script now pop_id batch secs s))) \<le> batch"
proof -
  have "length (snd (pop_pending now pop_id batch secs u)) \<le> batch" for u :: "'a queue"
    using fold_lease_popped_length [of now pop_id secs "take batch (q_pending u)" "u\<lparr>q_pending := drop batch (q_pending u)\<rparr>" "[]"]
    by (simp add: pop_pending_def lpop_batch_eq)
  then show ?thesis by (simp add: pop_script_def Let_def case_prod_beta)
qed

lemma length_map_filter: "length (List.map_filter f xs) \<le> length xs"
  by (induction xs) (simp_all add: map_filter_simps split: option.split)

lemma pop_batch_jobs_length:
  assumes "pop_batch_jobs from_json opts now pop_id f n s = (Inr (jobs, queue_errors, cancelled), s')"
  shows "length jobs \<le> n"
proof -
  define secs where "secs = as_secs (lease_duration opts)"
  obtain rows c t u where p: "pop_script now pop_id n secs s = ((rows, c, t), u)" by (metis prod.collapse)
  have "length rows \<le> n" using pop_script_length [of now pop_id n secs s] p by simp
  moreover have "jobs = fst (partition_rows (map (decode_row from_json now) rows))"
    using assms p unfolding pop_batch_jobs_def secs_def [symmetric]
    by (cases f) (auto simp: invoke_def split: prod.splits)
  ultimately show ?thesis
    using length_map_filter by (metis fst_conv length_map order_trans partition_rows_def)
qed

lemma worker_step_inv:
  assumes "worker_step from_json opts ws ws'" and "worker_inv opts (fst ws)"
  shows "worker_inv opts (fst ws')"
  using assms
proof (induction rule: worker_step.induct)
  case (reply w n now pop_id f s jobs queue_errors cancelled s')
  then show ?case using pop_batch_jobs_length [OF reply(2)] by (simp add: worker_inv_def)
next
  case (finish job w s s')
  then obtain k where "length (wk_running w) = Suc k" by (cases "wk_running w") auto
  with finish show ?case
    by (auto simp: worker_inv_def length_remove1 split: worker_mode.splits)
qed (auto simp: worker_inv_def split: worker_mode.splits)

lemma worker_steps_inv:
  "(worker_step from_json opts)\<^sup>*\<^sup>* ws ws' \<Longrightarrow> worker_inv opts (fst ws) \<Longrightarrow> worker_inv opts (fst ws')"
  by (induction rule: rtranclp_induct) (auto dest: worker_step_inv)

lemma start_worker_inv: "worker_inv opts (start_worker opts)"
  by (simp add: worker_inv_def start_worker_def)

subsection \<open>Properties\<close>

text \<open>
  C36. A worker keeps within its concurrency and never blocks half-way through a batch: in every
  reachable state at most \<open>local_concurrency\<close> handlers run, a popped job waiting to be spawned
  finds a free permit, and a worker that has stopped has no handler running.
\<close>

theorem worker_respects_concurrency:
  assumes "(worker_step from_json opts)\<^sup>*\<^sup>* (start_worker opts, s) (w, t)"
  shows "length (wk_running w) \<le> local_concurrency opts
     \<and> (\<forall>job jobs. wk_mode w = Spawning (job # jobs) \<longrightarrow> 0 < wk_permits w)
     \<and> (wk_mode w = Stopped \<longrightarrow> wk_running w = [])"
proof -
  have "worker_inv opts w" using worker_steps_inv [OF assms] by (simp add: start_worker_inv)
  then show ?thesis by (auto simp: worker_inv_def)
qed

theorem worker_respects_concurrency_witness:
  "\<exists>w t. (worker_step (\<lambda>_. Some ()) default_queue_options)\<^sup>*\<^sup>* (start_worker default_queue_options, demo_pushed) (w, t)
     \<and> wk_mode w = Popping 100 \<and> length (wk_running w) \<le> 100"
proof -
  let ?w = "(start_worker default_queue_options :: unit worker)\<lparr>wk_mode := Popping 100\<rparr>"
  have "worker_step (\<lambda>_. Some ()) default_queue_options (start_worker default_queue_options, demo_pushed) (?w, demo_pushed)"
    using worker_step.poll [of "start_worker default_queue_options :: unit worker" default_queue_options "\<lambda>_. Some ()" demo_pushed]
    by (simp add: start_worker_def polls_def default_queue_options_def)
  then have r: "(worker_step (\<lambda>_. Some ()) default_queue_options)\<^sup>*\<^sup>* (start_worker default_queue_options, demo_pushed) (?w, demo_pushed)"
    by (rule r_into_rtranclp)
  have "length (wk_running ?w) \<le> 100" using worker_respects_concurrency [OF r] by (simp add: default_queue_options_def)
  moreover have "wk_mode ?w = Popping 100" by simp
  ultimately show ?thesis using r by blast
qed

text \<open>
  Shutdown ends, and only by completion: from every reachable draining state, once the running
  handlers have finished, the worker stops; nothing else is needed and no handler is dropped.
\<close>

theorem worker_shutdown_completes:
  assumes "(worker_step from_json opts)\<^sup>*\<^sup>* (start_worker opts, s) (w, t)" and "wk_mode w = Draining"
  shows "\<exists>w'. (worker_step from_json opts)\<^sup>*\<^sup>* (w, t) (w', t) \<and> wk_mode w' = Stopped \<and> wk_running w' = []"
proof -
  have "worker_inv opts w" using worker_steps_inv [OF assms(1)] by (simp add: start_worker_inv)
  then show ?thesis using assms(2)
  proof (induction "length (wk_running w)" arbitrary: w)
    case 0
    let ?w' = "w\<lparr>wk_mode := Stopped\<rparr>"
    have "worker_step from_json opts (w, t) (?w', t)"
      using 0 by (intro worker_step.drained) (simp_all add: worker_inv_def)
    with 0 show ?case by (intro exI [of _ ?w']) auto
  next
    case (Suc n)
    then obtain job rest where r: "wk_running w = job # rest" by (cases "wk_running w") auto
    let ?w = "w\<lparr>wk_permits := wk_permits w + 1, wk_running := remove1 job (wk_running w)\<rparr>"
    have st: "worker_step from_json opts (w, t) (?w, t)" using r by (intro worker_step.finish) simp
    have "worker_inv opts ?w" using worker_step_inv [OF st] Suc.prems(1) by simp
    then obtain w' where "(worker_step from_json opts)\<^sup>*\<^sup>* (?w, t) (w', t)" "wk_mode w' = Stopped" "wk_running w' = []"
      using Suc.hyps(1) [of ?w] Suc.hyps(2) Suc.prems(2) r by auto
    with st show ?case by (meson converse_rtranclp_into_rtranclp)
  qed
qed

theorem worker_shutdown_completes_witness:
  "\<exists>w'. (worker_step (\<lambda>_. Some ()) default_queue_options)\<^sup>*\<^sup>*
      ((start_worker default_queue_options)\<lparr>wk_mode := Draining\<rparr>, demo_pushed) (w', demo_pushed) \<and> wk_mode w' = Stopped"
proof -
  have "(worker_step (\<lambda>_. Some ()) default_queue_options)\<^sup>*\<^sup>* (start_worker default_queue_options, demo_pushed)
      ((start_worker default_queue_options)\<lparr>wk_mode := Draining\<rparr>, demo_pushed)"
    by (rule r_into_rtranclp, rule worker_step.shutdown) (simp add: start_worker_def)
  from worker_shutdown_completes [OF this] show ?thesis by auto
qed

end
