(* ===== verification/Rust_Text.thy ===== *)
theory Rust_Text
  imports Prelude
begin

text \<open>
  What the sources use of Rust's text handling: \<open>str::split\<close> on one character, the decimal
  \<open>FromStr\<close> of unsigned integers (an optional plus sign, at least one digit, no overflow), the
  checked and saturating integer operations, and the round trips the components rely on.
\<close>

definition u64_max :: nat where
  "u64_max = 2 ^ 64 - 1"

definition u128_max :: nat where
  "u128_max = 2 ^ 128 - 1"

definition checked_add :: "nat \<Rightarrow> nat \<Rightarrow> nat \<Rightarrow> nat option" where
  "checked_add limit a b = (if a + b \<le> limit then Some (a + b) else None)"

definition checked_sub :: "nat \<Rightarrow> nat \<Rightarrow> nat option" where
  "checked_sub a b = (if b \<le> a then Some (a - b) else None)"

definition saturating_add :: "nat \<Rightarrow> nat \<Rightarrow> nat \<Rightarrow> nat" where
  "saturating_add limit a b = min limit (a + b)"

definition saturating_mul :: "nat \<Rightarrow> nat \<Rightarrow> nat \<Rightarrow> nat" where
  "saturating_mul limit a b = min limit (a * b)"

text \<open>\<open>saturating_sub\<close> is subtraction on \<open>nat\<close>.\<close>

text \<open>\<open>Iterator::collect\<close> into a \<open>Result<Vec<_>, _>\<close>: the first error, or all values.\<close>

fun collect :: "('e, 'a) result list \<Rightarrow> ('e, 'a list) result" where
  "collect [] = Inr []"
| "collect (Inl e # rs) = Inl e"
| "collect (Inr x # rs) = (case collect rs of Inl e \<Rightarrow> Inl e | Inr xs \<Rightarrow> Inr (x # xs))"

lemma collect_Inr [simp]: "collect (map Inr xs) = Inr xs"
  by (induction xs) auto

lemma collect_InrD: "collect rs = Inr xs \<Longrightarrow> rs = map Inr xs"
  by (induction rs arbitrary: xs rule: collect.induct) (auto split: sum.splits)

lemma collect_Inr_iff: "collect rs = Inr xs \<longleftrightarrow> rs = map Inr xs"
  using collect_InrD by auto

lemma collect_map_Inr [simp]: "collect (map (\<lambda>x. Inr (f x)) xs) = Inr (map f xs)"
  by (induction xs) auto

subsection \<open>Splitting\<close>

fun split_on :: "char \<Rightarrow> string \<Rightarrow> string list" where
  "split_on c [] = [[]]"
| "split_on c (x # xs) =
     (if x = c then [] # split_on c xs
      else case split_on c xs of [] \<Rightarrow> [[x]] | p # ps \<Rightarrow> (x # p) # ps)"

lemma split_on_nonempty [simp]: "split_on c xs \<noteq> []"
  by (cases xs) (auto split: list.splits)

lemma length_split_on: "length (split_on c xs) = Suc (count_list xs c)"
  by (induction xs) (auto split: list.splits)

lemma split_on_free [simp]: "c \<notin> set xs \<Longrightarrow> split_on c xs = [xs]"
  by (induction xs) auto

lemma split_on_append: "c \<notin> set xs \<Longrightarrow> split_on c (xs @ c # ys) = xs # split_on c ys"
  by (induction xs) auto

subsection \<open>Decimal numbers\<close>

definition digit_value :: "char \<Rightarrow> nat option" where
  "digit_value ch =
     (let n = (of_char ch :: nat) in if 48 \<le> n \<and> n \<le> 57 then Some (n - 48) else None)"

fun parse_digits :: "nat \<Rightarrow> nat \<Rightarrow> string \<Rightarrow> nat option" where
  "parse_digits limit acc [] = Some acc"
| "parse_digits limit acc (ch # cs) =
     (case digit_value ch of
        None \<Rightarrow> None
      | Some d \<Rightarrow> (let acc' = acc * 10 + d in if acc' \<le> limit then parse_digits limit acc' cs else None))"

definition parse_unsigned :: "nat \<Rightarrow> string \<Rightarrow> nat option" where
  "parse_unsigned limit cs =
     (let ds = (case cs of [] \<Rightarrow> [] | ch # rest \<Rightarrow> if ch = CHR ''+'' then rest else cs)
      in if ds = [] then None else parse_digits limit 0 ds)"

lemma digit_value_digit_char [simp]: "d < 10 \<Longrightarrow> digit_value (digit_char d) = Some d"
  by (simp add: digit_value_def digit_char_def Let_def)

lemma digit_char_range: "d < 10 \<Longrightarrow> 48 \<le> (of_char (digit_char d) :: nat) \<and> (of_char (digit_char d) :: nat) \<le> 57"
  by (simp add: digit_char_def)

lemma parse_digits_append:
  "parse_digits limit acc (xs @ ys) = Option.bind (parse_digits limit acc xs) (\<lambda>a. parse_digits limit a ys)"
  by (induction xs arbitrary: acc) (auto simp: Let_def split: option.splits)

lemma parse_digits_show: "n \<le> limit \<Longrightarrow> parse_digits limit 0 (show_nat n) = Some n"
proof (induction n rule: less_induct)
  case (less n)
  show ?case
  proof (cases "n < 10")
    case True
    then show ?thesis using less.prems by (subst show_nat.simps) simp
  next
    case False
    then have "parse_digits limit 0 (show_nat (n div 10)) = Some (n div 10)"
      using less by (metis div_le_dividend div_less_dividend le_trans not_less_zero neq0_conv one_less_numeral_iff
        semiring_norm(76) zero_less_numeral)
    with False less.prems show ?thesis
      by (subst show_nat.simps) (simp add: parse_digits_append)
  qed
qed

lemma show_nat_chars: "ch \<in> set (show_nat n) \<Longrightarrow> 48 \<le> (of_char ch :: nat) \<and> (of_char ch :: nat) \<le> 57"
proof (induction n rule: less_induct)
  case (less n)
  show ?case
  proof (cases "n < 10")
    case True
    then have "show_nat n = [digit_char n]" by (subst show_nat.simps) simp
    with less.prems have "ch = digit_char n" by simp
    with True show ?thesis using digit_char_range [of n] by simp
  next
    case False
    then have "show_nat n = show_nat (n div 10) @ [digit_char (n mod 10)]"
      by (subst show_nat.simps) simp
    then have "ch \<in> set (show_nat (n div 10)) \<or> ch = digit_char (n mod 10)"
      using less.prems by auto
    then show ?thesis
      using less.IH [of "n div 10"] False digit_char_range [of "n mod 10"] by auto
  qed
qed

lemma show_nat_no_colon [simp]: "CHR '':'' \<notin> set (show_nat n)"
  using show_nat_chars [of "CHR '':''" n] by auto

lemma show_nat_no_plus [simp]: "CHR ''+'' \<notin> set (show_nat n)"
  using show_nat_chars [of "CHR ''+''" n] by auto

lemma parse_unsigned_show [simp]: "n \<le> limit \<Longrightarrow> parse_unsigned limit (show_nat n) = Some n"
proof -
  assume n: "n \<le> limit"
  obtain ch rest where s: "show_nat n = ch # rest"
    using show_nat_nonempty [of n] by (cases "show_nat n") auto
  then have "ch \<noteq> CHR ''+''" using show_nat_no_plus [of n] by auto
  with s show ?thesis using parse_digits_show [OF n] by (simp add: parse_unsigned_def)
qed

lemma show_nat_inject: "show_nat m = show_nat n \<longleftrightarrow> m = n"
proof
  assume "show_nat m = show_nat n"
  then have "parse_digits (max m n) 0 (show_nat m) = parse_digits (max m n) 0 (show_nat n)" by simp
  then show "m = n" by (simp add: parse_digits_show)
qed simp

lemma parse_digits_bound: "parse_digits limit acc cs = Some n \<Longrightarrow> acc \<le> limit \<Longrightarrow> n \<le> limit"
  by (induction limit acc cs rule: parse_digits.induct) (auto simp: Let_def split: option.splits if_splits)

lemma parse_unsigned_bound: "parse_unsigned limit cs = Some n \<Longrightarrow> n \<le> limit"
  unfolding parse_unsigned_def Let_def
  by (cases cs) (auto split: if_splits simp del: parse_digits.simps dest: parse_digits_bound)

end
