(* ===== verification/Finality.thy ===== *)
theory Finality
  imports Rust_Text
begin

text \<open>
  The finality gate of \<open>core/src/finality.rs\<close>. The node is an argument: \<open>rpc i tag\<close> is its answer
  to the \<open>i\<close>-th block query of an assessment, so that two reads of the same block may disagree.
  Hashes are opaque (\<open>'h\<close>).
\<close>

datatype FinalityPolicy = Finalized | Depth nat

datatype block_tag = Number nat | FinalizedTag | LatestTag

record 'h block =
  bk_number :: nat
  bk_hash :: 'h

record 'h FinalityEvidence =
  fe_block_number :: nat
  fe_block_hash :: 'h
  fe_checkpoint_number :: nat
  fe_checkpoint_hash :: 'h
  fe_policy :: FinalityPolicy

datatype 'h FinalityAssessment =
    Pending bool
  | Orphaned
  | FinalizedWith "'h FinalityEvidence"

datatype CheckpointContinuity = Consistent | Unavailable | Conflict

datatype finality_error = RpcFailure string | Inconsistent string | RpcConfigError string

record 'h receipt =
  rc_transaction_hash :: 'h
  rc_status :: "bool option"
  rc_block_number :: "nat option"
  rc_block_hash :: "'h option"

type_synonym 'h rpc = "nat \<Rightarrow> block_tag \<Rightarrow> (finality_error, 'h block option) result"

subsection \<open>The policy\<close>

text \<open>A configured depth: a number, or a non-empty string of digits that fits 64 bits.\<close>

datatype NumberOrString = ConfNumber nat | ConfText string

fun deserialize_confirmations :: "NumberOrString \<Rightarrow> (string, nat) result" where
  "deserialize_confirmations (ConfNumber value) =
     (if value \<le> u64_max then Inr value else Inl ''data did not match any variant'')"
| "deserialize_confirmations (ConfText value) =
     (if value \<noteq> [] \<and> list_all (\<lambda>ch. digit_value ch \<noteq> None) value
      then (case parse_unsigned u64_max value of Some n \<Rightarrow> Inr n | None \<Rightarrow> Inl ''number too large'')
      else Inl ''Finality confirmations must be an unsigned decimal integer'')"

definition validate_policy :: "FinalityPolicy \<Rightarrow> nat \<Rightarrow> (finality_error, unit) result" where
  "validate_policy policy chain_id =
     (if policy = Depth 0 \<and> chain_id \<noteq> 31337
      then Inl (RpcConfigError ''Finality depth must be positive; zero is restricted to local chain 31337'')
      else Inr ())"

subsection \<open>Checkpoints and receipts\<close>

definition assess_checkpoint_continuity ::
  "'h rpc \<Rightarrow> 'h FinalityEvidence \<Rightarrow> (finality_error, CheckpointContinuity) result" where
  "assess_checkpoint_continuity rpc previous =
     (case rpc 0 (Number (fe_checkpoint_number previous)) of
        Inl e \<Rightarrow> Inl e
      | Inr None \<Rightarrow> Inr Unavailable
      | Inr (Some block) \<Rightarrow>
          (if bk_number block \<noteq> fe_checkpoint_number previous
           then Inl (Inconsistent ''RPC returned the wrong checkpoint block number'')
           else if bk_hash block = fe_checkpoint_hash previous then Inr Consistent
           else Inr Conflict))"

definition bind_result :: "('e, 'x) result \<Rightarrow> ('x \<Rightarrow> ('e, 'y) result) \<Rightarrow> ('e, 'y) result" where
  "bind_result r f = (case r of Inl e \<Rightarrow> Inl e | Inr x \<Rightarrow> f x)"

text \<open>A block query whose absence ends the assessment with the given answer.\<close>

definition let_some ::
  "(finality_error, 'h block option) result \<Rightarrow> 'h FinalityAssessment
     \<Rightarrow> ('h block \<Rightarrow> (finality_error, 'h FinalityAssessment) result)
     \<Rightarrow> (finality_error, 'h FinalityAssessment) result" where
  "let_some r absent f =
     bind_result r (\<lambda>b. case b of None \<Rightarrow> Inr absent | Some block \<Rightarrow> f block)"

definition required_height :: "FinalityPolicy \<Rightarrow> nat \<Rightarrow> (finality_error, nat) result" where
  "required_height policy block_number =
     (case policy of
        Finalized \<Rightarrow> Inr block_number
      | Depth confirmations \<Rightarrow>
          (case checked_add u64_max block_number confirmations of
             None \<Rightarrow> Inl (Inconsistent ''Finality depth exceeds representable block height'')
           | Some required \<Rightarrow> Inr required))"

text \<open>The block up to which the policy qualifies history, or why there is none yet.\<close>

definition select_checkpoint ::
  "'h rpc \<Rightarrow> FinalityPolicy \<Rightarrow> 'h block
     \<Rightarrow> ('h block \<Rightarrow> (finality_error, 'h FinalityAssessment) result)
     \<Rightarrow> (finality_error, 'h FinalityAssessment) result" where
  "select_checkpoint rpc policy observed_head f =
     (case policy of
        Finalized \<Rightarrow> f observed_head
      | Depth confirmations \<Rightarrow>
          (if confirmations = 0 then f observed_head
           else case checked_sub (bk_number observed_head) confirmations of
             None \<Rightarrow> Inr (Pending True)
           | Some boundary \<Rightarrow>
               let_some (rpc 2 (Number boundary)) (Pending True) (\<lambda>qualified.
                 if bk_number qualified \<noteq> boundary
                 then Inl (Inconsistent ''RPC returned the wrong depth boundary block number'')
                 else f qualified)))"

definition recheck ::
  "'h rpc \<Rightarrow> FinalityPolicy \<Rightarrow> nat \<Rightarrow> 'h \<Rightarrow> 'h block \<Rightarrow> 'h block
     \<Rightarrow> (finality_error, 'h FinalityAssessment) result" where
  "recheck rpc policy block_number block_hash observed_head checkpoint =
     let_some (rpc 3 (Number block_number)) (Pending False) (\<lambda>rechecked_block.
       if bk_number rechecked_block \<noteq> block_number
       then Inl (Inconsistent ''RPC returned the wrong canonical block number'')
       else if bk_hash rechecked_block \<noteq> block_hash then Inr Orphaned
       else let_some (rpc 4 (Number (bk_number checkpoint))) (Pending True) (\<lambda>rechecked_checkpoint.
         if bk_number rechecked_checkpoint \<noteq> bk_number checkpoint
            \<or> bk_hash rechecked_checkpoint \<noteq> bk_hash checkpoint
            \<or> (bk_number checkpoint = block_number \<and> bk_hash checkpoint \<noteq> block_hash)
         then Inl (Inconsistent ''Finality checkpoint changed during receipt reconciliation'')
         else
           let evidence = FinalizedWith \<lparr>fe_block_number = block_number, fe_block_hash = block_hash,
                 fe_checkpoint_number = bk_number checkpoint, fe_checkpoint_hash = bk_hash checkpoint,
                 fe_policy = policy\<rparr>
           in if bk_number observed_head \<noteq> bk_number checkpoint
              then let_some (rpc 5 (Number (bk_number observed_head))) (Pending True) (\<lambda>rechecked_head.
                     if bk_number rechecked_head \<noteq> bk_number observed_head
                        \<or> bk_hash rechecked_head \<noteq> bk_hash observed_head
                     then Inl (Inconsistent ''Observed head changed during depth reconciliation'')
                     else Inr evidence)
              else Inr evidence))"

definition assess_receipt_finality ::
  "'h rpc \<Rightarrow> FinalityPolicy \<Rightarrow> nat \<Rightarrow> 'h \<Rightarrow> 'h receipt \<Rightarrow> (finality_error, 'h FinalityAssessment) result" where
  "assess_receipt_finality rpc policy chain_id expected_hash receipt =
     bind_result (validate_policy policy chain_id) (\<lambda>_.
       if rc_transaction_hash receipt \<noteq> expected_hash
       then Inl (Inconsistent ''Receipt transaction hash does not match stored attempt'')
       else if rc_status receipt = None
       then Inl (Inconsistent ''Receipt does not contain an execution status'')
       else case (rc_block_number receipt, rc_block_hash receipt) of
         (Some block_number, Some block_hash) \<Rightarrow>
           let_some (rpc 0 (Number block_number)) (Pending False) (\<lambda>block.
             if bk_number block \<noteq> block_number
             then Inl (Inconsistent ''RPC returned the wrong canonical block number'')
             else if bk_hash block \<noteq> block_hash then Inr Orphaned
             else let_some (rpc 1 (case policy of Finalized \<Rightarrow> FinalizedTag | Depth _ \<Rightarrow> LatestTag))
                    (Pending True) (\<lambda>observed_head.
                      bind_result (required_height policy block_number) (\<lambda>required.
                        if bk_number observed_head < required then Inr (Pending True)
                        else select_checkpoint rpc policy observed_head
                               (recheck rpc policy block_number block_hash observed_head))))
       | _ \<Rightarrow> Inr (Pending False))"

subsection \<open>Properties\<close>

lemma bind_result_Inr: "bind_result r f = Inr y \<longleftrightarrow> (\<exists>x. r = Inr x \<and> f x = Inr y)"
  by (cases r) (auto simp: bind_result_def)

lemma let_some_Finalized:
  "let_some r absent f = Inr (FinalizedWith ev) \<Longrightarrow> (\<And>ev. absent \<noteq> FinalizedWith ev)
    \<Longrightarrow> \<exists>b. r = Inr (Some b) \<and> f b = Inr (FinalizedWith ev)"
  by (auto simp: let_some_def bind_result_def split: sum.splits option.splits)

lemma recheck_Finalized:
  assumes "recheck rpc policy n h head cp = Inr (FinalizedWith ev)"
  shows "ev = \<lparr>fe_block_number = n, fe_block_hash = h, fe_checkpoint_number = bk_number cp,
              fe_checkpoint_hash = bk_hash cp, fe_policy = policy\<rparr>"
    and "rpc 3 (Number n) = Inr (Some \<lparr>bk_number = n, bk_hash = h\<rparr>)"
    and "rpc 4 (Number (bk_number cp)) = Inr (Some \<lparr>bk_number = bk_number cp, bk_hash = bk_hash cp\<rparr>)"
    and "bk_number cp = n \<Longrightarrow> bk_hash cp = h"
  using assms
  by (auto simp: recheck_def Let_def dest!: let_some_Finalized split: if_splits)

text \<open>
  C15. Evidence is only produced for a receipt that passed the whole gate: the policy is valid for
  the chain, the receipt is the expected one and carries an execution status, its block was
  canonical with the receipt's hash at the first and at the closing read, the checkpoint is the
  finalized head or lies exactly \<open>confirmations\<close> blocks below the observed head, covers the
  block, was read back unchanged, and agrees with the receipt when it is the same block.
\<close>

theorem finality_evidence_is_sound:
  assumes "assess_receipt_finality rpc policy chain_id expected_hash receipt = Inr (FinalizedWith ev)"
  shows "validate_policy policy chain_id = Inr () \<and> rc_transaction_hash receipt = expected_hash
    \<and> rc_status receipt \<noteq> None
    \<and> rc_block_number receipt = Some (fe_block_number ev) \<and> rc_block_hash receipt = Some (fe_block_hash ev)
    \<and> fe_policy ev = policy
    \<and> (\<forall>i \<in> {0, 3}. rpc i (Number (fe_block_number ev))
          = Inr (Some \<lparr>bk_number = fe_block_number ev, bk_hash = fe_block_hash ev\<rparr>))
    \<and> rpc 4 (Number (fe_checkpoint_number ev))
          = Inr (Some \<lparr>bk_number = fe_checkpoint_number ev, bk_hash = fe_checkpoint_hash ev\<rparr>)
    \<and> fe_block_number ev \<le> fe_checkpoint_number ev
    \<and> (fe_checkpoint_number ev = fe_block_number ev \<longrightarrow> fe_checkpoint_hash ev = fe_block_hash ev)
    \<and> (\<exists>head. rpc 1 (case policy of Finalized \<Rightarrow> FinalizedTag | Depth _ \<Rightarrow> LatestTag) = Inr (Some head)
         \<and> bk_number head = fe_checkpoint_number ev + (case policy of Finalized \<Rightarrow> 0 | Depth n \<Rightarrow> n))"
proof -
  obtain n h where nh: "rc_block_number receipt = Some n" "rc_block_hash receipt = Some h"
    using assms by (auto simp: assess_receipt_finality_def bind_result_def split: sum.splits if_splits option.splits)
  let ?tag = "case policy of Finalized \<Rightarrow> FinalizedTag | Depth _ \<Rightarrow> LatestTag"
  have base: "validate_policy policy chain_id = Inr ()" "rc_transaction_hash receipt = expected_hash"
    "rc_status receipt \<noteq> None"
    and b0: "rpc 0 (Number n) = Inr (Some \<lparr>bk_number = n, bk_hash = h\<rparr>)"
    and rest: "let_some (rpc 1 ?tag) (Pending True) (\<lambda>observed_head.
                 bind_result (required_height policy n) (\<lambda>required.
                   if bk_number observed_head < required then Inr (Pending True)
                   else select_checkpoint rpc policy observed_head
                          (recheck rpc policy n h observed_head))) = Inr (FinalizedWith ev)"
    using assms nh
    by (auto simp: assess_receipt_finality_def bind_result_def split: sum.splits if_splits
        dest!: let_some_Finalized)
  from let_some_Finalized [OF rest] obtain head where head: "rpc 1 ?tag = Inr (Some head)"
    and bind: "bind_result (required_height policy n) (\<lambda>required.
                 if bk_number head < required then Inr (Pending True)
                 else select_checkpoint rpc policy head (recheck rpc policy n h head)) = Inr (FinalizedWith ev)"
    by auto
  then obtain required where req: "required_height policy n = Inr required" "required \<le> bk_number head"
    and sel: "select_checkpoint rpc policy head (recheck rpc policy n h head) = Inr (FinalizedWith ev)"
    by (auto simp: bind_result_def not_less split: sum.splits if_splits)
  have "\<exists>cp. recheck rpc policy n h head cp = Inr (FinalizedWith ev)
      \<and> bk_number head = bk_number cp + (case policy of Finalized \<Rightarrow> 0 | Depth c \<Rightarrow> c) \<and> n \<le> bk_number cp"
  proof (cases policy)
    case Finalized
    then show ?thesis using sel req by (auto simp: select_checkpoint_def required_height_def)
  next
    case (Depth c)
    then show ?thesis using sel req
      by (auto simp: select_checkpoint_def required_height_def checked_add_def checked_sub_def
          dest!: let_some_Finalized split: if_splits)
  qed
  then obtain cp where cp: "recheck rpc policy n h head cp = Inr (FinalizedWith ev)"
    and depth: "bk_number head = bk_number cp + (case policy of Finalized \<Rightarrow> 0 | Depth c \<Rightarrow> c)"
    and le: "n \<le> bk_number cp" by blast
  show ?thesis
    using base nh b0 head depth le recheck_Finalized [OF cp] by auto
qed

definition demo_rpc :: "nat \<Rightarrow> block_tag \<Rightarrow> (finality_error, nat block option) result" where
  "demo_rpc i tag = Inr (case tag of
       Number n \<Rightarrow> Some \<lparr>bk_number = n, bk_hash = 1000 + n\<rparr>
     | FinalizedTag \<Rightarrow> Some \<lparr>bk_number = 90, bk_hash = 1090\<rparr>
     | LatestTag \<Rightarrow> Some \<lparr>bk_number = 100, bk_hash = 1100\<rparr>)"

definition demo_receipt :: "nat receipt" where
  "demo_receipt = \<lparr>rc_transaction_hash = 7, rc_status = Some True, rc_block_number = Some 88, rc_block_hash = Some 1088\<rparr>"

theorem finality_evidence_is_sound_witness:
  "\<exists>ev. assess_receipt_finality demo_rpc (Depth 12) 1 7 demo_receipt = Inr (FinalizedWith ev)
     \<and> fe_block_number ev = 88 \<and> fe_block_number ev \<le> fe_checkpoint_number ev"
proof -
  obtain ev where ev: "assess_receipt_finality demo_rpc (Depth 12) 1 7 demo_receipt = Inr (FinalizedWith ev)"
    by (simp add: assess_receipt_finality_def demo_receipt_def demo_rpc_def bind_result_def let_some_def
        validate_policy_def required_height_def checked_add_def checked_sub_def select_checkpoint_def recheck_def
        u64_max_def)
  show ?thesis using ev finality_evidence_is_sound [OF ev] by (simp add: demo_receipt_def)
qed

text \<open>A node that answers every query from one unchanging chain.\<close>

definition stable_node :: "(nat \<Rightarrow> 'h) \<Rightarrow> nat \<Rightarrow> nat \<Rightarrow> 'h rpc \<Rightarrow> bool" where
  "stable_node chain latest final rpc \<longleftrightarrow> final \<le> latest \<and>
     (\<forall>i n. rpc i (Number n) = Inr (if n \<le> latest then Some \<lparr>bk_number = n, bk_hash = chain n\<rparr> else None)) \<and>
     (\<forall>i. rpc i FinalizedTag = Inr (Some \<lparr>bk_number = final, bk_hash = chain final\<rparr>)) \<and>
     (\<forall>i. rpc i LatestTag = Inr (Some \<lparr>bk_number = latest, bk_hash = chain latest\<rparr>))"

text \<open>
  C29. On a node that does not change its mind the gate decides exactly: a mined receipt with an
  execution status is orphaned when its block hash is not the canonical one, finalized when the
  policy covers its block (the finalized head has reached it, or it has the configured number of
  blocks on top of it), and pending otherwise; a receipt above the head is unknown.
\<close>

theorem finality_decides_on_stable_node:
  assumes "stable_node chain latest final rpc" and "validate_policy policy chain_id = Inr ()"
    and "rc_transaction_hash receipt = h" and "rc_status receipt \<noteq> None"
    and "rc_block_number receipt = Some n" and "rc_block_hash receipt = Some bh"
    and "\<And>k. policy = Depth k \<Longrightarrow> n + k \<le> u64_max"
  shows "assess_receipt_finality rpc policy chain_id h receipt = Inr (
     if latest < n then Pending False
     else if chain n \<noteq> bh then Orphaned
     else if (case policy of Finalized \<Rightarrow> final < n | Depth k \<Rightarrow> latest < n + k) then Pending True
     else let checkpoint = (case policy of Finalized \<Rightarrow> final | Depth k \<Rightarrow> latest - k)
          in FinalizedWith \<lparr>fe_block_number = n, fe_block_hash = bh, fe_checkpoint_number = checkpoint,
               fe_checkpoint_hash = chain checkpoint, fe_policy = policy\<rparr>)"
proof -
  from assms(1) have le: "final \<le> latest"
    and num: "rpc i (Number n) = Inr (if n \<le> latest then Some \<lparr>bk_number = n, bk_hash = chain n\<rparr> else None)"
    and fin: "rpc i FinalizedTag = Inr (Some \<lparr>bk_number = final, bk_hash = chain final\<rparr>)"
    and lat: "rpc i LatestTag = Inr (Some \<lparr>bk_number = latest, bk_hash = chain latest\<rparr>)" for i n
    by (auto simp: stable_node_def)
  show ?thesis
  proof (cases policy)
    case Finalized
    then show ?thesis using assms(2-6) le
      by (auto simp: assess_receipt_finality_def bind_result_def let_some_def required_height_def
          select_checkpoint_def recheck_def num fin)
  next
    case (Depth k)
    then show ?thesis using assms(2-6) assms(7) [OF Depth] le
      by (auto simp: assess_receipt_finality_def bind_result_def let_some_def required_height_def Let_def
          select_checkpoint_def recheck_def num lat checked_add_def checked_sub_def)
  qed
qed

theorem finality_decides_on_stable_node_witness:
  "assess_receipt_finality (\<lambda>i tag. case tag of
        Number n \<Rightarrow> Inr (if n \<le> 100 then Some \<lparr>bk_number = n, bk_hash = n\<rparr> else None)
      | FinalizedTag \<Rightarrow> Inr (Some \<lparr>bk_number = 90, bk_hash = 90\<rparr>)
      | LatestTag \<Rightarrow> Inr (Some \<lparr>bk_number = 100, bk_hash = 100\<rparr>)) Finalized 1 7
     \<lparr>rc_transaction_hash = 7, rc_status = Some False, rc_block_number = Some 88, rc_block_hash = Some (88::nat)\<rparr>
   = Inr (FinalizedWith \<lparr>fe_block_number = 88, fe_block_hash = 88, fe_checkpoint_number = 90,
       fe_checkpoint_hash = 90, fe_policy = Finalized\<rparr>)"
  by (subst finality_decides_on_stable_node [where chain = id and latest = 100 and final = 90 and n = 88 and bh = 88])
     (simp_all add: stable_node_def validate_policy_def)

end
