(* ===== verification/Eoa_Fees.thy ===== *)
theory Eoa_Fees
  imports Rust_Text "HOL-Library.Word"
begin

text \<open>
  Fees of EOA transactions: the fee ff of a request and their validation
  (\<open>core/src/transaction.rs\<close>), the fee arithmetic on 128-bit words
  (\<open>executors/src/eoa/worker/fee_math.rs\<close>), and how
  \<open>executors/src/eoa/worker/transaction.rs\<close> completes missing fees and raises the fees of a
  stalled transaction. \<open>'a\<close> is the type of signed authorizations, \<open>'r\<close> everything of a typed
  transaction that is not a fee.
\<close>

type_synonym u128 = "128 word"
type_synonym u32 = "32 word"

subsection \<open>Fee ff of a request\<close>

datatype 'a TransactionTypeData =
    Eip7702 (authorization_list: "'a list option") (max_fee_7702: "u128 option") (max_priority_fee_7702: "u128 option")
  | Eip1559 (max_fee_1559: "u128 option") (max_priority_fee_1559: "u128 option")
  | Legacy (legacy_gas_price: "u128 option")

record 'a FeeFields =
  ff_gas_price :: "u128 option"
  ff_max_fee_per_gas :: "u128 option"
  ff_max_priority_fee_per_gas :: "u128 option"
  ff_authorization_list :: "'a list option"

definition deserialize_transaction_type_data ::
  "'a FeeFields \<Rightarrow> (string, 'a TransactionTypeData option) result" where
  "deserialize_transaction_type_data ff =
     (let dynamic_fees = ff_max_fee_per_gas ff \<noteq> None \<or> ff_max_priority_fee_per_gas ff \<noteq> None in
      if ff_gas_price ff \<noteq> None \<and> (dynamic_fees \<or> ff_authorization_list ff \<noteq> None)
      then Inl ''gasPrice cannot be combined with EIP-1559 fees or authorizationList''
      else if (case (ff_max_fee_per_gas ff, ff_max_priority_fee_per_gas ff) of
                 (Some max_fee, Some priority_fee) \<Rightarrow> max_fee < priority_fee | _ \<Rightarrow> False)
      then Inl ''maxPriorityFeePerGas must not exceed maxFeePerGas''
      else case ff_authorization_list ff of
        Some authorizations \<Rightarrow>
          (if authorizations = [] then Inl ''authorizationList must not be empty''
           else Inr (Some (Eip7702 (Some authorizations) (ff_max_fee_per_gas ff) (ff_max_priority_fee_per_gas ff))))
      | None \<Rightarrow>
          (case ff_gas_price ff of
             Some gas_price \<Rightarrow> Inr (Some (Legacy (Some gas_price)))
           | None \<Rightarrow>
               (if dynamic_fees
                then Inr (Some (Eip1559 (ff_max_fee_per_gas ff) (ff_max_priority_fee_per_gas ff)))
                else Inr None)))"

text \<open>The derived serializer: an untagged variant writes its own ff, absent ones are skipped.\<close>

fun serialize_transaction_type_data :: "'a TransactionTypeData option \<Rightarrow> 'a FeeFields" where
  "serialize_transaction_type_data (Some (Eip7702 al f p)) =
     \<lparr>ff_gas_price = None, ff_max_fee_per_gas = f, ff_max_priority_fee_per_gas = p, ff_authorization_list = al\<rparr>"
| "serialize_transaction_type_data (Some (Eip1559 f p)) =
     \<lparr>ff_gas_price = None, ff_max_fee_per_gas = f, ff_max_priority_fee_per_gas = p, ff_authorization_list = None\<rparr>"
| "serialize_transaction_type_data (Some (Legacy g)) =
     \<lparr>ff_gas_price = g, ff_max_fee_per_gas = None, ff_max_priority_fee_per_gas = None, ff_authorization_list = None\<rparr>"
| "serialize_transaction_type_data None =
     \<lparr>ff_gas_price = None, ff_max_fee_per_gas = None, ff_max_priority_fee_per_gas = None, ff_authorization_list = None\<rparr>"

subsection \<open>Fee arithmetic\<close>

definition word_saturating_mul :: "u128 \<Rightarrow> u128 \<Rightarrow> u128" where
  "word_saturating_mul a b = (if unat a * unat b < 2 ^ 128 then a * b else - 1)"

definition word_saturating_add :: "u128 \<Rightarrow> u128 \<Rightarrow> u128" where
  "word_saturating_add a b = (if unat a + unat b < 2 ^ 128 then a + b else - 1)"

definition division_parts :: "u128 \<Rightarrow> u128 \<times> u128" where
  "division_parts v = (v div 100, v mod 100)"

definition capped_increase_parts :: "u128 \<Rightarrow> u128 \<Rightarrow> u32 \<Rightarrow> u128 option \<Rightarrow> u128" where
  "capped_increase_parts quot remainder multiplier cap =
     (let multiplier = ucast multiplier;
          bumped = word_saturating_add (word_saturating_mul quot multiplier) (remainder * multiplier div 100)
      in min bumped (case cap of None \<Rightarrow> - 1 | Some c \<Rightarrow> c))"

definition capped_increase :: "u128 \<Rightarrow> u32 \<Rightarrow> u128 option \<Rightarrow> u128" where
  "capped_increase v multiplier cap =
     (let (quot, remainder) = division_parts v in capped_increase_parts quot remainder multiplier cap)"

definition capped_dynamic_fees ::
  "u128 \<Rightarrow> u128 \<Rightarrow> u32 \<Rightarrow> u128 option \<Rightarrow> u128 option \<Rightarrow> u128 \<times> u128" where
  "capped_dynamic_fees fee priority multiplier fee_cap priority_cap =
     (let fee = capped_increase fee multiplier fee_cap;
          priority = min (capped_increase priority multiplier priority_cap) fee
      in (fee, priority))"

subsection \<open>Typed transactions and the gas bump\<close>

datatype 'r TypedTransaction =
    TxLegacy u128 'r
  | TxEip2930 u128 'r
  | TxEip1559 u128 u128 'r
  | TxEip7702 u128 u128 'r
  | TxEip4844 u128 u128 'r

fun max_fee_per_gas :: "'r TypedTransaction \<Rightarrow> u128" where
  "max_fee_per_gas (TxLegacy g r) = g"
| "max_fee_per_gas (TxEip2930 g r) = g"
| "max_fee_per_gas (TxEip1559 f p r) = f"
| "max_fee_per_gas (TxEip7702 f p r) = f"
| "max_fee_per_gas (TxEip4844 f p r) = f"

fun max_priority_fee_per_gas :: "'r TypedTransaction \<Rightarrow> u128 option" where
  "max_priority_fee_per_gas (TxLegacy g r) = None"
| "max_priority_fee_per_gas (TxEip2930 g r) = None"
| "max_priority_fee_per_gas (TxEip1559 f p r) = Some p"
| "max_priority_fee_per_gas (TxEip7702 f p r) = Some p"
| "max_priority_fee_per_gas (TxEip4844 f p r) = Some p"

fun requested_caps :: "'a TransactionTypeData option \<Rightarrow> u128 option \<times> u128 option" where
  "requested_caps (Some (Legacy g)) = (g, None)"
| "requested_caps (Some (Eip1559 f p)) = (f, p)"
| "requested_caps (Some (Eip7702 al f p)) = (f, p)"
| "requested_caps None = (None, None)"

fun raise_fees :: "u32 \<Rightarrow> u128 option \<Rightarrow> u128 option \<Rightarrow> 'r TypedTransaction \<Rightarrow> 'r TypedTransaction" where
  "raise_fees m fc pc (TxLegacy g r) = TxLegacy (capped_increase g m fc) r"
| "raise_fees m fc pc (TxEip2930 g r) = TxEip2930 (capped_increase g m fc) r"
| "raise_fees m fc pc (TxEip1559 f p r) = (case capped_dynamic_fees f p m fc pc of (f, p) \<Rightarrow> TxEip1559 f p r)"
| "raise_fees m fc pc (TxEip7702 f p r) = (case capped_dynamic_fees f p m fc pc of (f, p) \<Rightarrow> TxEip7702 f p r)"
| "raise_fees m fc pc (TxEip4844 f p r) = (case capped_dynamic_fees f p m fc pc of (f, p) \<Rightarrow> TxEip4844 f p r)"

definition bump_transaction_fees ::
  "'r TypedTransaction \<Rightarrow> u32 \<Rightarrow> 'a TransactionTypeData option \<Rightarrow> 'r TypedTransaction option" where
  "bump_transaction_fees tx multiplier requested =
     (if multiplier \<le> 100 then None
      else
        let (fee_cap, priority_cap) = requested_caps requested;
            old_fees = (max_fee_per_gas tx, max_priority_fee_per_gas tx);
            tx = raise_fees multiplier fee_cap priority_cap tx
        in if old_fees \<noteq> (max_fee_per_gas tx, max_priority_fee_per_gas tx) then Some tx else None)"

subsection \<open>Completing the fees of a request\<close>

record 'a tx_request =
  tr_nonce :: nat
  tr_gas :: "nat option"
  tr_gas_price :: "u128 option"
  tr_max_fee_per_gas :: "u128 option"
  tr_max_priority_fee_per_gas :: "u128 option"
  tr_authorization_list :: "'a list option"

datatype fee_error = TransactionBuildFailed string | FeeRpcError string

text \<open>
  \<open>eip1559\<close> is the node's answer to \<open>estimate_eip1559_fees\<close> (an error carries whether it means
  that the feature is unsupported), \<open>gas_price\<close> its answer to \<open>get_gas_price\<close>.
\<close>

definition estimate_gas_fees ::
  "(bool, u128 \<times> u128) result \<Rightarrow> u128 option \<Rightarrow> 'a tx_request \<Rightarrow> (fee_error, 'a tx_request) result" where
  "estimate_gas_fees eip1559 gas_price tx =
     (if tr_gas_price tx \<noteq> None then Inr tx
      else if tr_max_fee_per_gas tx \<noteq> None \<and> tr_max_priority_fee_per_gas tx \<noteq> None then Inr tx
      else case eip1559 of
        Inr (max_fee, max_priority_fee) \<Rightarrow>
          (let result = tx;
               result = (if tr_max_fee_per_gas result = None
                         then result\<lparr>tr_max_fee_per_gas := Some max_fee\<rparr> else result);
               result = (if tr_max_priority_fee_per_gas result = None
                         then result\<lparr>tr_max_priority_fee_per_gas := Some max_priority_fee\<rparr> else result)
           in Inr result)
      | Inl unsupported \<Rightarrow>
          (if unsupported then
             (if tr_max_fee_per_gas tx \<noteq> None \<or> tr_max_priority_fee_per_gas tx \<noteq> None
              then Inl (TransactionBuildFailed ''Cannot estimate explicit EIP-1559 fees on this chain'')
              else if tr_authorization_list tx = None then
                (case gas_price of
                   Some g \<Rightarrow> Inr (tx\<lparr>tr_gas_price := Some g\<rparr>)
                 | None \<Rightarrow> Inl (FeeRpcError ''Failed to get legacy gas price''))
              else Inl (TransactionBuildFailed ''EIP7702 transactions not supported on chain''))
           else Inl (FeeRpcError ''Failed to estimate EIP-1559 fees'')))"

text \<open>The fee part of \<open>build_typed_transaction\<close>: caller settings first, estimates for what is missing.\<close>

definition estimate_missing ::
  "(bool, u128 \<times> u128) result \<Rightarrow> u128 option \<Rightarrow> 'a tx_request \<Rightarrow> (fee_error, 'a tx_request) result" where
  "estimate_missing eip1559 gas_price req =
     (if tr_max_fee_per_gas req = None \<or> tr_max_priority_fee_per_gas req = None
      then estimate_gas_fees eip1559 gas_price req else Inr req)"

fun apply_request_fees ::
  "(bool, u128 \<times> u128) result \<Rightarrow> u128 option \<Rightarrow> 'a TransactionTypeData option \<Rightarrow> 'a tx_request
     \<Rightarrow> (fee_error, 'a tx_request) result" where
  "apply_request_fees eip1559 gas_price (Some (Eip1559 f p)) req =
     (let req = (if f \<noteq> None then req\<lparr>tr_max_fee_per_gas := f\<rparr> else req);
          req = (if p \<noteq> None then req\<lparr>tr_max_priority_fee_per_gas := p\<rparr> else req)
      in estimate_missing eip1559 gas_price req)"
| "apply_request_fees eip1559 gas_price (Some (Legacy g)) req =
     (if g \<noteq> None then Inr (req\<lparr>tr_gas_price := g\<rparr>) else estimate_gas_fees eip1559 gas_price req)"
| "apply_request_fees eip1559 gas_price (Some (Eip7702 al f p)) req =
     (let req = (if al \<noteq> None \<and> al \<noteq> Some [] then req\<lparr>tr_authorization_list := al\<rparr> else req);
          req = (if f \<noteq> None then req\<lparr>tr_max_fee_per_gas := f\<rparr> else req);
          req = (if p \<noteq> None then req\<lparr>tr_max_priority_fee_per_gas := p\<rparr> else req)
      in estimate_missing eip1559 gas_price req)"
| "apply_request_fees eip1559 gas_price None req = estimate_gas_fees eip1559 gas_price req"

text \<open>The refusal of an inverted fee pair before the typed transaction is built.\<close>

definition check_fee_pair :: "'a tx_request \<Rightarrow> (fee_error, 'a tx_request) result" where
  "check_fee_pair req =
     (case (tr_max_fee_per_gas req, tr_max_priority_fee_per_gas req) of
        (Some max_fee, Some priority) \<Rightarrow>
          (if max_fee < priority
           then Inl (TransactionBuildFailed ''Estimated maxPriorityFeePerGas exceeds maxFeePerGas'')
           else Inr req)
      | _ \<Rightarrow> Inr req)"

subsection \<open>Lemmas\<close>

lemma unat_max_word_128: "unat (- 1 :: u128) = 2 ^ 128 - 1"
  by (simp add: unsigned_minus_1_eq_mask mask_eq_exp_minus_1)

lemma unat_saturating_mul: "unat (word_saturating_mul a b) = min (2 ^ 128 - 1) (unat a * unat b)"
proof (cases "unat a * unat b < 2 ^ 128")
  case True
  then have "unat (a * b) = unat a * unat b" by (simp add: unat_word_ariths)
  with True show ?thesis by (simp add: word_saturating_mul_def)
next
  case False
  then show ?thesis by (simp add: word_saturating_mul_def unat_max_word_128)
qed

lemma unat_saturating_add: "unat (word_saturating_add a b) = min (2 ^ 128 - 1) (unat a + unat b)"
proof (cases "unat a + unat b < 2 ^ 128")
  case True
  then have "unat (a + b) = unat a + unat b" by (simp add: unat_word_ariths)
  with True show ?thesis by (simp add: word_saturating_add_def)
next
  case False
  then show ?thesis by (simp add: word_saturating_add_def unat_max_word_128)
qed

lemma unat_ucast_u32: "unat (ucast (m :: u32) :: u128) = unat m"
proof -
  have "unat m < 2 ^ 32" using unsigned_less [of m, where ?'a = nat] by simp
  then show ?thesis by (simp add: unsigned_ucast_eq take_bit_nat_eq_self)
qed

text \<open>The remainder product never wraps: the remainder is below 100, the multiplier below \<open>2 ^ 32\<close>.\<close>

lemma unat_remainder_part:
  fixes v :: u128 and m :: u32
  shows "unat (v mod 100 * ucast m div 100) = unat v mod 100 * unat m div 100"
proof -
  have r: "unat (v mod 100) = unat v mod 100" by (simp add: unat_mod)
  have m: "unat (ucast m :: u128) = unat m" by (rule unat_ucast_u32)
  have "unat m < 2 ^ 32" using unsigned_less [of m, where ?'a = nat] by simp
  moreover have "unat v mod 100 < 100" by simp
  ultimately have "unat v mod 100 * unat m < 100 * 2 ^ 32"
    by (metis mult_strict_mono less_trans zero_le zero_less_numeral)
  then have "unat (v mod 100 * ucast m) = unat v mod 100 * unat m"
    using r m by (simp add: unat_word_ariths)
  then show ?thesis by (simp add: unat_div)
qed

lemma div_100_split: "(v :: nat) * m div 100 = v div 100 * m + v mod 100 * m div 100"
proof -
  have "v * m = 100 * (v div 100 * m) + v mod 100 * m"
    by (metis add_mult_distrib div_mult_mod_eq mult.assoc mult.commute)
  then show ?thesis by simp
qed

lemma min_add_min: "min l (min l a + b) = min l (a + b)" for l a b :: nat
  by (auto simp: min_def)

lemma unat_min: "unat (min a b) = min (unat a) (unat b)" for a b :: u128
  by (simp add: min_def word_le_nat_alt)

lemma u128_bound: "unat c \<le> 2 ^ 128 - 1" for c :: u128
  using unsigned_less [of c, where ?'a = nat] by simp

lemma unat_capped_increase:
  "unat (capped_increase v m cap) =
     min (unat v * unat m div 100) (case cap of None \<Rightarrow> 2 ^ 128 - 1 | Some c \<Rightarrow> unat c)"
proof -
  have m: "unat (ucast m :: u128) = unat m" by (rule unat_ucast_u32)
  have q: "unat (v div 100) = unat v div 100" by (simp add: unat_div)
  have "unat (word_saturating_add (word_saturating_mul (v div 100) (ucast m)) (v mod 100 * ucast m div 100))
      = min (2 ^ 128 - 1) (unat v * unat m div 100)"
    unfolding unat_saturating_add unat_saturating_mul unat_remainder_part m q div_100_split [of "unat v" "unat m"]
    by (rule min_add_min)
  then have "unat (capped_increase v m cap) = min (min (2 ^ 128 - 1) (unat v * unat m div 100))
      (unat (case cap of None \<Rightarrow> - 1 | Some c \<Rightarrow> c))"
    by (simp add: capped_increase_def capped_increase_parts_def division_parts_def Let_def unat_min)
  then show ?thesis using u128_bound
    by (cases cap) (simp_all add: unat_max_word_128 min.absorb2 min.assoc min.left_commute)
qed

lemma capped_increase_le_cap: "capped_increase v m (Some c) \<le> c"
  by (simp add: word_le_nat_alt unat_capped_increase)

lemma capped_increase_mono:
  assumes "100 \<le> m" and "\<And>c. cap = Some c \<Longrightarrow> v \<le> c"
  shows "v \<le> capped_increase v m cap"
proof -
  have "100 \<le> unat m" using assms(1) by (simp add: word_le_nat_alt)
  then have "unat v * 100 \<le> unat v * unat m" by simp
  then have "unat v \<le> unat v * unat m div 100" by (simp add: less_eq_div_iff_mult_less_eq)
  moreover have "unat v \<le> 2 ^ 128 - 1" using unsigned_less [of v, where ?'a = nat] by simp
  moreover have "unat v \<le> unat c" if "cap = Some c" for c
    using assms(2) [OF that] by (simp add: word_le_nat_alt)
  ultimately show ?thesis
    by (auto simp: word_le_nat_alt unat_capped_increase split: option.splits)
qed

text \<open>What a bump must not change, and the ceilings it must respect.\<close>

fun tx_rest :: "'r TypedTransaction \<Rightarrow> nat \<times> 'r" where
  "tx_rest (TxLegacy g r) = (0, r)"
| "tx_rest (TxEip2930 g r) = (1, r)"
| "tx_rest (TxEip1559 f p r) = (2, r)"
| "tx_rest (TxEip7702 f p r) = (3, r)"
| "tx_rest (TxEip4844 f p r) = (4, r)"

definition within_caps :: "u128 option \<times> u128 option \<Rightarrow> 'r TypedTransaction \<Rightarrow> bool" where
  "within_caps caps tx \<longleftrightarrow>
     (case fst caps of None \<Rightarrow> True | Some c \<Rightarrow> max_fee_per_gas tx \<le> c) \<and>
     (case max_priority_fee_per_gas tx of
        None \<Rightarrow> True
      | Some p \<Rightarrow> p \<le> max_fee_per_gas tx \<and> (case snd caps of None \<Rightarrow> True | Some c \<Rightarrow> p \<le> c))"

lemma capped_dynamic_fees_caps:
  assumes "capped_dynamic_fees f p m fc pc = (f', p')"
  shows "p' \<le> f'" and "fc = Some c \<Longrightarrow> f' \<le> c" and "pc = Some c \<Longrightarrow> p' \<le> c"
  using assms capped_increase_le_cap [of p m c] capped_increase_le_cap [of f m c]
  by (auto simp: capped_dynamic_fees_def Let_def min_le_iff_disj)

lemma capped_dynamic_fees_mono:
  assumes "capped_dynamic_fees f p m fc pc = (f', p')" and "100 \<le> m" and "p \<le> f"
    and "\<And>c. fc = Some c \<Longrightarrow> f \<le> c" and "\<And>c. pc = Some c \<Longrightarrow> p \<le> c"
  shows "f \<le> f'" and "p \<le> p'"
proof -
  have f: "f \<le> capped_increase f m fc" and p: "p \<le> capped_increase p m pc"
    by (rule capped_increase_mono [OF assms(2)], erule assms)+
  then show "f \<le> f'" and "p \<le> p'"
    using assms(1) order_trans [OF assms(3) f] by (auto simp: capped_dynamic_fees_def Let_def)
qed

lemma within_caps_raise_fees:
  "within_caps (fc, pc) (raise_fees m fc pc tx)"
  by (cases tx) (auto simp: within_caps_def capped_increase_le_cap split: option.splits prod.splits
      dest: capped_dynamic_fees_caps)

lemma raise_fees_mono:
  assumes "within_caps (fc, pc) tx" and "100 \<le> m"
  shows "max_fee_per_gas tx \<le> max_fee_per_gas (raise_fees m fc pc tx)
    \<and> rel_option (\<le>) (max_priority_fee_per_gas tx) (max_priority_fee_per_gas (raise_fees m fc pc tx))"
proof (cases tx)
  case (TxEip1559 f p r)
  obtain f' p' where d: "capped_dynamic_fees f p m fc pc = (f', p')" by fastforce
  from assms(1) TxEip1559 show ?thesis
    by (auto simp: within_caps_def d split: option.splits intro: capped_dynamic_fees_mono [OF d assms(2)])
next
  case (TxEip7702 f p r)
  obtain f' p' where d: "capped_dynamic_fees f p m fc pc = (f', p')" by fastforce
  from assms(1) TxEip7702 show ?thesis
    by (auto simp: within_caps_def d split: option.splits intro: capped_dynamic_fees_mono [OF d assms(2)])
next
  case (TxEip4844 f p r)
  obtain f' p' where d: "capped_dynamic_fees f p m fc pc = (f', p')" by fastforce
  from assms(1) TxEip4844 show ?thesis
    by (auto simp: within_caps_def d split: option.splits intro: capped_dynamic_fees_mono [OF d assms(2)])
qed (use assms in \<open>auto simp: within_caps_def split: option.splits intro: capped_increase_mono\<close>)

lemma tx_rest_raise_fees: "tx_rest (raise_fees m fc pc tx) = tx_rest tx"
  by (cases tx) (auto split: prod.splits)

text \<open>A request as \<open>build_typed_transaction\<close> starts it, before any fee is set.\<close>

definition no_fees :: "'a tx_request \<Rightarrow> bool" where
  "no_fees req \<longleftrightarrow> tr_gas_price req = None \<and> tr_max_fee_per_gas req = None
     \<and> tr_max_priority_fee_per_gas req = None \<and> tr_authorization_list req = None"

subsection \<open>Properties\<close>

text \<open>
  C21. The 128-bit fee arithmetic of \<open>capped_increase\<close>, which divides before it multiplies and
  saturates, equals the mathematical \<open>min(cap, floor(value * multiplier / 100))\<close> limited to
  128 bits: no intermediate product wraps, for all values, multipliers and caps.
\<close>

theorem capped_increase_exact:
  "unat (capped_increase v m cap) =
     Min {unat v * unat m div 100, 2 ^ 128 - 1, (case cap of None \<Rightarrow> 2 ^ 128 - 1 | Some c \<Rightarrow> unat c)}"
  using u128_bound [of "the cap"]
  by (cases cap) (simp_all add: unat_capped_increase min.absorb2)

text \<open>
  C31. A gas bump keeps what the caller fixed. When \<open>bump_transaction_fees\<close> yields a transaction it
  differs only in its fees, at least one fee changed, each explicit caller fee remains a ceiling
  and the priority fee of a dynamic transaction does not exceed its total fee; if the transaction
  already respected the ceilings, no fee was lowered. When it yields nothing, the multiplier was
  not an increase or the ceilings leave both fees unchanged.
\<close>

theorem bump_respects_caller_ceilings:
  assumes "bump_transaction_fees tx m requested = Some tx'"
  shows "100 < m \<and> tx_rest tx' = tx_rest tx
    \<and> (max_fee_per_gas tx', max_priority_fee_per_gas tx') \<noteq> (max_fee_per_gas tx, max_priority_fee_per_gas tx)
    \<and> within_caps (requested_caps requested) tx'
    \<and> (within_caps (requested_caps requested) tx \<longrightarrow>
         max_fee_per_gas tx \<le> max_fee_per_gas tx' \<and>
         rel_option (\<le>) (max_priority_fee_per_gas tx) (max_priority_fee_per_gas tx'))"
proof -
  obtain fc pc where c: "requested_caps requested = (fc, pc)" by fastforce
  from assms have m: "100 < m" and tx': "tx' = raise_fees m fc pc tx"
    and ne: "(max_fee_per_gas tx, max_priority_fee_per_gas tx) \<noteq> (max_fee_per_gas tx', max_priority_fee_per_gas tx')"
    by (auto simp: bump_transaction_fees_def c Let_def not_le split: if_splits)
  show ?thesis
    unfolding c using m ne raise_fees_mono [of fc pc tx m] within_caps_raise_fees [of fc pc m tx]
    by (auto simp: tx' tx_rest_raise_fees)
qed

theorem bump_respects_caller_ceilings_witness:
  "bump_transaction_fees (TxEip1559 1000 10 ()) 120 (Some (Eip1559 (Some 1100) None :: unit TransactionTypeData))
     = Some (TxEip1559 1100 12 ())
   \<and> within_caps (Some 1100, None) (TxEip1559 1100 12 ())"
proof -
  have b: "bump_transaction_fees (TxEip1559 1000 10 ()) 120 (Some (Eip1559 (Some 1100) None :: unit TransactionTypeData))
     = Some (TxEip1559 1100 12 ())"
    by (simp add: bump_transaction_fees_def capped_dynamic_fees_def capped_increase_def capped_increase_parts_def
        division_parts_def word_saturating_mul_def word_saturating_add_def)
  then show ?thesis using bump_respects_caller_ceilings [OF b] by simp
qed

text \<open>
  The fee fields of a request survive parsing and storage: whatever
  \<open>deserialize_transaction_type_data\<close> accepts is written back by the serializer field for field
  (so parsing the stored form gives the same variant again), an accepted legacy price excludes
  every other fee field, and an accepted fee pair is ordered. Conflicting fields are never
  silently dropped.
\<close>

theorem fee_fields_roundtrip:
  assumes "deserialize_transaction_type_data ff = Inr d"
  shows "serialize_transaction_type_data d = ff
    \<and> deserialize_transaction_type_data (serialize_transaction_type_data d) = Inr d
    \<and> (ff_gas_price ff \<noteq> None \<longrightarrow> d = Some (Legacy (ff_gas_price ff)))
    \<and> (\<forall>f p. ff_max_fee_per_gas ff = Some f \<longrightarrow> ff_max_priority_fee_per_gas ff = Some p \<longrightarrow> p \<le> f)"
proof -
  have s: "serialize_transaction_type_data d = ff"
    using assms by (cases ff) (auto simp: deserialize_transaction_type_data_def Let_def split: if_splits option.splits)
  moreover have "ff_gas_price ff \<noteq> None \<longrightarrow> d = Some (Legacy (ff_gas_price ff))"
    using assms by (auto simp: deserialize_transaction_type_data_def Let_def split: if_splits option.splits)
  moreover have "p \<le> f" if "ff_max_fee_per_gas ff = Some f" "ff_max_priority_fee_per_gas ff = Some p" for f p
    using assms that by (auto simp: deserialize_transaction_type_data_def Let_def not_less split: if_splits)
  ultimately show ?thesis using assms by simp
qed

theorem fee_fields_roundtrip_witness:
  "serialize_transaction_type_data (Some (Eip1559 (Some 10) (Some 2) :: unit TransactionTypeData))
     = \<lparr>ff_gas_price = None, ff_max_fee_per_gas = Some 10, ff_max_priority_fee_per_gas = Some 2,
        ff_authorization_list = None\<rparr>"
  using fee_fields_roundtrip [of "\<lparr>ff_gas_price = None, ff_max_fee_per_gas = Some 10,
      ff_max_priority_fee_per_gas = Some 2, ff_authorization_list = None\<rparr>" "Some (Eip1559 (Some 10) (Some 2))"]
  by (simp add: deserialize_transaction_type_data_def)

text \<open>
  Estimation only fills what the caller left open. From a request without fees, what
  \<open>apply_request_fees\<close> returns and \<open>check_fee_pair\<close> lets pass keeps every explicit caller fee, never mixes a legacy price
  with dynamic fees, carries a non-empty authorization list along, and has an ordered pair of
  dynamic fees, so the transaction it produces is within the caller's ceilings before any bump.
\<close>

theorem request_fees_keep_caller_fees:
  assumes "no_fees req" and r: "apply_request_fees eip1559 gas_price requested req = Inr r"
    and c: "check_fee_pair r = Inr req'"
  shows "(\<forall>c. fst (requested_caps requested) = Some c \<longrightarrow>
            tr_gas_price req' = Some c \<or> tr_max_fee_per_gas req' = Some c)
    \<and> (\<forall>c. snd (requested_caps requested) = Some c \<longrightarrow> tr_max_priority_fee_per_gas req' = Some c)
    \<and> (if tr_gas_price req' = None
       then tr_max_fee_per_gas req' \<noteq> None \<and> tr_max_priority_fee_per_gas req' \<noteq> None
       else tr_max_fee_per_gas req' = None \<and> tr_max_priority_fee_per_gas req' = None)
    \<and> (\<forall>f p. tr_max_fee_per_gas req' = Some f \<longrightarrow> tr_max_priority_fee_per_gas req' = Some p \<longrightarrow> p \<le> f)
    \<and> (\<forall>al f p. requested = Some (Eip7702 (Some al) f p) \<longrightarrow> al \<noteq> [] \<longrightarrow> tr_authorization_list req' = Some al)
    \<and> tr_nonce req' = tr_nonce req \<and> tr_gas req' = tr_gas req"
proof -
  from c have eq: "req' = r"
    and le: "\<forall>f p. tr_max_fee_per_gas r = Some f \<longrightarrow> tr_max_priority_fee_per_gas r = Some p \<longrightarrow> p \<le> f"
    by (auto simp: check_fee_pair_def not_less split: option.splits if_splits)
  note fee_defs = estimate_missing_def estimate_gas_fees_def no_fees_def Let_def
  show ?thesis
  proof (cases requested)
    case None
    with assms(1) r eq le show ?thesis
      by (auto simp: fee_defs split: if_splits sum.splits option.splits)
  next
    case (Some d)
    with assms(1) r eq le show ?thesis
      by (cases d) (auto simp: fee_defs split: if_splits sum.splits option.splits)
  qed
qed

theorem request_fees_keep_caller_fees_witness:
  "\<exists>req'. Option.bind (case apply_request_fees (Inr (90, 3)) None (Some (Eip1559 (Some 50) None :: unit TransactionTypeData))
         \<lparr>tr_nonce = 7, tr_gas = None, tr_gas_price = None, tr_max_fee_per_gas = None,
          tr_max_priority_fee_per_gas = None, tr_authorization_list = None\<rparr> of Inl _ \<Rightarrow> None | Inr r \<Rightarrow> Some r)
       (\<lambda>r. case check_fee_pair r of Inl _ \<Rightarrow> None | Inr req' \<Rightarrow> Some req') = Some req'
     \<and> tr_max_fee_per_gas req' = Some 50 \<and> tr_nonce req' = 7"
proof -
  let ?req = "\<lparr>tr_nonce = 7, tr_gas = None, tr_gas_price = None, tr_max_fee_per_gas = None,
        tr_max_priority_fee_per_gas = None, tr_authorization_list = None\<rparr> :: unit tx_request"
  obtain r where r: "apply_request_fees (Inr (90, 3)) None (Some (Eip1559 (Some 50) None)) ?req = Inr r"
    and c: "check_fee_pair r = Inr r" and n: "tr_gas_price r = None"
    by (simp add: estimate_missing_def estimate_gas_fees_def check_fee_pair_def)
  moreover have "no_fees ?req" by (simp add: no_fees_def)
  ultimately show ?thesis using request_fees_keep_caller_fees [OF _ r c] by simp
qed

end
