(* ===== verification/Eoa_Store.thy ===== *)
theory Eoa_Store
  imports Eoa_Fees
begin

text \<open>
  The Redis store of one externally owned account on one chain
  (\<open>executors/src/eoa/store/mod.rs\<close>, \<open>hydrate.rs\<close> and the data types of \<open>submitted.rs\<close>): its
  record types, the keys as the fields of one record, and the operations that do not need the
  account lock. Signed transactions (\<open>'tx\<close>), credentials (\<open>'c\<close>) and signed authorizations
  (\<open>'a\<close>) are opaque; JSON and what the code reads from a signed transaction are the
  functions of an \<open>eoa_codec\<close>.
\<close>

type_synonym address = nat
type_synonym tx_id = string

definition NO_OP_TRANSACTION_ID :: tx_id where
  "NO_OP_TRANSACTION_ID = ''noop''"

definition MAX_UNFINALIZED_ATTEMPTS :: nat where
  "MAX_UNFINALIZED_ATTEMPTS = 100000"

definition MAX_PENDING_TRANSACTIONS :: nat where
  "MAX_PENDING_TRANSACTIONS = 25000"

subsection \<open>Data types\<close>

record WebhookOptions =
  wo_url :: string
  wo_secret :: "string option"
  wo_user_metadata :: "string option"

record ('a, 'c) EoaTransactionRequest =
  rq_transaction_id :: tx_id
  rq_chain_id :: nat
  rq_from :: address
  rq_to :: "address option"
  rq_value :: nat
  rq_data :: string
  rq_gas_limit :: "nat option"
  rq_webhook_options :: "WebhookOptions list"
  rq_credentials :: 'c
  rq_transaction_type_data :: "'a TransactionTypeData option"

record ('a, 'c) PendingTransaction =
  pt_transaction_id :: tx_id
  pt_queued_at :: nat
  pt_user_request :: "('a, 'c) EoaTransactionRequest"

record 'tx BorrowedTransactionData =
  bd_transaction_id :: tx_id
  bd_signed_transaction :: 'tx
  bd_queued_at :: nat
  bd_hash :: string
  bd_borrowed_at :: nat

record ('tx, 'a, 'c) BorrowedTransaction =
  bt_data :: "'tx BorrowedTransactionData"
  bt_user_request :: "('a, 'c) EoaTransactionRequest"

record SubmittedTransactionDehydrated =
  st_nonce :: nat
  st_transaction_hash :: string
  st_transaction_id :: tx_id
  st_submitted_at :: nat
  st_queued_at :: nat

record ('a, 'c) SubmittedTransaction =
  sx_data :: SubmittedTransactionDehydrated
  sx_user_request :: "('a, 'c) EoaTransactionRequest"

record SubmittedNoopTransaction =
  nt_nonce :: nat
  nt_transaction_hash :: string

datatype ('a, 'c) SubmittedTransactionHydrated =
    Noop SubmittedNoopTransaction
  | Real "('a, 'c) SubmittedTransaction"

record 'tx TransactionAttempt =
  at_transaction_id :: tx_id
  at_details :: 'tx
  at_sent_at :: nat
  at_attempt_number :: nat

record EoaHealth =
  eh_balance :: nat
  eh_balance_threshold :: nat
  eh_balance_fetched_at :: nat
  eh_last_confirmation_at :: nat
  eh_last_nonce_movement_at :: nat
  eh_nonce_resets :: "nat list"
  eh_last_finality_poll_at :: nat
  eh_finality_scan_offset :: nat

datatype TransactionStoreError =
    CapacityExceeded
  | RedisError string
  | DeserError string
  | TransactionNotFound tx_id
  | TransactionConflict tx_id
  | LockLost string
  | InternalError string
  | NonceNotInRecycledSet nat
  | TransactionNotInPendingQueue tx_id
  | UnresolvedNonceReservations
  | NonceSyncRequired

record ('tx, 'a, 'c) eoa_codec =
  tx_nonce :: "'tx \<Rightarrow> nat"
  tx_hash :: "'tx \<Rightarrow> string"
  request_to_json :: "('a, 'c) EoaTransactionRequest \<Rightarrow> string option"
  request_of_json :: "string \<Rightarrow> ('a, 'c) EoaTransactionRequest option"
  borrowed_to_json :: "'tx BorrowedTransactionData \<Rightarrow> string option"
  borrowed_of_json :: "string \<Rightarrow> 'tx BorrowedTransactionData option"
  health_to_json :: "EoaHealth \<Rightarrow> string option"
  health_of_json :: "string \<Rightarrow> EoaHealth option"
  attempt_to_json :: "'tx TransactionAttempt \<Rightarrow> string option"
  attempt_of_json :: "string \<Rightarrow> 'tx TransactionAttempt option"
  receipt_parses :: "string \<Rightarrow> bool"

text \<open>
  A borrowed record that was written is read back: what serde promises for the derived format of
  \<open>BorrowedTransactionData\<close> and alloy for the signed transaction in it. Nothing is assumed of
  requests, whose untagged fee data does not always read back (\<open>Some (Legacy None)\<close> does not),
  nor of the health record.
\<close>

definition codec_ok :: "('tx, 'a, 'c) eoa_codec \<Rightarrow> bool" where
  "codec_ok c \<longleftrightarrow> (\<forall>x j. borrowed_to_json c x = Some j \<longrightarrow> borrowed_of_json c j = Some x)"

subsection \<open>Members of the submitted set\<close>

definition noop_to_redis_string_with_nonce :: "SubmittedNoopTransaction \<Rightarrow> string \<times> nat" where
  "noop_to_redis_string_with_nonce tx =
     (nt_transaction_hash tx @ '':'' @ NO_OP_TRANSACTION_ID @ '':0:0'', nt_nonce tx)"

definition noop_to_legacy_redis_string_with_nonce :: "SubmittedNoopTransaction \<Rightarrow> string \<times> nat" where
  "noop_to_legacy_redis_string_with_nonce tx =
     (nt_transaction_hash tx @ '':'' @ NO_OP_TRANSACTION_ID @ '':0'', nt_nonce tx)"

definition to_redis_string_with_nonce :: "SubmittedTransactionDehydrated \<Rightarrow> string \<times> nat" where
  "to_redis_string_with_nonce tx =
     (st_transaction_hash tx @ '':'' @ st_transaction_id tx @ '':'' @ show_nat (st_queued_at tx) @ '':''
        @ show_nat (st_submitted_at tx), st_nonce tx)"

definition to_legacy_redis_string_with_nonce :: "SubmittedTransactionDehydrated \<Rightarrow> string \<times> nat" where
  "to_legacy_redis_string_with_nonce tx =
     (st_transaction_hash tx @ '':'' @ st_transaction_id tx @ '':'' @ show_nat (st_queued_at tx), st_nonce tx)"

definition parse_member :: "string \<times> nat \<Rightarrow> SubmittedTransactionDehydrated option" where
  "parse_member tx =
     (case split_on (CHR '':'') (fst tx) of
        [h, i, q] \<Rightarrow>
          (case parse_unsigned u64_max q of
             Some queued_at \<Rightarrow>
               Some \<lparr>st_nonce = snd tx, st_transaction_hash = h, st_transaction_id = i,
                     st_submitted_at = 0, st_queued_at = queued_at\<rparr>
           | None \<Rightarrow> None)
      | [h, i, q, sub] \<Rightarrow>
          (case (parse_unsigned u64_max q, parse_unsigned u64_max sub) of
             (Some queued_at, Some submitted_at) \<Rightarrow>
               Some \<lparr>st_nonce = snd tx, st_transaction_hash = h, st_transaction_id = i,
                     st_submitted_at = submitted_at, st_queued_at = queued_at\<rparr>
           | _ \<Rightarrow> None)
      | _ \<Rightarrow> None)"

definition from_redis_strings :: "(string \<times> nat) list \<Rightarrow> SubmittedTransactionDehydrated list" where
  "from_redis_strings redis_strings = List.map_filter parse_member redis_strings"

fun hydrated_hash :: "('a, 'c) SubmittedTransactionHydrated \<Rightarrow> string" where
  "hydrated_hash (Noop tx) = nt_transaction_hash tx"
| "hydrated_hash (Real tx) = st_transaction_hash (sx_data tx)"

fun hydrated_nonce :: "('a, 'c) SubmittedTransactionHydrated \<Rightarrow> nat" where
  "hydrated_nonce (Noop tx) = nt_nonce tx"
| "hydrated_nonce (Real tx) = st_nonce (sx_data tx)"

fun hydrated_id :: "('a, 'c) SubmittedTransactionHydrated \<Rightarrow> tx_id" where
  "hydrated_id (Noop tx) = NO_OP_TRANSACTION_ID"
| "hydrated_id (Real tx) = st_transaction_id (sx_data tx)"

fun hydrated_to_redis :: "('a, 'c) SubmittedTransactionHydrated \<Rightarrow> string \<times> nat" where
  "hydrated_to_redis (Noop tx) = noop_to_redis_string_with_nonce tx"
| "hydrated_to_redis (Real tx) = to_redis_string_with_nonce (sx_data tx)"

fun hydrated_to_legacy :: "('a, 'c) SubmittedTransactionHydrated \<Rightarrow> string \<times> nat" where
  "hydrated_to_legacy (Noop tx) = noop_to_legacy_redis_string_with_nonce tx"
| "hydrated_to_legacy (Real tx) = to_legacy_redis_string_with_nonce (sx_data tx)"

definition submitted_of_borrowed ::
  "('tx, 'a, 'c) eoa_codec \<Rightarrow> nat \<Rightarrow> 'tx BorrowedTransactionData \<Rightarrow> SubmittedTransactionDehydrated" where
  "submitted_of_borrowed c now d =
     \<lparr>st_nonce = tx_nonce c (bd_signed_transaction d),
      st_transaction_hash = tx_hash c (bd_signed_transaction d),
      st_transaction_id = bd_transaction_id d, st_submitted_at = now, st_queued_at = bd_queued_at d\<rparr>"

definition submitted_transaction_of_borrowed ::
  "('tx, 'a, 'c) eoa_codec \<Rightarrow> nat \<Rightarrow> ('tx, 'a, 'c) BorrowedTransaction \<Rightarrow> ('a, 'c) SubmittedTransaction" where
  "submitted_transaction_of_borrowed c now b =
     \<lparr>sx_data = submitted_of_borrowed c now (bt_data b), sx_user_request = bt_user_request b\<rparr>"

subsection \<open>The keys of one account\<close>

text \<open>The hash of a transaction id; \<open>td_ttl\<close> is a pending expiry.\<close>

record tx_data =
  td_user_request :: "string option"
  td_status :: "string option"
  td_created_at :: "nat option"
  td_completed_at :: "nat option"
  td_failure_reason :: "string option"
  td_receipt :: "string option"
  td_finality :: "string option"
  td_ttl :: "nat option"

definition empty_tx_data :: tx_data where
  "empty_tx_data = \<lparr>td_user_request = None, td_status = None, td_created_at = None, td_completed_at = None,
     td_failure_reason = None, td_receipt = None, td_finality = None, td_ttl = None\<rparr>"

text \<open>
  The keys a worker of one account reads and writes. The hashes of transaction ids are shared by all
  accounts of a deployment: \<open>es_tx_data\<close> is the whole of them, and what other accounts write there
  is a step of its own (\<open>foreign\<close> in \<open>eoa_act\<close>). \<open>'e\<close> is the type of queued
  webhook jobs. The recycled set holds nonces with their scores, every
  other sorted set and hash is an association list; a missing transaction hash is \<open>None\<close>.
\<close>

record 'e eoa_store =
  es_lock :: "string option"
  es_tx_data :: "tx_id \<Rightarrow> tx_data option"
  es_attempts :: "tx_id \<Rightarrow> string list"
  es_attempts_ttl :: "tx_id \<Rightarrow> nat option"
  es_pending :: "(tx_id \<times> nat) list"
  es_submitted :: "(string \<times> nat) list"
  es_hash_to_id :: "string \<Rightarrow> tx_id option"
  es_borrowed :: "(tx_id \<times> string) list"
  es_recycled :: "(nat \<times> nat) list"
  es_optimistic :: "nat option"
  es_last_count :: "nat option"
  es_health :: "string option"
  es_manual_reset :: "nat option"
  es_gap_replay :: "string option"
  es_webhooks :: "'e list"

definition zrange_recycled :: "(nat \<times> nat) list \<Rightarrow> nat list" where
  "zrange_recycled z = map fst (sort_key (\<lambda>(m, sc). (sc, show_nat m)) z)"

definition zrange_slice :: "nat \<Rightarrow> nat \<Rightarrow> (string \<times> nat) list \<Rightarrow> (string \<times> nat) list" where
  "zrange_slice start n z = take n (drop start (zrange z))"

definition zrangebyscore_rows :: "nat \<Rightarrow> nat \<Rightarrow> (string \<times> nat) list \<Rightarrow> (string \<times> nat) list" where
  "zrangebyscore_rows lo hi z = zrange (filter (\<lambda>(m, sc). lo \<le> sc \<and> sc \<le> hi) z)"

subsection \<open>Reads\<close>

definition from_json :: "'b option \<Rightarrow> (TransactionStoreError, 'b) result" where
  "from_json r = (case r of None \<Rightarrow> Inl (DeserError ''serde_json'') | Some x \<Rightarrow> Inr x)"

definition nonce_sync_required_error :: TransactionStoreError where
  "nonce_sync_required_error = NonceSyncRequired"

definition peek_borrowed_transactions ::
  "('tx, 'a, 'c) eoa_codec \<Rightarrow> 'e eoa_store \<Rightarrow> (TransactionStoreError, 'tx BorrowedTransactionData list) result" where
  "peek_borrowed_transactions c s =
     collect (map (\<lambda>(transaction_id, json). from_json (borrowed_of_json c json)) (es_borrowed s))"

definition get_submitted_transactions_below_chain_transaction_count ::
  "nat \<Rightarrow> 'e eoa_store \<Rightarrow> SubmittedTransactionDehydrated list" where
  "get_submitted_transactions_below_chain_transaction_count n_txs s =
     (if n_txs = 0 then [] else from_redis_strings (zrangebyscore_rows 0 (n_txs - 1) (es_submitted s)))"

text \<open>The rank page of the receipt scan; the script's \<open>ZCOUNT -inf (n_txs\<close> is the rows below \<open>n_txs\<close>.\<close>

definition submitted_page_script :: "nat \<Rightarrow> nat \<Rightarrow> nat \<Rightarrow> (string \<times> nat) list \<Rightarrow> (string \<times> nat) list \<times> nat" where
  "submitted_page_script n_txs offset limit z =
     (let eligible = length (filter (\<lambda>(m, sc). sc < n_txs) z) in
      if eligible = 0 then ([], 0)
      else
        let start = offset mod eligible;
            n = min limit eligible;
            head = min n (eligible - start);
            rows = zrange_slice start head z;
            rows = (if head < n then rows @ zrange_slice 0 (n - head) z else rows)
        in (rows, (start + n) mod eligible))"

definition get_submitted_transaction_page ::
  "nat \<Rightarrow> nat \<Rightarrow> nat \<Rightarrow> 'e eoa_store \<Rightarrow> SubmittedTransactionDehydrated list \<times> nat" where
  "get_submitted_transaction_page n_txs offset limit s =
     (if n_txs = 0 \<or> limit = 0 then ([], 0)
      else
        let limit = min limit 4096;
            offset = (if offset \<le> 2 ^ 53 - 1 then offset else 0);
            (rows, next) = submitted_page_script n_txs offset limit (es_submitted s)
        in (from_redis_strings rows, next))"

definition get_submitted_transactions_for_nonce :: "nat \<Rightarrow> 'e eoa_store \<Rightarrow> SubmittedTransactionDehydrated list" where
  "get_submitted_transactions_for_nonce nonce s =
     from_redis_strings (zrangebyscore_rows nonce nonce (es_submitted s))"

definition get_eoa_health ::
  "('tx, 'a, 'c) eoa_codec \<Rightarrow> 'e eoa_store \<Rightarrow> (TransactionStoreError, EoaHealth option) result" where
  "get_eoa_health c s =
     (case es_health s of
        None \<Rightarrow> Inr None
      | Some json \<Rightarrow> (case from_json (health_of_json c json) of Inl e \<Rightarrow> Inl e | Inr health \<Rightarrow> Inr (Some health)))"

record EoaExecutorCounts =
  pending_transactions :: nat
  submitted_transactions :: nat
  borrowed_transactions :: nat
  recycled_nonces :: nat

definition get_all_counts :: "'e eoa_store \<Rightarrow> EoaExecutorCounts" where
  "get_all_counts s =
     \<lparr>pending_transactions = length (es_pending s), submitted_transactions = length (es_submitted s),
      borrowed_transactions = length (es_borrowed s), recycled_nonces = length (es_recycled s)\<rparr>"

text \<open>
  Hydration of pending ids: the requests are read first; a request that does not parse ends the
  read with an error before anything is deleted; ids without data are removed.
\<close>

definition user_request_of :: "tx_id \<Rightarrow> 'e eoa_store \<Rightarrow> string option" where
  "user_request_of transaction_id s = Option.bind (es_tx_data s transaction_id) td_user_request"

definition hydrate_pending_transactions ::
  "('tx, 'a, 'c) eoa_codec \<Rightarrow> (tx_id \<times> nat) list \<Rightarrow> 'e eoa_store
     \<Rightarrow> (TransactionStoreError, ('a, 'c) PendingTransaction list) result \<times> 'e eoa_store" where
  "hydrate_pending_transactions c transaction_ids s =
     (let found = filter (\<lambda>(i, q). user_request_of i s \<noteq> None) transaction_ids;
          missing = filter (\<lambda>(i, q). user_request_of i s = None) transaction_ids
      in case collect (map (\<lambda>(i, q). case from_json (request_of_json c (the (user_request_of i s))) of
                              Inl e \<Rightarrow> Inl e
                            | Inr rq \<Rightarrow> Inr \<lparr>pt_transaction_id = i, pt_queued_at = q, pt_user_request = rq\<rparr>) found) of
           Inl e \<Rightarrow> (Inl e, s)
         | Inr pending \<Rightarrow> (Inr pending, s\<lparr>es_pending := fold (\<lambda>(i, q). zrem i) missing (es_pending s)\<rparr>))"

definition peek_pending_transactions_older_than ::
  "('tx, 'a, 'c) eoa_codec \<Rightarrow> nat \<Rightarrow> nat \<Rightarrow> 'e eoa_store
     \<Rightarrow> (TransactionStoreError, ('a, 'c) PendingTransaction list) result \<times> 'e eoa_store" where
  "peek_pending_transactions_older_than c older_than_unix_ms limit s =
     (if limit = 0 then (Inr [], s)
      else hydrate_pending_transactions c
             (take limit (zrange (filter (\<lambda>(i, q). q < older_than_unix_ms) (es_pending s)))) s)"

definition peek_pending_transactions_paginated ::
  "('tx, 'a, 'c) eoa_codec \<Rightarrow> nat \<Rightarrow> nat \<Rightarrow> 'e eoa_store
     \<Rightarrow> (TransactionStoreError, ('a, 'c) PendingTransaction list) result \<times> 'e eoa_store" where
  "peek_pending_transactions_paginated c offset limit s =
     (if limit = 0 then (Inr [], s) else hydrate_pending_transactions c (zrange_slice offset limit (es_pending s)) s)"

definition peek_pending_transactions ::
  "('tx, 'a, 'c) eoa_codec \<Rightarrow> nat \<Rightarrow> 'e eoa_store
     \<Rightarrow> (TransactionStoreError, ('a, 'c) PendingTransaction list) result \<times> 'e eoa_store" where
  "peek_pending_transactions c limit s = peek_pending_transactions_paginated c 0 limit s"

definition get_optimistic_transaction_count :: "'e eoa_store \<Rightarrow> (TransactionStoreError, nat) result" where
  "get_optimistic_transaction_count s =
     (case es_optimistic s of Some nonce \<Rightarrow> Inr nonce | None \<Rightarrow> Inl nonce_sync_required_error)"

definition peek_pending_transactions_with_optimistic_nonce ::
  "('tx, 'a, 'c) eoa_codec \<Rightarrow> nat \<Rightarrow> 'e eoa_store
     \<Rightarrow> (TransactionStoreError, ('a, 'c) PendingTransaction list \<times> nat) result \<times> 'e eoa_store" where
  "peek_pending_transactions_with_optimistic_nonce c limit s =
     (if limit = 0 then
        (case get_optimistic_transaction_count s of
           Inl e \<Rightarrow> (Inl e, s) | Inr optimistic \<Rightarrow> (Inr ([], optimistic), s))
      else case es_optimistic s of
        None \<Rightarrow> (Inl nonce_sync_required_error, s)
      | Some optimistic \<Rightarrow>
          (case hydrate_pending_transactions c (zrange_slice 0 limit (es_pending s)) s of
             (Inl e, s) \<Rightarrow> (Inl e, s)
           | (Inr pending, s) \<Rightarrow> (Inr (pending, optimistic), s)))"

definition get_inflight_budget :: "nat \<Rightarrow> 'e eoa_store \<Rightarrow> (TransactionStoreError, nat) result" where
  "get_inflight_budget max_inflight s =
     (case es_optimistic s of
        None \<Rightarrow> Inl nonce_sync_required_error
      | Some optimistic \<Rightarrow>
          (case es_last_count s of
             None \<Rightarrow> Inl nonce_sync_required_error
           | Some last_count \<Rightarrow>
               (let current_inflight = optimistic - last_count
                in Inr (min (max_inflight - current_inflight)
                     (MAX_UNFINALIZED_ATTEMPTS
                        - saturating_add u64_max (length (es_submitted s)) (length (es_borrowed s)))))))"

definition get_transaction_id_for_hash :: "string \<Rightarrow> 'e eoa_store \<Rightarrow> tx_id option" where
  "get_transaction_id_for_hash h s = es_hash_to_id s h"

definition get_cached_transaction_count :: "'e eoa_store \<Rightarrow> (TransactionStoreError, nat) result" where
  "get_cached_transaction_count s =
     (case es_last_count s of Some n_txs \<Rightarrow> Inr n_txs | None \<Rightarrow> Inl nonce_sync_required_error)"

record ('tx, 'a, 'c) TransactionData =
  tn_transaction_id :: tx_id
  tn_user_request :: "('a, 'c) EoaTransactionRequest"
  tn_receipt :: "string option"
  tn_attempts :: "'tx TransactionAttempt list"
  tn_created_at :: nat

definition get_transaction_data ::
  "('tx, 'a, 'c) eoa_codec \<Rightarrow> tx_id \<Rightarrow> 'e eoa_store
     \<Rightarrow> (TransactionStoreError, ('tx, 'a, 'c) TransactionData option) result" where
  "get_transaction_data c transaction_id s =
     (case es_tx_data s transaction_id of
        None \<Rightarrow> Inr None
      | Some hash_data \<Rightarrow>
          (case td_user_request hash_data of
             None \<Rightarrow> Inl (TransactionNotFound transaction_id)
           | Some user_request_json \<Rightarrow>
               (case from_json (request_of_json c user_request_json) of
                  Inl e \<Rightarrow> Inl e
                | Inr user_request \<Rightarrow>
                    (case td_created_at hash_data of
                       None \<Rightarrow> Inl (TransactionNotFound transaction_id)
                     | Some created_at \<Rightarrow>
                         Inr (Some \<lparr>tn_transaction_id = transaction_id, tn_user_request = user_request,
                            tn_receipt = Option.bind (td_receipt hash_data)
                                           (\<lambda>r. if receipt_parses c r then Some r else None),
                            tn_attempts = List.map_filter (attempt_of_json c) (es_attempts s transaction_id),
                            tn_created_at = created_at\<rparr>)))))"

definition get_highest_submitted_nonce_tranasactions :: "'e eoa_store \<Rightarrow> SubmittedTransactionDehydrated list" where
  "get_highest_submitted_nonce_tranasactions s =
     (let rows = zrange (es_submitted s) in from_redis_strings (drop (length rows - 1) rows))"

definition get_recycled_nonces :: "'e eoa_store \<Rightarrow> nat list" where
  "get_recycled_nonces s = zrange_recycled (es_recycled s)"

definition get_all_submitted_transactions :: "'e eoa_store \<Rightarrow> SubmittedTransactionDehydrated list" where
  "get_all_submitted_transactions s = from_redis_strings (zrange (es_submitted s))"

definition get_transaction_attempts ::
  "('tx, 'a, 'c) eoa_codec \<Rightarrow> tx_id \<Rightarrow> 'e eoa_store \<Rightarrow> (TransactionStoreError, 'tx TransactionAttempt list) result" where
  "get_transaction_attempts c transaction_id s =
     collect (map (\<lambda>j. from_json (attempt_of_json c j)) (es_attempts s transaction_id))"

definition is_manual_reset_scheduled :: "'e eoa_store \<Rightarrow> bool" where
  "is_manual_reset_scheduled s \<longleftrightarrow> es_manual_reset s \<noteq> None"

subsection \<open>Hydration\<close>

definition hydrate_all ::
  "('tx, 'a, 'c) eoa_codec \<Rightarrow> 'tx BorrowedTransactionData list \<Rightarrow> 'e eoa_store
     \<Rightarrow> (TransactionStoreError, ('tx, 'a, 'c) BorrowedTransaction list) result \<times> 'e eoa_store" where
  "hydrate_all c dehydrated s =
     (let found = filter (\<lambda>d. user_request_of (bd_transaction_id d) s \<noteq> None) dehydrated;
          missing = filter (\<lambda>d. user_request_of (bd_transaction_id d) s = None) dehydrated
      in case collect (map (\<lambda>d. case from_json (request_of_json c (the (user_request_of (bd_transaction_id d) s))) of
                              Inl e \<Rightarrow> Inl e
                            | Inr rq \<Rightarrow> Inr \<lparr>bt_data = d, bt_user_request = rq\<rparr>) found) of
           Inl e \<Rightarrow> (Inl e, s)
         | Inr hydrated \<Rightarrow>
             (Inr hydrated,
              s\<lparr>es_pending := fold (\<lambda>d. zrem (bd_transaction_id d)) missing (es_pending s),
                es_borrowed := fold (\<lambda>d. hdel (bd_transaction_id d)) missing (es_borrowed s)\<rparr>))"

definition hydrate_submitted ::
  "tx_id \<Rightarrow> ('a, 'c) EoaTransactionRequest option \<Rightarrow> SubmittedTransactionDehydrated
     \<Rightarrow> (TransactionStoreError, ('a, 'c) SubmittedTransactionHydrated) result" where
  "hydrate_submitted noop_id request d =
     (if st_transaction_id d = noop_id
      then Inr (Noop \<lparr>nt_nonce = st_nonce d, nt_transaction_hash = st_transaction_hash d\<rparr>)
      else case request of
        None \<Rightarrow> Inl (TransactionNotFound (st_transaction_id d))
      | Some rq \<Rightarrow> Inr (Real \<lparr>sx_data = d, sx_user_request = rq\<rparr>))"

text \<open>
  \<open>hydrate_all_submitted\<close> collects the requests of all ids that are not the no-op id into a map
  keyed by the id inside the request; a missing hash field is a conversion error.
\<close>

definition hydrate_all_submitted ::
  "('tx, 'a, 'c) eoa_codec \<Rightarrow> SubmittedTransactionDehydrated list \<Rightarrow> 'e eoa_store
     \<Rightarrow> (TransactionStoreError, ('a, 'c) SubmittedTransactionHydrated list) result" where
  "hydrate_all_submitted c dehydrated s =
     (let ids = filter (\<lambda>i. i \<noteq> NO_OP_TRANSACTION_ID) (map st_transaction_id dehydrated)
      in case collect (map (\<lambda>i. case user_request_of i s of
                                 None \<Rightarrow> Inl (RedisError ''nil user_request'')
                               | Some json \<Rightarrow> Inr json) ids) of
           Inl e \<Rightarrow> Inl e
         | Inr results \<Rightarrow>
             (case collect (map (\<lambda>json. from_json (request_of_json c json)) results) of
                Inl e \<Rightarrow> Inl e
              | Inr requests \<Rightarrow>
                  (let id_to_eoa_request = map_of (rev (map (\<lambda>rq. (rq_transaction_id rq, rq)) requests))
                   in collect (map (\<lambda>d. hydrate_submitted NO_OP_TRANSACTION_ID
                                         (id_to_eoa_request (st_transaction_id d)) d) dehydrated))))"

subsection \<open>Writes that do not need the lock\<close>

definition add_transaction_script ::
  "tx_id \<Rightarrow> string \<Rightarrow> nat \<Rightarrow> nat \<Rightarrow> 'e eoa_store \<Rightarrow> int \<times> 'e eoa_store" where
  "add_transaction_script transaction_id user_request_json now limit s =
     (case user_request_of transaction_id s of
        Some existing \<Rightarrow> (if existing = user_request_json then 0 else - 1, s)
      | None \<Rightarrow>
          (if es_tx_data s transaction_id \<noteq> None then (- 1, s)
           else if limit \<le> length (es_pending s) then (- 2, s)
           else (1, s\<lparr>es_tx_data := (es_tx_data s)(transaction_id \<mapsto> empty_tx_data
                          \<lparr>td_user_request := Some user_request_json, td_status := Some ''pending'',
                           td_created_at := Some now\<rparr>),
                      es_pending := zadd transaction_id now (es_pending s)\<rparr>)))"

definition add_transaction ::
  "('tx, 'a, 'c) eoa_codec \<Rightarrow> nat \<Rightarrow> ('a, 'c) EoaTransactionRequest \<Rightarrow> 'e eoa_store
     \<Rightarrow> (TransactionStoreError, unit) result \<times> 'e eoa_store" where
  "add_transaction c now request s =
     (case from_json (request_to_json c request) of
        Inl e \<Rightarrow> (Inl e, s)
      | Inr json \<Rightarrow>
          (case add_transaction_script (rq_transaction_id request) json now MAX_PENDING_TRANSACTIONS s of
             (outcome, s) \<Rightarrow>
               (if outcome = - 2 then Inl CapacityExceeded
                else if outcome = - 1 then Inl (TransactionConflict (rq_transaction_id request))
                else Inr (), s)))"

definition check_admission_capacity :: "tx_id \<Rightarrow> 'e eoa_store \<Rightarrow> (TransactionStoreError, unit) result" where
  "check_admission_capacity transaction_id s =
     (if es_tx_data s transaction_id = None \<and> MAX_PENDING_TRANSACTIONS \<le> length (es_pending s)
      then Inl CapacityExceeded else Inr ())"

definition schedule_manual_reset :: "nat \<Rightarrow> 'e eoa_store \<Rightarrow> 'e eoa_store" where
  "schedule_manual_reset now s = s\<lparr>es_manual_reset := Some now\<rparr>"

text \<open>
  \<open>acquire_eoa_lock_aggressively\<close> sets the lock if it is free and otherwise overwrites it: it ends
  with the worker as owner in both cases.
\<close>

definition acquire_eoa_lock_aggressively :: "string \<Rightarrow> 'e eoa_store \<Rightarrow> 'e eoa_store" where
  "acquire_eoa_lock_aggressively worker_id s =
     (if es_lock s = None then s\<lparr>es_lock := Some worker_id\<rparr>
      else s\<lparr>es_lock := Some worker_id\<rparr>)"

end
