(* ===== verification/Eoa_Atomic.thy ===== *)
theory Eoa_Atomic
  imports Eoa_Store Finality
begin

text \<open>
  The lock-protected operations of the EOA store
  (\<open>executors/src/eoa/store/atomic.rs\<close>, \<open>pending.rs\<close>, \<open>borrowed.rs\<close>, \<open>submitted.rs\<close>) and the
  webhook envelopes they queue (\<open>executors/src/eoa/events.rs\<close>). A pipeline is a list of commands;
  each operation is a \<open>SafeRedisTransaction\<close>: the keys it watches, the validation that reads the
  store, and the commands it builds. \<open>execute_with_watch_and_retry\<close> runs one against an
  environment that says what other clients and the connection do during each attempt.
\<close>

subsection \<open>Webhook envelopes\<close>

datatype StageEvent = SuccessEvent | NackEvent | FailureEvent

datatype EoaExecutorStage = Send | Confirmation

fun stage_name :: "EoaExecutorStage \<Rightarrow> string" where
  "stage_name Send = ''send''"
| "stage_name Confirmation = ''confirm''"

definition EXECUTOR_NAME :: string where
  "EXECUTOR_NAME = ''eoa''"

record ConfirmedTransaction =
  ct_nonce :: nat
  ct_transaction_hash :: string
  ct_transaction_id :: tx_id
  ct_receipt :: "string receipt"
  ct_receipt_serialized :: string
  ct_finality :: "string FinalityEvidence"

record EoaExecutorConfirmedTransaction =
  ec_receipt :: "string receipt"
  ec_finality :: "string FinalityEvidence option"
  ec_eoa_address :: address
  ec_transaction_id :: tx_id
  ec_transaction_hash :: string

datatype eoa_payload =
    SendAttemptSuccess SubmittedTransactionDehydrated address
  | SendAttemptNack nat string nat
  | TransactionReplaced nat string
  | TransactionConfirmed EoaExecutorConfirmedTransaction
  | TransactionReverted EoaExecutorConfirmedTransaction
  | TransactionFailed string nat

record envelope =
  ev_transaction_id :: tx_id
  ev_executor_name :: string
  ev_stage_name :: string
  ev_event_type :: StageEvent
  ev_payload :: eoa_payload

definition eoa_envelope :: "tx_id \<Rightarrow> EoaExecutorStage \<Rightarrow> StageEvent \<Rightarrow> eoa_payload \<Rightarrow> envelope" where
  "eoa_envelope transaction_id stage event payload =
     \<lparr>ev_transaction_id = transaction_id, ev_executor_name = EXECUTOR_NAME,
      ev_stage_name = stage_name stage, ev_event_type = event, ev_payload = payload\<rparr>"

definition send_attempt_success_envelope :: "tx_id \<Rightarrow> address \<Rightarrow> SubmittedTransactionDehydrated \<Rightarrow> envelope" where
  "send_attempt_success_envelope i address tx = eoa_envelope i Send SuccessEvent (SendAttemptSuccess tx address)"

definition send_attempt_nack_envelope :: "tx_id \<Rightarrow> nat \<Rightarrow> string \<Rightarrow> nat \<Rightarrow> envelope" where
  "send_attempt_nack_envelope i nonce error attempt_number =
     eoa_envelope i Send NackEvent (SendAttemptNack nonce error attempt_number)"

definition transaction_replaced_envelope :: "tx_id \<Rightarrow> SubmittedTransactionDehydrated \<Rightarrow> envelope" where
  "transaction_replaced_envelope i tx =
     eoa_envelope i Confirmation NackEvent (TransactionReplaced (st_nonce tx) (st_transaction_hash tx))"

definition confirmed_payload :: "tx_id \<Rightarrow> address \<Rightarrow> ConfirmedTransaction \<Rightarrow> EoaExecutorConfirmedTransaction" where
  "confirmed_payload i address tx =
     \<lparr>ec_receipt = ct_receipt tx, ec_finality = Some (ct_finality tx), ec_eoa_address = address,
      ec_transaction_id = i, ec_transaction_hash = ct_transaction_hash tx\<rparr>"

definition transaction_confirmed_envelope :: "tx_id \<Rightarrow> address \<Rightarrow> ConfirmedTransaction \<Rightarrow> envelope" where
  "transaction_confirmed_envelope i address tx =
     eoa_envelope i Confirmation SuccessEvent (TransactionConfirmed (confirmed_payload i address tx))"

definition transaction_reverted_envelope :: "tx_id \<Rightarrow> address \<Rightarrow> ConfirmedTransaction \<Rightarrow> envelope" where
  "transaction_reverted_envelope i address tx =
     eoa_envelope i Confirmation FailureEvent (TransactionReverted (confirmed_payload i address tx))"

definition transaction_failed_envelope :: "tx_id \<Rightarrow> string \<Rightarrow> nat \<Rightarrow> envelope" where
  "transaction_failed_envelope i error final_attempt_number =
     eoa_envelope i Send FailureEvent (TransactionFailed error final_attempt_number)"

type_synonym webhook_job = "envelope \<times> WebhookOptions"
type_synonym estore = "webhook_job eoa_store"

subsection \<open>Commands and pipelines\<close>

datatype data_field =
    Status string
  | CompletedAt nat
  | FailureReason string
  | Receipt string
  | FinalityField string

datatype eoa_cmd =
    ZremPending "tx_id list"
  | ZaddPending "(nat \<times> tx_id) list"
  | HsetBorrowed tx_id string
  | HdelBorrowed tx_id
  | ZaddSubmitted "(nat \<times> string) list"
  | ZremSubmitted string
  | ZremRecycled "nat list"
  | ZrembyscoreRecycled nat
  | DelRecycled
  | SetOptimistic nat
  | SetLastCount nat
  | SetHealth string
  | SetGapReplay string
  | DelGapReplay
  | DelManualReset
  | DelLock
  | SetHashToId string tx_id
  | DelHashToId string
  | HsetData tx_id data_field
  | ExpireData tx_id nat
  | ExpireAttempts tx_id nat
  | LpushAttempt tx_id string
  | QueueWebhook webhook_job

fun set_field :: "data_field \<Rightarrow> tx_data \<Rightarrow> tx_data" where
  "set_field (Status x) d = d\<lparr>td_status := Some x\<rparr>"
| "set_field (CompletedAt x) d = d\<lparr>td_completed_at := Some x\<rparr>"
| "set_field (FailureReason x) d = d\<lparr>td_failure_reason := Some x\<rparr>"
| "set_field (Receipt x) d = d\<lparr>td_receipt := Some x\<rparr>"
| "set_field (FinalityField x) d = d\<lparr>td_finality := Some x\<rparr>"

definition hset_data :: "tx_id \<Rightarrow> data_field \<Rightarrow> estore \<Rightarrow> estore" where
  "hset_data i f s = s\<lparr>es_tx_data := (es_tx_data s)(i \<mapsto>
     set_field f (case es_tx_data s i of None \<Rightarrow> empty_tx_data | Some d \<Rightarrow> d))\<rparr>"

fun exec_cmd :: "eoa_cmd \<Rightarrow> estore \<Rightarrow> estore" where
  "exec_cmd (ZremPending is) s = s\<lparr>es_pending := fold zrem is (es_pending s)\<rparr>"
| "exec_cmd (ZaddPending xs) s = s\<lparr>es_pending := fold (\<lambda>(q, i). zadd i q) xs (es_pending s)\<rparr>"
| "exec_cmd (HsetBorrowed i j) s = s\<lparr>es_borrowed := hset i j (es_borrowed s)\<rparr>"
| "exec_cmd (HdelBorrowed i) s = s\<lparr>es_borrowed := hdel i (es_borrowed s)\<rparr>"
| "exec_cmd (ZaddSubmitted xs) s = s\<lparr>es_submitted := fold (\<lambda>(n, m). zadd m n) xs (es_submitted s)\<rparr>"
| "exec_cmd (ZremSubmitted m) s = s\<lparr>es_submitted := zrem m (es_submitted s)\<rparr>"
| "exec_cmd (ZremRecycled ns) s = s\<lparr>es_recycled := fold zrem ns (es_recycled s)\<rparr>"
| "exec_cmd (ZrembyscoreRecycled n) s = s\<lparr>es_recycled := filter (\<lambda>(m, sc). sc < n) (es_recycled s)\<rparr>"
| "exec_cmd DelRecycled s = s\<lparr>es_recycled := []\<rparr>"
| "exec_cmd (SetOptimistic n) s = s\<lparr>es_optimistic := Some n\<rparr>"
| "exec_cmd (SetLastCount n) s = s\<lparr>es_last_count := Some n\<rparr>"
| "exec_cmd (SetHealth j) s = s\<lparr>es_health := Some j\<rparr>"
| "exec_cmd (SetGapReplay j) s = s\<lparr>es_gap_replay := Some j\<rparr>"
| "exec_cmd DelGapReplay s = s\<lparr>es_gap_replay := None\<rparr>"
| "exec_cmd DelManualReset s = s\<lparr>es_manual_reset := None\<rparr>"
| "exec_cmd DelLock s = s\<lparr>es_lock := None\<rparr>"
| "exec_cmd (SetHashToId h i) s = s\<lparr>es_hash_to_id := (es_hash_to_id s)(h \<mapsto> i)\<rparr>"
| "exec_cmd (DelHashToId h) s = s\<lparr>es_hash_to_id := (es_hash_to_id s)(h := None)\<rparr>"
| "exec_cmd (HsetData i f) s = hset_data i f s"
| "exec_cmd (ExpireData i ttl) s =
     s\<lparr>es_tx_data := (es_tx_data s)(i := map_option (\<lambda>d. d\<lparr>td_ttl := Some ttl\<rparr>) (es_tx_data s i))\<rparr>"
| "exec_cmd (ExpireAttempts i ttl) s =
     (if es_attempts s i = [] then s else s\<lparr>es_attempts_ttl := (es_attempts_ttl s)(i \<mapsto> ttl)\<rparr>)"
| "exec_cmd (LpushAttempt i j) s = s\<lparr>es_attempts := (es_attempts s)(i := lpush j (es_attempts s i))\<rparr>"
| "exec_cmd (QueueWebhook w) s = s\<lparr>es_webhooks := es_webhooks s @ [w]\<rparr>"

definition exec_pipeline :: "eoa_cmd list \<Rightarrow> estore \<Rightarrow> estore" where
  "exec_pipeline cmds = fold exec_cmd cmds"

text \<open>Redis refuses a transaction that contains a variadic command without members.\<close>

fun cmd_ok :: "eoa_cmd \<Rightarrow> bool" where
  "cmd_ok (ZremPending is) \<longleftrightarrow> is \<noteq> []"
| "cmd_ok (ZaddPending xs) \<longleftrightarrow> xs \<noteq> []"
| "cmd_ok (ZaddSubmitted xs) \<longleftrightarrow> xs \<noteq> []"
| "cmd_ok (ZremRecycled ns) \<longleftrightarrow> ns \<noteq> []"
| "cmd_ok _ \<longleftrightarrow> True"

subsection \<open>Watched transactions\<close>

datatype eoa_key =
    LockKey | PendingKey | SubmittedKey | BorrowedKey | RecycledKey
  | OptimisticKey | LastCountKey | HealthKey | ManualResetKey

fun same_key :: "eoa_key \<Rightarrow> estore \<Rightarrow> estore \<Rightarrow> bool" where
  "same_key LockKey s t \<longleftrightarrow> es_lock s = es_lock t"
| "same_key PendingKey s t \<longleftrightarrow> es_pending s = es_pending t"
| "same_key SubmittedKey s t \<longleftrightarrow> es_submitted s = es_submitted t"
| "same_key BorrowedKey s t \<longleftrightarrow> es_borrowed s = es_borrowed t"
| "same_key RecycledKey s t \<longleftrightarrow> es_recycled s = es_recycled t"
| "same_key OptimisticKey s t \<longleftrightarrow> es_optimistic s = es_optimistic t"
| "same_key LastCountKey s t \<longleftrightarrow> es_last_count s = es_last_count t"
| "same_key HealthKey s t \<longleftrightarrow> es_health s = es_health t"
| "same_key ManualResetKey s t \<longleftrightarrow> es_manual_reset s = es_manual_reset t"

record ('v, 'r) SafeRedisTransaction =
  sr_watch_keys :: "eoa_key list"
  sr_validation :: "estore \<Rightarrow> (TransactionStoreError, 'v) result"
  sr_operation :: "'v \<Rightarrow> eoa_cmd list \<times> 'r"

text \<open>
  One attempt: what others write before the owner is read, before the validation reads, before
  EXEC, and between a refused EXEC and the owner read after it; which replies arrive; how EXEC ends.
\<close>

record watch_env =
  we_before_owner :: "estore \<Rightarrow> estore"
  we_before_validation :: "estore \<Rightarrow> estore"
  we_before_exec :: "estore \<Rightarrow> estore"
  we_after_nil :: "estore \<Rightarrow> estore"
  we_watch_ok :: bool
  we_owner_ok :: bool
  we_unwatch_ok :: bool
  we_validation_ok :: bool
  we_recheck_ok :: bool
  we_exec :: exec_reply

definition MAX_RETRIES :: nat where
  "MAX_RETRIES = 10"

definition redis_failed :: "string \<Rightarrow> TransactionStoreError" where
  "redis_failed message = RedisError message"

fun watch_loop ::
  "nat \<Rightarrow> string \<Rightarrow> ('v, 'r) SafeRedisTransaction \<Rightarrow> (nat \<Rightarrow> watch_env) \<Rightarrow> estore
     \<Rightarrow> (TransactionStoreError, 'r) result \<times> estore" where
  "watch_loop 0 worker_id safe_tx env s = (Inl (InternalError ''Exceeded max retries''), s)"
| "watch_loop (Suc n) worker_id safe_tx env s =
     (let e = env n; s1 = we_before_owner e s in
      if \<not> we_watch_ok e then (Inl (redis_failed ''WATCH''), s1)
      else if \<not> we_owner_ok e then (Inl (redis_failed ''GET''), s1)
      else if es_lock s1 \<noteq> Some worker_id
      then (Inl (if we_unwatch_ok e then LockLost worker_id else redis_failed ''UNWATCH''), s1)
      else
        let s2 = we_before_validation e s1 in
        case (if we_validation_ok e then sr_validation safe_tx s2 else Inl (redis_failed ''validation'')) of
          Inl err \<Rightarrow> (Inl (if we_unwatch_ok e then err else redis_failed ''UNWATCH''), s2)
        | Inr validation_data \<Rightarrow>
            (case sr_operation safe_tx validation_data of
               (pipeline, r) \<Rightarrow>
                 let s3 = we_before_exec e s2 in
                 if \<not> list_all cmd_ok pipeline then (Inl (redis_failed ''EXECABORT''), s3)
                 else case we_exec e of
                   ExecCommitted \<Rightarrow> (Inr r, exec_pipeline pipeline s3)
                 | ExecNil \<Rightarrow>
                     (let s4 = we_after_nil e s3 in
                      if \<not> we_recheck_ok e then (Inl (redis_failed ''GET''), s4)
                      else if es_lock s4 \<noteq> Some worker_id then (Inl (LockLost worker_id), s4)
                      else watch_loop n worker_id safe_tx env s4)
                 | ExecError applied \<Rightarrow>
                     (Inl (redis_failed ''EXEC''), if applied then exec_pipeline pipeline s3 else s3)))"

definition execute_with_watch_and_retry ::
  "string \<Rightarrow> ('v, 'r) SafeRedisTransaction \<Rightarrow> (nat \<Rightarrow> watch_env) \<Rightarrow> estore
     \<Rightarrow> (TransactionStoreError, 'r) result \<times> estore" where
  "execute_with_watch_and_retry = watch_loop MAX_RETRIES"

text \<open>\<open>with_lock_check\<close>: the same loop, watching only the lock, with nothing to validate.\<close>

definition lock_checked :: "eoa_cmd list \<Rightarrow> (unit, unit) SafeRedisTransaction" where
  "lock_checked pipeline =
     \<lparr>sr_watch_keys = [], sr_validation = (\<lambda>s. Inr ()), sr_operation = (\<lambda>_. (pipeline, ()))\<rparr>"

definition with_lock_check ::
  "string \<Rightarrow> eoa_cmd list \<Rightarrow> (nat \<Rightarrow> watch_env) \<Rightarrow> estore \<Rightarrow> (TransactionStoreError, unit) result \<times> estore" where
  "with_lock_check worker_id pipeline env s =
     watch_loop MAX_RETRIES worker_id (lock_checked pipeline) env s"

end
