(* ===== verification/Eoa_Ops.thy ===== *)
theory Eoa_Ops
  imports Eoa_Atomic
begin

text \<open>
  The operations an EOA worker performs on its store while it holds the account lock:
  reserving nonces for pending transactions (\<open>pending.rs\<close>), recording the outcome of sends
  (\<open>borrowed.rs\<close>), settling and recycling (\<open>submitted.rs\<close>), and the remaining methods of
  \<open>AtomicEoaExecutorStore\<close> (\<open>atomic.rs\<close>). \<open>cx_envelope_ok\<close> says whether an envelope serializes,
  \<open>cx_ttl_seconds\<close> is \<open>completed_transaction_ttl_seconds\<close>.
\<close>

record ('tx, 'a, 'c) eoa_ctx =
  cx_codec :: "('tx, 'a, 'c) eoa_codec"
  cx_envelope_ok :: "envelope \<Rightarrow> bool"
  cx_finality_json :: "string FinalityEvidence \<Rightarrow> string"
  cx_ttl_seconds :: nat

definition queue_webhook_envelopes ::
  "('tx, 'a, 'c) eoa_ctx \<Rightarrow> envelope \<Rightarrow> WebhookOptions list \<Rightarrow> eoa_cmd list option" where
  "queue_webhook_envelopes cx envelope webhook_options =
     (if webhook_options = [] \<or> cx_envelope_ok cx envelope
      then Some (map (\<lambda>wo. QueueWebhook (envelope, wo)) webhook_options) else None)"

definition queue_or_log ::
  "('tx, 'a, 'c) eoa_ctx \<Rightarrow> envelope \<Rightarrow> WebhookOptions list \<Rightarrow> eoa_cmd list" where
  "queue_or_log cx envelope webhook_options =
     (if webhook_options = [] then []
      else case queue_webhook_envelopes cx envelope webhook_options of None \<Rightarrow> [] | Some cmds \<Rightarrow> cmds)"

subsection \<open>Pending to borrowed\<close>

definition bd_nonce :: "('tx, 'a, 'c) eoa_ctx \<Rightarrow> 'tx BorrowedTransactionData \<Rightarrow> nat" where
  "bd_nonce cx d = tx_nonce (cx_codec cx) (bd_signed_transaction d)"

definition validate_unique_allocations ::
  "('tx, 'a, 'c) eoa_ctx \<Rightarrow> 'tx BorrowedTransactionData list \<Rightarrow> (TransactionStoreError, unit) result" where
  "validate_unique_allocations cx transactions =
     (if distinct (map (bd_nonce cx) transactions) \<and> distinct (map bd_transaction_id transactions) then Inr ()
      else Inl (InternalError ''A nonce allocation batch must contain unique transaction IDs and nonces''))"

fun check_sequential :: "nat \<Rightarrow> nat \<Rightarrow> nat list \<Rightarrow> (TransactionStoreError, unit) result" where
  "check_sequential current i [] = Inr ()"
| "check_sequential current i (nonce # nonces) =
     (case checked_add u64_max current i of
        None \<Rightarrow> Inl (InternalError ''Nonce range overflow'')
      | Some expected_nonce \<Rightarrow>
          (if nonce \<noteq> expected_nonce then Inl (InternalError ''Non-sequential nonces detected'')
           else check_sequential current (Suc i) nonces))"

definition check_pending :: "tx_id list \<Rightarrow> estore \<Rightarrow> (TransactionStoreError, unit) result" where
  "check_pending is s =
     (case find (\<lambda>i. \<not> zmember i (es_pending s)) is of
        Some i \<Rightarrow> Inl (TransactionNotInPendingQueue i) | None \<Rightarrow> Inr ())"

definition serialize_borrowed ::
  "('tx, 'a, 'c) eoa_ctx \<Rightarrow> 'tx BorrowedTransactionData list \<Rightarrow> (TransactionStoreError, string list) result" where
  "serialize_borrowed cx transactions =
     collect (map (\<lambda>tx. case borrowed_to_json (cx_codec cx) tx of
                     None \<Rightarrow> Inl (InternalError ''Failed to serialize borrowed transaction'')
                   | Some j \<Rightarrow> Inr j) transactions)"

definition empty_batch :: TransactionStoreError where
  "empty_batch = InternalError ''Cannot process empty transaction list''"

definition MovePendingToBorrowedWithIncrementedNonces ::
  "('tx, 'a, 'c) eoa_ctx \<Rightarrow> 'tx BorrowedTransactionData list \<Rightarrow> (string list, nat \<times> nat option) SafeRedisTransaction" where
  "MovePendingToBorrowedWithIncrementedNonces cx transactions =
     \<lparr>sr_watch_keys = [OptimisticKey, BorrowedKey, PendingKey],
      sr_validation = (\<lambda>s.
        if transactions = [] then Inl empty_batch
        else bind_result (validate_unique_allocations cx transactions) (\<lambda>_.
          case es_optimistic s of
            None \<Rightarrow> Inl NonceSyncRequired
          | Some current_optimistic_nonce \<Rightarrow>
              (let nonces = sort (map (bd_nonce cx) transactions) in
               bind_result (check_sequential current_optimistic_nonce 0 nonces) (\<lambda>_.
                 if last nonces = u64_max then Inl (InternalError ''Nonce range overflow'')
                 else bind_result (check_pending (map bd_transaction_id transactions) s) (\<lambda>_.
                   serialize_borrowed cx transactions))))),
      sr_operation = (\<lambda>serialized_transactions.
        let new_optimistic_tx_count =
              (if transactions = [] then None else Some (Max (set (map (bd_nonce cx) transactions)) + 1))
        in (concat (map2 (\<lambda>tx j. [ZremPending [bd_transaction_id tx], HsetBorrowed (bd_transaction_id tx) j])
                      transactions serialized_transactions)
            @ (case new_optimistic_tx_count of None \<Rightarrow> [] | Some n \<Rightarrow> [SetOptimistic n]),
            (length transactions, new_optimistic_tx_count)))\<rparr>"

definition MovePendingToBorrowedWithRecycledNonces ::
  "('tx, 'a, 'c) eoa_ctx \<Rightarrow> 'tx BorrowedTransactionData list \<Rightarrow> (string list, nat) SafeRedisTransaction" where
  "MovePendingToBorrowedWithRecycledNonces cx transactions =
     \<lparr>sr_watch_keys = [RecycledKey, BorrowedKey, PendingKey],
      sr_validation = (\<lambda>s.
        if transactions = [] then Inl empty_batch
        else bind_result (validate_unique_allocations cx transactions) (\<lambda>_.
          let recycled = zrange_recycled (es_recycled s) in
          case find (\<lambda>tx. bd_nonce cx tx \<notin> set recycled) transactions of
            Some tx \<Rightarrow> Inl (NonceNotInRecycledSet (bd_nonce cx tx))
          | None \<Rightarrow>
              bind_result (check_pending (map bd_transaction_id transactions) s) (\<lambda>_.
                serialize_borrowed cx transactions))),
      sr_operation = (\<lambda>serialized_transactions.
        (concat (map2 (\<lambda>tx j. [ZremRecycled [bd_nonce cx tx], ZremPending [bd_transaction_id tx],
                              HsetBorrowed (bd_transaction_id tx) j])
                   transactions serialized_transactions),
         length transactions))\<rparr>"

subsection \<open>Outcomes of sends\<close>

datatype SubmissionResultType = SendSuccess | Reconcile | Uncertain

record ('a, 'c) SubmissionResult =
  sub_transaction :: "('a, 'c) SubmittedTransaction"
  sub_result :: SubmissionResultType

definition sub_transaction_id :: "('a, 'c) SubmissionResult \<Rightarrow> tx_id" where
  "sub_transaction_id r = st_transaction_id (sx_data (sub_transaction r))"

definition from_send_result ::
  "('tx, 'a, 'c) eoa_ctx \<Rightarrow> nat \<Rightarrow> ('tx, 'a, 'c) BorrowedTransaction \<Rightarrow> bool \<Rightarrow> ('a, 'c) SubmissionResult" where
  "from_send_result cx now borrowed sent_ok =
     \<lparr>sub_transaction = submitted_transaction_of_borrowed (cx_codec cx) now borrowed,
      sub_result = (if sent_ok then SendSuccess else Uncertain)\<rparr>"

record BorrowedProcessingReport =
  br_total_processed :: nat
  br_moved_to_submitted :: nat
  br_retained_uncertain :: nat
  br_webhook_events_queued :: nat
  br_ignored_not_in_borrowed :: nat

definition send_envelope :: "('a, 'c) SubmissionResult \<Rightarrow> envelope" where
  "send_envelope r = send_attempt_success_envelope (sub_transaction_id r)
     (rq_from (sx_user_request (sub_transaction r))) (sx_data (sub_transaction r))"

definition result_webhooks :: "('tx, 'a, 'c) eoa_ctx \<Rightarrow> ('a, 'c) SubmissionResult \<Rightarrow> eoa_cmd list option" where
  "result_webhooks cx r =
     (let options = rq_webhook_options (sx_user_request (sub_transaction r))
      in if sub_result r = SendSuccess \<and> options \<noteq> []
         then queue_webhook_envelopes cx (send_envelope r) options else None)"

definition result_commands :: "('tx, 'a, 'c) eoa_ctx \<Rightarrow> ('a, 'c) SubmissionResult \<Rightarrow> eoa_cmd list" where
  "result_commands cx r =
     (if sub_result r = Uncertain then []
      else
        let i = sub_transaction_id r;
            tx = sx_data (sub_transaction r);
            (member, nonce) = to_redis_string_with_nonce tx
        in [HdelBorrowed i, ZaddSubmitted [(nonce, member)], SetHashToId (st_transaction_hash tx) i,
            HsetData i (Status ''submitted'')]
           @ (case result_webhooks cx r of None \<Rightarrow> [] | Some cmds \<Rightarrow> cmds))"

definition ProcessBorrowedTransactions ::
  "('tx, 'a, 'c) eoa_ctx \<Rightarrow> ('a, 'c) SubmissionResult list
     \<Rightarrow> (('a, 'c) SubmissionResult list, BorrowedProcessingReport) SafeRedisTransaction" where
  "ProcessBorrowedTransactions cx results =
     \<lparr>sr_watch_keys = [BorrowedKey, RecycledKey],
      sr_validation = (\<lambda>s. Inr (filter (\<lambda>r. hexists (sub_transaction_id r) (es_borrowed s)) results)),
      sr_operation = (\<lambda>valid_results.
        (concat (map (result_commands cx) valid_results),
         \<lparr>br_total_processed = length valid_results,
          br_moved_to_submitted = length (filter (\<lambda>r. sub_result r \<noteq> Uncertain) valid_results),
          br_retained_uncertain = length (filter (\<lambda>r. sub_result r = Uncertain) valid_results),
          br_webhook_events_queued = length (filter (\<lambda>r. result_webhooks cx r \<noteq> None) valid_results),
          br_ignored_not_in_borrowed = length results - length valid_results\<rparr>))\<rparr>"

subsection \<open>Settling submitted transactions\<close>

record TransactionCounts =
  tc_latest :: nat
  tc_preconfirmed :: nat

record CleanupReport =
  cr_total_hashes_processed :: nat
  cr_unique_transaction_ids :: nat
  cr_noop_count :: nat
  cr_moved_to_success :: nat
  cr_moved_to_failed :: nat
  cr_moved_to_pending :: nat
  cr_cross_nonce_violations :: "(tx_id \<times> nat list) list"
  cr_per_nonce_violations :: "(nat \<times> string list) list"
  cr_nonces_without_receipts :: "(nat \<times> string list) list"

definition evidence_matches :: "ConfirmedTransaction \<Rightarrow> bool" where
  "evidence_matches confirmed \<longleftrightarrow>
     rc_transaction_hash (ct_receipt confirmed) = ct_transaction_hash confirmed \<and>
     rc_block_number (ct_receipt confirmed) = Some (fe_block_number (ct_finality confirmed)) \<and>
     rc_block_hash (ct_receipt confirmed) = Some (fe_block_hash (ct_finality confirmed)) \<and>
     fe_block_number (ct_finality confirmed) \<le> fe_checkpoint_number (ct_finality confirmed)"

definition nonce_groups :: "nat list \<Rightarrow> (string \<times> nat) list \<Rightarrow> (TransactionStoreError, (string \<times> nat) list) result" where
  "nonce_groups nonces z =
     (if 4096 < sum_list (map (\<lambda>n. length (filter (\<lambda>(m, sc). sc = n) z)) nonces)
      then Inl (RedisError ''Finality cleanup group budget exceeded'')
      else Inr (concat (map (\<lambda>n. zrangebyscore_rows n n z) nonces)))"

definition remove_from_submitted :: "('a, 'c) SubmittedTransactionHydrated \<Rightarrow> eoa_cmd list" where
  "remove_from_submitted tx =
     [ZremSubmitted (fst (hydrated_to_redis tx)), ZremSubmitted (fst (hydrated_to_legacy tx)),
      DelHashToId (hydrated_hash tx)]"

definition real_txs :: "('a, 'c) SubmittedTransactionHydrated list \<Rightarrow> ('a, 'c) SubmittedTransaction list" where
  "real_txs txs = List.map_filter (\<lambda>tx. case tx of Real r \<Rightarrow> Some r | Noop _ \<Rightarrow> None) txs"

definition detect_violations ::
  "('a, 'c) SubmittedTransactionHydrated list \<Rightarrow> string list
     \<Rightarrow> (tx_id \<times> nat list) list \<times> (nat \<times> string list) list \<times> (nat \<times> string list) list" where
  "detect_violations submitted_txs confirmed_hashes =
     (let reals = map sx_data (real_txs submitted_txs);
          ids = remdups (map st_transaction_id reals);
          nonces = sort (remdups (map st_nonce reals));
          nonces_of = (\<lambda>i. sort (remdups (map st_nonce (filter (\<lambda>t. st_transaction_id t = i) reals))));
          hashes_of = (\<lambda>n. map st_transaction_hash (filter (\<lambda>t. st_nonce t = n) reals))
      in (map (\<lambda>i. (i, nonces_of i)) (filter (\<lambda>i. 1 < length (nonces_of i)) ids),
          map (\<lambda>n. (n, filter (\<lambda>h. h \<in> set confirmed_hashes) (hashes_of n)))
            (filter (\<lambda>n. 1 < length (filter (\<lambda>h. h \<in> set confirmed_hashes) (hashes_of n))) nonces),
          map (\<lambda>n. (n, hashes_of n)) (filter (\<lambda>n. \<forall>h \<in> set (hashes_of n). h \<notin> set confirmed_hashes) nonces)))"

text \<open>alloy coerces a receipt without an execution status (a pre-EIP-658 root) to success.\<close>

definition receipt_status :: "string receipt \<Rightarrow> bool" where
  "receipt_status r \<longleftrightarrow> rc_status r \<noteq> Some False"

text \<open>What the cleanup knows of a batch: the counts, the confirmed ids, the nonces with a receipt.\<close>

record clean_info =
  ci_counts :: TransactionCounts
  ci_confirmed :: "tx_id \<Rightarrow> ConfirmedTransaction option"
  ci_nonces_with_receipts :: "nat list"

definition proven_replaced :: "clean_info \<Rightarrow> nat \<Rightarrow> bool" where
  "proven_replaced ci nonce \<longleftrightarrow> nonce < tc_latest (ci_counts ci) \<and> nonce \<in> set (ci_nonces_with_receipts ci)"

definition settle_commands ::
  "('tx, 'a, 'c) eoa_ctx \<Rightarrow> nat \<Rightarrow> tx_id \<Rightarrow> ConfirmedTransaction \<Rightarrow> ('a, 'c) SubmittedTransactionHydrated \<Rightarrow> eoa_cmd list" where
  "settle_commands cx now i confirmed tx =
     (let succeeded = receipt_status (ct_receipt confirmed)
      in [HsetData i (Status (if succeeded then ''confirmed'' else ''failed''))]
         @ (if succeeded then [] else [HsetData i (FailureReason ''Transaction reverted on-chain'')])
         @ [HsetData i (CompletedAt now), HsetData i (Receipt (ct_receipt_serialized confirmed)),
            HsetData i (FinalityField (cx_finality_json cx (ct_finality confirmed))),
            ExpireData i (cx_ttl_seconds cx), ExpireAttempts i (cx_ttl_seconds cx)]
         @ (case tx of
              Noop _ \<Rightarrow> []
            | Real r \<Rightarrow>
                (let address = rq_from (sx_user_request r)
                 in queue_or_log cx
                      (if succeeded then transaction_confirmed_envelope (st_transaction_id (sx_data r)) address confirmed
                       else transaction_reverted_envelope (st_transaction_id (sx_data r)) address confirmed)
                      (rq_webhook_options (sx_user_request r)))))"

text \<open>The first hash of an id decides its outcome: commands, what goes back to pending, and the report.\<close>

definition decide_outcome ::
  "('tx, 'a, 'c) eoa_ctx \<Rightarrow> nat \<Rightarrow> clean_info \<Rightarrow> ('a, 'c) SubmittedTransactionHydrated
     \<Rightarrow> CleanupReport \<Rightarrow> eoa_cmd list \<times> (nat \<times> tx_id) list \<times> CleanupReport" where
  "decide_outcome cx now ci tx report =
     (let i = hydrated_id tx; n = hydrated_nonce tx in
      if i = NO_OP_TRANSACTION_ID
      then ([], [], if n \<in> set (ci_nonces_with_receipts ci)
                    then report\<lparr>cr_noop_count := cr_noop_count report + 1\<rparr> else report)
      else case ci_confirmed ci i of
        Some confirmed \<Rightarrow>
          (settle_commands cx now i confirmed tx, [],
           if receipt_status (ct_receipt confirmed)
           then report\<lparr>cr_moved_to_success := cr_moved_to_success report + 1\<rparr>
           else report\<lparr>cr_moved_to_failed := cr_moved_to_failed report + 1\<rparr>)
      | None \<Rightarrow>
          (case tx of
             Noop _ \<Rightarrow> ([], [], report)
           | Real r \<Rightarrow>
               (if proven_replaced ci n
                then (queue_or_log cx (transaction_replaced_envelope i (sx_data r)) (rq_webhook_options (sx_user_request r)),
                      [(st_queued_at (sx_data r), i)],
                      report\<lparr>cr_moved_to_pending := cr_moved_to_pending report + 1\<rparr>)
                else ([], [], report))))"

definition cleanup_hash :: "clean_info \<Rightarrow> ('a, 'c) SubmittedTransactionHydrated \<Rightarrow> eoa_cmd list" where
  "cleanup_hash ci tx =
     (if ci_confirmed ci (hydrated_id tx) \<noteq> None then remove_from_submitted tx
      else if hydrated_id tx = NO_OP_TRANSACTION_ID
      then (if hydrated_nonce tx \<in> set (ci_nonces_with_receipts ci) then remove_from_submitted tx else [])
      else case tx of
        Real _ \<Rightarrow> (if proven_replaced ci (hydrated_nonce tx) then remove_from_submitted tx else [])
      | Noop _ \<Rightarrow> [])"

definition in_range :: "TransactionCounts \<Rightarrow> nat \<Rightarrow> bool" where
  "in_range counts nonce \<longleftrightarrow> nonce < tc_preconfirmed counts \<or> nonce < tc_latest counts"

fun clean_loop ::
  "('tx, 'a, 'c) eoa_ctx \<Rightarrow> nat \<Rightarrow> clean_info \<Rightarrow> ('a, 'c) SubmittedTransactionHydrated list \<Rightarrow> tx_id list
     \<Rightarrow> (nat \<times> tx_id) list \<Rightarrow> CleanupReport
     \<Rightarrow> eoa_cmd list \<times> (nat \<times> tx_id) list \<times> tx_id list \<times> CleanupReport" where
  "clean_loop cx now ci [] processed_ids replaced report = ([], replaced, processed_ids, report)"
| "clean_loop cx now ci (tx # txs) processed_ids replaced report =
     (if \<not> in_range (ci_counts ci) (hydrated_nonce tx)
      then clean_loop cx now ci txs processed_ids replaced report
      else
        let (cmds, back, report) =
              (if hydrated_id tx \<in> set processed_ids then ([], [], report)
               else decide_outcome cx now ci tx report);
            processed_ids = sadd (hydrated_id tx) processed_ids;
            (rest, replaced, processed_ids, report) =
              clean_loop cx now ci txs processed_ids (replaced @ back) report
        in (cmds @ cleanup_hash ci tx @ rest, replaced, processed_ids, report))"

definition empty_report :: CleanupReport where
  "empty_report = \<lparr>cr_total_hashes_processed = 0, cr_unique_transaction_ids = 0, cr_noop_count = 0,
     cr_moved_to_success = 0, cr_moved_to_failed = 0, cr_moved_to_pending = 0, cr_cross_nonce_violations = [],
     cr_per_nonce_violations = [], cr_nonces_without_receipts = []\<rparr>"

definition confirmed_members ::
  "ConfirmedTransaction list \<Rightarrow> ('a, 'c) SubmittedTransactionHydrated list \<Rightarrow> ConfirmedTransaction list" where
  "confirmed_members confirmed_transactions submitted_txs =
     filter (\<lambda>ct. (ct_transaction_hash ct, ct_transaction_id ct, ct_nonce ct)
                    \<in> set (map (\<lambda>tx. (hydrated_hash tx, hydrated_id tx, hydrated_nonce tx)) submitted_txs))
       confirmed_transactions"

definition clean_info_of ::
  "ConfirmedTransaction list \<Rightarrow> TransactionCounts \<Rightarrow> ('a, 'c) SubmittedTransactionHydrated list \<Rightarrow> clean_info" where
  "clean_info_of confirmed_transactions counts submitted_txs =
     (let confirmed = confirmed_members confirmed_transactions submitted_txs;
          confirmed_hashes = map ct_transaction_hash confirmed
      in \<lparr>ci_counts = counts,
          ci_confirmed = map_of (rev (map (\<lambda>ct. (ct_transaction_id ct, ct))
                           (filter (\<lambda>ct. ct_transaction_id ct \<noteq> NO_OP_TRANSACTION_ID) confirmed))),
          ci_nonces_with_receipts =
            map hydrated_nonce (filter (\<lambda>tx. hydrated_hash tx \<in> set confirmed_hashes) submitted_txs)\<rparr>)"

definition clean_submitted_validation ::
  "('tx, 'a, 'c) eoa_ctx \<Rightarrow> ConfirmedTransaction list \<Rightarrow> TransactionCounts \<Rightarrow> estore
     \<Rightarrow> (TransactionStoreError, ('a, 'c) SubmittedTransactionHydrated list) result" where
  "clean_submitted_validation cx confirmed_transactions counts s =
     (if \<not> list_all evidence_matches confirmed_transactions
      then Inl (InternalError ''Finality evidence does not match the receipt'')
      else
        let max_count = max (tc_preconfirmed counts) (tc_latest counts);
            nonces = sort (remdups (filter (\<lambda>n. n < max_count) (map ct_nonce confirmed_transactions)))
        in if nonces = [] then Inr []
           else bind_result (nonce_groups nonces (es_submitted s)) (\<lambda>rows.
                  hydrate_all_submitted (cx_codec cx) (from_redis_strings rows) s))"

definition CleanSubmittedTransactions ::
  "('tx, 'a, 'c) eoa_ctx \<Rightarrow> nat \<Rightarrow> ConfirmedTransaction list \<Rightarrow> TransactionCounts
     \<Rightarrow> (('a, 'c) SubmittedTransactionHydrated list, CleanupReport) SafeRedisTransaction" where
  "CleanSubmittedTransactions cx now confirmed_transactions counts =
     \<lparr>sr_watch_keys = [SubmittedKey],
      sr_validation = clean_submitted_validation cx confirmed_transactions counts,
      sr_operation = (\<lambda>submitted_txs.
        let ci = clean_info_of confirmed_transactions counts submitted_txs;
            confirmed_hashes = map ct_transaction_hash (confirmed_members confirmed_transactions submitted_txs);
            (cross, per_nonce, without) = detect_violations submitted_txs confirmed_hashes;
            report = empty_report\<lparr>cr_cross_nonce_violations := cross, cr_per_nonce_violations := per_nonce,
                       cr_nonces_without_receipts := without\<rparr>;
            (cmds, replaced, processed_ids, report) = clean_loop cx now ci submitted_txs [] [] report
        in (cmds @ (if replaced = [] then [] else [ZaddPending replaced]),
            report\<lparr>cr_total_hashes_processed := length submitted_txs,
                   cr_unique_transaction_ids := length processed_ids\<rparr>))\<rparr>"

subsection \<open>Recycled nonces\<close>

definition option_max :: "nat option \<Rightarrow> nat option \<Rightarrow> nat option" where
  "option_max a b =
     (case a of None \<Rightarrow> b | Some x \<Rightarrow> (case b of None \<Rightarrow> a | Some y \<Rightarrow> Some (max x y)))"

definition list_max :: "nat list \<Rightarrow> nat option" where
  "list_max ns = (if ns = [] then None else Some (Max (set ns)))"

definition CleanAndGetRecycledNonces ::
  "('tx, 'a, 'c) eoa_ctx \<Rightarrow> (nat option \<times> nat list \<times> nat option, nat list) SafeRedisTransaction" where
  "CleanAndGetRecycledNonces cx =
     \<lparr>sr_watch_keys = [RecycledKey, LastCountKey, OptimisticKey, SubmittedKey, BorrowedKey],
      sr_validation = (\<lambda>s.
        let highest_submitted = (let rows = zrange (es_submitted s) in if rows = [] then None else Some (snd (last rows)))
        in bind_result (collect (map (\<lambda>(i, j). case from_json (borrowed_of_json (cx_codec cx) j) of
                                            Inl e \<Rightarrow> Inl e | Inr d \<Rightarrow> Inr (bd_nonce cx d)) (es_borrowed s)))
             (\<lambda>borrowed.
               case es_last_count s of
                 None \<Rightarrow> Inl NonceSyncRequired
               | Some n_txs \<Rightarrow>
                   (let highest = option_max (option_max highest_submitted (list_max borrowed)) (checked_sub n_txs 1);
                        recycled = filter (\<lambda>n. case highest of None \<Rightarrow> False | Some h \<Rightarrow> n < h)
                                     (zrange_recycled (es_recycled s))
                    in Inr (highest, recycled, es_optimistic s)))),
      sr_operation = (\<lambda>(highest, recycled, current_optimistic_tx_count).
        (ZrembyscoreRecycled (case highest of None \<Rightarrow> 0 | Some h \<Rightarrow> h)
           # (let next_nonce = (case highest of None \<Rightarrow> 0 | Some h \<Rightarrow> saturating_add u64_max h 1)
              in case current_optimistic_tx_count of
                   None \<Rightarrow> []
                 | Some opt \<Rightarrow> (if next_nonce < opt then [SetOptimistic next_nonce] else [])),
         recycled))\<rparr>"

subsection \<open>Resetting nonces and failing pending transactions\<close>

definition push_reset :: "nat \<Rightarrow> EoaHealth \<Rightarrow> EoaHealth" where
  "push_reset now health =
     (let resets = eh_nonce_resets health @ [now]
      in health\<lparr>eh_nonce_resets := drop (length resets - 5) resets,
                eh_last_nonce_movement_at := now, eh_last_confirmation_at := now\<rparr>)"

definition to_json :: "string option \<Rightarrow> (TransactionStoreError, string) result" where
  "to_json r = (case r of None \<Rightarrow> Inl (DeserError ''serde_json'') | Some j \<Rightarrow> Inr j)"

definition ResetNoncesTransaction ::
  "('tx, 'a, 'c) eoa_ctx \<Rightarrow> nat \<Rightarrow> nat \<Rightarrow> (string option, unit) SafeRedisTransaction" where
  "ResetNoncesTransaction cx now current_chain_tx_count =
     \<lparr>sr_watch_keys = [OptimisticKey, LastCountKey, RecycledKey, ManualResetKey, SubmittedKey, BorrowedKey],
      sr_validation = (\<lambda>s.
        if es_submitted s \<noteq> [] \<or> es_borrowed s \<noteq> [] then Inl UnresolvedNonceReservations
        else bind_result (get_eoa_health (cx_codec cx) s) (\<lambda>current_health.
          case current_health of
            None \<Rightarrow> Inr None
          | Some health \<Rightarrow>
              bind_result (to_json (health_to_json (cx_codec cx) (push_reset now health))) (\<lambda>j. Inr (Some j)))),
      sr_operation = (\<lambda>health_update.
        ((case health_update of None \<Rightarrow> [] | Some j \<Rightarrow> [SetHealth j])
           @ [SetOptimistic current_chain_tx_count, SetLastCount current_chain_tx_count, DelRecycled, DelManualReset],
         ()))\<rparr>"

definition fail_pending_commands ::
  "('tx, 'a, 'c) eoa_ctx \<Rightarrow> nat \<Rightarrow> (('a, 'c) PendingTransaction \<times> string) list \<Rightarrow> eoa_cmd list" where
  "fail_pending_commands cx now failures =
     ZremPending (map (\<lambda>(p, e). pt_transaction_id p) failures)
     # concat (map (\<lambda>(p, e). let i = pt_transaction_id p in
         [HsetData i (CompletedAt now), HsetData i (FailureReason e), HsetData i (Status ''failed''),
          ExpireData i (cx_ttl_seconds cx), ExpireAttempts i (cx_ttl_seconds cx)]) failures)
     @ concat (map (\<lambda>(p, e). queue_or_log cx (transaction_failed_envelope (pt_transaction_id p) e 1)
                               (rq_webhook_options (pt_user_request p))) failures)"

definition FailPendingTransactions :: "tx_id list \<Rightarrow> eoa_cmd list \<Rightarrow> (unit, unit) SafeRedisTransaction" where
  "FailPendingTransactions transaction_ids pipeline =
     \<lparr>sr_watch_keys = [PendingKey], sr_validation = check_pending transaction_ids,
      sr_operation = (\<lambda>_. (pipeline, ()))\<rparr>"

subsection \<open>The methods of the locked store\<close>

type_synonym env = "nat \<Rightarrow> watch_env"
type_synonym 'r outcome = "(TransactionStoreError, 'r) result \<times> estore"

definition ensure_eoa_lock_owned :: "string \<Rightarrow> estore \<Rightarrow> (TransactionStoreError, unit) result" where
  "ensure_eoa_lock_owned worker_id s =
     (if es_lock s \<noteq> Some worker_id then Inl (LockLost worker_id) else Inr ())"

text \<open>Releasing ignores every error: the lock is gone, taken over, or left to the next takeover.\<close>

definition release_eoa_lock :: "string \<Rightarrow> env \<Rightarrow> estore \<Rightarrow> estore" where
  "release_eoa_lock worker_id env s = snd (with_lock_check worker_id [DelLock] env s)"

definition atomic_move_pending_to_borrowed_with_incremented_nonces ::
  "('tx, 'a, 'c) eoa_ctx \<Rightarrow> string \<Rightarrow> 'tx BorrowedTransactionData list \<Rightarrow> env \<Rightarrow> estore \<Rightarrow> nat outcome" where
  "atomic_move_pending_to_borrowed_with_incremented_nonces cx w transactions env s =
     (case execute_with_watch_and_retry w (MovePendingToBorrowedWithIncrementedNonces cx transactions) env s of
        (Inl e, s) \<Rightarrow> (Inl e, s) | (Inr (moved_count, _), s) \<Rightarrow> (Inr moved_count, s))"

definition atomic_move_pending_to_borrowed_with_recycled_nonces ::
  "('tx, 'a, 'c) eoa_ctx \<Rightarrow> string \<Rightarrow> 'tx BorrowedTransactionData list \<Rightarrow> env \<Rightarrow> estore \<Rightarrow> nat outcome" where
  "atomic_move_pending_to_borrowed_with_recycled_nonces cx w transactions env s =
     execute_with_watch_and_retry w (MovePendingToBorrowedWithRecycledNonces cx transactions) env s"

definition update_health_data ::
  "('tx, 'a, 'c) eoa_ctx \<Rightarrow> string \<Rightarrow> EoaHealth \<Rightarrow> env \<Rightarrow> estore \<Rightarrow> unit outcome" where
  "update_health_data cx w health env s =
     (case to_json (health_to_json (cx_codec cx) health) of
        Inl e \<Rightarrow> (Inl e, s)
      | Inr json \<Rightarrow> with_lock_check w [SetHealth json] env s)"

definition cached_count_commands :: "nat \<Rightarrow> nat option \<Rightarrow> string option \<Rightarrow> eoa_cmd list" where
  "cached_count_commands current_chain_tx_count optimistic_nonce health_update =
     SetLastCount current_chain_tx_count
     # (case optimistic_nonce of
          Some optimistic \<Rightarrow> (if optimistic < current_chain_tx_count then [SetOptimistic current_chain_tx_count] else [])
        | None \<Rightarrow> [SetOptimistic current_chain_tx_count])
     @ (case health_update of Some json \<Rightarrow> [SetHealth json] | None \<Rightarrow> [])"

text \<open>The health and the optimistic count are read before the lock is checked.\<close>

definition update_cached_transaction_count ::
  "('tx, 'a, 'c) eoa_ctx \<Rightarrow> string \<Rightarrow> nat \<Rightarrow> nat \<Rightarrow> env \<Rightarrow> estore \<Rightarrow> unit outcome" where
  "update_cached_transaction_count cx w now current_chain_tx_count env s =
     (case get_eoa_health (cx_codec cx) s of
        Inl e \<Rightarrow> (Inl e, s)
      | Inr current_health \<Rightarrow>
          (case (case current_health of
                   None \<Rightarrow> Inr None
                 | Some health \<Rightarrow>
                     bind_result (to_json (health_to_json (cx_codec cx)
                       (health\<lparr>eh_last_nonce_movement_at := now, eh_last_confirmation_at := now\<rparr>))) (\<lambda>j. Inr (Some j))) of
             Inl e \<Rightarrow> (Inl e, s)
           | Inr health_update \<Rightarrow>
               with_lock_check w (cached_count_commands current_chain_tx_count (es_optimistic s) health_update) env s))"

definition gas_bump_commands :: "SubmittedTransactionDehydrated \<Rightarrow> string \<Rightarrow> string \<Rightarrow> eoa_cmd list" where
  "gas_bump_commands submitted new_hash attempt_json =
     (case to_redis_string_with_nonce submitted of
        (member, nonce) \<Rightarrow>
          [ZaddSubmitted [(nonce, member)], SetHashToId new_hash (st_transaction_id submitted),
           LpushAttempt (st_transaction_id submitted) attempt_json])"

definition add_gas_bump_attempt ::
  "('tx, 'a, 'c) eoa_ctx \<Rightarrow> string \<Rightarrow> nat \<Rightarrow> SubmittedTransactionDehydrated \<Rightarrow> 'tx \<Rightarrow> env \<Rightarrow> estore \<Rightarrow> unit outcome" where
  "add_gas_bump_attempt cx w now submitted bumped env s =
     (let new_attempt = \<lparr>at_transaction_id = st_transaction_id submitted, at_details = bumped,
                         at_sent_at = now, at_attempt_number = 0\<rparr>
      in case to_json (attempt_to_json (cx_codec cx) new_attempt) of
           Inl e \<Rightarrow> (Inl e, s)
         | Inr attempt_json \<Rightarrow>
             with_lock_check w (gas_bump_commands submitted (tx_hash (cx_codec cx) bumped) attempt_json) env s)"

definition reset_nonces :: "('tx, 'a, 'c) eoa_ctx \<Rightarrow> string \<Rightarrow> nat \<Rightarrow> nat \<Rightarrow> env \<Rightarrow> estore \<Rightarrow> unit outcome" where
  "reset_nonces cx w now current_chain_tx_count env s =
     execute_with_watch_and_retry w (ResetNoncesTransaction cx now current_chain_tx_count) env s"

definition fail_pending_transactions_batch ::
  "('tx, 'a, 'c) eoa_ctx \<Rightarrow> string \<Rightarrow> nat \<Rightarrow> (('a, 'c) PendingTransaction \<times> string) list \<Rightarrow> env \<Rightarrow> estore \<Rightarrow> unit outcome" where
  "fail_pending_transactions_batch cx w now failures env s =
     (if failures = [] then (Inr (), s)
      else execute_with_watch_and_retry w
             (FailPendingTransactions (map (\<lambda>(p, e). pt_transaction_id p) failures)
                (fail_pending_commands cx now failures)) env s)"

definition fail_pending_transaction ::
  "('tx, 'a, 'c) eoa_ctx \<Rightarrow> string \<Rightarrow> nat \<Rightarrow> ('a, 'c) PendingTransaction \<Rightarrow> string \<Rightarrow> env \<Rightarrow> estore \<Rightarrow> unit outcome" where
  "fail_pending_transaction cx w now pending error env s =
     fail_pending_transactions_batch cx w now [(pending, error)] env s"

definition clean_submitted_transactions ::
  "('tx, 'a, 'c) eoa_ctx \<Rightarrow> string \<Rightarrow> nat \<Rightarrow> ConfirmedTransaction list \<Rightarrow> TransactionCounts \<Rightarrow> env \<Rightarrow> estore
     \<Rightarrow> CleanupReport outcome" where
  "clean_submitted_transactions cx w now confirmed counts env s =
     execute_with_watch_and_retry w (CleanSubmittedTransactions cx now confirmed counts) env s"

definition process_borrowed_transactions ::
  "('tx, 'a, 'c) eoa_ctx \<Rightarrow> string \<Rightarrow> ('a, 'c) SubmissionResult list \<Rightarrow> env \<Rightarrow> estore \<Rightarrow> BorrowedProcessingReport outcome" where
  "process_borrowed_transactions cx w results env s =
     execute_with_watch_and_retry w (ProcessBorrowedTransactions cx results) env s"

definition clean_and_get_recycled_nonces ::
  "('tx, 'a, 'c) eoa_ctx \<Rightarrow> string \<Rightarrow> env \<Rightarrow> estore \<Rightarrow> nat list outcome" where
  "clean_and_get_recycled_nonces cx w env s =
     execute_with_watch_and_retry w (CleanAndGetRecycledNonces cx) env s"

definition noop_commands :: "SubmittedNoopTransaction list \<Rightarrow> eoa_cmd list" where
  "noop_commands txs =
     [ZremRecycled (map nt_nonce txs),
      ZaddSubmitted (map (\<lambda>tx. case noop_to_redis_string_with_nonce tx of (member, nonce) \<Rightarrow> (nonce, member)) txs)]"

definition process_noop_transactions :: "string \<Rightarrow> SubmittedNoopTransaction list \<Rightarrow> env \<Rightarrow> estore \<Rightarrow> unit outcome" where
  "process_noop_transactions w txs env s = with_lock_check w (noop_commands txs) env s"

end
