(* ===== verification/Eoa_Inv.thy ===== *)
theory Eoa_Inv
  imports Eoa_Ops
begin

text \<open>
  The invariant of the EOA store: which intents hold which nonces, that a nonce has one holder
  and an intent one nonce, that an intent is in one stage with its request retained, and that
  the allocator's next nonce lies above every nonce held, recycled or observed. The first part
  relates the members of the submitted set to the records they encode.
\<close>

subsection \<open>Members of the submitted set\<close>

definition wf_text :: "string \<Rightarrow> bool" where
  "wf_text x \<longleftrightarrow> CHR '':'' \<notin> set x"

definition wf_submitted :: "SubmittedTransactionDehydrated \<Rightarrow> bool" where
  "wf_submitted t \<longleftrightarrow> wf_text (st_transaction_hash t) \<and> wf_text (st_transaction_id t)
     \<and> st_queued_at t \<le> u64_max \<and> st_submitted_at t \<le> u64_max"

lemma parse_to_redis: "wf_submitted t \<Longrightarrow> parse_member (to_redis_string_with_nonce t) = Some t"
  by (simp add: parse_member_def to_redis_string_with_nonce_def wf_submitted_def wf_text_def split_on_append)

lemma parse_to_legacy:
  "wf_submitted t \<Longrightarrow> st_submitted_at t = 0 \<Longrightarrow> parse_member (to_legacy_redis_string_with_nonce t) = Some t"
  by (simp add: parse_member_def to_legacy_redis_string_with_nonce_def wf_submitted_def wf_text_def split_on_append)

text \<open>A row as the engine writes it; a no-op row carries zero times.\<close>

definition row_of :: "SubmittedTransactionDehydrated \<Rightarrow> string \<times> nat \<Rightarrow> bool" where
  "row_of t row \<longleftrightarrow> wf_submitted t
     \<and> (row = to_redis_string_with_nonce t \<or> (row = to_legacy_redis_string_with_nonce t \<and> st_submitted_at t = 0))
     \<and> (st_transaction_id t = NO_OP_TRANSACTION_ID \<longrightarrow> st_queued_at t = 0 \<and> st_submitted_at t = 0)"

lemma row_of_parse: "row_of t row \<Longrightarrow> parse_member row = Some t"
  by (auto simp: row_of_def parse_to_redis parse_to_legacy)

lemma parse_member_nonce:
  "parse_member (m, n) = map_option (\<lambda>t. t\<lparr>st_nonce := n\<rparr>) (parse_member (m, 0))"
  by (simp add: parse_member_def split: list.split option.split)

lemma parse_member_fst:
  assumes "fst row = fst row'" and "parse_member row = Some t" and "parse_member row' = Some t'"
  shows "st_transaction_id t = st_transaction_id t' \<and> st_transaction_hash t = st_transaction_hash t'"
proof -
  obtain m n n' where r: "row = (m, n)" "row' = (m, n')" using assms(1) by (cases row, cases row') auto
  then show ?thesis
    using assms(2,3) parse_member_nonce [of m n] parse_member_nonce [of m n'] by auto
qed

lemma row_of_nonce: "row_of t row \<Longrightarrow> snd row = st_nonce t"
  by (auto simp: row_of_def to_redis_string_with_nonce_def to_legacy_redis_string_with_nonce_def)

lemma row_of_unique: "row_of t row \<Longrightarrow> row_of u row \<Longrightarrow> t = u"
  by (metis option.inject row_of_parse)

lemma row_of_to_redis: "wf_submitted t \<Longrightarrow> st_transaction_id t \<noteq> NO_OP_TRANSACTION_ID
    \<Longrightarrow> row_of t (to_redis_string_with_nonce t)"
  by (simp add: row_of_def)

definition noop_record :: "SubmittedNoopTransaction \<Rightarrow> SubmittedTransactionDehydrated" where
  "noop_record tx = \<lparr>st_nonce = nt_nonce tx, st_transaction_hash = nt_transaction_hash tx,
     st_transaction_id = NO_OP_TRANSACTION_ID, st_submitted_at = 0, st_queued_at = 0\<rparr>"

lemma show_nat_0: "show_nat 0 = ''0''"
  by code_simp

lemma noop_to_redis: "noop_to_redis_string_with_nonce tx = to_redis_string_with_nonce (noop_record tx)"
  by (simp add: noop_to_redis_string_with_nonce_def to_redis_string_with_nonce_def noop_record_def show_nat_0)

lemma noop_to_legacy: "noop_to_legacy_redis_string_with_nonce tx = to_legacy_redis_string_with_nonce (noop_record tx)"
  by (simp add: noop_to_legacy_redis_string_with_nonce_def to_legacy_redis_string_with_nonce_def noop_record_def show_nat_0)

lemma row_of_noop: "wf_text (nt_transaction_hash tx) \<Longrightarrow> row_of (noop_record tx) (noop_to_redis_string_with_nonce tx)"
  by (simp add: row_of_def noop_to_redis wf_submitted_def noop_record_def wf_text_def NO_OP_TRANSACTION_ID_def)

subsection \<open>Holders of nonces\<close>

definition borrowed_rec :: "('tx, 'a, 'c) eoa_ctx \<Rightarrow> estore \<Rightarrow> 'tx BorrowedTransactionData \<Rightarrow> bool" where
  "borrowed_rec cx s d \<longleftrightarrow> (\<exists>i j. (i, j) \<in> set (es_borrowed s) \<and> borrowed_of_json (cx_codec cx) j = Some d)"

definition submitted_rec :: "estore \<Rightarrow> SubmittedTransactionDehydrated \<Rightarrow> bool" where
  "submitted_rec s t \<longleftrightarrow> (\<exists>row \<in> set (es_submitted s). parse_member row = Some t)"

definition held_b :: "('tx, 'a, 'c) eoa_ctx \<Rightarrow> estore \<Rightarrow> (nat \<times> tx_id) set" where
  "held_b cx s = {(bd_nonce cx d, bd_transaction_id d) | d. borrowed_rec cx s d}"

definition held_s :: "estore \<Rightarrow> (nat \<times> tx_id) set" where
  "held_s s = {(st_nonce t, st_transaction_id t) | t. submitted_rec s t}"

definition live_ids :: "('tx, 'a, 'c) eoa_ctx \<Rightarrow> estore \<Rightarrow> tx_id set" where
  "live_ids cx s = set (keys (es_pending s)) \<union> set (keys (es_borrowed s))
     \<union> (snd ` held_s s - {NO_OP_TRANSACTION_ID})"

definition retained :: "tx_id \<Rightarrow> estore \<Rightarrow> bool" where
  "retained i s \<longleftrightarrow> (\<exists>d. es_tx_data s i = Some d \<and> td_user_request d \<noteq> None \<and> td_ttl d = None)"

definition wf_id :: "tx_id \<Rightarrow> bool" where
  "wf_id i \<longleftrightarrow> wf_text i \<and> i \<noteq> NO_OP_TRANSACTION_ID"

text \<open>The structure of the store, the stages of intents, the holders of nonces, the allocator.\<close>

definition inv_rows :: "('tx, 'a, 'c) eoa_ctx \<Rightarrow> estore \<Rightarrow> bool" where
  "inv_rows cx s \<longleftrightarrow> distinct (keys (es_pending s)) \<and> distinct (keys (es_borrowed s))
     \<and> distinct (keys (es_submitted s)) \<and> distinct (keys (es_recycled s))
     \<and> (\<forall>(i, j) \<in> set (es_borrowed s). \<exists>d. borrowed_of_json (cx_codec cx) j = Some d \<and> bd_transaction_id d = i)
     \<and> (\<forall>row \<in> set (es_submitted s). \<exists>t. row_of t row)
     \<and> (\<forall>(m, sc) \<in> set (es_recycled s). sc = m)"

definition inv_stage :: "('tx, 'a, 'c) eoa_ctx \<Rightarrow> estore \<Rightarrow> bool" where
  "inv_stage cx s \<longleftrightarrow>
     set (keys (es_pending s)) \<inter> set (keys (es_borrowed s)) = {}
     \<and> set (keys (es_pending s)) \<inter> snd ` held_s s = {}
     \<and> set (keys (es_borrowed s)) \<inter> snd ` held_s s = {}
     \<and> (\<forall>i \<in> live_ids cx s. wf_id i \<and> retained i s)"

definition inv_nonce :: "('tx, 'a, 'c) eoa_ctx \<Rightarrow> estore \<Rightarrow> bool" where
  "inv_nonce cx s \<longleftrightarrow>
     (\<forall>n i i'. (n, i) \<in> held_b cx s \<union> held_s s \<longrightarrow> (n, i') \<in> held_b cx s \<union> held_s s \<longrightarrow> i = i')
     \<and> (\<forall>n n' i. (n, i) \<in> held_b cx s \<union> held_s s \<longrightarrow> (n', i) \<in> held_b cx s \<union> held_s s
          \<longrightarrow> i \<noteq> NO_OP_TRANSACTION_ID \<longrightarrow> n = n')
     \<and> set (keys (es_recycled s)) \<inter> fst ` (held_b cx s \<union> held_s s) = {}"

definition below :: "nat set \<Rightarrow> nat option \<Rightarrow> bool" where
  "below ns opt \<longleftrightarrow> (case opt of None \<Rightarrow> ns = {} | Some n \<Rightarrow> n \<le> u64_max \<and> (\<forall>m \<in> ns. m < n))"

definition inv_alloc :: "('tx, 'a, 'c) eoa_ctx \<Rightarrow> estore \<Rightarrow> bool" where
  "inv_alloc cx s \<longleftrightarrow>
     below (fst ` (held_b cx s \<union> held_s s) \<union> set (keys (es_recycled s))) (es_optimistic s)
     \<and> (case es_last_count s of
          None \<Rightarrow> True
        | Some c \<Rightarrow> (case es_optimistic s of None \<Rightarrow> False | Some opt \<Rightarrow> c \<le> opt))"

definition eoa_inv :: "('tx, 'a, 'c) eoa_ctx \<Rightarrow> estore \<Rightarrow> bool" where
  "eoa_inv cx s \<longleftrightarrow> inv_rows cx s \<and> inv_stage cx s \<and> inv_nonce cx s \<and> inv_alloc cx s"

lemmas eoa_inv_defs = eoa_inv_def inv_rows_def inv_stage_def inv_nonce_def inv_alloc_def

subsection \<open>What a pipeline leaves alone\<close>

fun writes :: "eoa_cmd \<Rightarrow> eoa_key option" where
  "writes (ZremPending _) = Some PendingKey"
| "writes (ZaddPending _) = Some PendingKey"
| "writes (HsetBorrowed _ _) = Some BorrowedKey"
| "writes (HdelBorrowed _) = Some BorrowedKey"
| "writes (ZaddSubmitted _) = Some SubmittedKey"
| "writes (ZremSubmitted _) = Some SubmittedKey"
| "writes (ZremRecycled _) = Some RecycledKey"
| "writes (ZrembyscoreRecycled _) = Some RecycledKey"
| "writes DelRecycled = Some RecycledKey"
| "writes (SetOptimistic _) = Some OptimisticKey"
| "writes (SetLastCount _) = Some LastCountKey"
| "writes (SetHealth _) = Some HealthKey"
| "writes DelManualReset = Some ManualResetKey"
| "writes DelLock = Some LockKey"
| "writes _ = None"

fun writes_data :: "eoa_cmd \<Rightarrow> tx_id option" where
  "writes_data (HsetData i _) = Some i"
| "writes_data (ExpireData i _) = Some i"
| "writes_data _ = None"

lemma exec_pipeline_simps [simp]:
  "exec_pipeline [] s = s"
  "exec_pipeline (c # cs) s = exec_pipeline cs (exec_cmd c s)"
  "exec_pipeline (cs @ ds) s = exec_pipeline ds (exec_pipeline cs s)"
  by (simp_all add: exec_pipeline_def)

lemma exec_cmd_frame: "writes c \<noteq> Some k \<Longrightarrow> same_key k (exec_cmd c s) s"
  by (cases c; cases k) (auto simp: hset_data_def)

lemma same_key_trans: "same_key k s t \<Longrightarrow> same_key k t u \<Longrightarrow> same_key k s u"
  by (cases k) auto

lemma same_key_refl [simp]: "same_key k s s"
  by (cases k) auto

lemma exec_pipeline_frame:
  "(\<And>c. c \<in> set cs \<Longrightarrow> writes c \<noteq> Some k) \<Longrightarrow> same_key k (exec_pipeline cs s) s"
proof (induction cs arbitrary: s)
  case (Cons c cs)
  then show ?case using exec_cmd_frame [of c k s] same_key_trans by fastforce
qed simp

lemma exec_cmd_data: "writes_data c \<noteq> Some i \<Longrightarrow> es_tx_data (exec_cmd c s) i = es_tx_data s i"
  by (cases c) (auto simp: hset_data_def)

lemma exec_pipeline_data:
  "(\<And>c. c \<in> set cs \<Longrightarrow> writes_data c \<noteq> Some i) \<Longrightarrow> es_tx_data (exec_pipeline cs s) i = es_tx_data s i"
proof (induction cs arbitrary: s)
  case (Cons c cs)
  then show ?case using exec_cmd_data [of c i s] by fastforce
qed simp

lemma held_b_cong: "es_borrowed s = es_borrowed t \<Longrightarrow> held_b cx s = held_b cx t"
  by (simp add: held_b_def borrowed_rec_def)

lemma held_s_cong: "es_submitted s = es_submitted t \<Longrightarrow> held_s s = held_s t"
  by (simp add: held_s_def submitted_rec_def)

subsection \<open>Sorted sets and hashes under repeated commands\<close>

lemma keys_fold_zrem: "keys (fold zrem is z) = filter (\<lambda>k. k \<notin> set is) (keys z)"
proof (induction "is" arbitrary: z)
  case (Cons i "is")
  then show ?case by (simp add: removeAll_filter_not_eq) (rule filter_cong; auto)
qed simp

lemma hset_new: "i \<notin> set (keys h) \<Longrightarrow> hset i j h = h @ [(i, j)]"
  by (induction h) (auto simp: hset_def keys_def)

lemma zadd_new: "i \<notin> set (keys h) \<Longrightarrow> zadd i j h = h @ [(i, j)]"
  by (induction h) (auto simp: zadd_def keys_def)

lemma keys_append [simp]: "keys (xs @ ys) = keys xs @ keys ys"
  by (simp add: keys_def)

lemma keys_Cons [simp]: "keys ((i, j) # xs) = i # keys xs"
  by (simp add: keys_def)

lemma fold_hset_new:
  "distinct (keys ps) \<Longrightarrow> set (keys ps) \<inter> set (keys h) = {} \<Longrightarrow> fold (\<lambda>(i, j). hset i j) ps h = h @ ps"
proof (induction ps arbitrary: h)
  case (Cons p ps)
  obtain i j where p: "p = (i, j)" by fastforce
  with Cons.prems have "hset i j h = h @ [(i, j)]" by (intro hset_new) auto
  moreover have "fold (\<lambda>(i, j). hset i j) ps (h @ [(i, j)]) = (h @ [(i, j)]) @ ps"
    using Cons.prems p by (intro Cons.IH) auto
  ultimately show ?case using p by simp
qed simp

lemma set_hdel [simp]: "set (hdel i h) = {(k, v) \<in> set h. k \<noteq> i}"
  by (induction h) (auto simp: hdel_def)

lemma set_zrem [simp]: "set (zrem i h) = {(k, v) \<in> set h. k \<noteq> i}"
  by (induction h) (auto simp: zrem_def)

lemma set_fold_zrem: "set (fold zrem is h) = {(k, v) \<in> set h. k \<notin> set is}"
proof (induction "is" arbitrary: h)
  case (Cons i "is")
  then show ?case by auto
qed simp

lemma set_zadd_distinct: "distinct (keys h) \<Longrightarrow> set (zadd i n h) = insert (i, n) {(k, v) \<in> set h. k \<noteq> i}"
  by (induction h) (auto simp: zadd_def keys_def image_iff)

lemma distinct_keys_zadd: "distinct (keys h) \<Longrightarrow> distinct (keys (zadd i n h))"
  by simp

lemma in_keys_iff: "i \<in> set (keys h) \<longleftrightarrow> (\<exists>v. (i, v) \<in> set h)"
  by (force simp: keys_def)

lemma set_zrange_recycled [simp]: "set (zrange_recycled z) = set (keys z)"
  by (simp add: zrange_recycled_def keys_def)

subsection \<open>Preservation, one kind of change at a time\<close>

lemma below_mono: "below ns opt \<Longrightarrow> ms \<subseteq> ns \<Longrightarrow> below ms opt"
  by (auto simp: below_def split: option.splits)

text \<open>Steps that leave the sets alone and keep the retained requests of live intents.\<close>

lemma eoa_inv_same:
  assumes "eoa_inv cx s"
    and "es_pending t = es_pending s" "es_borrowed t = es_borrowed s" "es_submitted t = es_submitted s"
    and "es_recycled t = es_recycled s" "es_optimistic t = es_optimistic s" "es_last_count t = es_last_count s"
    and "\<And>i. i \<in> live_ids cx s \<Longrightarrow> retained i t"
  shows "eoa_inv cx t"
proof -
  have h: "held_b cx t = held_b cx s" "held_s t = held_s s"
    using assms held_b_cong held_s_cong by metis+
  then have "live_ids cx t = live_ids cx s" using assms by (simp add: live_ids_def)
  then have "inv_stage cx t" using assms h by (auto simp: eoa_inv_def inv_stage_def)
  moreover have "inv_rows cx t = inv_rows cx s" by (simp only: inv_rows_def assms(2-7))
  moreover have "inv_nonce cx t = inv_nonce cx s" by (simp only: inv_nonce_def assms(2-7) h)
  moreover have "inv_alloc cx t = inv_alloc cx s" by (simp only: inv_alloc_def assms(2-7) h)
  ultimately show ?thesis using assms(1) by (simp add: eoa_inv_def)
qed

lemma held_b_id: "inv_rows cx s \<Longrightarrow> (n, i) \<in> held_b cx s \<Longrightarrow> i \<in> set (keys (es_borrowed s))"
  by (fastforce simp: held_b_def borrowed_rec_def inv_rows_def in_keys_iff)

lemma keys_held_b: "inv_rows cx s \<Longrightarrow> i \<in> set (keys (es_borrowed s)) \<Longrightarrow> i \<in> snd ` held_b cx s"
  by (fastforce simp: held_b_def borrowed_rec_def inv_rows_def in_keys_iff image_iff)

text \<open>New reservations: pending intents become borrowed under nonces nobody holds.\<close>

lemma reserve_inv:
  assumes inv: "eoa_inv cx s"
    and dec: "\<And>d j. (d, j) \<in> set ps \<Longrightarrow> borrowed_of_json (cx_codec cx) j = Some d"
    and ids: "distinct (map (bd_transaction_id \<circ> fst) ps)"
      "set (map (bd_transaction_id \<circ> fst) ps) \<subseteq> set (keys (es_pending s))"
    and nonces: "distinct (map (bd_nonce cx \<circ> fst) ps)"
      "set (map (bd_nonce cx \<circ> fst) ps) \<inter> fst ` (held_b cx s \<union> held_s s) = {}"
    and t: "es_pending t = fold zrem (map (bd_transaction_id \<circ> fst) ps) (es_pending s)"
      "es_borrowed t = es_borrowed s @ map (\<lambda>(d, j). (bd_transaction_id d, j)) ps"
      "es_submitted t = es_submitted s" "es_tx_data t = es_tx_data s" "es_last_count t = es_last_count s"
    and rec: "distinct (keys (es_recycled t))" "set (es_recycled t) \<subseteq> set (es_recycled s)"
      "set (keys (es_recycled t)) \<inter> set (map (bd_nonce cx \<circ> fst) ps) = {}"
    and alloc: "below (fst ` (held_b cx t \<union> held_s t) \<union> set (keys (es_recycled t))) (es_optimistic t)"
      "\<And>c. es_last_count s = Some c \<Longrightarrow> \<exists>opt. es_optimistic t = Some opt \<and> c \<le> opt"
  shows "eoa_inv cx t"
proof -
  let ?new = "(\<lambda>(d, j). (bd_nonce cx d, bd_transaction_id d)) ` set ps"
  have rows: "inv_rows cx s" and stage: "inv_stage cx s" and nonce: "inv_nonce cx s"
    using inv by (auto simp: eoa_inv_def)
  have hs: "held_s t = held_s s" by (rule held_s_cong) (rule t(3))
  have hb: "held_b cx t = held_b cx s \<union> ?new"
    using dec by (fastforce simp: held_b_def borrowed_rec_def t(2))
  have kb: "set (keys (es_borrowed t)) = set (keys (es_borrowed s)) \<union> set (map (bd_transaction_id \<circ> fst) ps)"
    by (force simp: t(2) keys_def)
  have kp: "keys (es_pending t) = filter (\<lambda>k. k \<notin> set (map (bd_transaction_id \<circ> fst) ps)) (keys (es_pending s))"
    by (simp add: t(1) keys_fold_zrem)
  have disj: "set (keys (es_pending s)) \<inter> set (keys (es_borrowed s)) = {}"
    "set (keys (es_pending s)) \<inter> snd ` held_s s = {}" using stage by (auto simp: inv_stage_def)
  have "inv_rows cx t"
  proof -
    have "distinct (keys (es_borrowed t))"
    proof -
      have "keys (map (\<lambda>(d, j). (bd_transaction_id d, j)) ps) = map (bd_transaction_id \<circ> fst) ps"
        by (auto simp: keys_def)
      then show ?thesis using rows ids disj by (auto simp: t(2) inv_rows_def)
    qed
    moreover have "distinct (keys (es_pending t))" using rows by (simp add: kp inv_rows_def)
    moreover have "\<exists>d. borrowed_of_json (cx_codec cx) j = Some d \<and> bd_transaction_id d = i"
      if "(i, j) \<in> set (es_borrowed t)" for i j
      using that rows dec by (auto simp: t(2) inv_rows_def)
    ultimately show ?thesis using rows rec by (auto simp: inv_rows_def t(3))
  qed
  moreover have "inv_stage cx t"
  proof -
    have kp': "set (keys (es_pending t)) \<subseteq> set (keys (es_pending s)) - set (map (bd_transaction_id \<circ> fst) ps)"
      by (auto simp: kp)
    have new: "set (map (bd_transaction_id \<circ> fst) ps) \<inter> snd ` held_s s = {}" using ids(2) disj(2) by blast
    have st: "set (keys (es_borrowed s)) \<inter> snd ` held_s s = {}" "\<forall>i \<in> live_ids cx s. wf_id i \<and> retained i s"
      using stage unfolding inv_stage_def by blast+
    have "set (keys (es_pending t)) \<inter> set (keys (es_borrowed t)) = {}"
      using kp' disj(1) unfolding kb by blast
    moreover have "set (keys (es_pending t)) \<inter> snd ` held_s t = {}" using kp' disj(2) unfolding hs by blast
    moreover have "set (keys (es_borrowed t)) \<inter> snd ` held_s t = {}" using st(1) new unfolding kb hs by blast
    moreover have "wf_id i \<and> retained i t" if "i \<in> live_ids cx t" for i
    proof -
      have "i \<in> live_ids cx s" using that ids(2) kp' unfolding live_ids_def kb hs by blast
      then show ?thesis using st(2) by (simp add: retained_def t(4))
    qed
    ultimately show ?thesis by (simp add: inv_stage_def)
  qed
  moreover have "inv_nonce cx t"
  proof -
    have new_n: "(n, i) \<in> ?new \<Longrightarrow> n \<notin> fst ` (held_b cx s \<union> held_s s)" for n i
      using nonces(2) by force
    have new_i: "(n, i) \<in> ?new \<Longrightarrow> i \<notin> snd ` (held_b cx s \<union> held_s s)" for n i
      using ids(2) disj held_b_id [OF rows] by force
    have uniq_n: "(n, i) \<in> ?new \<Longrightarrow> (n, i') \<in> ?new \<Longrightarrow> i = i'" for n i i'
      using nonces(1) by (force simp: distinct_map inj_on_def)
    have uniq_i: "(n, i) \<in> ?new \<Longrightarrow> (n', i) \<in> ?new \<Longrightarrow> n = n'" for n n' i
      using ids(1) by (force simp: distinct_map inj_on_def)
    let ?old = "held_b cx s \<union> held_s s"
    have all: "held_b cx t \<union> held_s t = ?old \<union> ?new" using hb hs by blast
    have old: "(n, i) \<in> ?old \<Longrightarrow> (n, i') \<in> ?old \<Longrightarrow> i = i'"
      "(n, i) \<in> ?old \<Longrightarrow> (n', i) \<in> ?old \<Longrightarrow> i \<noteq> NO_OP_TRANSACTION_ID \<Longrightarrow> n = n'" for n n' i i'
      using nonce unfolding inv_nonce_def by blast+
    have mem: "(n, i) \<in> ?old \<Longrightarrow> n \<in> fst ` ?old \<and> i \<in> snd ` ?old" for n i by (metis fst_conv imageI snd_conv)
    have own: "i = i'" if "(n, i) \<in> ?old \<union> ?new" "(n, i') \<in> ?old \<union> ?new" for n i i'
      using that old(1) [of n i i'] uniq_n [of n i i'] new_n [of n i] new_n [of n i'] mem by blast
    have one: "n = n'" if "(n, i) \<in> ?old \<union> ?new" "(n', i) \<in> ?old \<union> ?new"
      and "i \<noteq> NO_OP_TRANSACTION_ID" for n n' i
      using that old(2) [of n i n'] uniq_i [of n i n'] new_i [of n i] new_i [of n' i] mem by blast
    have "set (keys (es_recycled t)) \<subseteq> set (keys (es_recycled s))"
      using rec(2) by (auto simp: keys_def)
    moreover have "set (keys (es_recycled s)) \<inter> fst ` ?old = {}" using nonce unfolding inv_nonce_def by blast
    moreover have "fst ` ?new = set (map (bd_nonce cx \<circ> fst) ps)" by (force simp: image_iff)
    ultimately have "set (keys (es_recycled t)) \<inter> fst ` (?old \<union> ?new) = {}"
      using rec(3) unfolding image_Un [of fst ?old] by blast
    then show ?thesis unfolding inv_nonce_def all using own one by blast
  qed
  moreover have "inv_alloc cx t"
    using alloc by (auto simp: inv_alloc_def t(5) split: option.splits)
  ultimately show ?thesis by (simp add: eoa_inv_def)
qed

lemma inv_nonceD:
  assumes "inv_nonce cx s"
  shows "(n, i) \<in> held_b cx s \<union> held_s s \<Longrightarrow> (n, i') \<in> held_b cx s \<union> held_s s \<Longrightarrow> i = i'"
    and "(n, i) \<in> held_b cx s \<union> held_s s \<Longrightarrow> (n', i) \<in> held_b cx s \<union> held_s s
          \<Longrightarrow> i \<noteq> NO_OP_TRANSACTION_ID \<Longrightarrow> n = n'"
    and "set (keys (es_recycled s)) \<inter> fst ` (held_b cx s \<union> held_s s) = {}"
  using assms unfolding inv_nonce_def by blast+

text \<open>Steps after which nobody holds a nonce that nobody held before.\<close>

lemma shrink_inv:
  assumes inv: "eoa_inv cx s" and rows: "inv_rows cx t" and stage: "inv_stage cx t"
    and held: "held_b cx t \<union> held_s t \<subseteq> held_b cx s \<union> held_s s"
    and rec: "set (keys (es_recycled t)) \<subseteq> set (keys (es_recycled s))"
    and opt: "es_optimistic t = es_optimistic s" "es_last_count t = es_last_count s"
  shows "eoa_inv cx t"
proof -
  have nonce: "inv_nonce cx s" and alloc: "inv_alloc cx s" using inv by (simp_all add: eoa_inv_def)
  have img: "fst ` (held_b cx t \<union> held_s t) \<subseteq> fst ` (held_b cx s \<union> held_s s)" using held by (rule image_mono)
  have "inv_nonce cx t"
    unfolding inv_nonce_def
  proof (intro conjI allI impI)
    show "i = i'" if "(n, i) \<in> held_b cx t \<union> held_s t" "(n, i') \<in> held_b cx t \<union> held_s t" for n i i'
      by (rule inv_nonceD(1) [OF nonce subsetD [OF held that(1)] subsetD [OF held that(2)]])
    show "n = n'" if "(n, i) \<in> held_b cx t \<union> held_s t" "(n', i) \<in> held_b cx t \<union> held_s t"
      "i \<noteq> NO_OP_TRANSACTION_ID" for n n' i
      by (rule inv_nonceD(2) [OF nonce subsetD [OF held that(1)] subsetD [OF held that(2)] that(3)])
    show "set (keys (es_recycled t)) \<inter> fst ` (held_b cx t \<union> held_s t) = {}"
      using inv_nonceD(3) [OF nonce] img rec by blast
  qed
  moreover have "inv_alloc cx t"
    using alloc below_mono [OF _ Un_mono [OF img rec]] unfolding inv_alloc_def opt by simp
  ultimately show ?thesis using rows stage by (simp add: eoa_inv_def)
qed

lemma inv_stageI:
  assumes "set (keys (es_pending t)) \<inter> set (keys (es_borrowed t)) = {}"
    and "set (keys (es_pending t)) \<inter> snd ` held_s t = {}"
    and "set (keys (es_borrowed t)) \<inter> snd ` held_s t = {}"
    and "\<And>i. i \<in> live_ids cx t \<Longrightarrow> wf_id i" and "\<And>i. i \<in> live_ids cx t \<Longrightarrow> retained i t"
  shows "inv_stage cx t"
  using assms by (simp add: inv_stage_def)

lemma inv_stageD:
  assumes "eoa_inv cx s"
  shows "set (keys (es_pending s)) \<inter> set (keys (es_borrowed s)) = {}"
    and "set (keys (es_pending s)) \<inter> snd ` held_s s = {}"
    and "set (keys (es_borrowed s)) \<inter> snd ` held_s s = {}"
    and "i \<in> live_ids cx s \<Longrightarrow> wf_id i" and "i \<in> live_ids cx s \<Longrightarrow> retained i s"
  using assms by (simp_all add: eoa_inv_def inv_stage_def)

lemma live_ids_cases:
  "i \<in> live_ids cx s \<longleftrightarrow> i \<in> set (keys (es_pending s)) \<or> i \<in> set (keys (es_borrowed s))
     \<or> (i \<in> snd ` held_s s \<and> i \<noteq> NO_OP_TRANSACTION_ID)"
  by (auto simp: live_ids_def)

text \<open>A row added to the submitted set.\<close>

lemma held_s_rows: "inv_rows cx s \<Longrightarrow> held_s s = {(st_nonce t, st_transaction_id t) | t. \<exists>row \<in> set (es_submitted s). row_of t row}"
proof (intro equalityI subsetI)
  fix x assume "inv_rows cx s" and "x \<in> held_s s"
  then obtain t row where t: "x = (st_nonce t, st_transaction_id t)" "row \<in> set (es_submitted s)"
    "parse_member row = Some t" by (auto simp: held_s_def submitted_rec_def)
  moreover obtain t' where "row_of t' row" using \<open>inv_rows cx s\<close> t(2) by (auto simp: inv_rows_def)
  ultimately have "row_of t row" using row_of_parse by fastforce
  with t show "x \<in> {(st_nonce t, st_transaction_id t) | t. \<exists>row \<in> set (es_submitted s). row_of t row}" by blast
next
  fix x assume "x \<in> {(st_nonce t, st_transaction_id t) | t. \<exists>row \<in> set (es_submitted s). row_of t row}"
  then show "x \<in> held_s s" using row_of_parse by (force simp: held_s_def submitted_rec_def)
qed

lemma add_row_rows:
  assumes "inv_rows cx s" and "row_of t (m, n)" and "u = s\<lparr>es_submitted := zadd m n (es_submitted s)\<rparr>"
  shows "inv_rows cx u" and "held_s u \<subseteq> insert (n, st_transaction_id t) (held_s s)"
    and "(n, st_transaction_id t) \<in> held_s u"
    and "held_s s \<subseteq> held_s u \<union> {(n', i). i = st_transaction_id t}"
proof -
  have d: "distinct (keys (es_submitted s))" using assms(1) by (simp add: inv_rows_def)
  have set_u: "set (es_submitted u) = insert (m, n) {(k, v) \<in> set (es_submitted s). k \<noteq> m}"
    by (simp add: assms(3) set_zadd_distinct [OF d])
  have n: "n = st_nonce t" using row_of_nonce [OF assms(2)] by simp
  have p: "parse_member (m, n) = Some t" by (rule row_of_parse) (rule assms(2))
  show rows: "inv_rows cx u"
    using assms(1,2) set_u d unfolding inv_rows_def
    by (auto simp: assms(3) distinct_keys_zadd)
  show "held_s u \<subseteq> insert (n, st_transaction_id t) (held_s s)"
    using p n by (auto simp: held_s_def submitted_rec_def set_u)
  show "(n, st_transaction_id t) \<in> held_s u"
    using p n by (auto simp: held_s_def submitted_rec_def set_u)
  show "held_s s \<subseteq> held_s u \<union> {(n', i). i = st_transaction_id t}"
  proof
    fix x assume "x \<in> held_s s"
    then obtain t' row where x: "x = (st_nonce t', st_transaction_id t')"
      and row: "row \<in> set (es_submitted s)" "row_of t' row"
      unfolding held_s_rows [OF assms(1)] by auto
    show "x \<in> held_s u \<union> {(n', i). i = st_transaction_id t}"
    proof (cases "fst row = m")
      case True
      have "st_transaction_id t' = st_transaction_id t"
        using parse_member_fst [of row "(m, n)"] True row_of_parse [OF row(2)] p by simp
      then show ?thesis by (simp add: x)
    next
      case False
      then have "row \<in> set (es_submitted u)" using row(1) by (auto simp: set_u)
      then show ?thesis using row_of_parse [OF row(2)] by (auto simp: x held_s_def submitted_rec_def)
    qed
  qed
qed

end
