(* ===== verification/Eoa_Step.thy ===== *)
theory Eoa_Step
  imports Eoa_Inv
begin

text \<open>
  The steps of everybody who writes to the store of an account - admissions, lock takeovers,
  the commits of the worker that owns the lock, expiry of finished requests - and that every
  step keeps the invariant.
\<close>

subsection \<open>Commits\<close>

text \<open>
  A committed transaction: the owner held the lock when the validation read the store and when
  the pipeline ran, the watched keys did not change in between, and Redis accepted the commands.
\<close>

definition commits :: "string \<Rightarrow> ('v, 'r) SafeRedisTransaction \<Rightarrow> estore \<Rightarrow> estore \<Rightarrow> bool" where
  "commits w tx s s' \<longleftrightarrow>
     (\<exists>s0 v. es_lock s0 = Some w \<and> es_lock s = Some w
        \<and> (\<forall>k \<in> set (sr_watch_keys tx). same_key k s0 s)
        \<and> sr_validation tx s0 = Inr v \<and> list_all cmd_ok (fst (sr_operation tx v))
        \<and> s' = exec_pipeline (fst (sr_operation tx v)) s)"

subsection \<open>Reservations\<close>

lemma check_sequential_Inr:
  "check_sequential c i ns = Inr () \<Longrightarrow> ns = [c + i..<c + i + length ns] \<and> (ns \<noteq> [] \<longrightarrow> last ns \<le> u64_max)"
proof (induction c i ns rule: check_sequential.induct)
  case (2 c i n ns)
  from "2.prems" have n: "n = c + i" "c + i \<le> u64_max" and r: "check_sequential c (Suc i) ns = Inr ()"
    by (auto simp: checked_add_def split: if_splits)
  then have IH: "ns = [c + Suc i..<c + Suc i + length ns] \<and> (ns \<noteq> [] \<longrightarrow> last ns \<le> u64_max)"
    using "2.IH" [of "c + i"] by (simp add: checked_add_def)
  have "[c + i..<c + i + length (n # ns)] = (c + i) # [c + Suc i..<c + Suc i + length ns]"
    by (subst upt_conv_Cons) auto
  with IH n show ?case by (metis last_ConsL last_ConsR)
qed simp

lemma check_pending_Inr: "check_pending is s = Inr () \<longleftrightarrow> set is \<subseteq> set (keys (es_pending s))"
proof (cases "find (\<lambda>i. \<not> zmember i (es_pending s)) is")
  case None
  then have "set is \<subseteq> set (keys (es_pending s))" by (auto simp: find_None_iff zmember_def)
  with None show ?thesis by (simp add: check_pending_def)
next
  case (Some i)
  then have "i \<in> set is \<and> \<not> zmember i (es_pending s)" by (auto simp: find_Some_iff)
  with Some show ?thesis by (auto simp: check_pending_def zmember_def)
qed

lemma serialize_borrowed_Inr:
  assumes "serialize_borrowed cx txs = Inr js" and "codec_ok (cx_codec cx)"
  shows "length js = length txs"
    and "(d, j) \<in> set (zip txs js) \<Longrightarrow> borrowed_of_json (cx_codec cx) j = Some d"
proof -
  have m: "map (\<lambda>tx. case borrowed_to_json (cx_codec cx) tx of
               None \<Rightarrow> Inl (InternalError ''Failed to serialize borrowed transaction'')
             | Some j \<Rightarrow> Inr j) txs = map Inr js"
    using assms(1) unfolding serialize_borrowed_def by (rule collect_InrD)
  then show len: "length js = length txs" by (metis length_map)
  assume "(d, j) \<in> set (zip txs js)"
  then obtain k where k: "k < length txs" "txs ! k = d" "js ! k = j" using len by (auto simp: set_zip)
  then have "(case borrowed_to_json (cx_codec cx) d of
       None \<Rightarrow> Inl (InternalError ''Failed to serialize borrowed transaction'') | Some j \<Rightarrow> Inr j) = Inr j"
    using arg_cong [OF m, of "\<lambda>xs. xs ! k"] len by simp
  then have "borrowed_to_json (cx_codec cx) d = Some j" by (auto split: option.splits)
  then show "borrowed_of_json (cx_codec cx) j = Some d" using assms(2) by (auto simp: codec_ok_def)
qed

lemma exec_move_pairs:
  "exec_pipeline (concat (map (\<lambda>(d, j). [ZremPending [bd_transaction_id d], HsetBorrowed (bd_transaction_id d) j]) ps)) s
   = s\<lparr>es_pending := fold zrem (map (bd_transaction_id \<circ> fst) ps) (es_pending s),
       es_borrowed := fold (\<lambda>(i, j). hset i j) (map (\<lambda>(d, j). (bd_transaction_id d, j)) ps) (es_borrowed s)\<rparr>"
  by (induction ps arbitrary: s) auto

lemma exec_move_recycled:
  "exec_pipeline (concat (map (\<lambda>(d, j). [ZremRecycled [bd_nonce cx d], ZremPending [bd_transaction_id d],
                                        HsetBorrowed (bd_transaction_id d) j]) ps)) s
   = s\<lparr>es_pending := fold zrem (map (bd_transaction_id \<circ> fst) ps) (es_pending s),
       es_borrowed := fold (\<lambda>(i, j). hset i j) (map (\<lambda>(d, j). (bd_transaction_id d, j)) ps) (es_borrowed s),
       es_recycled := fold zrem (map (bd_nonce cx \<circ> fst) ps) (es_recycled s)\<rparr>"
  by (induction ps arbitrary: s) auto

lemma zip_maps:
  assumes "length js = length txs"
  shows "map (f \<circ> fst) (zip txs js) = map f txs"
  using assms by (metis map_fst_zip map_map)

lemma borrow_append:
  assumes inv: "eoa_inv cx s" and "distinct (map (bd_transaction_id \<circ> fst) ps)"
    and "set (map (bd_transaction_id \<circ> fst) ps) \<subseteq> set (keys (es_pending s))"
  shows "fold (\<lambda>(i, j). hset i j) (map (\<lambda>(d, j). (bd_transaction_id d, j)) ps) (es_borrowed s)
    = es_borrowed s @ map (\<lambda>(d, j). (bd_transaction_id d, j)) ps"
proof (rule fold_hset_new)
  have k: "keys (map (\<lambda>(d, j). (bd_transaction_id d, j)) ps) = map (bd_transaction_id \<circ> fst) ps"
    by (auto simp: keys_def)
  show "distinct (keys (map (\<lambda>(d, j). (bd_transaction_id d, j)) ps))" using assms(2) k by simp
  show "set (keys (map (\<lambda>(d, j). (bd_transaction_id d, j)) ps)) \<inter> set (keys (es_borrowed s)) = {}"
    using assms(3) inv_stageD(1) [OF inv] unfolding k by blast
qed

lemma inv_allocD:
  assumes "eoa_inv cx s" and "es_optimistic s = Some opt"
  shows "opt \<le> u64_max" and "n \<in> fst ` (held_b cx s \<union> held_s s) \<Longrightarrow> n < opt"
    and "n \<in> set (keys (es_recycled s)) \<Longrightarrow> n < opt" and "es_last_count s = Some c \<Longrightarrow> c \<le> opt"
  using assms by (auto simp: eoa_inv_def inv_alloc_def below_def)

lemma held_b_append:
  assumes "\<And>d j. (d, j) \<in> set ps \<Longrightarrow> borrowed_of_json (cx_codec cx) j = Some d"
    and "es_borrowed t = es_borrowed s @ map (\<lambda>(d, j). (bd_transaction_id d, j)) ps"
  shows "fst ` held_b cx t \<subseteq> fst ` held_b cx s \<union> set (map (bd_nonce cx \<circ> fst) ps)"
proof
  fix n assume "n \<in> fst ` held_b cx t"
  then obtain d i j where d: "n = bd_nonce cx d" "(i, j) \<in> set (es_borrowed t)"
    "borrowed_of_json (cx_codec cx) j = Some d" by (auto simp: held_b_def borrowed_rec_def)
  show "n \<in> fst ` held_b cx s \<union> set (map (bd_nonce cx \<circ> fst) ps)"
  proof (cases "(i, j) \<in> set (es_borrowed s)")
    case True
    then show ?thesis using d by (auto simp: held_b_def borrowed_rec_def image_iff)
  next
    case False
    then obtain d' where "(d', j) \<in> set ps" using d(2) by (auto simp: assms(2))
    then show ?thesis using assms(1) d(1,3) by force
  qed
qed

lemma Max_range: "0 < n \<Longrightarrow> Max {a..<a + n} = a + n - 1" for a n :: nat
  by (intro Max_eqI) auto

lemma sequential_range:
  assumes "check_sequential c 0 (sort ns) = Inr ()" and "ns \<noteq> []" and "last (sort ns) \<noteq> u64_max"
  shows "set ns = {c..<c + length ns}" and "Max (set ns) + 1 = c + length ns" and "c + length ns \<le> u64_max"
proof -
  have srt: "sort ns = [c..<c + length ns]" and lst: "sort ns \<noteq> [] \<longrightarrow> last (sort ns) \<le> u64_max"
    using check_sequential_Inr [OF assms(1), unfolded add_0_right length_sort] by blast+
  have pos: "0 < length ns" using assms(2) by simp
  have "set (sort ns) = {c..<c + length ns}" by (simp only: srt set_upt)
  then show set: "set ns = {c..<c + length ns}" by simp
  show "Max (set ns) + 1 = c + length ns" unfolding set Max_range [OF pos] using pos by simp
  have "last (sort ns) = c + length ns - 1" unfolding srt using pos by (simp add: last_upt)
  moreover have "sort ns \<noteq> []" using pos by (metis length_greater_0_conv length_sort)
  ultimately show "c + length ns \<le> u64_max" using lst assms(3) pos by linarith
qed

lemma move_incremented_valid:
  assumes "sr_validation (MovePendingToBorrowedWithIncrementedNonces cx txs) s = Inr js"
  shows "\<exists>opt. es_optimistic s = Some opt \<and> txs \<noteq> []
    \<and> distinct (map (bd_nonce cx) txs) \<and> distinct (map bd_transaction_id txs)
    \<and> check_sequential opt 0 (sort (map (bd_nonce cx) txs)) = Inr ()
    \<and> last (sort (map (bd_nonce cx) txs)) \<noteq> u64_max
    \<and> set (map bd_transaction_id txs) \<subseteq> set (keys (es_pending s)) \<and> serialize_borrowed cx txs = Inr js"
  using assms
  by (auto simp: MovePendingToBorrowedWithIncrementedNonces_def bind_result_Inr Let_def
      validate_unique_allocations_def check_pending_Inr split: if_splits option.splits)

lemma move_incremented_inv:
  assumes inv: "eoa_inv cx s" and ok: "codec_ok (cx_codec cx)"
    and c: "commits w (MovePendingToBorrowedWithIncrementedNonces cx txs) s s'"
  shows "eoa_inv cx s'"
proof -
  let ?tx = "MovePendingToBorrowedWithIncrementedNonces cx txs"
  from c obtain s0 js where k: "\<forall>k \<in> set (sr_watch_keys ?tx). same_key k s0 s"
    and v: "sr_validation ?tx s0 = Inr js" and s': "s' = exec_pipeline (fst (sr_operation ?tx js)) s"
    unfolding commits_def by blast
  from k have w: "es_pending s0 = es_pending s" "es_optimistic s0 = es_optimistic s"
    by (simp_all add: MovePendingToBorrowedWithIncrementedNonces_def)
  from move_incremented_valid [OF v] obtain opt where opt0: "es_optimistic s0 = Some opt"
    and ne: "txs \<noteq> []" and u: "distinct (map (bd_nonce cx) txs)" "distinct (map bd_transaction_id txs)"
    and sq: "check_sequential opt 0 (sort (map (bd_nonce cx) txs)) = Inr ()"
    and lst: "last (sort (map (bd_nonce cx) txs)) \<noteq> u64_max"
    and pend: "set (map bd_transaction_id txs) \<subseteq> set (keys (es_pending s0))"
    and js: "serialize_borrowed cx txs = Inr js" by blast
  let ?ps = "zip txs js" and ?n = "length txs"
  have opt: "es_optimistic s = Some opt" using opt0 w by simp
  note len = serialize_borrowed_Inr(1) [OF js ok] and dec = serialize_borrowed_Inr(2) [OF js ok]
  note range = sequential_range [OF sq _ lst]
  have ns: "set (map (bd_nonce cx) txs) = {opt..<opt + ?n}"
    and mx: "Max (set (map (bd_nonce cx) txs)) + 1 = opt + ?n" and bnd: "opt + ?n \<le> u64_max"
    using range ne by simp_all
  have ids: "map (bd_transaction_id \<circ> fst) ?ps = map bd_transaction_id txs"
    "map (bd_nonce cx \<circ> fst) ?ps = map (bd_nonce cx) txs" by (rule zip_maps [OF len])+
  have t: "s' = s\<lparr>es_pending := fold zrem (map (bd_transaction_id \<circ> fst) ?ps) (es_pending s),
       es_borrowed := es_borrowed s @ map (\<lambda>(d, j). (bd_transaction_id d, j)) ?ps,
       es_optimistic := Some (opt + ?n)\<rparr>"
    using borrow_append [OF inv, of ?ps] u pend w ne unfolding ids s'
    by (simp add: MovePendingToBorrowedWithIncrementedNonces_def exec_move_pairs mx [simplified] ids)
  have hb: "fst ` held_b cx s' \<subseteq> fst ` held_b cx s \<union> {opt..<opt + ?n}"
    using held_b_append [of ?ps cx s' s] dec unfolding ids ns by (simp add: t)
  have hs: "held_s s' = held_s s" by (rule held_s_cong) (simp add: t)
  have rs: "es_recycled s' = es_recycled s" by (simp add: t)
  have below: "below (fst ` (held_b cx s' \<union> held_s s') \<union> set (keys (es_recycled s'))) (es_optimistic s')"
  proof -
    have "m < opt + ?n" if "m \<in> fst ` (held_b cx s' \<union> held_s s') \<union> set (keys (es_recycled s'))" for m
    proof -
      have "m \<in> fst ` (held_b cx s \<union> held_s s) \<or> m \<in> {opt..<opt + ?n} \<or> m \<in> set (keys (es_recycled s))"
        using that hb unfolding hs by (auto simp: t image_Un)
      then show ?thesis using inv_allocD(2,3) [OF inv opt, of m]
        by (elim disjE) (simp_all add: trans_less_add1)
    qed
    then show ?thesis using bnd by (simp add: below_def t)
  qed
  show ?thesis
  proof (rule reserve_inv [OF inv, where ps = ?ps])
    show "set (map (bd_nonce cx \<circ> fst) ?ps) \<inter> fst ` (held_b cx s \<union> held_s s) = {}"
      unfolding ids ns disjoint_iff using inv_allocD(2) [OF inv opt] by (metis atLeastLessThan_iff leD)
    show "set (keys (es_recycled s')) \<inter> set (map (bd_nonce cx \<circ> fst) ?ps) = {}"
      unfolding ids ns disjoint_iff rs using inv_allocD(3) [OF inv opt] by (metis atLeastLessThan_iff leD)
    show "\<exists>opt. es_optimistic s' = Some opt \<and> c \<le> opt" if "es_last_count s = Some c" for c
      using inv_allocD(4) [OF inv opt that] by (simp add: t)
    show "distinct (keys (es_recycled s'))" using inv by (simp add: t eoa_inv_def inv_rows_def)
    show "distinct (map (bd_transaction_id \<circ> fst) ?ps)" "distinct (map (bd_nonce cx \<circ> fst) ?ps)"
      "set (map (bd_transaction_id \<circ> fst) ?ps) \<subseteq> set (keys (es_pending s))"
      unfolding ids using u pend w by simp_all
  qed (use dec below in \<open>simp_all add: t\<close>)
qed

lemma move_recycled_valid:
  assumes "sr_validation (MovePendingToBorrowedWithRecycledNonces cx txs) s = Inr js"
  shows "txs \<noteq> [] \<and> distinct (map (bd_nonce cx) txs) \<and> distinct (map bd_transaction_id txs)
    \<and> set (map (bd_nonce cx) txs) \<subseteq> set (keys (es_recycled s))
    \<and> set (map bd_transaction_id txs) \<subseteq> set (keys (es_pending s)) \<and> serialize_borrowed cx txs = Inr js"
  using assms
  by (auto simp: MovePendingToBorrowedWithRecycledNonces_def bind_result_Inr Let_def find_None_iff
      validate_unique_allocations_def check_pending_Inr split: if_splits option.splits)

lemma move_recycled_inv:
  assumes inv: "eoa_inv cx s" and ok: "codec_ok (cx_codec cx)"
    and c: "commits w (MovePendingToBorrowedWithRecycledNonces cx txs) s s'"
  shows "eoa_inv cx s'"
proof -
  let ?tx = "MovePendingToBorrowedWithRecycledNonces cx txs"
  from c obtain s0 js where k: "\<forall>k \<in> set (sr_watch_keys ?tx). same_key k s0 s"
    and v: "sr_validation ?tx s0 = Inr js" and s': "s' = exec_pipeline (fst (sr_operation ?tx js)) s"
    unfolding commits_def by blast
  from k have w: "es_pending s0 = es_pending s" "es_recycled s0 = es_recycled s"
    by (simp_all add: MovePendingToBorrowedWithRecycledNonces_def)
  from move_recycled_valid [OF v] have u: "distinct (map (bd_nonce cx) txs)" "distinct (map bd_transaction_id txs)"
    and ns: "set (map (bd_nonce cx) txs) \<subseteq> set (keys (es_recycled s))"
    and pend: "set (map bd_transaction_id txs) \<subseteq> set (keys (es_pending s))"
    and js: "serialize_borrowed cx txs = Inr js" using w by simp_all
  let ?ps = "zip txs js"
  note len = serialize_borrowed_Inr(1) [OF js ok] and dec = serialize_borrowed_Inr(2) [OF js ok]
  have ids: "map (bd_transaction_id \<circ> fst) ?ps = map bd_transaction_id txs"
    "map (bd_nonce cx \<circ> fst) ?ps = map (bd_nonce cx) txs" by (rule zip_maps [OF len])+
  have t: "s' = s\<lparr>es_pending := fold zrem (map (bd_transaction_id \<circ> fst) ?ps) (es_pending s),
       es_borrowed := es_borrowed s @ map (\<lambda>(d, j). (bd_transaction_id d, j)) ?ps,
       es_recycled := fold zrem (map (bd_nonce cx) txs) (es_recycled s)\<rparr>"
    using borrow_append [OF inv, of ?ps] u pend unfolding ids s'
    by (simp add: MovePendingToBorrowedWithRecycledNonces_def exec_move_recycled ids)
  have rk: "keys (es_recycled s') = filter (\<lambda>k. k \<notin> set (map (bd_nonce cx) txs)) (keys (es_recycled s))"
    by (simp add: t keys_fold_zrem)
  have hb: "fst ` held_b cx s' \<subseteq> fst ` held_b cx s \<union> set (map (bd_nonce cx) txs)"
    using held_b_append [of ?ps cx s' s] dec unfolding ids by (simp add: t)
  have hs: "held_s s' = held_s s" by (rule held_s_cong) (simp add: t)
  have "below (fst ` (held_b cx s' \<union> held_s s') \<union> set (keys (es_recycled s'))) (es_optimistic s)"
  proof (rule below_mono)
    show "below (fst ` (held_b cx s \<union> held_s s) \<union> set (keys (es_recycled s))) (es_optimistic s)"
      using inv by (simp add: eoa_inv_def inv_alloc_def)
    show "fst ` (held_b cx s' \<union> held_s s') \<union> set (keys (es_recycled s'))
        \<subseteq> fst ` (held_b cx s \<union> held_s s) \<union> set (keys (es_recycled s))"
      using hb ns unfolding hs rk image_Un by auto
  qed
  then have below: "below (fst ` (held_b cx s' \<union> held_s s') \<union> set (keys (es_recycled s'))) (es_optimistic s')"
    by (simp add: t)
  have last: "\<exists>opt. es_optimistic s' = Some opt \<and> c \<le> opt" if "es_last_count s = Some c" for c
    using that inv by (auto simp: t eoa_inv_def inv_alloc_def split: option.splits)
  show ?thesis
  proof (rule reserve_inv [OF inv, where ps = ?ps])
    show "set (map (bd_nonce cx \<circ> fst) ?ps) \<inter> fst ` (held_b cx s \<union> held_s s) = {}"
      unfolding ids using ns inv_nonceD(3) [of cx s] inv by (auto simp: eoa_inv_def)
    show "set (keys (es_recycled s')) \<inter> set (map (bd_nonce cx \<circ> fst) ?ps) = {}"
      unfolding ids rk by auto
    show "set (es_recycled s') \<subseteq> set (es_recycled s)" by (auto simp: t set_fold_zrem)
    show "distinct (keys (es_recycled s'))" using inv by (simp add: rk eoa_inv_def inv_rows_def)
    show "distinct (map (bd_transaction_id \<circ> fst) ?ps)" "distinct (map (bd_nonce cx \<circ> fst) ?ps)"
      "set (map (bd_transaction_id \<circ> fst) ?ps) \<subseteq> set (keys (es_pending s))"
      unfolding ids using u pend by simp_all
  qed (use dec below last in \<open>simp_all add: t\<close>)
qed

subsection \<open>Outcomes of sends\<close>

lemma retained_hset: "retained i s \<Longrightarrow> retained i (hset_data j f s)"
  by (cases f) (auto simp: retained_def hset_data_def split: option.splits)

fun is_webhook :: "eoa_cmd \<Rightarrow> bool" where
  "is_webhook (QueueWebhook x) = True"
| "is_webhook _ = False"

lemma is_webhookE: "is_webhook c \<Longrightarrow> (\<And>x. c = QueueWebhook x \<Longrightarrow> P) \<Longrightarrow> P"
  by (cases c) auto

lemma exec_webhooks:
  "(\<And>c. c \<in> set cs \<Longrightarrow> is_webhook c) \<Longrightarrow>
     \<exists>ws. exec_pipeline cs s = s\<lparr>es_webhooks := ws\<rparr>"
proof (induction cs arbitrary: s)
  case Nil
  have "exec_pipeline [] s = s\<lparr>es_webhooks := es_webhooks s\<rparr>" by simp
  then show ?case by blast
next
  case (Cons c cs)
  then have "is_webhook c" by simp
  then obtain x where "c = QueueWebhook x" by (rule is_webhookE)
  then show ?case using Cons.IH [of "exec_cmd c s"] Cons.prems by auto
qed

lemma queue_webhook_envelopes_cmds:
  "queue_webhook_envelopes cx ev opts = Some cs \<Longrightarrow> c \<in> set cs \<Longrightarrow> is_webhook c"
  by (auto simp: queue_webhook_envelopes_def split: if_splits)

lemma queue_or_log_cmds: "c \<in> set (queue_or_log cx ev opts) \<Longrightarrow> is_webhook c"
  by (cases "queue_webhook_envelopes cx ev opts")
     (auto simp: queue_or_log_def split: if_splits dest: queue_webhook_envelopes_cmds)

lemma exec_result_commands:
  assumes "sub_result r \<noteq> Uncertain"
  shows "\<exists>ws. exec_pipeline (result_commands cx r) s =
    (hset_data (sub_transaction_id r) (Status ''submitted'')
      (s\<lparr>es_borrowed := hdel (sub_transaction_id r) (es_borrowed s),
         es_submitted := zadd (fst (to_redis_string_with_nonce (sx_data (sub_transaction r))))
           (st_nonce (sx_data (sub_transaction r))) (es_submitted s),
         es_hash_to_id := (es_hash_to_id s)(st_transaction_hash (sx_data (sub_transaction r)) \<mapsto> sub_transaction_id r)\<rparr>))
      \<lparr>es_webhooks := ws\<rparr>"
proof -
  have w: "\<exists>ws. exec_pipeline (case result_webhooks cx r of None \<Rightarrow> [] | Some cmds \<Rightarrow> cmds) u = u\<lparr>es_webhooks := ws\<rparr>" for u
  proof (cases "result_webhooks cx r")
    case None
    then show ?thesis by (intro exI [of _ "es_webhooks u"]) simp
  next
    case (Some cs)
    then show ?thesis
      by (auto simp: result_webhooks_def Let_def split: if_splits intro!: exec_webhooks
          dest: queue_webhook_envelopes_cmds)
  qed
  show ?thesis using assms w
    by (simp add: result_commands_def Let_def to_redis_string_with_nonce_def)
qed

text \<open>One recorded outcome: the intent moves from borrowed to submitted under the nonce it holds.\<close>

definition result_ok :: "('tx, 'a, 'c) eoa_ctx \<Rightarrow> estore \<Rightarrow> ('a, 'c) SubmissionResult \<Rightarrow> bool" where
  "result_ok cx s r \<longleftrightarrow> sub_result r = Uncertain \<or>
     (wf_submitted (sx_data (sub_transaction r)) \<and> sub_transaction_id r \<noteq> NO_OP_TRANSACTION_ID
      \<and> (st_nonce (sx_data (sub_transaction r)), sub_transaction_id r) \<in> held_b cx s \<union> held_s s)"

lemma held_b_hdel:
  assumes "inv_rows cx s" and "es_borrowed t = hdel i (es_borrowed s)"
  shows "held_b cx t = {(n, k) \<in> held_b cx s. k \<noteq> i}"
proof -
  have "borrowed_rec cx t d \<longleftrightarrow> borrowed_rec cx s d \<and> bd_transaction_id d \<noteq> i" for d
    using assms by (fastforce simp: borrowed_rec_def inv_rows_def)
  then show ?thesis by (auto simp: held_b_def)
qed

lemma result_step:
  assumes inv: "eoa_inv cx s" and ok: "result_ok cx s r" and u: "sub_result r \<noteq> Uncertain"
    and t: "t = exec_pipeline (result_commands cx r) s"
  shows "eoa_inv cx t" and "held_b cx t \<union> held_s t = held_b cx s \<union> held_s s"
proof -
  let ?x = "sx_data (sub_transaction r)" and ?i = "sub_transaction_id r"
  have rows: "inv_rows cx s" and nonce: "inv_nonce cx s" using inv by (simp_all add: eoa_inv_def)
  have i: "?i = st_transaction_id ?x" by (simp add: sub_transaction_id_def)
  from ok u have wf: "wf_submitted ?x" and real: "?i \<noteq> NO_OP_TRANSACTION_ID"
    and held: "(st_nonce ?x, ?i) \<in> held_b cx s \<union> held_s s" by (auto simp: result_ok_def)
  define m where "m = fst (to_redis_string_with_nonce ?x)"
  define s1 where "s1 = s\<lparr>es_submitted := zadd m (st_nonce ?x) (es_submitted s)\<rparr>"
  have "to_redis_string_with_nonce ?x = (m, st_nonce ?x)" by (simp add: m_def to_redis_string_with_nonce_def)
  then have row: "row_of ?x (m, st_nonce ?x)" using row_of_to_redis [OF wf] real i by simp
  note add = add_row_rows [OF rows row s1_def]
  obtain ws where tw: "t = (hset_data ?i (Status ''submitted'')
      (s\<lparr>es_borrowed := hdel ?i (es_borrowed s), es_submitted := zadd m (st_nonce ?x) (es_submitted s),
         es_hash_to_id := (es_hash_to_id s)(st_transaction_hash ?x \<mapsto> ?i)\<rparr>))\<lparr>es_webhooks := ws\<rparr>"
    using exec_result_commands [OF u, of cx s] unfolding t m_def by blast
  have f: "es_pending t = es_pending s" "es_borrowed t = hdel ?i (es_borrowed s)"
    "es_submitted t = es_submitted s1" "es_recycled t = es_recycled s" "es_optimistic t = es_optimistic s"
    "es_last_count t = es_last_count s"
    by (simp_all add: tw hset_data_def s1_def)
  have ret: "retained k s \<Longrightarrow> retained k t" for k
    using retained_hset [of k _ ?i "Status ''submitted''"] unfolding tw by (simp add: retained_def)
  have hb: "held_b cx t = {(n, k) \<in> held_b cx s. k \<noteq> ?i}" by (rule held_b_hdel [OF rows f(2)])
  have hs: "held_s t = held_s s1" by (rule held_s_cong) (rule f(3))
  have one: "n = st_nonce ?x" if "(n, ?i) \<in> held_b cx s \<union> held_s s" for n
    by (rule inv_nonceD(2) [OF nonce that held real])
  have hs': "held_s t = insert (st_nonce ?x, ?i) (held_s s)"
    using add(2-4) one unfolding hs i by blast
  show un: "held_b cx t \<union> held_s t = held_b cx s \<union> held_s s"
    unfolding hb hs' using held one by blast
  have "inv_rows cx t"
    using add(1) rows by (auto simp: inv_rows_def f s1_def distinct_removeAll)
  moreover have "inv_stage cx t"
  proof (rule inv_stageI)
    have live: "k \<in> live_ids cx t \<Longrightarrow> k \<in> live_ids cx s" for k
      using held held_b_id [OF rows] real by (auto simp: live_ids_cases f hs' image_iff) force+
    show "set (keys (es_pending t)) \<inter> set (keys (es_borrowed t)) = {}"
      using inv_stageD(1) [OF inv] by (auto simp: f)
    have "?i \<notin> set (keys (es_pending s))"
      using held held_b_id [OF rows] inv_stageD(1,2) [OF inv] by force
    then show "set (keys (es_pending t)) \<inter> snd ` held_s t = {}"
      using inv_stageD(2) [OF inv] unfolding hs' f by auto
    show "set (keys (es_borrowed t)) \<inter> snd ` held_s t = {}"
      using inv_stageD(3) [OF inv] unfolding hs' f by auto
    show "wf_id k" if "k \<in> live_ids cx t" for k using inv_stageD(4) [OF inv live [OF that]] .
    show "retained k t" if "k \<in> live_ids cx t" for k using ret [OF inv_stageD(5) [OF inv live [OF that]]] .
  qed
  ultimately show "eoa_inv cx t"
    by (rule shrink_inv [OF inv]) (simp_all add: un f)
qed

lemma results_inv:
  "eoa_inv cx s \<Longrightarrow> (\<And>r. r \<in> set rs \<Longrightarrow> result_ok cx s r)
     \<Longrightarrow> eoa_inv cx (exec_pipeline (concat (map (result_commands cx) rs)) s)"
proof (induction rs arbitrary: s)
  case (Cons r rs)
  show ?case
  proof (cases "sub_result r = Uncertain")
    case True
    then show ?thesis using Cons by (simp add: result_commands_def)
  next
    case False
    let ?t = "exec_pipeline (result_commands cx r) s"
    note st = result_step [OF Cons.prems(1) Cons.prems(2) False refl]
    have "result_ok cx ?t r'" if "r' \<in> set rs" for r'
      using Cons.prems(2) [of r'] that st(2) by (simp add: result_ok_def)
    then show ?thesis using Cons.IH [OF st(1)] by simp
  qed
qed simp

lemma process_borrowed_inv:
  assumes inv: "eoa_inv cx s" and c: "commits w (ProcessBorrowedTransactions cx results) s s'"
    and ok: "\<And>r. r \<in> set results \<Longrightarrow> hexists (sub_transaction_id r) (es_borrowed s) \<Longrightarrow> result_ok cx s r"
  shows "eoa_inv cx s'"
proof -
  from c have "s' = exec_pipeline (concat (map (result_commands cx)
           (filter (\<lambda>r. hexists (sub_transaction_id r) (es_borrowed s)) results))) s"
    by (auto simp: commits_def ProcessBorrowedTransactions_def)
  moreover have "eoa_inv cx (exec_pipeline (concat (map (result_commands cx)
           (filter (\<lambda>r. hexists (sub_transaction_id r) (es_borrowed s)) results))) s)"
    by (rule results_inv [OF inv]) (auto intro: ok)
  ultimately show ?thesis by simp
qed

end
