(* ===== verification/Eoa_Clean.thy ===== *)
theory Eoa_Clean
  imports Eoa_Step
begin

text \<open>
  Settling submitted transactions: what the pipeline of \<open>CleanSubmittedTransactions\<close> removes from
  the submitted set, what it writes on requests and what it returns to pending, and that it keeps
  the invariant of the store.
\<close>

subsection \<open>The batch a cleanup works on\<close>

definition record_of :: "('a, 'c) SubmittedTransactionHydrated \<Rightarrow> SubmittedTransactionDehydrated" where
  "record_of tx = (case tx of Noop t \<Rightarrow> noop_record t | Real r \<Rightarrow> sx_data r)"

lemma record_of_simps [simp]:
  "st_nonce (record_of tx) = hydrated_nonce tx" "st_transaction_id (record_of tx) = hydrated_id tx"
  "st_transaction_hash (record_of tx) = hydrated_hash tx"
  by (cases tx; simp add: record_of_def noop_record_def)+

lemma hydrated_strings:
  "hydrated_to_redis tx = to_redis_string_with_nonce (record_of tx)"
  "hydrated_to_legacy tx = to_legacy_redis_string_with_nonce (record_of tx)"
  by (cases tx; simp add: record_of_def noop_to_redis noop_to_legacy)+

text \<open>No-op rows and real rows are told apart by the id, as the hydration does.\<close>

fun kind_ok :: "('a, 'c) SubmittedTransactionHydrated \<Rightarrow> bool" where
  "kind_ok (Noop _) = True"
| "kind_ok (Real r) = (st_transaction_id (sx_data r) \<noteq> NO_OP_TRANSACTION_ID)"

lemma hydrate_submitted_record:
  assumes "hydrate_submitted NO_OP_TRANSACTION_ID rq d = Inr tx" and "row_of d row"
  shows "record_of tx = d" and "kind_ok tx"
  using assms
  by (auto simp: hydrate_submitted_def record_of_def noop_record_def row_of_def split: if_splits option.splits)

lemma list_all2_mem_mono:
  "list_all2 P xs ys \<Longrightarrow> (\<And>x y. P x y \<Longrightarrow> x \<in> set xs \<Longrightarrow> Q x y) \<Longrightarrow> list_all2 Q xs ys"
  by (simp add: list_all2_conv_all_nth)

lemma set_from_redis_strings: "set (from_redis_strings rs) = {t. \<exists>row \<in> set rs. parse_member row = Some t}"
  by (induction rs) (auto simp: from_redis_strings_def map_filter_simps split: option.splits)

lemma hydrate_all_submitted_records:
  assumes "hydrate_all_submitted c ds s = Inr txs" and "\<And>d. d \<in> set ds \<Longrightarrow> \<exists>row. row_of d row"
  shows "map record_of txs = ds" and "list_all kind_ok txs"
proof -
  obtain f where f: "collect (map (\<lambda>d. hydrate_submitted NO_OP_TRANSACTION_ID (f d) d) ds) = Inr txs"
    using assms(1) by (auto simp: hydrate_all_submitted_def Let_def split: sum.splits)
  then have "list_all2 (\<lambda>d tx. hydrate_submitted NO_OP_TRANSACTION_ID (f d) d = Inr tx) ds txs"
    by (auto simp: collect_Inr_iff list_all2_conv_all_nth list_eq_iff_nth_eq)
  then have "list_all2 (\<lambda>d tx. record_of tx = d \<and> kind_ok tx) ds txs"
  proof (rule list_all2_mem_mono)
    fix d tx assume "hydrate_submitted NO_OP_TRANSACTION_ID (f d) d = Inr tx" and "d \<in> set ds"
    then show "record_of tx = d \<and> kind_ok tx" using assms(2) hydrate_submitted_record by blast
  qed
  then show "map record_of txs = ds" and "list_all kind_ok txs"
    by (auto simp: list_all2_conv_all_nth list_eq_iff_nth_eq list_all_length)
qed

lemma set_zrange [simp]: "set (zrange z) = set z"
  by (simp add: zrange_def)

lemma nonce_groups_set:
  "nonce_groups ns z = Inr rows \<Longrightarrow> set rows = {(m, n) \<in> set z. n \<in> set ns}"
  by (auto simp: nonce_groups_def zrangebyscore_rows_def split: if_splits)

text \<open>The batch is closed: with one row of a nonce it holds every row of that nonce.\<close>

lemma clean_batch:
  assumes all_rows: "\<forall>row \<in> set (es_submitted s). \<exists>t. row_of t row"
    and v: "clean_submitted_validation cx confirmed counts s = Inr txs"
  shows "tx \<in> set txs \<Longrightarrow> \<exists>row \<in> set (es_submitted s). row_of (record_of tx) row"
    and "tx \<in> set txs \<Longrightarrow> in_range counts (hydrated_nonce tx)"
    and "tx \<in> set txs \<Longrightarrow> row \<in> set (es_submitted s) \<Longrightarrow> snd row = hydrated_nonce tx
           \<Longrightarrow> \<exists>tx' \<in> set txs. row_of (record_of tx') row"
    and "list_all kind_ok txs"
    and "ct \<in> set confirmed \<Longrightarrow> ct_nonce ct < max (tc_preconfirmed counts) (tc_latest counts) \<Longrightarrow> row \<in> set (es_submitted s)
           \<Longrightarrow> snd row = ct_nonce ct \<Longrightarrow> \<exists>tx' \<in> set txs. row_of (record_of tx') row"
    and "list_all evidence_matches confirmed"
proof -
  note rows = bspec [OF all_rows]
  define ns where "ns = sort (remdups (filter (\<lambda>n. n < max (tc_preconfirmed counts) (tc_latest counts)) (map ct_nonce confirmed)))"
  have "\<exists>rs. set rs = {(m, n) \<in> set (es_submitted s). n \<in> set ns} \<and> map record_of txs = from_redis_strings rs \<and> list_all kind_ok txs"
  proof (cases "ns = []")
    case True
    then have "txs = []" using v by (auto simp: clean_submitted_validation_def ns_def Let_def split: if_splits)
    then show ?thesis using True by (intro exI [of _ "[]"]) (simp add: from_redis_strings_def map_filter_simps)
  next
    case False
    obtain rs where rs: "nonce_groups ns (es_submitted s) = Inr rs"
      and h: "hydrate_all_submitted (cx_codec cx) (from_redis_strings rs) s = Inr txs"
      using v False by (auto simp: clean_submitted_validation_def ns_def Let_def bind_result_Inr split: if_splits)
    note set_rs = nonce_groups_set [OF rs]
    have "\<exists>row. row_of d row" if d: "d \<in> set (from_redis_strings rs)" for d
    proof -
      obtain row where row: "row \<in> set rs" "parse_member row = Some d"
        using d by (auto simp: set_from_redis_strings)
      obtain t where "row_of t row" using rows [of row] row(1) set_rs by auto
      then show ?thesis using row(2) row_of_parse by fastforce
    qed
    then show ?thesis using hydrate_all_submitted_records [OF h] set_rs by blast
  qed
  then obtain rs where set_rs: "set rs = {(m, n) \<in> set (es_submitted s). n \<in> set ns}"
    and m: "map record_of txs = from_redis_strings rs" and k: "list_all kind_ok txs" by blast
  have recs: "t \<in> record_of ` set txs \<longleftrightarrow> (\<exists>row \<in> set rs. row_of t row)" for t
  proof -
    have "t \<in> record_of ` set txs \<longleftrightarrow> (\<exists>row \<in> set rs. parse_member row = Some t)"
      using arg_cong [OF m, of set] by (simp add: set_from_redis_strings)
    also have "\<dots> \<longleftrightarrow> (\<exists>row \<in> set rs. row_of t row)"
    proof (intro bex_cong refl iffI)
      fix row assume r: "row \<in> set rs" and p: "parse_member row = Some t"
      obtain t' where "row_of t' row" using rows [of row] r set_rs by auto
      then show "row_of t row" using p row_of_parse by fastforce
    qed (rule row_of_parse)
    finally show ?thesis .
  qed
  show "list_all kind_ok txs" by (rule k)
  show r1: "\<exists>row \<in> set (es_submitted s). row_of (record_of tx) row" if "tx \<in> set txs" for tx
    using recs [of "record_of tx"] that set_rs by auto
  have ns1: "hydrated_nonce tx \<in> set ns" if tx: "tx \<in> set txs" for tx
  proof -
    obtain row where "row \<in> set rs" "row_of (record_of tx) row" using recs [of "record_of tx"] tx by auto
    then have "snd row = hydrated_nonce tx" and "snd row \<in> set ns"
      using row_of_nonce [of "record_of tx" row] set_rs by (simp, force)
    then show ?thesis by simp
  qed
  show "in_range counts (hydrated_nonce tx)" if "tx \<in> set txs"
    using ns1 [OF that] by (auto simp: ns_def in_range_def)
  have all: "\<exists>tx' \<in> set txs. row_of (record_of tx') row"
    if row: "row \<in> set (es_submitted s)" "snd row \<in> set ns" for row
  proof -
    obtain t where t: "row_of t row" using rows row(1) by blast
    obtain m n where r: "row = (m, n)" by (cases row)
    have "row \<in> set rs" using row unfolding set_rs r by simp
    then have "t \<in> record_of ` set txs" using recs [of t] t by blast
    then show ?thesis using t by blast
  qed
  show "\<exists>tx' \<in> set txs. row_of (record_of tx') row"
    if "tx \<in> set txs" "row \<in> set (es_submitted s)" "snd row = hydrated_nonce tx" for row
    using all [OF that(2)] ns1 [OF that(1)] that(3) by simp
  show "\<exists>tx' \<in> set txs. row_of (record_of tx') row"
    if "ct \<in> set confirmed" "ct_nonce ct < max (tc_preconfirmed counts) (tc_latest counts)"
      "row \<in> set (es_submitted s)" "snd row = ct_nonce ct"
    using all [OF that(3)] that(1,2,4) by (auto simp: ns_def)
  show "list_all evidence_matches confirmed"
    using v by (auto simp: clean_submitted_validation_def split: if_splits)
qed

subsection \<open>The pipeline of a cleanup\<close>

text \<open>What the commands may do: write requests of confirmed ids, drop rows and hashes, queue webhooks.\<close>

fun clean_cmd :: "clean_info \<Rightarrow> tx_id set \<Rightarrow> eoa_cmd \<Rightarrow> bool" where
  "clean_cmd ci ids (HsetData i _) \<longleftrightarrow> i \<in> ids \<and> ci_confirmed ci i \<noteq> None"
| "clean_cmd ci ids (ExpireData i _) \<longleftrightarrow> i \<in> ids \<and> ci_confirmed ci i \<noteq> None"
| "clean_cmd ci ids (ExpireAttempts i _) \<longleftrightarrow> i \<in> ids \<and> ci_confirmed ci i \<noteq> None"
| "clean_cmd ci ids (ZremSubmitted _) \<longleftrightarrow> True"
| "clean_cmd ci ids (DelHashToId _) \<longleftrightarrow> True"
| "clean_cmd ci ids (QueueWebhook _) \<longleftrightarrow> True"
| "clean_cmd ci ids _ \<longleftrightarrow> False"

lemma clean_cmd_webhook: "is_webhook c \<Longrightarrow> clean_cmd ci ids c"
  by (cases c) auto

lemma clean_cmd_mono: "clean_cmd ci ids c \<Longrightarrow> ids \<subseteq> js \<Longrightarrow> clean_cmd ci js c"
  by (cases c) auto

lemma settle_commands_clean:
  "ci_confirmed ci i = Some ct \<Longrightarrow> i \<in> ids \<Longrightarrow> c \<in> set (settle_commands cx now i ct tx) \<Longrightarrow> clean_cmd ci ids c"
  by (auto simp: settle_commands_def Let_def dest!: queue_or_log_cmds intro: clean_cmd_webhook
      split: if_splits SubmittedTransactionHydrated.splits)

definition goes_back :: "clean_info \<Rightarrow> ('a, 'c) SubmittedTransactionHydrated \<Rightarrow> bool" where
  "goes_back ci tx \<longleftrightarrow> hydrated_id tx \<noteq> NO_OP_TRANSACTION_ID \<and> ci_confirmed ci (hydrated_id tx) = None
     \<and> proven_replaced ci (hydrated_nonce tx)"

lemma decide_outcome_effect:
  assumes "decide_outcome cx now ci tx report = (cmds, bk, report')" and "hydrated_id tx \<in> ids"
  shows "c \<in> set cmds \<Longrightarrow> clean_cmd ci ids c"
    and "set bk \<subseteq> {(q, hydrated_id tx) | q. goes_back ci tx}"
    and "kind_ok tx \<Longrightarrow> goes_back ci tx \<Longrightarrow> hydrated_id tx \<in> snd ` set bk"
proof -
  show "clean_cmd ci ids c" if "c \<in> set cmds"
    using assms that
    by (auto simp: decide_outcome_def Let_def split: if_splits option.splits SubmittedTransactionHydrated.splits
        dest!: queue_or_log_cmds intro: clean_cmd_webhook settle_commands_clean)
  show "set bk \<subseteq> {(q, hydrated_id tx) | q. goes_back ci tx}"
    using assms
    by (auto simp: decide_outcome_def Let_def goes_back_def
        split: if_splits option.splits SubmittedTransactionHydrated.splits)
  show "hydrated_id tx \<in> snd ` set bk" if "kind_ok tx" "goes_back ci tx"
    using assms that
    by (cases tx) (auto simp: decide_outcome_def Let_def goes_back_def)
qed

lemma cleanup_hash_clean: "c \<in> set (cleanup_hash ci tx) \<Longrightarrow> clean_cmd ci ids c"
  by (auto simp: cleanup_hash_def remove_from_submitted_def split: if_splits SubmittedTransactionHydrated.splits)

lemma clean_loop_Cons:
  assumes "clean_loop cx now ci (t # txs) processed replaced report = (cmds, replaced', processed', report')"
  obtains (skip) "\<not> in_range (ci_counts ci) (hydrated_nonce t)"
      "clean_loop cx now ci txs processed replaced report = (cmds, replaced', processed', report')"
    | (again) rest where "in_range (ci_counts ci) (hydrated_nonce t)" "hydrated_id t \<in> set processed"
      "clean_loop cx now ci txs (sadd (hydrated_id t) processed) replaced report = (rest, replaced', processed', report')"
      "cmds = cleanup_hash ci t @ rest"
    | (first) first bk report0 rest where "in_range (ci_counts ci) (hydrated_nonce t)" "hydrated_id t \<notin> set processed"
      "decide_outcome cx now ci t report = (first, bk, report0)"
      "clean_loop cx now ci txs (sadd (hydrated_id t) processed) (replaced @ bk) report0 = (rest, replaced', processed', report')"
      "cmds = first @ cleanup_hash ci t @ rest"
proof (cases "in_range (ci_counts ci) (hydrated_nonce t)")
  case True
  show ?thesis
  proof (cases "hydrated_id t \<in> set processed")
    case p: True
    obtain rest r' p' q' where "clean_loop cx now ci txs (sadd (hydrated_id t) processed) replaced report = (rest, r', p', q')"
      by (cases "clean_loop cx now ci txs (sadd (hydrated_id t) processed) replaced report") auto
    then show ?thesis using again [of rest] assms True p by simp
  next
    case p: False
    obtain first bk report0 where d: "decide_outcome cx now ci t report = (first, bk, report0)"
      by (cases "decide_outcome cx now ci t report") auto
    obtain rest r' p' q' where "clean_loop cx now ci txs (sadd (hydrated_id t) processed) (replaced @ bk) report0 = (rest, r', p', q')"
      by (cases "clean_loop cx now ci txs (sadd (hydrated_id t) processed) (replaced @ bk) report0") auto
    then show ?thesis using first [OF True p d, of rest] assms True p d by simp
  qed
qed (use skip assms in simp)

lemma clean_loop_cmds:
  "clean_loop cx now ci txs processed replaced report = (cmds, replaced', processed', report')
     \<Longrightarrow> hydrated_id ` set txs \<subseteq> ids \<Longrightarrow> c \<in> set cmds \<Longrightarrow> clean_cmd ci ids c"
proof (induction txs arbitrary: processed replaced report cmds)
  case (Cons t txs)
  from Cons.prems(1) show ?case
    by (rule clean_loop_Cons)
      (use Cons.IH Cons.prems(2,3) in \<open>auto dest: decide_outcome_effect(1) cleanup_hash_clean [where ids = ids]\<close>)
qed simp

lemma clean_loop_replaced:
  "clean_loop cx now ci txs processed replaced report = (cmds, replaced', processed', report')
     \<Longrightarrow> set replaced' \<subseteq> set replaced \<union> {(q, hydrated_id tx) | q tx. tx \<in> set txs \<and> goes_back ci tx}"
proof (induction txs arbitrary: processed replaced report cmds)
  case (Cons t txs)
  from Cons.prems show ?case
  proof (rule clean_loop_Cons)
    fix first bk report0 rest
    assume "decide_outcome cx now ci t report = (first, bk, report0)"
      and "clean_loop cx now ci txs (sadd (hydrated_id t) processed) (replaced @ bk) report0 = (rest, replaced', processed', report')"
    then show ?thesis
      using Cons.IH [of "sadd (hydrated_id t) processed" "replaced @ bk" report0 rest]
        decide_outcome_effect(2) [of cx now ci t report first bk report0 UNIV] by fastforce
  qed (use Cons.IH in fastforce)+
qed simp

lemma clean_loop_cleanup:
  "clean_loop cx now ci txs processed replaced report = (cmds, replaced', processed', report')
     \<Longrightarrow> tx \<in> set txs \<Longrightarrow> in_range (ci_counts ci) (hydrated_nonce tx) \<Longrightarrow> set (cleanup_hash ci tx) \<subseteq> set cmds"
proof (induction txs arbitrary: processed replaced report cmds)
  case (Cons t txs)
  from Cons.prems(1) show ?case
    by (rule clean_loop_Cons) (use Cons.IH Cons.prems(2,3) in fastforce)+
qed simp

subsection \<open>The store after a cleanup\<close>

lemma exec_clean_submitted:
  assumes "\<forall>c \<in> set cmds. clean_cmd ci ids c"
  shows "es_submitted (exec_pipeline cmds s) = filter (\<lambda>(m, n). ZremSubmitted m \<notin> set cmds) (es_submitted s)"
  using assms
proof (induction cmds arbitrary: s)
  case (Cons c cmds)
  have "es_submitted (exec_cmd c s) = filter (\<lambda>(m, n). c \<noteq> ZremSubmitted m) (es_submitted s)"
    using Cons.prems by (cases c) (auto simp: hset_data_def zrem_def AList.delete_eq intro: filter_cong)
  then show ?case using Cons.IH [of "exec_cmd c s"] Cons.prems
    by (simp add: case_prod_beta) (auto intro: filter_cong)
qed simp

lemma exec_clean_frame:
  assumes "\<forall>c \<in> set cmds. clean_cmd ci ids c"
  shows "es_pending (exec_pipeline cmds s) = es_pending s" "es_borrowed (exec_pipeline cmds s) = es_borrowed s"
    "es_recycled (exec_pipeline cmds s) = es_recycled s" "es_optimistic (exec_pipeline cmds s) = es_optimistic s"
    "es_last_count (exec_pipeline cmds s) = es_last_count s"
proof -
  have w: "writes c \<noteq> Some k" if "c \<in> set cmds" and "k \<noteq> SubmittedKey" for c k
    using bspec [OF assms that(1)] that(2) by (cases c) auto
  have "same_key k (exec_pipeline cmds s) s" if "k \<noteq> SubmittedKey" for k
    by (rule exec_pipeline_frame) (rule w [OF _ that])
  from this [of PendingKey] this [of BorrowedKey] this [of RecycledKey] this [of OptimisticKey] this [of LastCountKey]
  show "es_pending (exec_pipeline cmds s) = es_pending s" "es_borrowed (exec_pipeline cmds s) = es_borrowed s"
    "es_recycled (exec_pipeline cmds s) = es_recycled s" "es_optimistic (exec_pipeline cmds s) = es_optimistic s"
    "es_last_count (exec_pipeline cmds s) = es_last_count s" by simp_all
qed

lemma exec_clean_retained:
  assumes "\<forall>c \<in> set cmds. clean_cmd ci ids c" and "i \<notin> ids \<or> ci_confirmed ci i = None"
  shows "retained i (exec_pipeline cmds s) = retained i s"
proof -
  have "writes_data c \<noteq> Some i" if "c \<in> set cmds" for c
    using bspec [OF assms(1) that] assms(2) by (cases c) auto
  then show ?thesis by (simp add: retained_def exec_pipeline_data)
qed

lemma cleanup_hash_removes:
  assumes "row_of (record_of tx) row" and "cleanup_hash ci tx \<noteq> []"
  shows "ZremSubmitted (fst row) \<in> set (cleanup_hash ci tx)"
proof -
  have "cleanup_hash ci tx = remove_from_submitted tx"
    using assms(2) by (auto simp: cleanup_hash_def split: if_splits SubmittedTransactionHydrated.splits)
  then show ?thesis using assms(1) by (auto simp: remove_from_submitted_def hydrated_strings row_of_def)
qed

lemma cleanup_hash_settles:
  "kind_ok tx \<Longrightarrow> ci_confirmed ci (hydrated_id tx) \<noteq> None \<or> goes_back ci tx \<Longrightarrow> cleanup_hash ci tx \<noteq> []"
  by (cases tx) (auto simp: cleanup_hash_def goes_back_def remove_from_submitted_def)

lemma keys_fold_zadd:
  "set (keys (fold (\<lambda>(q, i). zadd i q) xs z)) = set (keys z) \<union> snd ` set xs"
  "distinct (keys z) \<Longrightarrow> distinct (keys (fold (\<lambda>(q, i). zadd i q) xs z))"
proof (induction xs arbitrary: z)
  case (Cons x xs)
  { case 1 then show ?case using Cons(1) by (cases x) (auto simp: keys_zadd) next
    case 2 then show ?case using Cons(2) by (cases x) (simp add: distinct_keys_zadd) }
qed simp_all

definition clean_commit ::
  "('tx, 'a, 'c) eoa_ctx \<Rightarrow> clean_info \<Rightarrow> ('a, 'c) SubmittedTransactionHydrated list \<Rightarrow> eoa_cmd list
     \<Rightarrow> (nat \<times> tx_id) list \<Rightarrow> bool" where
  "clean_commit cx ci txs cmds replaced \<longleftrightarrow>
     (\<forall>c \<in> set cmds. clean_cmd ci (hydrated_id ` set txs) c)
     \<and> set replaced \<subseteq> {(q, hydrated_id tx) | q tx. tx \<in> set txs \<and> goes_back ci tx}
     \<and> (\<forall>tx \<in> set txs. in_range (ci_counts ci) (hydrated_nonce tx) \<longrightarrow> set (cleanup_hash ci tx) \<subseteq> set cmds)"

lemma clean_submitted_loop:
  obtains report0 cmds replaced p r where
    "clean_loop cx now (clean_info_of confirmed counts txs) txs [] [] report0 = (cmds, replaced, p, r)"
    "fst (sr_operation (CleanSubmittedTransactions cx now confirmed counts) txs)
       = cmds @ (if replaced = [] then [] else [ZaddPending replaced])"
proof -
  define ci where "ci = clean_info_of confirmed counts txs"
  obtain cross per_nonce without where v:
    "detect_violations txs (map ct_transaction_hash (confirmed_members confirmed txs)) = (cross, per_nonce, without)"
    by (cases "detect_violations txs (map ct_transaction_hash (confirmed_members confirmed txs))") auto
  define report0 where "report0 = empty_report\<lparr>cr_cross_nonce_violations := cross,
      cr_per_nonce_violations := per_nonce, cr_nonces_without_receipts := without\<rparr>"
  obtain cmds replaced p r where l: "clean_loop cx now ci txs [] [] report0 = (cmds, replaced, p, r)"
    by (cases "clean_loop cx now ci txs [] [] report0") auto
  have "fst (sr_operation (CleanSubmittedTransactions cx now confirmed counts) txs)
       = cmds @ (if replaced = [] then [] else [ZaddPending replaced])"
    using l by (simp add: CleanSubmittedTransactions_def v ci_def report0_def Let_def)
  then show thesis using that l ci_def by simp
qed

lemma clean_loop_commit:
  assumes "clean_loop cx now ci txs [] [] report0 = (cmds, replaced, p, r)"
  shows "clean_commit cx ci txs cmds replaced"
  using clean_loop_cmds [OF assms order_refl] clean_loop_replaced [OF assms] clean_loop_cleanup [OF assms]
  by (auto simp: clean_commit_def)

lemma distinct_keys_filter: "distinct (keys z) \<Longrightarrow> distinct (keys (filter P z))"
  by (auto simp: keys_def distinct_map intro: inj_on_subset)

text \<open>Every row of an intent that is settled or goes back leaves the submitted set.\<close>

lemma clean_removes_intent:
  assumes inv: "eoa_inv cx s"
    and v: "clean_submitted_validation cx confirmed counts s0 = Inr txs" and sub: "es_submitted s0 = es_submitted s"
    and cc: "clean_commit cx ci txs cmds replaced" and counts: "ci_counts ci = counts"
    and tx: "tx \<in> set txs" "ci_confirmed ci (hydrated_id tx) \<noteq> None \<or> goes_back ci tx"
      "hydrated_id tx \<noteq> NO_OP_TRANSACTION_ID"
  shows "hydrated_id tx \<notin> snd ` held_s (exec_pipeline cmds s)"
proof
  have rows: "inv_rows cx s" and nonce: "inv_nonce cx s" using inv by (simp_all add: eoa_inv_def)
  have rows0: "\<forall>row \<in> set (es_submitted s0). \<exists>t. row_of t row"
    using rows unfolding sub by (simp add: inv_rows_def)
  note batch = clean_batch [OF rows0 v, unfolded sub]
  have clean: "\<forall>c \<in> set cmds. clean_cmd ci (hydrated_id ` set txs) c"
    using cc by (simp add: clean_commit_def)
  note sub' = exec_clean_submitted [OF clean, where s = s]
  assume "hydrated_id tx \<in> snd ` held_s (exec_pipeline cmds s)"
  then obtain t row where id: "st_transaction_id t = hydrated_id tx" and row: "row \<in> set (es_submitted s)"
    and kept: "ZremSubmitted (fst row) \<notin> set cmds" and p: "parse_member row = Some t"
    by (auto simp: held_s_def submitted_rec_def sub')
  obtain t' where "row_of t' row" using rows row by (auto simp: inv_rows_def)
  then have rt: "row_of t row" using row_of_parse p by fastforce
  have h1: "(st_nonce t, hydrated_id tx) \<in> held_s s"
    using row p id by (force simp: held_s_def submitted_rec_def)
  obtain row0 where "row0 \<in> set (es_submitted s)" "row_of (record_of tx) row0" using batch(1) [OF tx(1)] by blast
  then have h2: "(hydrated_nonce tx, hydrated_id tx) \<in> held_s s"
    using row_of_parse [of "record_of tx" row0] by (force simp: held_s_def submitted_rec_def)
  have n: "st_nonce t = hydrated_nonce tx"
    by (rule inv_nonceD(2) [OF nonce UnI2 [OF h1] UnI2 [OF h2] tx(3)])
  then obtain tx' where tx': "tx' \<in> set txs" "row_of (record_of tx') row"
    using batch(3) [OF tx(1) row] row_of_nonce [OF rt] by auto
  have "record_of tx' = t" by (rule row_of_unique [OF tx'(2) rt])
  then have same: "hydrated_id tx' = hydrated_id tx" "hydrated_nonce tx' = hydrated_nonce tx"
    using id n record_of_simps(1,2) [of tx'] by simp_all
  have "kind_ok tx'" using batch(4) tx'(1) by (simp add: list_all_iff)
  then have "cleanup_hash ci tx' \<noteq> []"
    by (rule cleanup_hash_settles) (use tx(2) same in \<open>simp add: goes_back_def\<close>)
  then have "ZremSubmitted (fst row) \<in> set (cleanup_hash ci tx')" by (rule cleanup_hash_removes [OF tx'(2)])
  moreover have "set (cleanup_hash ci tx') \<subseteq> set cmds"
    using cc tx'(1) batch(2) [OF tx'(1)] counts by (simp add: clean_commit_def)
  ultimately show False using kept by blast
qed

lemma clean_submitted_inv:
  assumes inv: "eoa_inv cx s" and c: "commits w (CleanSubmittedTransactions cx now confirmed counts) s s'"
  shows "eoa_inv cx s'"
proof -
  have rows: "inv_rows cx s" using inv by (simp add: eoa_inv_def)
  obtain s0 txs where sub: "es_submitted s0 = es_submitted s"
    and v: "clean_submitted_validation cx confirmed counts s0 = Inr txs"
    and s': "s' = exec_pipeline (fst (sr_operation (CleanSubmittedTransactions cx now confirmed counts) txs)) s"
    using c by (auto simp: commits_def CleanSubmittedTransactions_def)
  define ci where "ci = clean_info_of confirmed counts txs"
  have counts: "ci_counts ci = counts" by (simp add: ci_def clean_info_of_def Let_def)
  obtain cmds replaced where cc: "clean_commit cx ci txs cmds replaced"
    and pipe: "fst (sr_operation (CleanSubmittedTransactions cx now confirmed counts) txs)
       = cmds @ (if replaced = [] then [] else [ZaddPending replaced])"
    using clean_submitted_loop [of cx now confirmed counts txs] clean_loop_commit unfolding ci_def by metis
  define t where "t = exec_pipeline cmds s"
  have st: "s' = t\<lparr>es_pending := fold (\<lambda>(q, i). zadd i q) replaced (es_pending t)\<rparr>"
    unfolding s' pipe t_def by simp
  have clean: "\<forall>c \<in> set cmds. clean_cmd ci (hydrated_id ` set txs) c"
    using cc by (simp add: clean_commit_def)
  note frame = exec_clean_frame [OF clean, where s = s, folded t_def]
  note sub_t = exec_clean_submitted [OF clean, where s = s, folded t_def]
  have rows0: "\<forall>row \<in> set (es_submitted s0). \<exists>t. row_of t row"
    using rows unfolding sub by (simp add: inv_rows_def)
  note batch = clean_batch [OF rows0 v, unfolded sub]
  have gone: "hydrated_id tx \<notin> snd ` held_s t" if "tx \<in> set txs"
    "ci_confirmed ci (hydrated_id tx) \<noteq> None \<or> goes_back ci tx" "hydrated_id tx \<noteq> NO_OP_TRANSACTION_ID" for tx
    unfolding t_def by (rule clean_removes_intent [OF inv v sub cc counts that])
  have ids: "hydrated_id tx \<in> snd ` held_s s" if tx: "tx \<in> set txs" for tx
  proof -
    obtain row where "row \<in> set (es_submitted s)" "row_of (record_of tx) row" using batch(1) [OF tx] by blast
    then show ?thesis using row_of_parse [of "record_of tx" row] by (force simp: held_s_def submitted_rec_def)
  qed
  have hb: "held_b cx s' = held_b cx s" and hs: "held_s s' = held_s t"
    by (rule held_b_cong held_s_cong, simp add: st frame)+
  have hst: "held_s t \<subseteq> held_s s" by (auto simp: held_s_def submitted_rec_def sub_t)
  have bk: "i \<notin> snd ` held_s t \<and> i \<in> snd ` held_s s \<and> i \<noteq> NO_OP_TRANSACTION_ID \<and> retained i t"
    if i: "i \<in> snd ` set replaced" for i
  proof -
    obtain tx where tx: "tx \<in> set txs" "goes_back ci tx" "i = hydrated_id tx"
      using cc i by (auto simp: clean_commit_def)
    have nn: "i \<noteq> NO_OP_TRANSACTION_ID" and nc: "ci_confirmed ci i = None" using tx(2,3) by (auto simp: goes_back_def)
    then have "retained i s" using ids [OF tx(1)] inv_stageD(5) [OF inv, of i] tx(3) by (simp add: live_ids_cases)
    then have "retained i t" unfolding t_def by (subst exec_clean_retained [OF clean]) (simp_all add: nc)
    then show ?thesis using gone [OF tx(1)] ids [OF tx(1)] tx nn by simp
  qed
  have keep: "retained i t" if i: "i \<in> live_ids cx s" "i \<in> hydrated_id ` set txs \<longrightarrow> i \<in> snd ` held_s t" for i
  proof -
    have "i \<notin> hydrated_id ` set txs \<or> ci_confirmed ci i = None"
      using gone i(2) inv_stageD(4) [OF inv i(1)] unfolding wf_id_def by blast
    then show ?thesis unfolding t_def
      by (subst exec_clean_retained [OF clean]) (auto intro: inv_stageD(5) [OF inv i(1)])
  qed
  have pend: "set (keys (es_pending s')) = set (keys (es_pending s)) \<union> snd ` set replaced"
    by (simp add: st frame keys_fold_zadd)
  have b: "es_borrowed s' = es_borrowed s" by (simp add: st frame)
  have "inv_rows cx s'"
    using rows by (auto simp: inv_rows_def st frame sub_t keys_fold_zadd distinct_keys_filter)
  moreover have "inv_stage cx s'"
  proof (rule inv_stageI)
    show "set (keys (es_pending s')) \<inter> set (keys (es_borrowed s')) = {}"
      using inv_stageD(1,3) [OF inv] bk unfolding pend b by blast
    show "set (keys (es_pending s')) \<inter> snd ` held_s s' = {}"
      using inv_stageD(2) [OF inv] hst bk unfolding pend hs by blast
    show "set (keys (es_borrowed s')) \<inter> snd ` held_s s' = {}"
      using inv_stageD(3) [OF inv] hst unfolding hs b by blast
    have live: "i \<in> live_ids cx s" if "i \<in> live_ids cx s'" for i
      using that hst bk [of i] unfolding live_ids_cases hs pend b by blast
    show "wf_id i" if "i \<in> live_ids cx s'" for i by (rule inv_stageD(4) [OF inv live [OF that]])
    show "retained i s'" if i: "i \<in> live_ids cx s'" for i
    proof -
      have "retained i t"
      proof (cases "i \<in> snd ` set replaced")
        case False
        then have "i \<in> set (keys (es_pending s)) \<or> i \<in> set (keys (es_borrowed s)) \<or> i \<in> snd ` held_s t"
          using i unfolding live_ids_cases hs pend b by blast
        then have "i \<in> hydrated_id ` set txs \<longrightarrow> i \<in> snd ` held_s t"
          using ids inv_stageD(2,3) [OF inv] by blast
        then show ?thesis by (rule keep [OF live [OF i]])
      qed (use bk in blast)
      then show ?thesis by (simp add: st retained_def)
    qed
  qed
  ultimately show ?thesis
    by (rule shrink_inv [OF inv]) (use hst in \<open>auto simp: hb hs\<close>, simp_all add: st frame)
qed

end
