(* ===== verification/Eoa_Alloc.thy ===== *)
theory Eoa_Alloc
  imports Eoa_Clean
begin

text \<open>
  The operations that move the allocator of nonces (recycling, reset, the cached chain count) and
  those on pending intents (admission, failure) keep the invariant of the account store.
\<close>

subsection \<open>The allocator\<close>

lemma zrange_last_max:
  assumes "row \<in> set z"
  shows "snd row \<le> snd (last (zrange z))"
proof -
  let ?f = "\<lambda>(m, sc). (sc, m) :: nat \<times> string"
  have srt: "sorted (map ?f (zrange z))" by (simp add: zrange_def)
  obtain j where j: "j < length (zrange z)" "zrange z ! j = row"
    using assms by (metis in_set_conv_nth zrange_set)
  have "map ?f (zrange z) ! j \<le> map ?f (zrange z) ! (length (zrange z) - 1)"
    by (rule sorted_nth_mono [OF srt]) (use j in auto)
  then have "?f row \<le> ?f (last (zrange z))" using j by (cases "zrange z = []") (simp_all add: last_conv_nth)
  then show ?thesis by (auto simp: case_prod_beta less_eq_prod_def)
qed

definition highest_nonce :: "('tx, 'a, 'c) eoa_ctx \<Rightarrow> estore \<Rightarrow> nat list \<Rightarrow> nat \<Rightarrow> nat option" where
  "highest_nonce cx s borrowed c =
     option_max (option_max (let rows = zrange (es_submitted s) in if rows = [] then None else Some (snd (last rows)))
       (list_max borrowed)) (checked_sub c 1)"

lemma option_max_ge:
  "a = Some x \<Longrightarrow> \<exists>y \<ge> x. option_max a b = Some y"
  "b = Some x \<Longrightarrow> \<exists>y \<ge> x. option_max a b = Some y"
  by (auto simp: option_max_def split: option.splits)

lemma option_max_None: "option_max a b = None \<longleftrightarrow> a = None \<and> b = None"
  by (auto simp: option_max_def split: option.splits)

lemma highest_nonce_ge:
  "row \<in> set (es_submitted s) \<Longrightarrow> \<exists>y \<ge> snd row. highest_nonce cx s borrowed c = Some y"
  "n \<in> set borrowed \<Longrightarrow> \<exists>y \<ge> n. highest_nonce cx s borrowed c = Some y"
  "0 < c \<Longrightarrow> \<exists>y \<ge> c - 1. highest_nonce cx s borrowed c = Some y"
proof -
  assume row: "row \<in> set (es_submitted s)"
  then have ne: "zrange (es_submitted s) \<noteq> []" by (auto simp flip: set_empty)
  define top where "top = snd (last (zrange (es_submitted s)))"
  obtain y where y: "option_max (Some top) (list_max borrowed) = Some y" "top \<le> y"
    using option_max_ge(1) [of "Some top" top] by blast
  obtain z where "option_max (Some y) (checked_sub c 1) = Some z" "y \<le> z"
    using option_max_ge(1) [of "Some y" y] by blast
  moreover have "snd row \<le> top" unfolding top_def by (rule zrange_last_max [OF row])
  ultimately show "\<exists>y \<ge> snd row. highest_nonce cx s borrowed c = Some y"
    using ne y by (auto simp: highest_nonce_def top_def [symmetric])
next
  assume n: "n \<in> set borrowed"
  then have m: "list_max borrowed = Some (Max (set borrowed))" "n \<le> Max (set borrowed)"
    by (auto simp: list_max_def)
  obtain y where "option_max (let rows = zrange (es_submitted s) in if rows = [] then None else Some (snd (last rows)))
      (list_max borrowed) = Some y" "Max (set borrowed) \<le> y"
    using option_max_ge(2) [OF m(1)] by blast
  moreover obtain z where "option_max (Some y) (checked_sub c 1) = Some z" "y \<le> z"
    using option_max_ge(1) [of "Some y" y] by blast
  ultimately show "\<exists>y \<ge> n. highest_nonce cx s borrowed c = Some y"
    using m(2) by (auto simp: highest_nonce_def)
next
  assume "0 < c"
  then have "checked_sub c 1 = Some (c - 1)" by (simp add: checked_sub_def)
  from option_max_ge(2) [OF this] show "\<exists>y \<ge> c - 1. highest_nonce cx s borrowed c = Some y"
    by (auto simp: highest_nonce_def)
qed

lemma highest_nonce_bounds:
  assumes b: "fst ` held_b cx s \<subseteq> set borrowed"
  shows "highest_nonce cx s borrowed c = Some h \<Longrightarrow> (n, i) \<in> held_b cx s \<union> held_s s \<Longrightarrow> n \<le> h"
    and "highest_nonce cx s borrowed c = Some h \<Longrightarrow> c \<le> Suc h"
    and "highest_nonce cx s borrowed c = None \<Longrightarrow> held_b cx s \<union> held_s s = {} \<and> c = 0"
proof -
  have held: "\<exists>y \<ge> n. highest_nonce cx s borrowed c = Some y" if "(n, i) \<in> held_b cx s \<union> held_s s" for n i
    using that
  proof
    assume "(n, i) \<in> held_s s"
    then obtain t row where "n = st_nonce t" "row \<in> set (es_submitted s)" "parse_member row = Some t"
      by (auto simp: held_s_def submitted_rec_def)
    then have "row \<in> set (es_submitted s)" "snd row = n"
      using parse_member_nonce [of "fst row" "snd row"] by (simp, cases "parse_member (fst row, 0)") auto
    then show ?thesis using highest_nonce_ge(1) by blast
  qed (use b highest_nonce_ge(2) in force)
  show "n \<le> h" if "highest_nonce cx s borrowed c = Some h" "(n, i) \<in> held_b cx s \<union> held_s s"
    using held [OF that(2)] that(1) by auto
  show "c \<le> Suc h" if "highest_nonce cx s borrowed c = Some h"
    using highest_nonce_ge(3) [of c cx s borrowed] that by (cases "c = 0") auto
  show "held_b cx s \<union> held_s s = {} \<and> c = 0" if "highest_nonce cx s borrowed c = None"
    using held highest_nonce_ge(3) [of c cx s borrowed] that by (cases "c = 0") auto
qed

text \<open>Steps that only move the allocator.\<close>

lemma alloc_inv:
  assumes inv: "eoa_inv cx s" and alloc: "inv_alloc cx t"
    and f: "es_pending t = es_pending s" "es_borrowed t = es_borrowed s" "es_submitted t = es_submitted s"
      "es_recycled t = es_recycled s" "es_tx_data t = es_tx_data s"
  shows "eoa_inv cx t"
proof -
  have h: "held_b cx t = held_b cx s" "held_s t = held_s s" by (rule held_b_cong held_s_cong, rule f)+
  have "live_ids cx t = live_ids cx s" by (simp only: live_ids_def f h)
  moreover have "retained i t = retained i s" for i by (simp only: retained_def f)
  ultimately have "inv_stage cx t = inv_stage cx s" by (simp only: inv_stage_def f h)
  moreover have "inv_rows cx t = inv_rows cx s" by (simp only: inv_rows_def f)
  moreover have "inv_nonce cx t = inv_nonce cx s" by (simp only: inv_nonce_def f h)
  ultimately show ?thesis using inv alloc by (simp add: eoa_inv_def)
qed

lemma clean_recycled_valid:
  assumes "sr_validation (CleanAndGetRecycledNonces cx) s0 = Inr v" and rows: "inv_rows cx s"
    and same: "es_recycled s0 = es_recycled s" "es_last_count s0 = es_last_count s" "es_optimistic s0 = es_optimistic s"
      "es_submitted s0 = es_submitted s" "es_borrowed s0 = es_borrowed s"
  obtains c borrowed recycled where "es_last_count s = Some c" "v = (highest_nonce cx s borrowed c, recycled, es_optimistic s)"
    "fst ` held_b cx s \<subseteq> set borrowed"
proof -
  obtain borrowed c where b: "collect (map (\<lambda>(i, j). case from_json (borrowed_of_json (cx_codec cx) j) of
        Inl e \<Rightarrow> Inl e | Inr d \<Rightarrow> Inr (bd_nonce cx d)) (es_borrowed s)) = Inr borrowed"
    and c: "es_last_count s = Some c" and v: "fst v = highest_nonce cx s borrowed c" "snd (snd v) = es_optimistic s"
    using assms(1) unfolding CleanAndGetRecycledNonces_def same
    by (auto simp: bind_result_Inr Let_def same highest_nonce_def split: option.splits)
  have "n \<in> set borrowed" if "(n, i) \<in> held_b cx s" for n i
  proof -
    obtain k j d where "(k, j) \<in> set (es_borrowed s)" "borrowed_of_json (cx_codec cx) j = Some d" "n = bd_nonce cx d"
      using \<open>(n, i) \<in> held_b cx s\<close> by (auto simp: held_b_def borrowed_rec_def)
    then have "Inr n \<in> set (map (\<lambda>(i, j). case from_json (borrowed_of_json (cx_codec cx) j) of
        Inl e \<Rightarrow> Inl e | Inr d \<Rightarrow> Inr (bd_nonce cx d)) (es_borrowed s))"
      by (force simp: from_json_def)
    then have "Inr n \<in> set (map (Inr :: nat \<Rightarrow> TransactionStoreError + nat) borrowed)"
      using b by (simp only: collect_Inr_iff)
    then show ?thesis by auto
  qed
  then have "fst ` held_b cx s \<subseteq> set borrowed" by auto
  then show thesis using that [of c borrowed "fst (snd v)"] c v by (cases v) simp
qed

lemma clean_recycled_inv:
  assumes inv: "eoa_inv cx s" and c: "commits w (CleanAndGetRecycledNonces cx) s s'"
  shows "eoa_inv cx s'"
proof -
  have rows: "inv_rows cx s" and alloc: "inv_alloc cx s" using inv by (simp_all add: eoa_inv_def)
  obtain s0 v where val: "sr_validation (CleanAndGetRecycledNonces cx) s0 = Inr v"
    and same: "\<forall>k \<in> set (sr_watch_keys (CleanAndGetRecycledNonces cx)). same_key k s0 s"
    and s': "s' = exec_pipeline (fst (sr_operation (CleanAndGetRecycledNonces cx) v)) s"
    using c unfolding commits_def by blast
  have "es_recycled s0 = es_recycled s" "es_last_count s0 = es_last_count s" "es_optimistic s0 = es_optimistic s"
      "es_submitted s0 = es_submitted s" "es_borrowed s0 = es_borrowed s"
    using same by (simp_all add: CleanAndGetRecycledNonces_def)
  then obtain cnt borrowed recycled where cnt: "es_last_count s = Some cnt"
    and v: "v = (highest_nonce cx s borrowed cnt, recycled, es_optimistic s)"
    and bor: "fst ` held_b cx s \<subseteq> set borrowed"
    using clean_recycled_valid [OF val rows] by blast
  define highest where "highest = highest_nonce cx s borrowed cnt"
  note bounds = highest_nonce_bounds [OF bor, where c = cnt, folded highest_def]
  obtain opt where opt: "es_optimistic s = Some opt" "cnt \<le> opt"
    using alloc cnt by (auto simp: inv_alloc_def split: option.splits)
  define kept where "kept = filter (\<lambda>(m, sc). sc < (case highest of None \<Rightarrow> 0 | Some h \<Rightarrow> h)) (es_recycled s)"
  define next_nonce where "next_nonce = (case highest of None \<Rightarrow> 0 | Some h \<Rightarrow> saturating_add u64_max h 1)"
  have s'_eq: "s' = s\<lparr>es_recycled := kept, es_optimistic := Some (min next_nonce opt)\<rparr>"
    unfolding s' v by (simp add: CleanAndGetRecycledNonces_def opt kept_def next_nonce_def highest_def
        Let_def min_def split: option.split)
  have hb: "held_b cx s' = held_b cx s" and hs: "held_s s' = held_s s"
    by (rule held_b_cong held_s_cong, simp add: s'_eq)+
  let ?t = "s\<lparr>es_recycled := kept\<rparr>"
  have t: "eoa_inv cx ?t"
  proof (rule shrink_inv [OF inv])
    show "inv_rows cx ?t" using rows by (auto simp: inv_rows_def kept_def distinct_keys_filter)
    show "inv_stage cx ?t"
      using inv by (simp add: eoa_inv_def inv_stage_def live_ids_def retained_def held_s_def submitted_rec_def)
  qed (auto simp: held_b_def held_s_def borrowed_rec_def submitted_rec_def kept_def keys_def)
  have opt_max: "opt \<le> u64_max" using alloc opt(1) by (simp add: inv_alloc_def below_def)
  have lt: "n < opt" if "n \<in> fst ` (held_b cx s \<union> held_s s)" for n
    using alloc that opt(1) by (simp add: inv_alloc_def below_def)
  have ltr: "n < opt" if "n \<in> set (keys kept)" for n
    using alloc that opt(1) by (auto simp: inv_alloc_def below_def kept_def keys_def)
  have sc: "sc = m" if "(m, sc) \<in> set (es_recycled s)" for m sc using rows that by (auto simp: inv_rows_def)
  have "cnt \<le> next_nonce"
    using bounds(2,3) opt(2) opt_max by (fastforce simp: next_nonce_def saturating_add_def split: option.split)
  moreover have "n < next_nonce" if n: "n \<in> fst ` (held_b cx s \<union> held_s s)" for n
  proof -
    obtain i where i: "(n, i) \<in> held_b cx s \<union> held_s s" using n by (metis imageE prod.collapse)
    obtain h where h: "highest = Some h" using bounds(3) i by (cases highest) auto
    show ?thesis using bounds(1) [OF h i] lt [OF n] opt_max by (simp add: next_nonce_def h saturating_add_def)
  qed
  moreover have "n < next_nonce" if n: "n \<in> set (keys kept)" for n
  proof -
    obtain h where h: "highest = Some h" using n by (cases highest) (auto simp: kept_def keys_def)
    obtain b where "(n, b) \<in> set (es_recycled s)" "b < h" using n h by (auto simp: kept_def keys_def)
    then have "n < h" using sc by blast
    then show ?thesis using ltr [OF n] opt_max by (simp add: next_nonce_def h saturating_add_def)
  qed
  ultimately have "inv_alloc cx s'"
    using cnt opt opt_max lt ltr unfolding inv_alloc_def hb hs by (auto simp: below_def s'_eq)
  then show ?thesis by (rule alloc_inv [OF t]) (simp_all add: s'_eq)
qed

lemma exec_reset:
  "exec_pipeline (fst (sr_operation (ResetNoncesTransaction cx now n) v)) s =
     s\<lparr>es_optimistic := Some n, es_last_count := Some n, es_recycled := [], es_manual_reset := None,
       es_health := (case v of None \<Rightarrow> es_health s | Some j \<Rightarrow> Some j)\<rparr>"
  by (cases v) (simp_all add: ResetNoncesTransaction_def)

lemma exec_cached_count:
  "exec_pipeline (cached_count_commands n (es_optimistic s) health) s =
     s\<lparr>es_last_count := Some n, es_optimistic := Some (case es_optimistic s of None \<Rightarrow> n | Some m \<Rightarrow> max m n),
       es_health := (case health of None \<Rightarrow> es_health s | Some j \<Rightarrow> Some j)\<rparr>"
  by (cases "es_optimistic s"; cases health)
    (auto simp: cached_count_commands_def max_def intro!: eoa_store.equality)

lemma reset_inv:
  assumes inv: "eoa_inv cx s" and c: "commits w (ResetNoncesTransaction cx now n) s s'" and n: "n \<le> u64_max"
  shows "eoa_inv cx s'"
proof -
  have rows: "inv_rows cx s" using inv by (simp add: eoa_inv_def)
  obtain s0 v where val: "sr_validation (ResetNoncesTransaction cx now n) s0 = Inr v"
    and same: "\<forall>k \<in> set (sr_watch_keys (ResetNoncesTransaction cx now n)). same_key k s0 s"
    and s'_eq: "s' = exec_pipeline (fst (sr_operation (ResetNoncesTransaction cx now n) v)) s"
    using c unfolding commits_def by blast
  note s' = s'_eq [unfolded exec_reset]
  have empty: "es_submitted s = []" "es_borrowed s = []"
    using val same by (auto simp: ResetNoncesTransaction_def split: if_splits)
  let ?t = "s\<lparr>es_recycled := []\<rparr>"
  have held: "held_b cx t = {}" "held_s t = {}" if "es_borrowed t = []" "es_submitted t = []" for t
    using that by (simp_all add: held_b_def held_s_def borrowed_rec_def submitted_rec_def)
  have "inv_rows cx ?t" using rows by (simp add: inv_rows_def keys_def)
  moreover have "inv_stage cx ?t"
    using inv_stageD(4,5) [OF inv] by (auto simp: inv_stage_def held empty keys_def live_ids_def retained_def)
  ultimately have "eoa_inv cx ?t"
    by (rule shrink_inv [OF inv]) (simp_all add: held empty keys_def)
  then show ?thesis
    by (rule alloc_inv) (simp_all add: s' inv_alloc_def below_def held empty keys_def n)
qed

lemma cached_count_inv:
  assumes inv: "eoa_inv cx s" and n: "n \<le> u64_max"
    and c: "commits w (lock_checked (cached_count_commands n (es_optimistic s) health)) s s'"
  shows "eoa_inv cx s'"
proof -
  have alloc: "inv_alloc cx s" using inv by (simp add: eoa_inv_def)
  define opt where "opt = (case es_optimistic s of None \<Rightarrow> n | Some m \<Rightarrow> max m n)"
  have s': "s' = s\<lparr>es_last_count := Some n, es_optimistic := Some opt,
      es_health := (case health of None \<Rightarrow> es_health s | Some j \<Rightarrow> Some j)\<rparr>"
    using c unfolding commits_def lock_checked_def by (auto simp: exec_cached_count opt_def)
  have hb: "held_b cx s' = held_b cx s" and hs: "held_s s' = held_s s"
    by (rule held_b_cong held_s_cong, simp add: s')+
  have "below X (Some opt)" if "below X (es_optimistic s)" for X
    using that n by (auto simp: below_def opt_def less_max_iff_disj split: option.splits)
  moreover have "n \<le> opt" by (simp add: opt_def split: option.split)
  ultimately have "inv_alloc cx s'"
    using alloc unfolding inv_alloc_def hb hs by (simp add: s')
  then show ?thesis by (rule alloc_inv [OF inv]) (simp_all add: s')
qed

lemma disjoint_mono: "A \<inter> B = {} \<Longrightarrow> A' \<subseteq> A \<Longrightarrow> A' \<inter> B = {}"
  by blast

subsection \<open>Admission and failure of pending intents\<close>

lemma admit_inv:
  assumes inv: "eoa_inv cx s" and a: "add_transaction_script i json now limit s = (r, s')" and wf: "wf_id i"
  shows "eoa_inv cx s'"
proof (cases "s' = s")
  case False
  then have new: "es_tx_data s i = None"
    and s': "s' = s\<lparr>es_tx_data := (es_tx_data s)(i \<mapsto> empty_tx_data\<lparr>td_user_request := Some json,
        td_status := Some ''pending'', td_created_at := Some now\<rparr>), es_pending := zadd i now (es_pending s)\<rparr>"
    using a by (auto simp: add_transaction_script_def split: option.splits if_splits)
  have rows: "inv_rows cx s" using inv by (simp add: eoa_inv_def)
  have "i \<notin> live_ids cx s" using inv_stageD(5) [OF inv, of i] new by (auto simp: retained_def)
  then have ni: "i \<notin> set (keys (es_pending s))" "i \<notin> set (keys (es_borrowed s))" "i \<notin> snd ` held_s s"
    using wf by (auto simp: live_ids_cases wf_id_def)
  have h: "held_b cx s' = held_b cx s" "held_s s' = held_s s"
    by (rule held_b_cong held_s_cong, simp add: s')+
  have ret: "retained k s' \<longleftrightarrow> k = i \<or> retained k s" for k
    by (auto simp: retained_def s' empty_tx_data_def)
  have live: "k \<in> live_ids cx s' \<longleftrightarrow> k = i \<or> k \<in> live_ids cx s" for k
    unfolding live_ids_cases h using ni by (auto simp: s')
  have "inv_rows cx s'" using rows ni by (auto simp: inv_rows_def s')
  moreover have "inv_stage cx s'"
  proof (rule inv_stageI)
    show "set (keys (es_pending s')) \<inter> set (keys (es_borrowed s')) = {}"
      using inv_stageD(1) [OF inv] ni by (auto simp: s')
    show "set (keys (es_pending s')) \<inter> snd ` held_s s' = {}"
      using inv_stageD(2) [OF inv] ni unfolding h by (auto simp: s')
    show "set (keys (es_borrowed s')) \<inter> snd ` held_s s' = {}"
      using inv_stageD(3) [OF inv] unfolding h by (simp add: s')
  qed (use inv_stageD(4,5) [OF inv] wf in \<open>auto simp: live ret\<close>)
  ultimately show ?thesis
    by (rule shrink_inv [OF inv]) (simp_all only: h order_refl, simp_all add: s')
qed (use inv in simp)

lemma fail_pending_inv:
  assumes inv: "eoa_inv cx s"
    and c: "commits w (FailPendingTransactions (map (\<lambda>(p, e). pt_transaction_id p) failures)
              (fail_pending_commands cx now failures)) s s'"
  shows "eoa_inv cx s'"
proof -
  define ids where "ids = map (\<lambda>(p, e). pt_transaction_id p) failures"
  have rows: "inv_rows cx s" using inv by (simp add: eoa_inv_def)
  obtain s0 v where "check_pending ids s0 = Inr v" "es_pending s0 = es_pending s"
    and s': "s' = exec_pipeline (fail_pending_commands cx now failures) s"
    using c by (auto simp: commits_def FailPendingTransactions_def ids_def)
  then have sub: "set ids \<subseteq> set (keys (es_pending s))" using check_pending_Inr [of ids s0] by simp
  define rest where "rest = tl (fail_pending_commands cx now failures)"
  have cmds: "fail_pending_commands cx now failures = ZremPending ids # rest"
    by (simp add: rest_def ids_def fail_pending_commands_def)
  have shape: "writes c = None \<and> (\<forall>i. writes_data c = Some i \<longrightarrow> i \<in> set ids)" if "c \<in> set rest" for c
    using that queue_or_log_cmds
    by (fastforce simp: rest_def fail_pending_commands_def ids_def Let_def elim!: is_webhookE)
  have frame: "same_key k s' (s\<lparr>es_pending := fold zrem ids (es_pending s)\<rparr>)" for k
    unfolding s' cmds using exec_pipeline_frame [of rest k] shape by simp
  have f: "es_pending s' = fold zrem ids (es_pending s)" "es_borrowed s' = es_borrowed s"
    "es_submitted s' = es_submitted s" "es_recycled s' = es_recycled s" "es_optimistic s' = es_optimistic s"
    "es_last_count s' = es_last_count s"
    using frame [of PendingKey] frame [of BorrowedKey] frame [of SubmittedKey] frame [of RecycledKey]
      frame [of OptimisticKey] frame [of LastCountKey] by simp_all
  have data: "es_tx_data s' i = es_tx_data s i" if "i \<notin> set ids" for i
    unfolding s' cmds using exec_pipeline_data [of rest i] shape that by fastforce
  have h: "held_b cx s' = held_b cx s" "held_s s' = held_s s" by (rule held_b_cong held_s_cong, simp add: f)+
  have pend: "set (keys (es_pending s')) = set (keys (es_pending s)) - set ids" by (auto simp: f keys_fold_zrem)
  have out: "i \<notin> set ids" if "i \<in> set (keys (es_borrowed s)) \<or> i \<in> snd ` held_s s" for i
    using that sub inv_stageD(1,2) [OF inv] by (meson disjoint_iff subsetD)
  have live: "i \<in> live_ids cx s \<and> i \<notin> set ids" if "i \<in> live_ids cx s'" for i
    using that out [of i] unfolding live_ids_cases pend h f(2) by (elim disjE) simp_all
  have "inv_rows cx s'" using rows by (auto simp: inv_rows_def f keys_fold_zrem)
  moreover have "inv_stage cx s'"
  proof (rule inv_stageI)
    show "set (keys (es_pending s')) \<inter> set (keys (es_borrowed s')) = {}"
      unfolding pend f(2) by (rule disjoint_mono [OF inv_stageD(1) [OF inv]]) auto
    show "set (keys (es_pending s')) \<inter> snd ` held_s s' = {}"
      unfolding pend h by (rule disjoint_mono [OF inv_stageD(2) [OF inv]]) auto
    show "set (keys (es_borrowed s')) \<inter> snd ` held_s s' = {}"
      unfolding f(2) h by (rule inv_stageD(3) [OF inv])
    show "wf_id i" if "i \<in> live_ids cx s'" for i using inv_stageD(4) [OF inv] live [OF that] by blast
    show "retained i s'" if "i \<in> live_ids cx s'" for i
      using inv_stageD(5) [OF inv, of i] live [OF that] data [of i] by (simp add: retained_def)
  qed
  ultimately show ?thesis by (rule shrink_inv [OF inv]) (simp_all add: h f)
qed

end
