(* ===== verification/Eoa_Reach.thy ===== *)
theory Eoa_Reach
  imports Eoa_Alloc
begin

text \<open>
  The step relation of everybody who writes to the store of an account, that every step keeps the
  invariant, and the stores it reaches.
\<close>

subsection \<open>Replacement attempts and no-op transactions\<close>

lemma gas_bump_inv:
  assumes inv: "eoa_inv cx s" and c: "commits w (lock_checked (gas_bump_commands t new_hash json)) s s'"
    and wf: "wf_submitted t" "st_transaction_id t \<noteq> NO_OP_TRANSACTION_ID"
    and held: "(st_nonce t, st_transaction_id t) \<in> held_s s"
  shows "eoa_inv cx s'"
proof -
  have rows: "inv_rows cx s" and nonce: "inv_nonce cx s" using inv by (simp_all add: eoa_inv_def)
  define m where "m = fst (to_redis_string_with_nonce t)"
  define u where "u = s\<lparr>es_submitted := zadd m (st_nonce t) (es_submitted s)\<rparr>"
  have pair: "to_redis_string_with_nonce t = (m, st_nonce t)" by (simp add: m_def to_redis_string_with_nonce_def)
  then have row: "row_of t (m, st_nonce t)" using row_of_to_redis [OF wf] by simp
  note add = add_row_rows [OF rows row u_def]
  have f: "es_pending s' = es_pending u" "es_borrowed s' = es_borrowed u" "es_submitted s' = es_submitted u"
    "es_recycled s' = es_recycled u" "es_optimistic s' = es_optimistic u" "es_last_count s' = es_last_count u"
    "es_tx_data s' = es_tx_data u"
    using c by (auto simp: commits_def lock_checked_def gas_bump_commands_def pair u_def)
  have hs: "held_s u = held_s s"
  proof -
    have "x \<in> held_s u" if "x \<in> held_s s" for x
    proof (cases "snd x = st_transaction_id t")
      case True
      then have "fst x = st_nonce t"
        using inv_nonceD(2) [OF nonce, of "fst x" "snd x" "st_nonce t"] that held wf(2) by (cases x) auto
      then show ?thesis using add(3) True by (cases x) simp
    next
      case False
      then show ?thesis using subsetD [OF add(4) that] by (cases x) auto
    qed
    then show ?thesis using add(2) held by auto
  qed
  have hb: "held_b cx u = held_b cx s" by (rule held_b_cong) (simp add: u_def)
  have "inv_stage cx u = inv_stage cx s"
    unfolding inv_stage_def live_ids_def retained_def hs by (simp add: u_def)
  then have "inv_stage cx u" using inv by (simp add: eoa_inv_def)
  with add(1) have "eoa_inv cx u"
    by (rule shrink_inv [OF inv]) (simp_all only: hs hb order_refl, simp_all add: u_def)
  then show ?thesis
    by (rule eoa_inv_same) (use f inv_stageD(5) [OF \<open>eoa_inv cx u\<close>] in \<open>simp_all add: retained_def\<close>)
qed

text \<open>A no-op takes a recycled nonce, or has it already: the nonce leaves the recycled set and gets a row.\<close>

lemma noop_rows:
  assumes "inv_rows cx s" and "\<forall>tx \<in> set txs. wf_text (nt_transaction_hash tx)"
    and "u = s\<lparr>es_submitted := fold (\<lambda>(n, m). zadd m n)
                 (map (\<lambda>tx. case noop_to_redis_string_with_nonce tx of (m, n) \<Rightarrow> (n, m)) txs) (es_submitted s)\<rparr>"
  shows "inv_rows cx u \<and> held_s u \<subseteq> held_s s \<union> (\<lambda>tx. (nt_nonce tx, NO_OP_TRANSACTION_ID)) ` set txs"
  using assms
proof (induction txs arbitrary: s)
  case (Cons tx txs)
  obtain m where m: "noop_to_redis_string_with_nonce tx = (m, nt_nonce tx)"
    by (simp add: noop_to_redis_string_with_nonce_def)
  define v where "v = s\<lparr>es_submitted := zadd m (nt_nonce tx) (es_submitted s)\<rparr>"
  have row: "row_of (noop_record tx) (m, nt_nonce tx)" using row_of_noop [of tx] Cons.prems(2) m by simp
  note add = add_row_rows [OF Cons.prems(1) row v_def]
  have "inv_rows cx u \<and> held_s u \<subseteq> held_s v \<union> (\<lambda>tx. (nt_nonce tx, NO_OP_TRANSACTION_ID)) ` set txs"
    by (rule Cons.IH) (use add(1) Cons.prems m in \<open>simp_all add: v_def\<close>)
  then show ?case using add(2) by (auto simp: noop_record_def)
qed simp

text \<open>Holders \<open>H\<close> of nonces and recycled nonces \<open>R\<close>, when free nonces \<open>N\<close> are given to no-ops.\<close>

definition holders_ok :: "(nat \<times> tx_id) set \<Rightarrow> nat set \<Rightarrow> bool" where
  "holders_ok H R \<longleftrightarrow>
     (\<forall>n i i'. (n, i) \<in> H \<longrightarrow> (n, i') \<in> H \<longrightarrow> i = i')
     \<and> (\<forall>n n' i. (n, i) \<in> H \<longrightarrow> (n', i) \<in> H \<longrightarrow> i \<noteq> NO_OP_TRANSACTION_ID \<longrightarrow> n = n')
     \<and> R \<inter> fst ` H = {}"

lemma inv_nonce_holders: "inv_nonce cx s \<longleftrightarrow> holders_ok (held_b cx s \<union> held_s s) (set (keys (es_recycled s)))"
  unfolding inv_nonce_def holders_ok_def ..

lemma noop_holders:
  assumes ok: "holders_ok H R" and N: "N \<subseteq> R" and R': "R' \<subseteq> R - N"
    and H': "H' \<subseteq> H \<union> N \<times> {NO_OP_TRANSACTION_ID}"
  shows "holders_ok H' R'"
proof -
  have uniq: "i = i'" if "(n, i) \<in> H" "(n, i') \<in> H" for n i i'
    using ok that unfolding holders_ok_def by (elim conjE) blast
  have one: "n = n'" if "(n, i) \<in> H" "(n', i) \<in> H" "i \<noteq> NO_OP_TRANSACTION_ID" for n n' i
    using ok that unfolding holders_ok_def by (elim conjE) blast
  have "R \<inter> fst ` H = {}" using ok by (simp add: holders_ok_def)
  then have new: "(n, i) \<notin> H" if "n \<in> R" for n i using that by force
  have cases: "(n, i) \<in> H \<or> (n \<in> N \<and> i = NO_OP_TRANSACTION_ID)" if "(n, i) \<in> H'" for n i
    using H' that by auto
  have "i = i'" if "(n, i) \<in> H'" "(n, i') \<in> H'" for n i i'
    using cases [OF that(1)] cases [OF that(2)] new [of n] N uniq [of n i i'] by blast
  moreover have "n = n'" if "(n, i) \<in> H'" "(n', i) \<in> H'" "i \<noteq> NO_OP_TRANSACTION_ID" for n n' i
    using cases [OF that(1)] cases [OF that(2)] that(3) one [of n i n'] by blast
  moreover have "n \<notin> R'" if "(n, i) \<in> H'" for n i using cases [OF that] new [of n i] R' by blast
  then have "R' \<inter> fst ` H' = {}" by force
  ultimately show ?thesis unfolding holders_ok_def by (intro conjI allI impI)
qed

lemma disjoint_insert_mono: "A \<inter> S = {} \<Longrightarrow> x \<notin> A \<Longrightarrow> S' \<subseteq> insert x S \<Longrightarrow> A \<inter> S' = {}"
  by blast

lemma noop_stage:
  assumes inv: "eoa_inv cx s"
    and f: "es_pending t = es_pending s" "es_borrowed t = es_borrowed s" "es_tx_data t = es_tx_data s"
    and ids: "snd ` held_s t \<subseteq> insert NO_OP_TRANSACTION_ID (snd ` held_s s)"
  shows "inv_stage cx t"
proof (rule inv_stageI)
  have "NO_OP_TRANSACTION_ID \<notin> live_ids cx s" using inv_stageD(4) [OF inv] by (auto simp: wf_id_def)
  then have real: "NO_OP_TRANSACTION_ID \<notin> set (keys (es_pending s))" "NO_OP_TRANSACTION_ID \<notin> set (keys (es_borrowed s))"
    by (simp_all add: live_ids_cases)
  note dis = disjoint_insert_mono [OF _ _ ids]
  show "set (keys (es_pending t)) \<inter> set (keys (es_borrowed t)) = {}" unfolding f by (rule inv_stageD(1) [OF inv])
  show "set (keys (es_pending t)) \<inter> snd ` held_s t = {}"
    unfolding f by (rule dis [OF inv_stageD(2) [OF inv] real(1)])
  show "set (keys (es_borrowed t)) \<inter> snd ` held_s t = {}"
    unfolding f by (rule dis [OF inv_stageD(3) [OF inv] real(2)])
  have live: "i \<in> live_ids cx s" if "i \<in> live_ids cx t" for i
  proof -
    have "i \<in> snd ` held_s s" if "i \<in> snd ` held_s t" "i \<noteq> NO_OP_TRANSACTION_ID"
      using subsetD [OF ids that(1)] that(2) by simp
    then show ?thesis using that unfolding live_ids_cases f by (elim disjE) simp_all
  qed
  show "wf_id i" if "i \<in> live_ids cx t" for i by (rule inv_stageD(4) [OF inv live [OF that]])
  show "retained i t" if "i \<in> live_ids cx t" for i
    using inv_stageD(5) [OF inv live [OF that]] by (simp add: retained_def f)
qed

text \<open>
  What the worker knows of the no-ops it records: each uses a nonce it read from the recycled set, or
  its row is there already (\<open>send_noop_transaction\<close> records every no-op before its broadcast, and
  \<open>process_recycled_nonces\<close> records the successful ones once more).
\<close>

definition noops_read :: "SubmittedNoopTransaction list \<Rightarrow> estore \<Rightarrow> bool" where
  "noops_read txs s \<longleftrightarrow> (\<forall>tx \<in> set txs. wf_text (nt_transaction_hash tx)
     \<and> (nt_nonce tx \<in> set (keys (es_recycled s)) \<or> noop_to_redis_string_with_nonce tx \<in> set (es_submitted s)))"

lemma noop_row_held:
  assumes "wf_text (nt_transaction_hash tx)" and "noop_to_redis_string_with_nonce tx \<in> set (es_submitted s)"
  shows "(nt_nonce tx, NO_OP_TRANSACTION_ID) \<in> held_s s"
  using assms(2) row_of_parse [OF row_of_noop [OF assms(1)]]
  by (force simp: held_s_def submitted_rec_def noop_record_def)

lemma noop_commit:
  assumes "commits w (lock_checked (noop_commands txs)) s s'"
  shows "s' = s\<lparr>es_submitted := fold (\<lambda>(n, m). zadd m n)
                 (map (\<lambda>tx. case noop_to_redis_string_with_nonce tx of (m, n) \<Rightarrow> (n, m)) txs) (es_submitted s),
               es_recycled := fold zrem (map nt_nonce txs) (es_recycled s)\<rparr>"
  using assms by (auto simp: commits_def lock_checked_def noop_commands_def)

lemma noop_inv:
  assumes inv: "eoa_inv cx s" and c: "commits w (lock_checked (noop_commands txs)) s s'" and read: "noops_read txs s"
  shows "eoa_inv cx s'"
proof -
  have rows: "inv_rows cx s" and nonce: "inv_nonce cx s" and alloc: "inv_alloc cx s"
    using inv by (simp_all add: eoa_inv_def)
  have wf: "\<forall>tx \<in> set txs. wf_text (nt_transaction_hash tx)" using read by (simp add: noops_read_def)
  define N where "N = set (map nt_nonce txs) \<inter> set (keys (es_recycled s))"
  define u where "u = s\<lparr>es_submitted := fold (\<lambda>(n, m). zadd m n)
     (map (\<lambda>tx. case noop_to_redis_string_with_nonce tx of (m, n) \<Rightarrow> (n, m)) txs) (es_submitted s)\<rparr>"
  have s': "s' = u\<lparr>es_recycled := fold zrem (map nt_nonce txs) (es_recycled s)\<rparr>"
    using noop_commit [OF c] by (simp add: u_def)
  have ru: "inv_rows cx u" and hu: "held_s u \<subseteq> held_s s \<union> (\<lambda>tx. (nt_nonce tx, NO_OP_TRANSACTION_ID)) ` set txs"
    using noop_rows [OF rows wf u_def] by simp_all
  from ru have rows': "inv_rows cx s'" by (auto simp: inv_rows_def s' u_def keys_fold_zrem set_fold_zrem)
  have hb: "held_b cx s' = held_b cx s" by (rule held_b_cong) (simp add: s' u_def)
  have hs: "held_s s' = held_s u" by (rule held_s_cong) (simp add: s')
  have new: "(nt_nonce tx, NO_OP_TRANSACTION_ID) \<in> held_s s \<union> N \<times> {NO_OP_TRANSACTION_ID}" if "tx \<in> set txs" for tx
    using read that noop_row_held [of tx s] by (auto simp: noops_read_def N_def)
  have H': "held_b cx s' \<union> held_s s' \<subseteq> (held_b cx s \<union> held_s s) \<union> N \<times> {NO_OP_TRANSACTION_ID}"
    using hu new unfolding hb hs by blast
  have R': "set (keys (es_recycled s')) = set (keys (es_recycled s)) - N"
    by (auto simp: s' keys_fold_zrem N_def)
  have NR: "N \<subseteq> set (keys (es_recycled s))" by (simp add: N_def)
  have "inv_nonce cx s'"
    unfolding inv_nonce_holders
    by (rule noop_holders [OF nonce [unfolded inv_nonce_holders] NR equalityD1 [OF R'] H'])
  moreover have "inv_alloc cx s'"
  proof -
    have "fst ` (held_b cx s' \<union> held_s s') \<subseteq> fst ` (held_b cx s \<union> held_s s) \<union> N"
      using image_mono [OF H', of fst] by (auto simp: image_Un)
    then have sub: "fst ` (held_b cx s' \<union> held_s s') \<union> set (keys (es_recycled s'))
      \<subseteq> fst ` (held_b cx s \<union> held_s s) \<union> set (keys (es_recycled s))"
      using NR unfolding R' by blast
    have opt: "es_optimistic s' = es_optimistic s" "es_last_count s' = es_last_count s"
      by (simp_all add: s' u_def)
    note a = alloc [unfolded inv_alloc_def]
    show ?thesis unfolding inv_alloc_def opt by (rule conjI [OF below_mono [OF conjunct1 [OF a] sub] conjunct2 [OF a]])
  qed
  moreover have "inv_stage cx s'"
  proof (rule noop_stage [OF inv])
    show "snd ` held_s s' \<subseteq> insert NO_OP_TRANSACTION_ID (snd ` held_s s)"
      unfolding hs by (rule order_trans [OF image_mono [OF hu]]) (simp add: image_Un image_image subset_insertI image_subset_iff)
  qed (simp_all add: s' u_def)
  ultimately show ?thesis using rows' by (simp add: eoa_inv_def)
qed

subsection \<open>The step relation\<close>

text \<open>Commands that touch neither the sets, nor the allocator, nor the requests.\<close>

fun bookkeeping :: "eoa_cmd \<Rightarrow> bool" where
  "bookkeeping (SetHealth _) = True"
| "bookkeeping (SetGapReplay _) = True"
| "bookkeeping DelGapReplay = True"
| "bookkeeping DelManualReset = True"
| "bookkeeping DelLock = True"
| "bookkeeping _ = False"

text \<open>
  Who makes a step: a request for an id is admitted, another client of the store or another account
  writes, or a worker, by its id, acts on the lock. The id of a worker is made afresh for every lease of
  the account's job, so no two workers share one.
\<close>

datatype eoa_actor = Admission tx_id | Client | Worker string

text \<open>
  The steps. Admission checks nothing of the id. A worker's step is one commit; the premises on its
  arguments say that what it read is what the store holds at the commit, which the fence gives for
  every method of the locked store, whatever other workers and clients do meanwhile (\<open>Eoa_Fence\<close>):
  recorded sends are those of borrowed records, a replacement is for a submitted row, no-ops are for
  recycled nonces or rows that are there, the optimistic count is the current one, chain counts are
  64-bit numbers. A write of another account goes to the hash of an id that is not live here, and does
  not replace a request: an id with a request is not admitted a second time, whatever the account.
\<close>

inductive eoa_act :: "('tx, 'a, 'c) eoa_ctx \<Rightarrow> eoa_actor \<Rightarrow> estore \<Rightarrow> estore \<Rightarrow> bool" for cx where
  admit: "eoa_act cx (Admission i) s (snd (add_transaction_script i json now limit s))"
| manual_reset: "eoa_act cx Client s (schedule_manual_reset now s)"
| hydrate: "eoa_act cx Client s (snd (hydrate_pending_transactions (cx_codec cx) ids s))"
| hydrate_borrowed: "eoa_act cx Client s (snd (hydrate_all (cx_codec cx) records s))"
| expire: "es_tx_data s i = Some d \<Longrightarrow> td_ttl d \<noteq> None
    \<Longrightarrow> eoa_act cx Client s (s\<lparr>es_tx_data := (es_tx_data s)(i := None)\<rparr>)"
| foreign: "i \<notin> live_ids cx s \<Longrightarrow> \<forall>old. es_tx_data s i = Some old \<longrightarrow> td_user_request d = td_user_request old
    \<Longrightarrow> eoa_act cx Client s (s\<lparr>es_tx_data := (es_tx_data s)(i \<mapsto> d)\<rparr>)"
| acquire: "eoa_act cx (Worker w) s (acquire_eoa_lock_aggressively w s)"
| bookkeep: "list_all bookkeeping cmds \<Longrightarrow> commits w (lock_checked cmds) s s' \<Longrightarrow> eoa_act cx (Worker w) s s'"
| incremented: "commits w (MovePendingToBorrowedWithIncrementedNonces cx transactions) s s' \<Longrightarrow> eoa_act cx (Worker w) s s'"
| recycled: "commits w (MovePendingToBorrowedWithRecycledNonces cx transactions) s s' \<Longrightarrow> eoa_act cx (Worker w) s s'"
| process: "commits w (ProcessBorrowedTransactions cx results) s s'
    \<Longrightarrow> \<forall>r \<in> set results. hexists (sub_transaction_id r) (es_borrowed s) \<longrightarrow> result_ok cx s r
    \<Longrightarrow> eoa_act cx (Worker w) s s'"
| clean: "commits w (CleanSubmittedTransactions cx now confirmed counts) s s' \<Longrightarrow> eoa_act cx (Worker w) s s'"
| recycle: "commits w (CleanAndGetRecycledNonces cx) s s' \<Longrightarrow> eoa_act cx (Worker w) s s'"
| reset: "commits w (ResetNoncesTransaction cx now n) s s' \<Longrightarrow> n \<le> u64_max \<Longrightarrow> eoa_act cx (Worker w) s s'"
| fail: "commits w (FailPendingTransactions (map (\<lambda>(p, e). pt_transaction_id p) failures)
      (fail_pending_commands cx now failures)) s s' \<Longrightarrow> eoa_act cx (Worker w) s s'"
| count_seen: "commits w (lock_checked (cached_count_commands n (es_optimistic s) health)) s s'
    \<Longrightarrow> n \<le> u64_max \<Longrightarrow> eoa_act cx (Worker w) s s'"
| bump: "commits w (lock_checked (gas_bump_commands t new_hash json)) s s' \<Longrightarrow> wf_submitted t
    \<Longrightarrow> st_transaction_id t \<noteq> NO_OP_TRANSACTION_ID \<Longrightarrow> (st_nonce t, st_transaction_id t) \<in> held_s s
    \<Longrightarrow> eoa_act cx (Worker w) s s'"
| noop: "commits w (lock_checked (noop_commands txs)) s s' \<Longrightarrow> noops_read txs s \<Longrightarrow> eoa_act cx (Worker w) s s'"

text \<open>Steps by anybody, and steps whose admissions are of ids in \<open>ids\<close>.\<close>

definition eoa_step :: "('tx, 'a, 'c) eoa_ctx \<Rightarrow> estore \<Rightarrow> estore \<Rightarrow> bool" where
  "eoa_step cx s s' \<longleftrightarrow> (\<exists>a. eoa_act cx a s s')"

fun admits :: "tx_id set \<Rightarrow> eoa_actor \<Rightarrow> bool" where
  "admits ids (Admission i) = (i \<in> ids)"
| "admits ids a = True"

lemma bookkeeping_writes: "bookkeeping c \<Longrightarrow> writes_data c = None \<and> writes c \<in> {None, Some HealthKey, Some ManualResetKey, Some LockKey}"
  by (cases c) auto

lemma bookkeep_inv:
  assumes inv: "eoa_inv cx s" and ok: "list_all bookkeeping cmds" and c: "commits w (lock_checked cmds) s s'"
  shows "eoa_inv cx s'"
proof -
  have s': "s' = exec_pipeline cmds s" using c by (auto simp: commits_def lock_checked_def)
  have w: "writes_data c = None \<and> writes c \<in> {None, Some HealthKey, Some ManualResetKey, Some LockKey}"
    if "c \<in> set cmds" for c using ok that bookkeeping_writes by (auto simp: list_all_iff)
  have "same_key k s' s" if "k \<notin> {HealthKey, ManualResetKey, LockKey}" for k
    unfolding s' by (rule exec_pipeline_frame) (use w that in fastforce)
  from this [of PendingKey] this [of BorrowedKey] this [of SubmittedKey] this [of RecycledKey]
    this [of OptimisticKey] this [of LastCountKey]
  have f: "es_pending s' = es_pending s" "es_borrowed s' = es_borrowed s" "es_submitted s' = es_submitted s"
    "es_recycled s' = es_recycled s" "es_optimistic s' = es_optimistic s" "es_last_count s' = es_last_count s"
    by simp_all
  have d: "es_tx_data s' i = es_tx_data s i" for i
    unfolding s' by (rule exec_pipeline_data) (use w in fastforce)
  show ?thesis
    by (rule eoa_inv_same [OF inv f]) (use inv_stageD(5) [OF inv] in \<open>simp add: retained_def d\<close>)
qed

lemma data_expire_inv:
  assumes inv: "eoa_inv cx s" and d: "es_tx_data s i = Some d" "td_ttl d \<noteq> None"
  shows "eoa_inv cx (s\<lparr>es_tx_data := (es_tx_data s)(i := None)\<rparr>)"
proof (rule eoa_inv_same [OF inv])
  fix k assume k: "k \<in> live_ids cx s"
  then have "retained k s" by (rule inv_stageD(5) [OF inv])
  then show "retained k (s\<lparr>es_tx_data := (es_tx_data s)(i := None)\<rparr>)" using d by (auto simp: retained_def)
qed simp_all

lemma foreign_inv:
  assumes inv: "eoa_inv cx s" and "i \<notin> live_ids cx s"
  shows "eoa_inv cx (s\<lparr>es_tx_data := (es_tx_data s)(i \<mapsto> d)\<rparr>)"
proof (rule eoa_inv_same [OF inv])
  fix k assume k: "k \<in> live_ids cx s"
  then show "retained k (s\<lparr>es_tx_data := (es_tx_data s)(i \<mapsto> d)\<rparr>)"
    using inv_stageD(5) [OF inv k] assms(2) by (auto simp: retained_def)
qed simp_all

text \<open>Hydration deletes nothing from a store that satisfies the invariant: every id it lists has a request.\<close>

lemma zrem_absent: "k \<notin> set (keys z) \<Longrightarrow> zrem k z = z"
  by (induction z) (auto simp: zrem_def keys_def)

lemma hdel_absent: "k \<notin> set (keys h) \<Longrightarrow> hdel k h = h"
  by (induction h) (auto simp: hdel_def keys_def)

lemma fold_same: "(\<And>x. x \<in> set xs \<Longrightarrow> f x y = y) \<Longrightarrow> fold f xs y = y"
  by (induction xs) auto

lemma live_has_request: "eoa_inv cx s \<Longrightarrow> user_request_of i s = None \<Longrightarrow> i \<notin> live_ids cx s"
  using inv_stageD(5) [of cx s i] by (auto simp: retained_def user_request_of_def)

lemma hydrate_same:
  assumes inv: "eoa_inv cx s"
  shows "snd (hydrate_pending_transactions c ids s) = s" and "snd (hydrate_all c records s) = s"
proof -
  have p: "zrem i (es_pending s) = es_pending s" and b: "hdel i (es_borrowed s) = es_borrowed s"
    if "user_request_of i s = None" for i
    using live_has_request [OF inv that] by (auto simp: live_ids_cases intro: zrem_absent hdel_absent)
  have "fold (\<lambda>(i, q). zrem i) (filter (\<lambda>(i, q). user_request_of i s = None) ids) (es_pending s) = es_pending s"
    by (rule fold_same) (use p in auto)
  then show "snd (hydrate_pending_transactions c ids s) = s"
    by (simp add: hydrate_pending_transactions_def Let_def split: sum.split)
  have "fold (\<lambda>d. zrem (bd_transaction_id d)) (filter (\<lambda>d. user_request_of (bd_transaction_id d) s = None) records)
      (es_pending s) = es_pending s"
    "fold (\<lambda>d. hdel (bd_transaction_id d)) (filter (\<lambda>d. user_request_of (bd_transaction_id d) s = None) records)
      (es_borrowed s) = es_borrowed s"
    by (rule fold_same; use p b in auto)+
  then show "snd (hydrate_all c records s) = s"
    by (simp add: hydrate_all_def Let_def split: sum.split)
qed

lemma eoa_act_inv:
  assumes "eoa_act cx a s s'" and "admits ids a" and "\<forall>i \<in> ids. wf_id i" and "codec_ok (cx_codec cx)" and "eoa_inv cx s"
  shows "eoa_inv cx s'"
  using assms
proof (induction rule: eoa_act.induct)
  case (admit i s json now limit)
  then show ?case using admit_inv [of cx s i json now limit] by (metis admits.simps(1) prod.collapse)
next
  case (manual_reset s now)
  show ?case by (rule eoa_inv_same [OF manual_reset(4)])
    (use inv_stageD(5) [OF manual_reset(4)] in \<open>auto simp: schedule_manual_reset_def retained_def\<close>)
next
  case (hydrate s ids)
  then show ?case by (simp add: hydrate_same(1))
next
  case (hydrate_borrowed s records)
  then show ?case by (simp add: hydrate_same(2))
next
  case (acquire w s)
  show ?case by (rule eoa_inv_same [OF acquire(4)])
    (use inv_stageD(5) [OF acquire(4)] in \<open>auto simp: acquire_eoa_lock_aggressively_def retained_def\<close>)
next
  case (process w results s s')
  then show ?case using process_borrowed_inv by blast
qed (blast intro: data_expire_inv foreign_inv bookkeep_inv move_incremented_inv move_recycled_inv clean_submitted_inv
    clean_recycled_inv reset_inv fail_pending_inv cached_count_inv gas_bump_inv noop_inv)+

definition eoa_init :: "estore \<Rightarrow> bool" where
  "eoa_init s \<longleftrightarrow> es_pending s = [] \<and> es_borrowed s = [] \<and> es_submitted s = [] \<and> es_recycled s = []
     \<and> es_optimistic s = None \<and> es_last_count s = None"

text \<open>The stores reached from an empty one when the admitted ids are in \<open>ids\<close>.\<close>

inductive eoa_reach :: "('tx, 'a, 'c) eoa_ctx \<Rightarrow> tx_id set \<Rightarrow> estore \<Rightarrow> bool" for cx ids where
  init: "eoa_init s \<Longrightarrow> eoa_reach cx ids s"
| step: "eoa_reach cx ids s \<Longrightarrow> eoa_act cx a s s' \<Longrightarrow> admits ids a \<Longrightarrow> eoa_reach cx ids s'"

lemma eoa_init_inv: "eoa_init s \<Longrightarrow> eoa_inv cx s"
  by (simp add: eoa_init_def eoa_inv_defs keys_def held_b_def held_s_def borrowed_rec_def submitted_rec_def
      live_ids_def below_def)

lemma eoa_reach_inv: "eoa_reach cx ids s \<Longrightarrow> \<forall>i \<in> ids. wf_id i \<Longrightarrow> codec_ok (cx_codec cx) \<Longrightarrow> eoa_inv cx s"
  by (induction rule: eoa_reach.induct) (auto intro: eoa_init_inv eoa_act_inv)

end
