(* ===== verification/Eoa_Fence.thy ===== *)
theory Eoa_Fence
  imports Eoa_Reach
begin

text \<open>
  The contract of a write fenced by the account lock. \<open>execute_with_watch_and_retry\<close> and
  \<open>with_lock_check\<close> watch the lock and the keys of the operation, so that what they commit was
  validated on the values it replaces. The locale proves it once for any operation; every operation
  of the worker is an instance.
\<close>

subsection \<open>What others may do during an attempt\<close>

text \<open>
  Redis runs EXEC only when no watched key was written since WATCH; a lost reply does not change
  what was applied.
\<close>

definition watch_honest :: "eoa_key list \<Rightarrow> watch_env \<Rightarrow> bool" where
  "watch_honest ks e \<longleftrightarrow>
     (we_exec e = ExecCommitted \<or> we_exec e = ExecError True \<longrightarrow>
       (\<forall>s. \<forall>k \<in> set (LockKey # ks).
          same_key k s (we_before_validation e s)
          \<and> same_key k (we_before_validation e s) (we_before_exec e (we_before_validation e s))))"

text \<open>Others move the store by steps, and leave alone what the caller established before the call.\<close>

definition interference :: "(estore \<Rightarrow> estore \<Rightarrow> bool) \<Rightarrow> (estore \<Rightarrow> bool) \<Rightarrow> watch_env \<Rightarrow> bool" where
  "interference step pre e \<longleftrightarrow>
     (\<forall>f \<in> {we_before_owner e, we_before_validation e, we_before_exec e, we_after_nil e}.
        \<forall>s. step\<^sup>*\<^sup>* s (f s) \<and> (pre s \<longrightarrow> pre (f s)))"

lemma interferenceD:
  assumes "interference step pre e"
  shows "step\<^sup>*\<^sup>* s (we_before_owner e s)" "step\<^sup>*\<^sup>* s (we_before_validation e s)"
    "step\<^sup>*\<^sup>* s (we_before_exec e s)" "step\<^sup>*\<^sup>* s (we_after_nil e s)"
    "pre s \<Longrightarrow> pre (we_before_owner e s)" "pre s \<Longrightarrow> pre (we_before_validation e s)"
    "pre s \<Longrightarrow> pre (we_before_exec e s)" "pre s \<Longrightarrow> pre (we_after_nil e s)"
  using assms unfolding interference_def by blast+

subsection \<open>At most one commit\<close>

lemma attempt_commits:
  assumes "watch_honest (sr_watch_keys tx) e" and "we_exec e = ExecCommitted \<or> we_exec e = ExecError True"
    and "es_lock s1 = Some worker" and "sr_validation tx (we_before_validation e s1) = Inr v"
    and "sr_operation tx v = (pipeline, r)" and "list_all cmd_ok pipeline"
  shows "commits worker tx (we_before_exec e (we_before_validation e s1))
           (exec_pipeline pipeline (we_before_exec e (we_before_validation e s1)))"
proof -
  let ?s2 = "we_before_validation e s1" and ?s3 = "we_before_exec e (we_before_validation e s1)"
  have same: "same_key k s1 ?s2 \<and> same_key k ?s2 ?s3" if "k = LockKey \<or> k \<in> set (sr_watch_keys tx)" for k
    using assms(1,2) that unfolding watch_honest_def by auto
  have "es_lock ?s2 = Some worker" "es_lock ?s3 = Some worker" using same [of LockKey] assms(3) by simp_all
  then show ?thesis unfolding commits_def
    by (intro exI [of _ ?s2] exI [of _ v]) (use same assms(4-6) in auto)
qed

text \<open>
  How a fenced write may end: a success is one commit after steps of others; an error leaves only
  what others wrote, except that a failed EXEC may have been applied.
\<close>

definition fenced_outcome ::
  "(estore \<Rightarrow> estore \<Rightarrow> bool) \<Rightarrow> (estore \<Rightarrow> bool) \<Rightarrow> string \<Rightarrow> ('v, 'r) SafeRedisTransaction \<Rightarrow> estore
     \<Rightarrow> (TransactionStoreError, 'r) result \<times> estore \<Rightarrow> bool" where
  "fenced_outcome others pre worker tx s res \<longleftrightarrow>
     (let committed = (\<exists>t. others\<^sup>*\<^sup>* s t \<and> pre t \<and> commits worker tx t (snd res)) in
      case fst res of
        Inr _ \<Rightarrow> committed
      | Inl e \<Rightarrow> others\<^sup>*\<^sup>* s (snd res) \<or> (e = redis_failed ''EXEC'' \<and> committed))"

lemma fenced_outcome_trans:
  assumes "others\<^sup>*\<^sup>* s t" and "fenced_outcome others pre worker tx t res"
  shows "fenced_outcome others pre worker tx s res"
  using assms unfolding fenced_outcome_def Let_def by (auto split: sum.splits intro: rtranclp_trans)

lemma watch_loop_outcome:
  "(\<And>k. k < n \<Longrightarrow> interference others pre (env k) \<and> watch_honest (sr_watch_keys tx) (env k)) \<Longrightarrow> pre s
     \<Longrightarrow> fenced_outcome others pre worker tx s (watch_loop n worker tx env s)"
proof (induction n arbitrary: s)
  case (Suc n)
  define e where "e = env n"
  define s1 where "s1 = we_before_owner e s"
  define s2 where "s2 = we_before_validation e s1"
  define s3 where "s3 = we_before_exec e s2"
  define s4 where "s4 = we_after_nil e s3"
  have i: "interference others pre e" and h: "watch_honest (sr_watch_keys tx) e" using Suc.prems(1) by (auto simp: e_def)
  have r1: "others\<^sup>*\<^sup>* s s1" unfolding s1_def by (rule interferenceD(1) [OF i])
  have r2: "others\<^sup>*\<^sup>* s s2" unfolding s2_def by (rule rtranclp_trans [OF r1 interferenceD(2) [OF i]])
  have r3: "others\<^sup>*\<^sup>* s s3" unfolding s3_def by (rule rtranclp_trans [OF r2 interferenceD(3) [OF i]])
  have r4: "others\<^sup>*\<^sup>* s s4" unfolding s4_def by (rule rtranclp_trans [OF r3 interferenceD(4) [OF i]])
  have p3: "pre s3" and p4: "pre s4"
    using Suc.prems(2) interferenceD(5-8) [OF i] by (simp_all add: s1_def s2_def s3_def s4_def)
  have again: "fenced_outcome others pre worker tx s (watch_loop n worker tx env s4)"
    by (rule fenced_outcome_trans [OF r4 Suc.IH [OF _ p4]]) (use Suc.prems(1) in simp)
  have commit: "\<exists>t. others\<^sup>*\<^sup>* s t \<and> pre t \<and> commits worker tx t (exec_pipeline pl s3)"
    if "we_exec e = ExecCommitted \<or> we_exec e = ExecError True" "es_lock s1 = Some worker"
      "sr_validation tx s2 = Inr v" "sr_operation tx v = (pl, r)" "list_all cmd_ok pl" for v pl r
    using attempt_commits [OF h that(1,2) that(3) [unfolded s2_def] that(4,5)] p3 r3
    unfolding s2_def [symmetric] s3_def [symmetric] by blast
  note eqs = e_def [symmetric] Let_def s1_def [symmetric] s2_def [symmetric] s3_def [symmetric] s4_def [symmetric]
  have err: "fenced_outcome others pre worker tx s (Inl err, t)" if "others\<^sup>*\<^sup>* s t" for err t
    using that by (simp add: fenced_outcome_def)
  have finished: "fenced_outcome others pre worker tx s (Inr r, exec_pipeline pl s3)"
      "fenced_outcome others pre worker tx s (Inl (redis_failed ''EXEC''), exec_pipeline pl s3)"
    if "\<exists>t. others\<^sup>*\<^sup>* s t \<and> pre t \<and> commits worker tx t (exec_pipeline pl s3)" for r pl
    using that by (simp_all add: fenced_outcome_def)
  let ?validated = "if we_validation_ok e then sr_validation tx s2 else Inl (redis_failed ''validation'')"
  show ?case
  proof (cases "we_watch_ok e \<and> we_owner_ok e \<and> es_lock s1 = Some worker")
    case False
    then show ?thesis unfolding watch_loop.simps eqs using err [OF r1] by auto
  next
    case owner: True
    show ?thesis
    proof (cases ?validated)
      case (Inl x)
      then show ?thesis unfolding watch_loop.simps eqs using owner err [OF r2] by simp
    next
      case (Inr v)
      then have v: "sr_validation tx s2 = Inr v" by (auto split: if_splits)
      obtain pl r where op: "sr_operation tx v = (pl, r)" by fastforce
      show ?thesis
      proof (cases "list_all cmd_ok pl")
        case False
        then show ?thesis unfolding watch_loop.simps eqs Inr using owner op err [OF r3] by simp
      next
        case ok: True
        note commit = commit [OF _ _ v op ok]
        show ?thesis unfolding watch_loop.simps eqs Inr using owner op ok
          by (cases "we_exec e") (simp_all add: err [OF r3] err [OF r4] again finished [OF commit])
      qed
    qed
  qed
qed (simp add: fenced_outcome_def)

subsection \<open>What the owner of the lock read\<close>

text \<open>The steps of everybody but worker \<open>w\<close>, with admitted ids in \<open>ids\<close>.\<close>

definition rival :: "('tx, 'a, 'c) eoa_ctx \<Rightarrow> tx_id set \<Rightarrow> string \<Rightarrow> estore \<Rightarrow> estore \<Rightarrow> bool" where
  "rival cx ids w s s' \<longleftrightarrow> (\<exists>a. eoa_act cx a s s' \<and> a \<noteq> Worker w \<and> admits ids a)"

definition same_alloc :: "estore \<Rightarrow> estore \<Rightarrow> bool" where
  "same_alloc s s' \<longleftrightarrow> es_borrowed s' = es_borrowed s \<and> es_submitted s' = es_submitted s
     \<and> es_recycled s' = es_recycled s \<and> es_optimistic s' = es_optimistic s"

lemma exec_pipeline_lock: "es_lock (exec_pipeline cs s) \<in> {es_lock s, None}"
proof (induction cs arbitrary: s)
  case (Cons c cs)
  have "es_lock (exec_cmd c s) \<in> {es_lock s, None}" by (cases c) (auto simp: hset_data_def)
  then show ?case using Cons.IH [of "exec_cmd c s"] by auto
qed simp

lemma commits_lock:
  assumes "commits w tx s s'"
  shows "es_lock s' \<in> {Some w, None}"
proof -
  obtain cs where "es_lock s = Some w" "s' = exec_pipeline cs s" using assms by (auto simp: commits_def)
  then show ?thesis using exec_pipeline_lock [of cs s] by simp
qed

lemma worker_lock: "eoa_act cx (Worker w) s s' \<Longrightarrow> es_lock s' \<in> {Some w, None}"
  by (erule eoa_act.cases) (simp_all only: eoa_actor.simps, simp add: acquire_eoa_lock_aggressively_def, (erule commits_lock)+)

inductive_cases eoa_act_AdmissionE: "eoa_act cx (Admission i) s s'"
inductive_cases eoa_act_ClientE: "eoa_act cx Client s s'"

text \<open>
  Nobody else gives the lock to \<open>w\<close>, and nobody else commits while \<open>w\<close> holds it: when
  \<open>w\<close> owns the lock after a step of somebody else, it owned it before, and the nonces are where
  they were. So what the owner read without watching it is still true when its own write commits.
\<close>

lemma rival_owner:
  assumes "rival cx ids w s s'" and "eoa_inv cx s" and "es_lock s' = Some w"
  shows "es_lock s = Some w \<and> same_alloc s s'"
proof -
  obtain a where a: "eoa_act cx a s s'" "a \<noteq> Worker w" using assms(1) by (auto simp: rival_def)
  note same = hydrate_same [OF assms(2)]
  show ?thesis
  proof (cases a)
    case (Admission i)
    with a(1) assms(3) show ?thesis
      by (auto elim!: eoa_act_AdmissionE simp: add_transaction_script_def same_alloc_def split: option.splits if_splits)
  next
    case Client
    with a(1) assms(3) show ?thesis
      by (auto elim!: eoa_act_ClientE simp: same same_alloc_def schedule_manual_reset_def)
  next
    case (Worker v)
    with a assms(3) show ?thesis using worker_lock [of cx v s s'] by auto
  qed
qed

subsection \<open>The contract\<close>

text \<open>
  A write by \<open>worker\<close> that may rely on \<open>pre\<close> once it owns the lock. Others keep the
  invariant, and keep \<open>pre\<close> as long as the lock stays with the worker; the commit keeps the
  invariant. Then the whole call keeps it, with any interleaving and any failure of Redis.
\<close>

locale fenced_write =
  fixes others :: "estore \<Rightarrow> estore \<Rightarrow> bool" and inv :: "estore \<Rightarrow> bool" and worker :: string
    and tx :: "('v, 'r) SafeRedisTransaction" and pre :: "estore \<Rightarrow> bool"
  assumes others_inv: "others s s' \<Longrightarrow> inv s \<Longrightarrow> inv s'"
    and others_pre: "others s s' \<Longrightarrow> inv s \<Longrightarrow> es_lock s' = Some worker
      \<Longrightarrow> (es_lock s = Some worker \<longrightarrow> pre s) \<Longrightarrow> pre s'"
    and commit_inv: "commits worker tx s s' \<Longrightarrow> inv s \<Longrightarrow> pre s \<Longrightarrow> inv s'"
begin

lemma others_ready:
  "others\<^sup>*\<^sup>* s t \<Longrightarrow> inv s \<and> (es_lock s = Some worker \<longrightarrow> pre s) \<Longrightarrow> inv t \<and> (es_lock t = Some worker \<longrightarrow> pre t)"
  by (induction rule: rtranclp_induct) (auto dest: others_inv others_pre)

lemma loop_inv:
  assumes "\<And>k. interference others (\<lambda>_. True) (env k) \<and> watch_honest (sr_watch_keys tx) (env k)"
    and "inv s" and "pre s"
  shows "inv (snd (watch_loop n worker tx env s))"
proof -
  let ?ready = "\<lambda>t. inv t \<and> (es_lock t = Some worker \<longrightarrow> pre t)"
  have "interference others ?ready (env k)" for k
    using assms(1) [of k] others_ready unfolding interference_def by blast
  then have "fenced_outcome others ?ready worker tx s (watch_loop n worker tx env s)"
    using assms by (intro watch_loop_outcome) auto
  moreover have "inv u" if "others\<^sup>*\<^sup>* s u" for u using others_ready [OF that] assms(2,3) by simp
  moreover have "inv u" if "?ready t" "commits worker tx t u" for t u
    using that commit_inv by (auto simp: commits_def)
  ultimately show ?thesis by (auto simp: fenced_outcome_def Let_def split: sum.splits)
qed

lemmas execute_inv = loop_inv [of _ _ MAX_RETRIES, folded execute_with_watch_and_retry_def]

end

subsection \<open>The operations of the worker\<close>

text \<open>The invariant, with what it needs of the codec and of the admitted ids.\<close>

definition sound :: "('tx, 'a, 'c) eoa_ctx \<Rightarrow> tx_id set \<Rightarrow> estore \<Rightarrow> bool" where
  "sound cx ids s \<longleftrightarrow> eoa_inv cx s \<and> codec_ok (cx_codec cx) \<and> (\<forall>i \<in> ids. wf_id i)"

lemma rival_sound: "rival cx ids w s s' \<Longrightarrow> sound cx ids s \<Longrightarrow> sound cx ids s'"
  by (auto simp: rival_def sound_def intro: eoa_act_inv)

lemma commit_sound:
  "sound cx ids s \<Longrightarrow> eoa_act cx (Worker w) s s' \<Longrightarrow> sound cx ids s'"
  by (auto simp: sound_def intro: eoa_act_inv [where ids = ids])

lemma rival_pre:
  assumes "rival cx ids w s s'" and "sound cx ids s" and "es_lock s' = Some w" and "es_lock s = Some w \<longrightarrow> pre s"
    and "\<And>s s'. same_alloc s s' \<Longrightarrow> pre s \<Longrightarrow> pre s'"
  shows "pre s'"
  using rival_owner [OF assms(1) _ assms(3)] assms(2,4,5) by (auto simp: sound_def)

definition results_read :: "('tx, 'a, 'c) eoa_ctx \<Rightarrow> ('a, 'c) SubmissionResult list \<Rightarrow> estore \<Rightarrow> bool" where
  "results_read cx results s \<longleftrightarrow>
     (\<forall>r \<in> set results. hexists (sub_transaction_id r) (es_borrowed s) \<longrightarrow> result_ok cx s r)"

definition row_read :: "SubmittedTransactionDehydrated \<Rightarrow> estore \<Rightarrow> bool" where
  "row_read t s \<longleftrightarrow> wf_submitted t \<and> st_transaction_id t \<noteq> NO_OP_TRANSACTION_ID
     \<and> (st_nonce t, st_transaction_id t) \<in> held_s s"

lemma same_alloc_held: "same_alloc s s' \<Longrightarrow> held_b cx s' = held_b cx s \<and> held_s s' = held_s s"
  using held_b_cong [of s' s cx] held_s_cong [of s' s] by (simp add: same_alloc_def)

lemma same_alloc_reads:
  "same_alloc s s' \<Longrightarrow> results_read cx results s \<Longrightarrow> results_read cx results s'"
  "same_alloc s s' \<Longrightarrow> row_read t s \<Longrightarrow> row_read t s'"
  "same_alloc s s' \<Longrightarrow> noops_read txs s \<Longrightarrow> noops_read txs s'"
  using same_alloc_held [of s s' cx] same_alloc_held [of s s']
  by (simp_all add: results_read_def result_ok_def row_read_def noops_read_def same_alloc_def)

text \<open>
  The futures of \<open>process_recycled_nonces\<close> run several \<open>send_noop_transaction\<close> of one
  worker at once: a no-op write may interleave with those for other nonces.
\<close>

definition rival_or_sibling ::
  "('tx, 'a, 'c) eoa_ctx \<Rightarrow> tx_id set \<Rightarrow> string \<Rightarrow> SubmittedNoopTransaction list \<Rightarrow> estore \<Rightarrow> estore \<Rightarrow> bool" where
  "rival_or_sibling cx ids w txs s s' \<longleftrightarrow> rival cx ids w s s'
     \<or> (\<exists>siblings. commits w (lock_checked (noop_commands siblings)) s s' \<and> noops_read siblings s
          \<and> set (map nt_nonce siblings) \<inter> set (map nt_nonce txs) = {}
          \<and> set (map nt_transaction_hash siblings) \<inter> set (map nt_transaction_hash txs) = {})"

lemma zadd_keeps: "(m, n) \<in> set z \<Longrightarrow> m \<noteq> m' \<Longrightarrow> (m, n) \<in> set (zadd m' n' z)"
  by (induction z) (auto simp: zadd_def)

lemma in_fold_zadd:
  "(m, n) \<in> set z \<Longrightarrow> m \<notin> snd ` set ps \<Longrightarrow> (m, n) \<in> set (fold (\<lambda>(n, m). zadd m n) ps z)"
proof (induction ps arbitrary: z)
  case (Cons p ps)
  obtain n' m' where p: "p = (n', m')" by fastforce
  have "(m, n) \<in> set (zadd m' n' z)" using Cons.prems p by (intro zadd_keeps) auto
  then show ?case using Cons p by auto
qed simp

lemma sibling_keeps_read:
  assumes "commits w (lock_checked (noop_commands siblings)) s s'" and "noops_read siblings s" and "noops_read txs s"
    and "set (map nt_nonce siblings) \<inter> set (map nt_nonce txs) = {}"
    and "set (map nt_transaction_hash siblings) \<inter> set (map nt_transaction_hash txs) = {}"
  shows "noops_read txs s'"
  unfolding noops_read_def
proof (intro ballI conjI)
  fix tx assume tx: "tx \<in> set txs"
  then show wf: "wf_text (nt_transaction_hash tx)" using assms(3) by (simp add: noops_read_def)
  have other: "fst (noop_to_redis_string_with_nonce tx) \<noteq> fst (noop_to_redis_string_with_nonce x)" if "x \<in> set siblings" for x
  proof
    assume eq: "fst (noop_to_redis_string_with_nonce tx) = fst (noop_to_redis_string_with_nonce x)"
    have "wf_text (nt_transaction_hash x)" using assms(2) that by (simp add: noops_read_def)
    then have "nt_transaction_hash tx = nt_transaction_hash x"
      using parse_member_fst [OF eq row_of_parse [OF row_of_noop [OF wf]] row_of_parse [OF row_of_noop]]
      by (simp add: noop_record_def)
    then show False using assms(5) tx that by auto
  qed
  let ?rows = "map (\<lambda>tx. case noop_to_redis_string_with_nonce tx of (m, n) \<Rightarrow> (n, m)) siblings"
  have "fst (noop_to_redis_string_with_nonce tx) \<notin> snd ` set ?rows" using other by (fastforce split: prod.splits)
  then have "noop_to_redis_string_with_nonce tx \<in> set (es_submitted s)
      \<Longrightarrow> noop_to_redis_string_with_nonce tx \<in> set (es_submitted s')"
    using in_fold_zadd [of _ _ "es_submitted s" ?rows] by (cases "noop_to_redis_string_with_nonce tx")
      (simp add: noop_commit [OF assms(1)])
  moreover have "nt_nonce tx \<in> set (keys (es_recycled s)) \<Longrightarrow> nt_nonce tx \<in> set (keys (es_recycled s'))"
    using assms(4) tx by (auto simp: noop_commit [OF assms(1)] keys_fold_zrem)
  ultimately show "nt_nonce tx \<in> set (keys (es_recycled s')) \<or> noop_to_redis_string_with_nonce tx \<in> set (es_submitted s')"
    using assms(3) tx by (auto simp: noops_read_def)
qed

lemma sibling_sound: "rival_or_sibling cx ids w txs s s' \<Longrightarrow> sound cx ids s \<Longrightarrow> sound cx ids s'"
  unfolding rival_or_sibling_def by (elim disjE exE conjE) (blast intro: rival_sound commit_sound eoa_act.noop)+

lemma sibling_pre:
  assumes "rival_or_sibling cx ids w txs s s'" and "sound cx ids s" and "es_lock s' = Some w"
    and "es_lock s = Some w \<longrightarrow> noops_read txs s"
  shows "noops_read txs s'"
  using assms(1) unfolding rival_or_sibling_def
proof (elim disjE exE conjE)
  assume "rival cx ids w s s'"
  then show ?thesis using rival_pre [of cx ids w s s' "noops_read txs"] assms(2-4) same_alloc_reads(3) by blast
next
  fix siblings assume c: "commits w (lock_checked (noop_commands siblings)) s s'"
  then have "es_lock s = Some w" by (auto simp: commits_def)
  moreover assume "noops_read siblings s" "set (map nt_nonce siblings) \<inter> set (map nt_nonce txs) = {}"
    "set (map nt_transaction_hash siblings) \<inter> set (map nt_transaction_hash txs) = {}"
  ultimately show ?thesis using sibling_keeps_read [OF c] assms(4) by blast
qed

text \<open>The contract holds of every operation.\<close>

interpretation fw_incremented: fenced_write "rival cx ids w" "sound cx ids" w
    "MovePendingToBorrowedWithIncrementedNonces cx txs" "\<lambda>_. True"
  for cx ids w txs by unfold_locales (auto intro: rival_sound commit_sound eoa_act.incremented)

interpretation fw_recycled: fenced_write "rival cx ids w" "sound cx ids" w
    "MovePendingToBorrowedWithRecycledNonces cx txs" "\<lambda>_. True"
  for cx ids w txs by unfold_locales (auto intro: rival_sound commit_sound eoa_act.recycled)

interpretation fw_process: fenced_write "rival cx ids w" "sound cx ids" w
    "ProcessBorrowedTransactions cx results" "results_read cx results"
  for cx ids w results
  by unfold_locales (erule (1) rival_sound, erule (3) rival_pre, erule (1) same_alloc_reads,
      auto simp: results_read_def intro: commit_sound eoa_act.process)

interpretation fw_clean: fenced_write "rival cx ids w" "sound cx ids" w
    "CleanSubmittedTransactions cx now confirmed counts" "\<lambda>_. True"
  for cx ids w now confirmed counts by unfold_locales (auto intro: rival_sound commit_sound eoa_act.clean)

interpretation fw_recycle: fenced_write "rival cx ids w" "sound cx ids" w "CleanAndGetRecycledNonces cx" "\<lambda>_. True"
  for cx ids w by unfold_locales (auto intro: rival_sound commit_sound eoa_act.recycle)

interpretation fw_reset: fenced_write "rival cx ids w" "sound cx ids" w "ResetNoncesTransaction cx now n" "\<lambda>_. n \<le> u64_max"
  for cx ids w now n
  by unfold_locales (erule (1) rival_sound, erule (3) rival_pre, assumption, blast intro: commit_sound eoa_act.reset)

interpretation fw_fail: fenced_write "rival cx ids w" "sound cx ids" w
    "FailPendingTransactions (map (\<lambda>(p, e). pt_transaction_id p) failures) (fail_pending_commands cx now failures)" "\<lambda>_. True"
  for cx ids w now failures by unfold_locales (auto intro: rival_sound commit_sound eoa_act.fail)

interpretation fw_count: fenced_write "rival cx ids w" "sound cx ids" w "lock_checked (cached_count_commands n opt health)"
    "\<lambda>s. es_optimistic s = opt \<and> n \<le> u64_max"
  for cx ids w n opt health
  by unfold_locales (erule (1) rival_sound, erule (3) rival_pre, simp add: same_alloc_def,
      blast intro: commit_sound eoa_act.count_seen)

interpretation fw_bump: fenced_write "rival cx ids w" "sound cx ids" w "lock_checked (gas_bump_commands t new_hash json)" "row_read t"
  for cx ids w t new_hash json
  by unfold_locales (erule (1) rival_sound, erule (3) rival_pre, erule (1) same_alloc_reads,
      auto simp: row_read_def intro: commit_sound eoa_act.bump)

interpretation fw_noop: fenced_write "rival_or_sibling cx ids w txs" "sound cx ids" w "lock_checked (noop_commands txs)"
    "noops_read txs"
  for cx ids w txs
  by unfold_locales (erule (1) sibling_sound, erule (3) sibling_pre, blast intro: commit_sound eoa_act.noop)

interpretation fw_books: fenced_write "rival cx ids w" "sound cx ids" w "lock_checked cmds" "\<lambda>_. list_all bookkeeping cmds"
  for cx ids w cmds
  by unfold_locales (erule (1) rival_sound, erule (3) rival_pre, assumption, blast intro: commit_sound eoa_act.bookkeep)

end
