(* ===== verification/Eoa_Thms.thy ===== *)
theory Eoa_Thms
  imports Eoa_Fence
begin

text \<open>
  The properties of the account store: the invariant of every reachable store, the atomicity of
  fenced writes, and the behaviour of the operations. A small store with one borrowed transaction
  shows that their hypotheses hold together.
\<close>

subsection \<open>An example store\<close>

definition demo_request :: "(nat, nat) EoaTransactionRequest" where
  "demo_request = \<lparr>rq_transaction_id = ''a'', rq_chain_id = 1, rq_from = 5, rq_to = Some 6, rq_value = 0,
     rq_data = [], rq_gas_limit = None, rq_webhook_options = [], rq_credentials = 0,
     rq_transaction_type_data = None\<rparr>"

definition demo_borrowed :: "nat BorrowedTransactionData" where
  "demo_borrowed = \<lparr>bd_transaction_id = ''a'', bd_signed_transaction = 7, bd_queued_at = 100, bd_hash = ''h'', bd_borrowed_at = 200\<rparr>"

definition demo_codec :: "(nat, nat, nat) eoa_codec" where
  "demo_codec = \<lparr>tx_nonce = id, tx_hash = (\<lambda>_. ''h''),
     request_to_json = (\<lambda>r. if r = demo_request then Some ''r'' else None),
     request_of_json = (\<lambda>j. if j = ''r'' then Some demo_request else None),
     borrowed_to_json = (\<lambda>d. if d = demo_borrowed then Some ''b'' else None),
     borrowed_of_json = (\<lambda>j. if j = ''b'' then Some demo_borrowed else None),
     health_to_json = (\<lambda>_. None), health_of_json = (\<lambda>_. None),
     attempt_to_json = (\<lambda>_. None), attempt_of_json = (\<lambda>_. None), receipt_parses = (\<lambda>_. True)\<rparr>"

definition demo_cx :: "(nat, nat, nat) eoa_ctx" where
  "demo_cx = \<lparr>cx_codec = demo_codec, cx_envelope_ok = (\<lambda>_. True), cx_finality_json = (\<lambda>_. ''f''), cx_ttl_seconds = 60\<rparr>"

definition demo_empty :: estore where
  "demo_empty = \<lparr>es_lock = None, es_tx_data = (\<lambda>_. None), es_attempts = (\<lambda>_. []), es_attempts_ttl = (\<lambda>_. None),
     es_pending = [], es_submitted = [], es_hash_to_id = (\<lambda>_. None), es_borrowed = [], es_recycled = [],
     es_optimistic = None, es_last_count = None, es_health = None, es_manual_reset = None, es_gap_replay = None,
     es_webhooks = []\<rparr>"

definition demo_admitted :: estore where
  "demo_admitted = snd (add_transaction_script ''a'' ''r'' 100 MAX_PENDING_TRANSACTIONS
     (exec_pipeline (cached_count_commands 7 None None) (acquire_eoa_lock_aggressively ''w'' demo_empty)))"

definition demo_store :: estore where
  "demo_store = exec_pipeline [ZremPending [''a''], HsetBorrowed ''a'' ''b'', SetOptimistic 8] demo_admitted"

lemmas demo_defs = demo_cx_def demo_codec_def demo_borrowed_def demo_request_def demo_empty_def

lemma codec_ok_demo: "codec_ok (cx_codec demo_cx)"
  by (simp add: codec_ok_def demo_cx_def demo_codec_def)

lemma demo_admitted_eq:
  "demo_admitted = demo_empty\<lparr>es_lock := Some ''w'', es_last_count := Some 7, es_optimistic := Some 7,
     es_tx_data := [''a'' \<mapsto> empty_tx_data\<lparr>td_user_request := Some ''r'', td_status := Some ''pending'', td_created_at := Some 100\<rparr>],
     es_pending := [(''a'', 100)]\<rparr>"
  by (simp add: demo_admitted_def add_transaction_script_def cached_count_commands_def demo_empty_def
      acquire_eoa_lock_aggressively_def user_request_of_def MAX_PENDING_TRANSACTIONS_def zadd_new keys_def)

lemma reach_demo_admitted: "eoa_reach demo_cx {''a''} demo_admitted"
proof -
  let ?s1 = "acquire_eoa_lock_aggressively ''w'' demo_empty"
  let ?s2 = "exec_pipeline (cached_count_commands 7 None None) ?s1"
  have "eoa_reach demo_cx {''a''} demo_empty" by (rule eoa_reach.init) (simp add: eoa_init_def demo_empty_def)
  then have "eoa_reach demo_cx {''a''} ?s1" by (rule eoa_reach.step [OF _ eoa_act.acquire]) simp
  moreover have "commits ''w'' (lock_checked (cached_count_commands 7 (es_optimistic ?s1) None)) ?s1 ?s2"
    unfolding commits_def
    by (rule exI [of _ ?s1], rule exI [of _ "()"])
      (simp add: lock_checked_def cached_count_commands_def acquire_eoa_lock_aggressively_def demo_empty_def)
  then have "eoa_act demo_cx (Worker ''w'') ?s1 ?s2" by (rule eoa_act.count_seen) (simp add: u64_max_def)
  ultimately have "eoa_reach demo_cx {''a''} ?s2" by (rule eoa_reach.step) simp
  then show ?thesis unfolding demo_admitted_def by (rule eoa_reach.step [OF _ eoa_act.admit]) simp
qed

lemma clean_demo: "\<forall>i \<in> {''a''}. wf_id i"
  by (simp add: wf_id_def wf_text_def NO_OP_TRANSACTION_ID_def)

lemma demo_commit: "commits ''w'' (MovePendingToBorrowedWithIncrementedNonces demo_cx [demo_borrowed]) demo_admitted demo_store"
  unfolding commits_def
  by (rule exI [of _ demo_admitted], rule exI [of _ "[''b'']"])
    (simp add: MovePendingToBorrowedWithIncrementedNonces_def demo_admitted_eq demo_store_def demo_defs bd_nonce_def
      validate_unique_allocations_def check_pending_def zmember_def keys_def serialize_borrowed_def bind_result_def u64_max_def
      checked_add_def)

lemma reach_demo: "eoa_reach demo_cx {''a''} demo_store"
  by (rule eoa_reach.step [OF reach_demo_admitted eoa_act.incremented [OF demo_commit]]) simp

lemma demo_store_inv: "eoa_inv demo_cx demo_store"
  by (rule eoa_reach_inv [OF reach_demo clean_demo codec_ok_demo])

subsection \<open>Every reachable store\<close>

text \<open>C3. In every store that admissions, lock takeovers, reads of other clients, writes of other accounts and
the commits of the workers can produce, when no admitted id contains a colon or is the id of no-ops, a nonce is held by at most one intent (a borrowed record or the submitted rows of one id), an intent holds at most one
nonce and is in at most one of the stages pending, borrowed and submitted, no recycled nonce is held, every
held or recycled nonce lies below the optimistic counter, the counter is not below the chain count last seen,
and the request of every live intent is kept without an expiry.\<close>

theorem reachable_store_allocates_nonces_once:
  assumes "eoa_reach cx ids s" and "\<forall>i \<in> ids. wf_id i" and "codec_ok (cx_codec cx)"
  shows "(\<forall>n i i'. (n, i) \<in> held_b cx s \<union> held_s s \<and> (n, i') \<in> held_b cx s \<union> held_s s \<longrightarrow> i = i')
    \<and> (\<forall>n n' i. (n, i) \<in> held_b cx s \<union> held_s s \<and> (n', i) \<in> held_b cx s \<union> held_s s
         \<and> i \<noteq> NO_OP_TRANSACTION_ID \<longrightarrow> n = n')
    \<and> set (keys (es_pending s)) \<inter> set (keys (es_borrowed s)) = {}
    \<and> set (keys (es_pending s)) \<inter> snd ` held_s s = {}
    \<and> set (keys (es_borrowed s)) \<inter> snd ` held_s s = {}
    \<and> set (keys (es_recycled s)) \<inter> fst ` (held_b cx s \<union> held_s s) = {}
    \<and> (\<forall>n \<in> fst ` (held_b cx s \<union> held_s s) \<union> set (keys (es_recycled s)).
         \<exists>opt. es_optimistic s = Some opt \<and> n < opt)
    \<and> (\<forall>c. es_last_count s = Some c \<longrightarrow> (\<exists>opt. es_optimistic s = Some opt \<and> c \<le> opt))
    \<and> (\<forall>i \<in> live_ids cx s. retained i s)"
proof -
  have inv: "eoa_inv cx s" by (rule eoa_reach_inv [OF assms])
  then have nonce: "inv_nonce cx s" and alloc: "inv_alloc cx s" by (simp_all add: eoa_inv_def)
  show ?thesis
  proof (intro conjI allI impI ballI; (elim conjE)?)
    show "i = i'" if "(n, i) \<in> held_b cx s \<union> held_s s" "(n, i') \<in> held_b cx s \<union> held_s s" for n i i'
      by (rule inv_nonceD(1) [OF nonce that])
    show "n = n'" if "(n, i) \<in> held_b cx s \<union> held_s s" "(n', i) \<in> held_b cx s \<union> held_s s"
      "i \<noteq> NO_OP_TRANSACTION_ID" for n n' i by (rule inv_nonceD(2) [OF nonce that])
    show "set (keys (es_recycled s)) \<inter> fst ` (held_b cx s \<union> held_s s) = {}" by (rule inv_nonceD(3) [OF nonce])
    show "\<exists>opt. es_optimistic s = Some opt \<and> n < opt"
      if "n \<in> fst ` (held_b cx s \<union> held_s s) \<union> set (keys (es_recycled s))" for n
      using alloc that unfolding inv_alloc_def below_def by (cases "es_optimistic s") simp_all
    show "\<exists>opt. es_optimistic s = Some opt \<and> c \<le> opt" if "es_last_count s = Some c" for c
      using alloc that unfolding inv_alloc_def by (cases "es_optimistic s") simp_all
  qed (rule inv_stageD [OF inv], assumption?)+
qed

lemma demo_live: "''a'' \<in> live_ids demo_cx demo_store"
  by (simp add: live_ids_cases demo_store_def demo_admitted_eq demo_empty_def hset_new keys_def)

theorem reachable_store_allocates_nonces_once_witness:
  "eoa_reach demo_cx {''a''} demo_store \<and> ''a'' \<in> live_ids demo_cx demo_store \<and> retained ''a'' demo_store"
  using reachable_store_allocates_nonces_once [OF reach_demo clean_demo codec_ok_demo] reach_demo demo_live
  by (elim conjE) (intro conjI, assumption+, erule (1) bspec)

subsection \<open>Fenced writes\<close>

text \<open>A quiet attempt: nobody else writes and Redis answers everything.\<close>

definition quiet_env :: "nat \<Rightarrow> watch_env" where
  "quiet_env = (\<lambda>_. \<lparr>we_before_owner = id, we_before_validation = id, we_before_exec = id, we_after_nil = id,
     we_watch_ok = True, we_owner_ok = True, we_unwatch_ok = True, we_validation_ok = True, we_recheck_ok = True,
     we_exec = ExecCommitted\<rparr>)"

lemma quiet_env_calm: "interference step pre (quiet_env k) \<and> watch_honest ks (quiet_env k)"
  by (auto simp: quiet_env_def interference_def watch_honest_def)

lemma quiet_write:
  assumes "es_lock s = Some w" "sr_validation tx s = Inr v" "sr_operation tx v = (pl, r)" "list_all cmd_ok pl"
  shows "execute_with_watch_and_retry w tx quiet_env s = (Inr r, exec_pipeline pl s)"
proof -
  have m: "MAX_RETRIES = Suc 9" by (simp add: MAX_RETRIES_def)
  show ?thesis unfolding execute_with_watch_and_retry_def m watch_loop.simps using assms by (simp add: quiet_env_def)
qed

text \<open>C5. A write under the account lock is atomic whatever others do meanwhile: when it succeeds, exactly one
pipeline was applied, while the worker owned the lock and on watched keys with the values its validation read;
when it fails (lock lost, validation refused, retries exhausted, a Redis error), the store holds only what
others wrote, except that an EXEC whose reply was an error may have been applied once.\<close>

theorem fenced_write_commits_at_most_once:
  assumes "\<And>k. interference others pre (env k) \<and> watch_honest (sr_watch_keys tx) (env k)" and "pre s"
    and "execute_with_watch_and_retry w tx env s = (res, s')"
  shows "case res of
      Inr r \<Rightarrow> \<exists>t. others\<^sup>*\<^sup>* s t \<and> pre t \<and> es_lock t = Some w \<and> commits w tx t s'
    | Inl e \<Rightarrow> others\<^sup>*\<^sup>* s s' \<or> (e = redis_failed ''EXEC'' \<and>
        (\<exists>t. others\<^sup>*\<^sup>* s t \<and> pre t \<and> es_lock t = Some w \<and> commits w tx t s'))"
proof -
  have "fenced_outcome others pre w tx s (res, s')"
    using watch_loop_outcome [of MAX_RETRIES others pre env tx s w] assms
    by (simp add: execute_with_watch_and_retry_def)
  moreover have "es_lock t = Some w" if "commits w tx t s'" for t using that by (auto simp: commits_def)
  ultimately show ?thesis unfolding fenced_outcome_def Let_def by (cases res) (simp_all, blast+)
qed

theorem fenced_write_commits_at_most_once_witness:
  "\<exists>t. (\<lambda>_ _. False)\<^sup>*\<^sup>* demo_admitted t \<and> es_lock t = Some ''w'' \<and>
     commits ''w'' (MovePendingToBorrowedWithIncrementedNonces demo_cx [demo_borrowed]) t demo_store"
proof -
  have "execute_with_watch_and_retry ''w'' (MovePendingToBorrowedWithIncrementedNonces demo_cx [demo_borrowed])
      quiet_env demo_admitted = (Inr (1, Some 8), demo_store)"
    unfolding demo_store_def
    by (rule quiet_write [where v = "[''b'']"])
      (simp_all add: MovePendingToBorrowedWithIncrementedNonces_def demo_admitted_eq demo_defs bd_nonce_def
        validate_unique_allocations_def check_pending_def zmember_def keys_def serialize_borrowed_def
        bind_result_def u64_max_def checked_add_def)
  from fenced_write_commits_at_most_once [OF quiet_env_calm TrueI this, of "\<lambda>_ _. False"]
  show ?thesis by auto
qed

text \<open>The environment of a call: others move the store by their steps, and Redis honours WATCH.\<close>

definition concurrently :: "(estore \<Rightarrow> estore \<Rightarrow> bool) \<Rightarrow> eoa_key list \<Rightarrow> (nat \<Rightarrow> watch_env) \<Rightarrow> bool" where
  "concurrently others ks env \<longleftrightarrow> (\<forall>k. interference others (\<lambda>_. True) (env k) \<and> watch_honest ks (env k))"

lemma concurrently_quiet: "concurrently others ks quiet_env"
  by (simp add: concurrently_def quiet_env_calm)

lemma concurrentlyD: "concurrently others ks env \<Longrightarrow> interference others (\<lambda>_. True) (env k) \<and> watch_honest ks (env k)"
  by (simp add: concurrently_def)

text \<open>An environment in which another worker takes the lock over before the owner check.\<close>

definition takeover_env :: "nat \<Rightarrow> watch_env" where
  "takeover_env = (\<lambda>k. (quiet_env k)\<lparr>we_before_owner := acquire_eoa_lock_aggressively ''x''\<rparr>)"

lemma concurrently_takeover: "concurrently (rival cx ids ''w'') ks takeover_env"
proof -
  have "rival cx ids ''w'' s (acquire_eoa_lock_aggressively ''x'' s)" for s
    unfolding rival_def by (intro exI conjI, rule eoa_act.acquire) simp_all
  then show ?thesis by (auto simp: concurrently_def takeover_env_def quiet_env_def interference_def watch_honest_def)
qed

text \<open>The methods of the locked store, one by one.\<close>

lemma soundD: "sound cx ids s \<Longrightarrow> eoa_inv cx s"
  by (simp add: sound_def)

lemma incremented_keeps:
  assumes "sound cx ids s" and "concurrently (rival cx ids w) [OptimisticKey, BorrowedKey, PendingKey] env"
  shows "eoa_inv cx (snd (atomic_move_pending_to_borrowed_with_incremented_nonces cx w txs env s))"
proof -
  have "eoa_inv cx (snd (execute_with_watch_and_retry w (MovePendingToBorrowedWithIncrementedNonces cx txs) env s))"
    by (rule soundD [OF fw_incremented.execute_inv [OF _ assms(1)]])
      (use concurrentlyD [OF assms(2)] in \<open>simp_all add: MovePendingToBorrowedWithIncrementedNonces_def\<close>)
  then show ?thesis
    by (auto simp: atomic_move_pending_to_borrowed_with_incremented_nonces_def split: prod.splits sum.splits)
qed

lemma recycled_keeps:
  assumes "sound cx ids s" and "concurrently (rival cx ids w) [RecycledKey, BorrowedKey, PendingKey] env"
  shows "eoa_inv cx (snd (atomic_move_pending_to_borrowed_with_recycled_nonces cx w txs env s))"
  unfolding atomic_move_pending_to_borrowed_with_recycled_nonces_def
  by (rule soundD [OF fw_recycled.execute_inv [OF _ assms(1)]])
    (use concurrentlyD [OF assms(2)] in \<open>simp_all add: MovePendingToBorrowedWithRecycledNonces_def\<close>)

lemma process_keeps:
  assumes "sound cx ids s" and "concurrently (rival cx ids w) [BorrowedKey, RecycledKey] env" and "results_read cx results s"
  shows "eoa_inv cx (snd (process_borrowed_transactions cx w results env s))"
  unfolding process_borrowed_transactions_def
  by (rule soundD [OF fw_process.execute_inv [OF _ assms(1,3)]])
    (use concurrentlyD [OF assms(2)] in \<open>simp add: ProcessBorrowedTransactions_def\<close>)

lemma clean_keeps:
  assumes "sound cx ids s" and "concurrently (rival cx ids w) [SubmittedKey] env"
  shows "eoa_inv cx (snd (clean_submitted_transactions cx w now confirmed counts env s))"
  unfolding clean_submitted_transactions_def
  by (rule soundD [OF fw_clean.execute_inv [OF _ assms(1)]])
    (use concurrentlyD [OF assms(2)] in \<open>simp_all add: CleanSubmittedTransactions_def\<close>)

lemma recycle_keeps:
  assumes "sound cx ids s"
    and "concurrently (rival cx ids w) [RecycledKey, LastCountKey, OptimisticKey, SubmittedKey, BorrowedKey] env"
  shows "eoa_inv cx (snd (clean_and_get_recycled_nonces cx w env s))"
  unfolding clean_and_get_recycled_nonces_def
  by (rule soundD [OF fw_recycle.execute_inv [OF _ assms(1)]])
    (use concurrentlyD [OF assms(2)] in \<open>simp_all add: CleanAndGetRecycledNonces_def\<close>)

lemma reset_keeps:
  assumes "sound cx ids s" and "n \<le> u64_max"
    and "concurrently (rival cx ids w) [OptimisticKey, LastCountKey, RecycledKey, ManualResetKey, SubmittedKey, BorrowedKey] env"
  shows "eoa_inv cx (snd (reset_nonces cx w now n env s))"
  unfolding reset_nonces_def
  by (rule soundD [OF fw_reset.execute_inv [OF _ assms(1,2)]])
    (use concurrentlyD [OF assms(3)] in \<open>simp add: ResetNoncesTransaction_def\<close>)

lemma fail_keeps:
  assumes "sound cx ids s" and "concurrently (rival cx ids w) [PendingKey] env"
  shows "eoa_inv cx (snd (fail_pending_transactions_batch cx w now failures env s))"
proof -
  have "eoa_inv cx (snd (execute_with_watch_and_retry w
      (FailPendingTransactions (map (\<lambda>(p, e). pt_transaction_id p) failures) (fail_pending_commands cx now failures)) env s))"
    by (rule soundD [OF fw_fail.execute_inv [OF _ assms(1)]])
      (use concurrentlyD [OF assms(2)] in \<open>simp_all add: FailPendingTransactions_def\<close>)
  then show ?thesis using soundD [OF assms(1)] by (simp add: fail_pending_transactions_batch_def)
qed

lemma count_keeps:
  assumes "sound cx ids s" and "n \<le> u64_max" and "concurrently (rival cx ids w) [] env"
  shows "eoa_inv cx (snd (update_cached_transaction_count cx w now n env s))"
proof -
  have "eoa_inv cx (snd (with_lock_check w (cached_count_commands n (es_optimistic s) health) env s))" for health
    unfolding with_lock_check_def
    by (rule soundD [OF fw_count.loop_inv [OF _ assms(1)]])
      (use assms(2) concurrentlyD [OF assms(3)] in \<open>simp_all add: lock_checked_def\<close>)
  then show ?thesis using soundD [OF assms(1)] by (simp add: update_cached_transaction_count_def split: sum.split)
qed

lemma bump_keeps:
  assumes "sound cx ids s" and "row_read t s" and "concurrently (rival cx ids w) [] env"
  shows "eoa_inv cx (snd (add_gas_bump_attempt cx w now t bumped env s))"
proof -
  have "eoa_inv cx (snd (with_lock_check w (gas_bump_commands t new_hash json) env s))" for new_hash json
    unfolding with_lock_check_def
    by (rule soundD [OF fw_bump.loop_inv [OF _ assms(1,2)]])
      (use concurrentlyD [OF assms(3)] in \<open>simp add: lock_checked_def\<close>)
  then show ?thesis using soundD [OF assms(1)] by (simp add: add_gas_bump_attempt_def Let_def split: sum.split)
qed

lemma noop_keeps:
  assumes "sound cx ids s" and "noops_read noops s" and "concurrently (rival_or_sibling cx ids w noops) [] env"
  shows "eoa_inv cx (snd (process_noop_transactions w noops env s))"
  unfolding process_noop_transactions_def with_lock_check_def
  by (rule soundD [OF fw_noop.loop_inv [OF _ assms(1,2)]])
    (use concurrentlyD [OF assms(3)] in \<open>simp add: lock_checked_def\<close>)

lemma books_keep:
  assumes "sound cx ids s" and "list_all bookkeeping cmds" and "concurrently (rival cx ids w) [] env"
  shows "eoa_inv cx (snd (with_lock_check w cmds env s))"
  unfolding with_lock_check_def
  by (rule soundD [OF fw_books.loop_inv [OF _ assms(1,2)]])
    (use concurrentlyD [OF assms(3)] in \<open>simp add: lock_checked_def\<close>)

lemma health_keeps:
  assumes "sound cx ids s" and "concurrently (rival cx ids w) [] env"
  shows "eoa_inv cx (snd (update_health_data cx w health env s))"
  using books_keep [OF assms(1) _ assms(2)] soundD [OF assms(1)] by (simp add: update_health_data_def split: sum.split)

lemma release_keeps:
  assumes "sound cx ids s" and "concurrently (rival cx ids w) [] env"
  shows "eoa_inv cx (release_eoa_lock w env s)"
  unfolding release_eoa_lock_def by (rule books_keep [OF assms(1) _ assms(2)]) simp

lemmas methods_keep = incremented_keeps recycled_keeps process_keeps clean_keeps recycle_keeps reset_keeps fail_keeps
  count_keeps bump_keeps noop_keeps health_keeps release_keeps

text \<open>C7. Every method of the locked store, called by a worker, ends in a store that satisfies the invariant when
it starts in one, with any interleaving of the steps of everybody else (other workers, admissions, lock takeovers,
other accounts) and any failure of Redis on the way. What the worker read before the call, the optimistic count
included, may be out of date when it reaches Redis; the lock makes up for it, and no other step is ruled out. For
no-ops, the interleaved steps include those by which the same worker records no-ops of other nonces.\<close>

theorem locked_store_methods_keep_the_invariant:
  assumes inv: "eoa_inv cx s" and ids: "\<forall>i \<in> ids. wf_id i" and codec: "codec_ok (cx_codec cx)"
  shows "(concurrently (rival cx ids w) [OptimisticKey, BorrowedKey, PendingKey] env
      \<longrightarrow> eoa_inv cx (snd (atomic_move_pending_to_borrowed_with_incremented_nonces cx w txs env s)))
    \<and> (concurrently (rival cx ids w) [RecycledKey, BorrowedKey, PendingKey] env
      \<longrightarrow> eoa_inv cx (snd (atomic_move_pending_to_borrowed_with_recycled_nonces cx w txs env s)))
    \<and> (concurrently (rival cx ids w) [BorrowedKey, RecycledKey] env \<and> results_read cx results s
      \<longrightarrow> eoa_inv cx (snd (process_borrowed_transactions cx w results env s)))
    \<and> (concurrently (rival cx ids w) [SubmittedKey] env
      \<longrightarrow> eoa_inv cx (snd (clean_submitted_transactions cx w now confirmed counts env s)))
    \<and> (concurrently (rival cx ids w) [RecycledKey, LastCountKey, OptimisticKey, SubmittedKey, BorrowedKey] env
      \<longrightarrow> eoa_inv cx (snd (clean_and_get_recycled_nonces cx w env s)))
    \<and> (concurrently (rival cx ids w) [OptimisticKey, LastCountKey, RecycledKey, ManualResetKey, SubmittedKey, BorrowedKey] env
      \<and> n \<le> u64_max \<longrightarrow> eoa_inv cx (snd (reset_nonces cx w now n env s)))
    \<and> (concurrently (rival cx ids w) [PendingKey] env
      \<longrightarrow> eoa_inv cx (snd (fail_pending_transactions_batch cx w now failures env s)))
    \<and> (concurrently (rival cx ids w) [] env \<and> n \<le> u64_max
      \<longrightarrow> eoa_inv cx (snd (update_cached_transaction_count cx w now n env s)))
    \<and> (concurrently (rival cx ids w) [] env \<and> row_read t s
      \<longrightarrow> eoa_inv cx (snd (add_gas_bump_attempt cx w now t bumped env s)))
    \<and> (concurrently (rival_or_sibling cx ids w noops) [] env \<and> noops_read noops s
      \<longrightarrow> eoa_inv cx (snd (process_noop_transactions w noops env s)))
    \<and> (concurrently (rival cx ids w) [] env \<longrightarrow> eoa_inv cx (snd (update_health_data cx w health env s)))
    \<and> (concurrently (rival cx ids w) [] env \<longrightarrow> eoa_inv cx (release_eoa_lock w env s))"
proof -
  have "sound cx ids s" using assms by (simp add: sound_def)
  then show ?thesis by (intro conjI impI; (elim conjE)?) (erule (2) methods_keep | erule (1) methods_keep)+
qed

theorem locked_store_methods_keep_the_invariant_witness:
  "eoa_inv demo_cx (snd (process_borrowed_transactions demo_cx ''w'' [from_send_result demo_cx 300
       \<lparr>bt_data = demo_borrowed, bt_user_request = demo_request\<rparr> True] quiet_env demo_store))
   \<and> eoa_inv demo_cx (snd (clean_and_get_recycled_nonces demo_cx ''w'' quiet_env demo_store))
   \<and> eoa_inv demo_cx (snd (update_cached_transaction_count demo_cx ''w'' 300 9 takeover_env demo_store))"
proof -
  let ?results = "[from_send_result demo_cx 300 \<lparr>bt_data = demo_borrowed, bt_user_request = demo_request\<rparr> True]"
  have "(7, ''a'') \<in> held_b demo_cx demo_store"
    by (auto simp: held_b_def borrowed_rec_def demo_store_def demo_admitted_eq demo_defs hset_new keys_def bd_nonce_def
        intro!: exI [of _ demo_borrowed])
  then have "results_read demo_cx ?results demo_store"
    by (simp add: results_read_def result_ok_def from_send_result_def demo_defs sub_transaction_id_def
        submitted_transaction_of_borrowed_def submitted_of_borrowed_def wf_submitted_def wf_text_def u64_max_def
        NO_OP_TRANSACTION_ID_def)
  then have "eoa_inv demo_cx (snd (process_borrowed_transactions demo_cx ''w'' ?results quiet_env demo_store))
     \<and> eoa_inv demo_cx (snd (clean_and_get_recycled_nonces demo_cx ''w'' quiet_env demo_store))"
    using locked_store_methods_keep_the_invariant [OF demo_store_inv clean_demo codec_ok_demo, of "''w''" quiet_env "[]" ?results]
      concurrently_quiet by blast
  moreover have "(9 :: nat) \<le> u64_max" by (simp add: u64_max_def)
  then have "eoa_inv demo_cx (snd (update_cached_transaction_count demo_cx ''w'' 300 9 takeover_env demo_store))"
    using locked_store_methods_keep_the_invariant [OF demo_store_inv clean_demo codec_ok_demo, where w = "''w''" and env = takeover_env
        and now = 300 and n = 9]
      concurrently_takeover by blast
  ultimately show ?thesis by blast
qed

end
