(* ===== verification/Eoa_Settle.thy ===== *)
theory Eoa_Settle
  imports Eoa_Thms
begin

text \<open>
  What settling does to an intent: finalized evidence ends it with its receipt, and nothing else
  makes it leave the submitted set. What recording a send does to its nonce.
\<close>

subsection \<open>The request of a settled intent\<close>

lemma webhook_no_data: "is_webhook c \<Longrightarrow> writes_data c = None"
  by (cases c) auto

lemma settle_commands_data: "c \<in> set (settle_commands cx now i ct tx) \<Longrightarrow> writes_data c = Some k \<Longrightarrow> k = i"
  by (auto simp: settle_commands_def Let_def split: if_splits SubmittedTransactionHydrated.splits
      dest!: queue_or_log_cmds dest: webhook_no_data)

lemma decide_outcome_data:
  assumes "decide_outcome cx now ci tx report = (cmds, bk, report')" and "c \<in> set cmds" and "writes_data c = Some k"
  shows "k = hydrated_id tx"
  using assms
  by (auto simp: decide_outcome_def Let_def split: if_splits option.splits SubmittedTransactionHydrated.splits
      dest!: queue_or_log_cmds dest: webhook_no_data settle_commands_data)

lemma cleanup_hash_data: "c \<in> set (cleanup_hash ci tx) \<Longrightarrow> writes_data c = None"
  by (auto simp: cleanup_hash_def remove_from_submitted_def split: if_splits SubmittedTransactionHydrated.splits)

lemma set_sadd [simp]: "set (sadd x xs) = insert x (set xs)"
  by (auto simp: sadd_def)

lemma clean_loop_processed_data:
  "clean_loop cx now ci txs processed replaced report = (cmds, replaced', processed', report')
     \<Longrightarrow> i \<in> set processed \<Longrightarrow> c \<in> set cmds \<Longrightarrow> writes_data c \<noteq> Some i"
proof (induction txs arbitrary: processed replaced report cmds)
  case (Cons t txs)
  from Cons.prems(1) show ?case
  proof (cases rule: clean_loop_Cons)
    case skip
    then show ?thesis using Cons by blast
  next
    case (again rest)
    then have "writes_data c \<noteq> Some i" if "c \<in> set rest" using Cons.IH [OF again(3)] Cons.prems(2) that by simp
    then show ?thesis using again(4) Cons.prems(3) cleanup_hash_data by fastforce
  next
    case (first first_cmds bk report0 rest)
    have "writes_data c \<noteq> Some i" if "c \<in> set rest" using Cons.IH [OF first(4)] Cons.prems(2) that by simp
    moreover have "writes_data c \<noteq> Some i" if "c \<in> set first_cmds"
      using decide_outcome_data [OF first(3) that] first(2) Cons.prems(2) by blast
    ultimately show ?thesis using first(5) Cons.prems(3) cleanup_hash_data by fastforce
  qed
qed simp

text \<open>The request of an intent without evidence of its own is not written.\<close>

lemma decide_outcome_unconfirmed:
  assumes "decide_outcome cx now ci tx report = (cmds, bk, report')" and "ci_confirmed ci i = None" and "c \<in> set cmds"
  shows "writes_data c \<noteq> Some i"
  using assms
  by (auto simp: decide_outcome_def Let_def split: if_splits option.splits SubmittedTransactionHydrated.splits
      dest!: queue_or_log_cmds dest: webhook_no_data settle_commands_data)

lemma clean_loop_unconfirmed_data:
  "clean_loop cx now ci txs processed replaced report = (cmds, replaced', processed', report')
     \<Longrightarrow> ci_confirmed ci i = None \<Longrightarrow> c \<in> set cmds \<Longrightarrow> writes_data c \<noteq> Some i"
proof (induction txs arbitrary: processed replaced report cmds)
  case (Cons t txs)
  from Cons.prems(1) show ?case
  proof (cases rule: clean_loop_Cons)
    case skip
    then show ?thesis using Cons by blast
  next
    case (again rest)
    have "writes_data c \<noteq> Some i" if "c \<in> set rest" using Cons.IH [OF again(3) Cons.prems(2) that] .
    then show ?thesis using again(4) Cons.prems(3) cleanup_hash_data by fastforce
  next
    case (first first_cmds bk report0 rest)
    have "writes_data c \<noteq> Some i" if "c \<in> set rest" using Cons.IH [OF first(4) Cons.prems(2) that] .
    moreover have "writes_data c \<noteq> Some i" if "c \<in> set first_cmds"
      by (rule decide_outcome_unconfirmed [OF first(3) Cons.prems(2) that])
    ultimately show ?thesis using first(5) Cons.prems(3) cleanup_hash_data by fastforce
  qed
qed simp

text \<open>The commands of a settled intent appear once, and no other command touches its request.\<close>

lemma clean_loop_settles:
  "clean_loop cx now ci txs processed replaced report = (cmds, replaced', processed', report')
     \<Longrightarrow> ci_confirmed ci i = Some ct \<Longrightarrow> i \<noteq> NO_OP_TRANSACTION_ID \<Longrightarrow> i \<notin> set processed
     \<Longrightarrow> \<exists>tx \<in> set txs. hydrated_id tx = i \<and> in_range (ci_counts ci) (hydrated_nonce tx)
     \<Longrightarrow> \<exists>before tx after. cmds = before @ settle_commands cx now i ct tx @ after
           \<and> (\<forall>c \<in> set before \<union> set after. writes_data c \<noteq> Some i)"
proof (induction txs arbitrary: processed replaced report cmds)
  case (Cons t txs)
  from Cons.prems(1) show ?case
  proof (cases rule: clean_loop_Cons)
    case skip
    then show ?thesis using Cons.IH [OF skip(2) Cons.prems(2-4)] Cons.prems(5) by auto
  next
    case (again rest)
    then have ne: "hydrated_id t \<noteq> i" using Cons.prems(4) by auto
    then obtain before tx after where r: "rest = before @ settle_commands cx now i ct tx @ after"
      "\<forall>c \<in> set before \<union> set after. writes_data c \<noteq> Some i"
      using Cons.IH [OF again(3) Cons.prems(2,3)] Cons.prems(4,5) by auto
    show ?thesis
      by (rule exI [of _ "cleanup_hash ci t @ before"], rule exI [of _ tx], rule exI [of _ after])
        (use again(4) r cleanup_hash_data in fastforce)
  next
    case (first first_cmds bk report0 rest)
    show ?thesis
    proof (cases "hydrated_id t = i")
      case True
      then have "first_cmds = settle_commands cx now i ct t"
        using first(3) Cons.prems(2,3) by (simp add: decide_outcome_def Let_def)
      moreover have "writes_data c \<noteq> Some i" if "c \<in> set rest" for c
        using clean_loop_processed_data [OF first(4) _ that] True by simp
      ultimately show ?thesis
        by (intro exI [of _ "[]"] exI [of _ t] exI [of _ "cleanup_hash ci t @ rest"])
          (use first(5) cleanup_hash_data in fastforce)
    next
      case False
      then obtain before tx after where r: "rest = before @ settle_commands cx now i ct tx @ after"
        "\<forall>c \<in> set before \<union> set after. writes_data c \<noteq> Some i"
        using Cons.IH [OF first(4) Cons.prems(2,3)] Cons.prems(4,5) by auto
      moreover have "writes_data c \<noteq> Some i" if "c \<in> set first_cmds" for c
        using decide_outcome_data [OF first(3) that] False by blast
      ultimately show ?thesis
        by (intro exI [of _ "first_cmds @ cleanup_hash ci t @ before"] exI [of _ tx] exI [of _ after])
          (use first(5) cleanup_hash_data in fastforce)
    qed
  qed
qed simp

text \<open>The request after its settling commands.\<close>

definition settled :: "('tx, 'a, 'c) eoa_ctx \<Rightarrow> nat \<Rightarrow> ConfirmedTransaction \<Rightarrow> tx_data \<Rightarrow> bool" where
  "settled cx now ct d \<longleftrightarrow>
     td_status d = Some (if receipt_status (ct_receipt ct) then ''confirmed'' else ''failed'')
     \<and> (\<not> receipt_status (ct_receipt ct) \<longrightarrow> td_failure_reason d = Some ''Transaction reverted on-chain'')
     \<and> td_completed_at d = Some now \<and> td_receipt d = Some (ct_receipt_serialized ct)
     \<and> td_finality d = Some (cx_finality_json cx (ct_finality ct)) \<and> td_ttl d = Some (cx_ttl_seconds cx)"

lemma settle_commands_effect:
  "\<exists>d. es_tx_data (exec_pipeline (settle_commands cx now i ct tx) s) i = Some d \<and> settled cx now ct d"
proof -
  define hooks where "hooks = (case tx of Noop _ \<Rightarrow> []
    | Real r \<Rightarrow> queue_or_log cx
        (if receipt_status (ct_receipt ct) then transaction_confirmed_envelope (st_transaction_id (sx_data r)) (rq_from (sx_user_request r)) ct
         else transaction_reverted_envelope (st_transaction_id (sx_data r)) (rq_from (sx_user_request r)) ct)
        (rq_webhook_options (sx_user_request r)))"
  define fields where "fields = [HsetData i (Status (if receipt_status (ct_receipt ct) then ''confirmed'' else ''failed''))]
    @ (if receipt_status (ct_receipt ct) then [] else [HsetData i (FailureReason ''Transaction reverted on-chain'')])
    @ [HsetData i (CompletedAt now), HsetData i (Receipt (ct_receipt_serialized ct)),
       HsetData i (FinalityField (cx_finality_json cx (ct_finality ct))),
       ExpireData i (cx_ttl_seconds cx), ExpireAttempts i (cx_ttl_seconds cx)]"
  have split: "settle_commands cx now i ct tx = fields @ hooks"
    by (simp add: settle_commands_def fields_def hooks_def Let_def split: SubmittedTransactionHydrated.split)
  have "writes_data c \<noteq> Some i" if "c \<in> set hooks" for c
    using that webhook_no_data queue_or_log_cmds unfolding hooks_def
    by (fastforce split: SubmittedTransactionHydrated.splits)
  then have "es_tx_data (exec_pipeline (fields @ hooks) s) i = es_tx_data (exec_pipeline fields s) i"
    by (simp add: exec_pipeline_data)
  moreover have "\<exists>d. es_tx_data (exec_pipeline fields s) i = Some d \<and> settled cx now ct d"
    by (cases "es_attempts s i = []") (simp_all add: fields_def hset_data_def settled_def)
  ultimately show ?thesis unfolding split by simp
qed

subsection \<open>Evidence\<close>

lemma confirmed_member:
  assumes "ci_confirmed (clean_info_of confirmed counts txs) i = Some ct"
  shows "ct \<in> set (confirmed_members confirmed txs)" and "ct_transaction_id ct = i" and "i \<noteq> NO_OP_TRANSACTION_ID"
  using assms by (auto simp: clean_info_of_def Let_def dest!: map_of_SomeD)

lemma member_of_batch:
  "ct \<in> set (confirmed_members confirmed txs) \<Longrightarrow> ct \<in> set confirmed \<and>
     (\<exists>tx \<in> set txs. hydrated_hash tx = ct_transaction_hash ct \<and> hydrated_id tx = ct_transaction_id ct
        \<and> hydrated_nonce tx = ct_nonce ct)"
  by (force simp: confirmed_members_def)

lemma confirmed_Some:
  assumes "ct \<in> set (confirmed_members confirmed txs)" and "ct_transaction_id ct \<noteq> NO_OP_TRANSACTION_ID"
  shows "\<exists>ct'. ci_confirmed (clean_info_of confirmed counts txs) (ct_transaction_id ct) = Some ct'"
  using assms by (auto simp: clean_info_of_def Let_def map_of_eq_None_iff image_image simp flip: not_None_eq)

text \<open>A committed cleanup: its batch, its commands and what goes back.\<close>

lemma clean_commit_cases:
  assumes "commits w (CleanSubmittedTransactions cx now confirmed counts) s s'"
  obtains s0 txs ci report0 cmds replaced p r where "es_submitted s0 = es_submitted s"
    "clean_submitted_validation cx confirmed counts s0 = Inr txs" "ci = clean_info_of confirmed counts txs"
    "clean_loop cx now ci txs [] [] report0 = (cmds, replaced, p, r)"
    "s' = (exec_pipeline cmds s)\<lparr>es_pending := fold (\<lambda>(q, i). zadd i q) replaced (es_pending (exec_pipeline cmds s))\<rparr>"
proof -
  obtain s0 txs where a: "es_submitted s0 = es_submitted s" "clean_submitted_validation cx confirmed counts s0 = Inr txs"
    "s' = exec_pipeline (fst (sr_operation (CleanSubmittedTransactions cx now confirmed counts) txs)) s"
    using assms by (auto simp: commits_def CleanSubmittedTransactions_def)
  obtain report0 cmds replaced p r where l:
    "clean_loop cx now (clean_info_of confirmed counts txs) txs [] [] report0 = (cmds, replaced, p, r)"
    "fst (sr_operation (CleanSubmittedTransactions cx now confirmed counts) txs)
       = cmds @ (if replaced = [] then [] else [ZaddPending replaced])"
    by (rule clean_submitted_loop)
  show thesis by (rule that [OF a(1,2) refl l(1)]) (simp add: a(3) l(2))
qed

lemma submitted_rec_row:
  assumes "inv_rows cx s" and "submitted_rec s t"
  obtains row where "row \<in> set (es_submitted s)" "row_of t row" "snd row = st_nonce t"
proof -
  obtain row where row: "row \<in> set (es_submitted s)" "parse_member row = Some t"
    using assms(2) by (auto simp: submitted_rec_def)
  obtain t' where "row_of t' row" using assms(1) row(1) by (auto simp: inv_rows_def)
  then have "row_of t row" using row(2) row_of_parse by fastforce
  then show thesis using that row(1) row_of_nonce by blast
qed

lemma batch_of_evidence:
  assumes inv: "eoa_inv cx s" and sub: "es_submitted s0 = es_submitted s"
    and v: "clean_submitted_validation cx confirmed counts s0 = Inr txs"
    and ct: "ct \<in> set confirmed" "ct_nonce ct < max (tc_preconfirmed counts) (tc_latest counts)"
    and t: "submitted_rec s t" "st_transaction_hash t = ct_transaction_hash ct"
      "st_transaction_id t = ct_transaction_id ct" "st_nonce t = ct_nonce ct"
  shows "ct \<in> set (confirmed_members confirmed txs)"
    and "\<exists>tx \<in> set txs. hydrated_id tx = ct_transaction_id ct \<and> in_range counts (hydrated_nonce tx)"
proof -
  have rows: "inv_rows cx s" using inv by (simp add: eoa_inv_def)
  then have rows0: "\<forall>row \<in> set (es_submitted s0). \<exists>t. row_of t row" unfolding sub by (simp add: inv_rows_def)
  note batch = clean_batch [OF rows0 v, unfolded sub]
  obtain row where row: "row \<in> set (es_submitted s)" "row_of t row" "snd row = st_nonce t"
    by (rule submitted_rec_row [OF rows t(1)])
  obtain tx where tx: "tx \<in> set txs" "row_of (record_of tx) row"
    using batch(5) [OF ct row(1)] row(3) t(4) by auto
  have "record_of tx = t" by (rule row_of_unique [OF tx(2) row(2)])
  then have e: "hydrated_hash tx = ct_transaction_hash ct" "hydrated_id tx = ct_transaction_id ct"
    "hydrated_nonce tx = ct_nonce ct" using record_of_simps [of tx] t(2-4) by simp_all
  show "ct \<in> set (confirmed_members confirmed txs)" using ct(1) tx(1) e by (force simp: confirmed_members_def)
  show "\<exists>tx \<in> set txs. hydrated_id tx = ct_transaction_id ct \<and> in_range counts (hydrated_nonce tx)"
    using tx(1) e(2) batch(2) [OF tx(1)] by blast
qed

lemma evidence_removes_rows:
  assumes inv: "eoa_inv cx s" and c: "commits w (CleanSubmittedTransactions cx now confirmed counts) s s'"
    and ct: "ct \<in> set confirmed" "ct_nonce ct < max (tc_preconfirmed counts) (tc_latest counts)"
      "ct_transaction_id ct \<noteq> NO_OP_TRANSACTION_ID"
    and t: "submitted_rec s t" "st_transaction_hash t = ct_transaction_hash ct"
      "st_transaction_id t = ct_transaction_id ct" "st_nonce t = ct_nonce ct"
  shows "ct_transaction_id ct \<notin> snd ` held_s s'"
proof -
  obtain s0 txs ci report0 cmds replaced p r where sub: "es_submitted s0 = es_submitted s"
    and v: "clean_submitted_validation cx confirmed counts s0 = Inr txs" and ci: "ci = clean_info_of confirmed counts txs"
    and l: "clean_loop cx now ci txs [] [] report0 = (cmds, replaced, p, r)"
    and s': "s' = (exec_pipeline cmds s)\<lparr>es_pending := fold (\<lambda>(q, i). zadd i q) replaced (es_pending (exec_pipeline cmds s))\<rparr>"
    by (rule clean_commit_cases [OF c])
  note batch = batch_of_evidence [OF inv sub v ct(1,2) t]
  have counts: "ci_counts ci = counts" by (simp add: ci clean_info_of_def Let_def)
  obtain ct' where "ci_confirmed ci (ct_transaction_id ct) = Some ct'" using confirmed_Some [OF batch(1) ct(3)] ci by blast
  moreover obtain tx where "tx \<in> set txs" "hydrated_id tx = ct_transaction_id ct" using batch(2) by blast
  ultimately have "ct_transaction_id ct \<notin> snd ` held_s (exec_pipeline cmds s)"
    using clean_removes_intent [OF inv v sub clean_loop_commit [OF l] counts, of tx] ct(3) by simp
  moreover have "held_s s' = held_s (exec_pipeline cmds s)" by (rule held_s_cong) (simp add: s')
  ultimately show ?thesis by simp
qed

text \<open>An intent with evidence of its own in the batch ends settled, and is not put back.\<close>

lemma confirmed_intent_settled:
  assumes inv: "eoa_inv cx s" and l: "clean_loop cx now ci txs [] [] report0 = (cmds, replaced, p, r)"
    and ct: "ci_confirmed ci i = Some ct" "i \<noteq> NO_OP_TRANSACTION_ID" and held: "i \<in> snd ` held_s s"
    and tx: "tx \<in> set txs" "hydrated_id tx = i" "in_range (ci_counts ci) (hydrated_nonce tx)"
    and s': "s' = (exec_pipeline cmds s)\<lparr>es_pending := fold (\<lambda>(q, i). zadd i q) replaced (es_pending (exec_pipeline cmds s))\<rparr>"
  shows "i \<notin> set (keys (es_pending s')) \<and> (\<exists>d. es_tx_data s' i = Some d \<and> settled cx now ct d)"
proof -
  have cc: "clean_commit cx ci txs cmds replaced" by (rule clean_loop_commit [OF l])
  then have clean: "\<forall>c \<in> set cmds. clean_cmd ci (hydrated_id ` set txs) c" by (simp add: clean_commit_def)
  have "i \<notin> set (keys (es_pending s))" using inv_stageD(2) [OF inv] held by blast
  moreover have "i \<notin> snd ` set replaced" using cc ct(1) by (fastforce simp: clean_commit_def goes_back_def)
  ultimately have "i \<notin> set (keys (es_pending s'))" by (simp add: s' keys_fold_zadd exec_clean_frame [OF clean])
  moreover obtain before tx' after where split: "cmds = before @ settle_commands cx now i ct tx' @ after"
    and other: "\<forall>c \<in> set before \<union> set after. writes_data c \<noteq> Some i"
    using clean_loop_settles [OF l ct] tx by auto
  obtain d where d: "es_tx_data (exec_pipeline (settle_commands cx now i ct tx') (exec_pipeline before s)) i = Some d"
    "settled cx now ct d" using settle_commands_effect by blast
  have "es_tx_data s' i = Some d" using exec_pipeline_data [of after i] other d(1) by (simp add: s' split)
  ultimately show ?thesis using d(2) by simp
qed

text \<open>C9. Finalized evidence ends an intent exactly once: when a cleanup with matching evidence for one of its
submitted attempts commits, every attempt of the intent leaves the submitted set, the intent is not put back to
pending, and its record is terminal (confirmed, or failed for a reverted receipt) with the receipt, the finality
evidence, the completion time and an expiry.\<close>

theorem cleanup_settles_finalized_intent:
  assumes reach: "eoa_reach cx ids s" "\<forall>i \<in> ids. wf_id i" and codec: "codec_ok (cx_codec cx)"
    and c: "commits w (CleanSubmittedTransactions cx now confirmed counts) s s'"
    and ct: "ct \<in> set confirmed" "ct_nonce ct < max (tc_preconfirmed counts) (tc_latest counts)"
      "ct_transaction_id ct \<noteq> NO_OP_TRANSACTION_ID"
    and uniq: "\<And>ct'. ct' \<in> set confirmed \<Longrightarrow> ct_transaction_id ct' = ct_transaction_id ct \<Longrightarrow> ct' = ct"
    and t: "submitted_rec s t" "st_transaction_hash t = ct_transaction_hash ct"
      "st_transaction_id t = ct_transaction_id ct" "st_nonce t = ct_nonce ct"
  shows "ct_transaction_id ct \<notin> snd ` held_s s' \<and> ct_transaction_id ct \<notin> set (keys (es_pending s'))
    \<and> (\<exists>d. es_tx_data s' (ct_transaction_id ct) = Some d \<and> settled cx now ct d)"
proof -
  have inv: "eoa_inv cx s" by (rule eoa_reach_inv [OF reach codec])
  let ?i = "ct_transaction_id ct"
  obtain s0 txs ci report0 cmds replaced p r where sub: "es_submitted s0 = es_submitted s"
    and v: "clean_submitted_validation cx confirmed counts s0 = Inr txs" and ci: "ci = clean_info_of confirmed counts txs"
    and l: "clean_loop cx now ci txs [] [] report0 = (cmds, replaced, p, r)"
    and s': "s' = (exec_pipeline cmds s)\<lparr>es_pending := fold (\<lambda>(q, i). zadd i q) replaced (es_pending (exec_pipeline cmds s))\<rparr>"
    by (rule clean_commit_cases [OF c])
  note batch = batch_of_evidence [OF inv sub v ct(1,2) t]
  have counts: "ci_counts ci = counts" by (simp add: ci clean_info_of_def Let_def)
  obtain ct' where ct': "ci_confirmed ci ?i = Some ct'" using confirmed_Some [OF batch(1) ct(3)] ci by blast
  have "ct' \<in> set (confirmed_members confirmed txs)" "ct_transaction_id ct' = ?i"
    using confirmed_member [OF ct' [unfolded ci]] by simp_all
  then have ct'_eq: "ct' = ct" using uniq member_of_batch by blast
  obtain tx where tx: "tx \<in> set txs" "hydrated_id tx = ?i" "in_range counts (hydrated_nonce tx)" using batch(2) by blast
  have "?i \<in> snd ` held_s s" using t by (force simp: held_s_def)
  then show ?thesis
    using confirmed_intent_settled [OF inv l ct' ct(3) _ tx(1,2) _ s'] tx(3) counts ct'_eq evidence_removes_rows [OF inv c ct t]
    by simp
qed

definition demo_results :: "(nat, nat) SubmissionResult list" where
  "demo_results = [from_send_result demo_cx 300 \<lparr>bt_data = demo_borrowed, bt_user_request = demo_request\<rparr> True]"

definition demo_sent :: estore where
  "demo_sent = exec_pipeline (concat (map (result_commands demo_cx) demo_results)) demo_store"

definition demo_record :: SubmittedTransactionDehydrated where
  "demo_record = \<lparr>st_nonce = 7, st_transaction_hash = ''h'', st_transaction_id = ''a'', st_submitted_at = 300, st_queued_at = 100\<rparr>"

definition demo_final :: ConfirmedTransaction where
  "demo_final = \<lparr>ct_nonce = 7, ct_transaction_hash = ''h'', ct_transaction_id = ''a'',
     ct_receipt = \<lparr>rc_transaction_hash = ''h'', rc_status = Some True, rc_block_number = Some 40, rc_block_hash = Some ''B''\<rparr>,
     ct_receipt_serialized = ''receipt'',
     ct_finality = \<lparr>fe_block_number = 40, fe_block_hash = ''B'', fe_checkpoint_number = 50, fe_checkpoint_hash = ''C'', fe_policy = Finalized\<rparr>\<rparr>"

lemmas demo_result_defs = demo_results_def from_send_result_def submitted_transaction_of_borrowed_def submitted_of_borrowed_def
  sub_transaction_id_def demo_defs

lemma held_b_demo: "(7, ''a'') \<in> held_b demo_cx demo_store"
  by (auto simp: held_b_def borrowed_rec_def demo_store_def demo_admitted_eq demo_defs hset_new keys_def bd_nonce_def
      intro!: exI [of _ demo_borrowed])

lemma results_read_demo: "results_read demo_cx demo_results demo_store"
  using held_b_demo
  by (simp add: results_read_def result_ok_def demo_result_defs wf_submitted_def wf_text_def u64_max_def NO_OP_TRANSACTION_ID_def)

lemma commit_demo_sent: "commits ''w'' (ProcessBorrowedTransactions demo_cx demo_results) demo_store demo_sent"
  unfolding commits_def
  by (rule exI [of _ demo_store], rule exI [of _ demo_results])
    (simp add: ProcessBorrowedTransactions_def demo_sent_def demo_store_def demo_admitted_eq demo_result_defs
      hset_new keys_def hexists_def result_commands_def to_redis_string_with_nonce_def result_webhooks_def Let_def)

lemma reach_demo_sent: "eoa_reach demo_cx {''a''} demo_sent"
  by (rule eoa_reach.step [OF reach_demo], rule eoa_act.process [OF commit_demo_sent])
    (use results_read_demo in \<open>simp_all add: results_read_def\<close>)

lemma es_submitted_demo: "es_submitted demo_sent = [(fst (to_redis_string_with_nonce demo_record), 7)]"
  by (simp add: demo_sent_def demo_store_def demo_admitted_eq demo_result_defs hset_data_def
      result_commands_def to_redis_string_with_nonce_def result_webhooks_def demo_record_def zadd_new Let_def)

lemma parse_demo: "parse_member (fst (to_redis_string_with_nonce demo_record), 7) = Some demo_record"
  using parse_to_redis [of demo_record]
  by (simp add: demo_record_def wf_submitted_def wf_text_def u64_max_def to_redis_string_with_nonce_def)

lemma user_request_demo: "user_request_of ''a'' demo_sent = Some ''r''"
  by (simp add: user_request_of_def demo_sent_def demo_store_def demo_admitted_eq demo_result_defs hset_data_def
      result_commands_def to_redis_string_with_nonce_def result_webhooks_def Let_def)

lemma clean_commands_ok: "list_all cmd_ok (fst (sr_operation (CleanSubmittedTransactions cx now confirmed counts) txs))"
proof -
  obtain report0 cmds replaced p r where l:
    "clean_loop cx now (clean_info_of confirmed counts txs) txs [] [] report0 = (cmds, replaced, p, r)"
    "fst (sr_operation (CleanSubmittedTransactions cx now confirmed counts) txs)
       = cmds @ (if replaced = [] then [] else [ZaddPending replaced])"
    by (rule clean_submitted_loop)
  have "cmd_ok c" if "clean_cmd ci ids c" for ci ids c using that by (cases c) auto
  then show ?thesis using clean_loop_commit [OF l(1)] unfolding l(2) by (auto simp: clean_commit_def list_all_iff)
qed

definition demo_clean :: "((nat, nat) SubmittedTransactionHydrated list, CleanupReport) SafeRedisTransaction" where
  "demo_clean = CleanSubmittedTransactions demo_cx 900 [demo_final] \<lparr>tc_latest = 8, tc_preconfirmed = 8\<rparr>"

definition demo_settled :: estore where
  "demo_settled = exec_pipeline (fst (sr_operation demo_clean [Real \<lparr>sx_data = demo_record, sx_user_request = demo_request\<rparr>])) demo_sent"

lemma commit_demo_settled: "commits ''w'' demo_clean demo_sent demo_settled"
proof -
  let ?v = "[Real \<lparr>sx_data = demo_record, sx_user_request = demo_request\<rparr>]"
  have "nonce_groups [7] (es_submitted demo_sent) = Inr [(fst (to_redis_string_with_nonce demo_record), 7)]"
    by (simp add: nonce_groups_def es_submitted_demo zrangebyscore_rows_def zrange_def)
  moreover have "from_redis_strings [(fst (to_redis_string_with_nonce demo_record), 7)] = [demo_record]"
    by (simp add: from_redis_strings_def map_filter_simps parse_demo)
  moreover have "hydrate_all_submitted (cx_codec demo_cx) [demo_record] demo_sent = Inr ?v"
    using user_request_demo
    by (simp add: hydrate_all_submitted_def demo_record_def NO_OP_TRANSACTION_ID_def demo_defs from_json_def hydrate_submitted_def)
  ultimately have "sr_validation demo_clean demo_sent = Inr ?v"
    by (simp add: demo_clean_def CleanSubmittedTransactions_def clean_submitted_validation_def evidence_matches_def
        demo_final_def bind_result_def)
  moreover have "list_all cmd_ok (fst (sr_operation demo_clean ?v))" unfolding demo_clean_def by (rule clean_commands_ok)
  moreover have "es_lock demo_sent = Some ''w''"
    by (simp add: demo_sent_def demo_store_def demo_admitted_eq demo_result_defs hset_data_def
      result_commands_def to_redis_string_with_nonce_def result_webhooks_def Let_def)
  ultimately show ?thesis
    unfolding commits_def demo_settled_def by (intro exI [of _ demo_sent] exI [of _ ?v]) simp
qed

lemma demo_submitted: "submitted_rec demo_sent demo_record" "(7, ''a'') \<in> held_s demo_sent"
proof -
  show r: "submitted_rec demo_sent demo_record" using parse_demo by (simp add: submitted_rec_def es_submitted_demo)
  show "(7, ''a'') \<in> held_s demo_sent"
    using r by (auto simp: held_s_def demo_record_def intro!: exI [of _ demo_record])
qed

theorem cleanup_settles_finalized_intent_witness:
  "''a'' \<notin> snd ` held_s demo_settled \<and> ''a'' \<notin> set (keys (es_pending demo_settled))
     \<and> (\<exists>d. es_tx_data demo_settled ''a'' = Some d \<and> settled demo_cx 900 demo_final d)"
  using cleanup_settles_finalized_intent [OF reach_demo_sent clean_demo codec_ok_demo commit_demo_settled [unfolded demo_clean_def],
      of demo_final demo_record] demo_submitted(1)
  by (simp add: demo_final_def demo_record_def NO_OP_TRANSACTION_ID_def)

lemma clean_loop_keeps_replaced:
  "clean_loop cx now ci txs processed replaced report = (cmds, replaced', processed', report') \<Longrightarrow> set replaced \<subseteq> set replaced'"
proof (induction txs arbitrary: processed replaced report cmds)
  case (Cons t txs)
  from Cons.prems show ?case by (cases rule: clean_loop_Cons) (use Cons.IH in fastforce)+
qed simp

lemma clean_loop_back:
  "clean_loop cx now ci txs processed replaced report = (cmds, replaced', processed', report')
     \<Longrightarrow> i \<notin> set processed \<Longrightarrow> tx \<in> set txs \<Longrightarrow> hydrated_id tx = i
     \<Longrightarrow> \<forall>tx \<in> set txs. hydrated_id tx = i \<longrightarrow> goes_back ci tx \<and> kind_ok tx \<and> in_range (ci_counts ci) (hydrated_nonce tx)
     \<Longrightarrow> i \<in> snd ` set replaced'"
proof (induction txs arbitrary: processed replaced report cmds)
  case (Cons t txs)
  from Cons.prems(1) show ?case
  proof (cases rule: clean_loop_Cons)
    case skip
    then have "hydrated_id t \<noteq> i" using Cons.prems(5) by auto
    then show ?thesis using Cons.IH [OF skip(2) Cons.prems(2)] Cons.prems(3-5) by auto
  next
    case (again rest)
    then have "hydrated_id t \<noteq> i" using Cons.prems(2) by auto
    then show ?thesis using Cons.IH [OF again(3)] Cons.prems(2-5) by auto
  next
    case (first first_cmds bk report0 rest)
    show ?thesis
    proof (cases "hydrated_id t = i")
      case True
      then have "i \<in> snd ` set bk" using decide_outcome_effect(3) [OF first(3) UNIV_I] Cons.prems(5) by auto
      then show ?thesis using clean_loop_keeps_replaced [OF first(4)] by auto
    next
      case False
      then show ?thesis using Cons.IH [OF first(4)] Cons.prems(2-5) by auto
    qed
  qed
qed simp

lemma replaced_intent_waits:
  assumes "clean_loop cx now ci txs [] [] report0 = (cmds, replaced, p, r)" and "ci_confirmed ci i = None"
    and "i \<in> snd ` set replaced"
    and "s' = (exec_pipeline cmds s)\<lparr>es_pending := fold (\<lambda>(q, i). zadd i q) replaced (es_pending (exec_pipeline cmds s))\<rparr>"
  shows "i \<in> set (keys (es_pending s')) \<and> es_tx_data s' i = es_tx_data s i"
  using assms(3) exec_pipeline_data [of cmds i s] clean_loop_unconfirmed_data [OF assms(1,2)]
  by (simp add: assms(4) keys_fold_zadd)

subsection \<open>Removed rows\<close>

lemma decide_outcome_zrem: "decide_outcome cx now ci tx report = (cmds, bk, report') \<Longrightarrow> ZremSubmitted m \<notin> set cmds"
  by (auto simp: decide_outcome_def settle_commands_def Let_def dest!: queue_or_log_cmds
      split: if_splits option.splits SubmittedTransactionHydrated.splits)

lemma clean_loop_zrem:
  "clean_loop cx now ci txs processed replaced report = (cmds, replaced', processed', report')
     \<Longrightarrow> ZremSubmitted m \<in> set cmds \<Longrightarrow> \<exists>tx \<in> set txs. ZremSubmitted m \<in> set (cleanup_hash ci tx)"
proof (induction txs arbitrary: processed replaced report cmds)
  case (Cons t txs)
  from Cons.prems(1) show ?case
  proof (cases rule: clean_loop_Cons)
    case skip
    then show ?thesis using Cons by auto
  next
    case (again rest)
    then show ?thesis using Cons.IH [OF again(3)] Cons.prems(2) by auto
  next
    case (first first_cmds bk report0 rest)
    then show ?thesis using Cons.IH [OF first(4)] Cons.prems(2) decide_outcome_zrem [OF first(3)] by auto
  qed
qed simp

text \<open>A removed row belongs to the intent whose attempt is cleaned up.\<close>

lemma cleanup_hash_zrem_id:
  assumes z: "ZremSubmitted (fst row) \<in> set (cleanup_hash ci tx)" and t: "row_of t row"
    and u: "row_of (record_of tx) row'"
  shows "hydrated_id tx = st_transaction_id t"
proof -
  let ?u = "record_of tx"
  let ?old = "?u\<lparr>st_submitted_at := 0\<rparr>"
  have wf: "wf_submitted ?u" using u by (simp add: row_of_def)
  then have wf0: "wf_submitted ?old" by (simp add: wf_submitted_def)
  have legacy: "to_legacy_redis_string_with_nonce ?u = to_legacy_redis_string_with_nonce ?old"
    by (simp add: to_legacy_redis_string_with_nonce_def)
  from z have "fst row = fst (to_redis_string_with_nonce ?u) \<or> fst row = fst (to_legacy_redis_string_with_nonce ?u)"
    by (auto simp: cleanup_hash_def remove_from_submitted_def hydrated_strings
        split: if_splits SubmittedTransactionHydrated.splits)
  then have "st_transaction_id t = st_transaction_id ?u"
  proof
    assume "fst row = fst (to_redis_string_with_nonce ?u)"
    then show ?thesis using parse_member_fst [OF _ row_of_parse [OF t] parse_to_redis [OF wf]] by simp
  next
    assume "fst row = fst (to_legacy_redis_string_with_nonce ?u)"
    then have "fst row = fst (to_legacy_redis_string_with_nonce ?old)" by (simp only: legacy)
    then show ?thesis using parse_member_fst [OF _ row_of_parse [OF t] parse_to_legacy [OF wf0]] by simp
  qed
  then show ?thesis by simp
qed

lemma removed_intent_cleaned:
  assumes inv: "eoa_inv cx s" and sub: "es_submitted s0 = es_submitted s"
    and v: "clean_submitted_validation cx confirmed counts s0 = Inr txs"
    and l: "clean_loop cx now ci txs [] [] report0 = (cmds, replaced, p, r)"
    and gone: "(n, i) \<in> held_s s" "(n, i) \<notin> held_s (exec_pipeline cmds s)" and i: "i \<noteq> NO_OP_TRANSACTION_ID"
  shows "\<exists>tx \<in> set txs. hydrated_id tx = i \<and> hydrated_nonce tx = n \<and> cleanup_hash ci tx \<noteq> []"
proof -
  have rows: "inv_rows cx s" and nonce: "inv_nonce cx s" using inv by (simp_all add: eoa_inv_def)
  have rows0: "\<forall>row \<in> set (es_submitted s0). \<exists>t. row_of t row" using rows unfolding sub by (simp add: inv_rows_def)
  note batch = clean_batch [OF rows0 v, unfolded sub]
  have clean: "\<forall>c \<in> set cmds. clean_cmd ci (hydrated_id ` set txs) c"
    using clean_loop_commit [OF l] by (simp add: clean_commit_def)
  obtain t row where t: "n = st_nonce t" "i = st_transaction_id t" "row \<in> set (es_submitted s)" "row_of t row"
    using gone(1) unfolding held_s_rows [OF rows] by auto
  have "row \<notin> set (es_submitted (exec_pipeline cmds s))"
    using gone(2) row_of_parse [OF t(4)] t(1,2) by (auto simp: held_s_def submitted_rec_def)
  then have "ZremSubmitted (fst row) \<in> set cmds"
    using t(3) by (cases row) (auto simp: exec_clean_submitted [OF clean])
  then obtain tx where tx: "tx \<in> set txs" "ZremSubmitted (fst row) \<in> set (cleanup_hash ci tx)"
    using clean_loop_zrem [OF l] by blast
  obtain row' where row': "row' \<in> set (es_submitted s)" "row_of (record_of tx) row'" using batch(1) [OF tx(1)] by blast
  have id: "hydrated_id tx = i" using cleanup_hash_zrem_id [OF tx(2) t(4) row'(2)] t(2) by simp
  have "(hydrated_nonce tx, i) \<in> held_s s"
    using row_of_parse [OF row'(2)] row'(1) id by (force simp: held_s_def submitted_rec_def)
  then have "hydrated_nonce tx = n" using inv_nonceD(2) [OF nonce _ _ i] gone(1) by blast
  then show ?thesis using tx id by force
qed

text \<open>C10. Only finalized evidence makes an intent leave the submitted set: when a cleanup removes the holder of
a nonce, its input contains matching evidence for the receipt of an attempt at that nonce, and the intent is
not lost: either evidence of its own is in the input and its record is terminal with that receipt, finality
evidence, completion time and expiry, and it is not pending; or it is pending again with its record as it was.
Everything without evidence keeps its rows.\<close>

theorem submitted_intent_leaves_only_with_evidence:
  assumes reach: "eoa_reach cx ids s" "\<forall>i \<in> ids. wf_id i" and codec: "codec_ok (cx_codec cx)"
    and c: "commits w (CleanSubmittedTransactions cx now confirmed counts) s s'"
    and gone: "(n, i) \<in> held_s s" "(n, i) \<notin> held_s s'" and i: "i \<noteq> NO_OP_TRANSACTION_ID"
  shows "(\<exists>ct t. ct \<in> set confirmed \<and> evidence_matches ct \<and> submitted_rec s t \<and> st_nonce t = n
            \<and> st_transaction_hash t = ct_transaction_hash ct)
    \<and> ((\<exists>ct d. ct \<in> set confirmed \<and> evidence_matches ct \<and> ct_transaction_id ct = i
             \<and> es_tx_data s' i = Some d \<and> settled cx now ct d \<and> i \<notin> set (keys (es_pending s')))
         \<or> (i \<in> set (keys (es_pending s')) \<and> es_tx_data s' i = es_tx_data s i))"
proof -
  have inv: "eoa_inv cx s" by (rule eoa_reach_inv [OF reach codec])
  then have rows: "inv_rows cx s" and nonce: "inv_nonce cx s" by (simp_all add: eoa_inv_def)
  obtain s0 txs ci report0 cmds replaced p r where sub: "es_submitted s0 = es_submitted s"
    and v: "clean_submitted_validation cx confirmed counts s0 = Inr txs" and ci: "ci = clean_info_of confirmed counts txs"
    and l: "clean_loop cx now ci txs [] [] report0 = (cmds, replaced, p, r)"
    and s': "s' = (exec_pipeline cmds s)\<lparr>es_pending := fold (\<lambda>(q, i). zadd i q) replaced (es_pending (exec_pipeline cmds s))\<rparr>"
    by (rule clean_commit_cases [OF c])
  have rows0: "\<forall>row \<in> set (es_submitted s0). \<exists>t. row_of t row" using rows unfolding sub by (simp add: inv_rows_def)
  note batch = clean_batch [OF rows0 v, unfolded sub]
  have counts: "ci_counts ci = counts" by (simp add: ci clean_info_of_def Let_def)
  have rec: "submitted_rec s (record_of tx)" if "tx \<in> set txs" for tx
    using batch(1) [OF that] row_of_parse by (auto simp: submitted_rec_def)
  have same: "hydrated_nonce tx = n" if "tx \<in> set txs" "hydrated_id tx = i" for tx
  proof -
    have "(hydrated_nonce tx, i) \<in> held_s s" using rec [OF that(1)] that(2) by (force simp: held_s_def)
    then show ?thesis using inv_nonceD(2) [OF nonce _ _ i] gone(1) by blast
  qed
  have ev: "evidence_matches ct" if "ct \<in> set confirmed" for ct using batch(6) that by (simp add: list_all_iff)
  have "held_s s' = held_s (exec_pipeline cmds s)" by (rule held_s_cong) (simp add: s')
  then obtain tx where tx: "tx \<in> set txs" "hydrated_id tx = i" "hydrated_nonce tx = n" "cleanup_hash ci tx \<noteq> []"
    using removed_intent_cleaned [OF inv sub v l gone(1) _ i] gone(2) by auto
  show ?thesis
  proof (cases "ci_confirmed ci i")
    case (Some ct)
    note m = confirmed_member [OF Some [unfolded ci]]
    obtain tx2 where tx2: "tx2 \<in> set txs" "hydrated_hash tx2 = ct_transaction_hash ct" "hydrated_id tx2 = i"
      using member_of_batch [OF m(1)] m(2) by auto
    have ct: "ct \<in> set confirmed" using member_of_batch [OF m(1)] by blast
    have "i \<in> snd ` held_s s" using gone(1) by force
    from confirmed_intent_settled [OF inv l Some i this tx(1,2) _ s'] obtain d where
      d: "es_tx_data s' i = Some d" "settled cx now ct d" "i \<notin> set (keys (es_pending s'))"
      using batch(2) [OF tx(1)] counts by auto
    show ?thesis
      by (intro conjI exI [of _ ct] exI [of _ "record_of tx2"] disjI1 exI [of _ d])
        (use ct ev [OF ct] rec [OF tx2(1)] same [OF tx2(1,3)] tx2(2) m(2) d in simp_all)
  next
    case None
    then have bk: "proven_replaced ci n" using tx i by (auto simp: cleanup_hash_def split: if_splits SubmittedTransactionHydrated.splits)
    then obtain tx2 ct where tx2: "tx2 \<in> set txs" "hydrated_nonce tx2 = n" "hydrated_hash tx2 = ct_transaction_hash ct"
      "ct \<in> set (confirmed_members confirmed txs)"
      by (auto simp: proven_replaced_def ci clean_info_of_def Let_def)
    have ct: "ct \<in> set confirmed" using member_of_batch [OF tx2(4)] by blast
    have "i \<in> snd ` set replaced"
      by (rule clean_loop_back [OF l _ tx(1,2)])
        (use same batch(2,4) None bk i counts in \<open>auto simp: goes_back_def list_all_iff\<close>)
    note replaced_intent_waits [OF l None this s']
    then show ?thesis using ev [OF ct] ct rec [OF tx2(1)] tx2(2,3)
      by (intro conjI exI [of _ ct] exI [of _ "record_of tx2"] disjI2) simp_all
  qed
qed

lemma demo_settled_gone: "(7, ''a'') \<notin> held_s demo_settled"
proof -
  have "ct_transaction_id demo_final \<notin> snd ` held_s demo_settled"
    by (rule evidence_removes_rows [OF eoa_reach_inv [OF reach_demo_sent clean_demo codec_ok_demo]
          commit_demo_settled [unfolded demo_clean_def] _ _ _ demo_submitted(1)])
      (simp_all add: demo_final_def demo_record_def NO_OP_TRANSACTION_ID_def)
  then show ?thesis by (force simp: demo_final_def)
qed

theorem submitted_intent_leaves_only_with_evidence_witness:
  "(\<exists>ct t. ct \<in> set [demo_final] \<and> evidence_matches ct \<and> submitted_rec demo_sent t \<and> st_nonce t = 7
      \<and> st_transaction_hash t = ct_transaction_hash ct)
   \<and> ((\<exists>ct d. ct \<in> set [demo_final] \<and> evidence_matches ct \<and> ct_transaction_id ct = ''a''
            \<and> es_tx_data demo_settled ''a'' = Some d \<and> settled demo_cx 900 ct d \<and> ''a'' \<notin> set (keys (es_pending demo_settled)))
        \<or> (''a'' \<in> set (keys (es_pending demo_settled)) \<and> es_tx_data demo_settled ''a'' = es_tx_data demo_sent ''a''))"
  by (rule submitted_intent_leaves_only_with_evidence [OF reach_demo_sent clean_demo codec_ok_demo
      commit_demo_settled [unfolded demo_clean_def] demo_submitted(2) demo_settled_gone])
    (simp add: NO_OP_TRANSACTION_ID_def)

end
