(* ===== verification/Eoa_Reads.thy ===== *)
theory Eoa_Reads
  imports Eoa_Settle
begin

text \<open>
  Recording sends, the immutability of admitted requests, the text form of submitted rows and the
  rotating receipt scan.
\<close>

subsection \<open>Recording sends\<close>

lemma hexists_keys: "hexists i h \<longleftrightarrow> i \<in> set (keys h)"
  by (simp add: hexists_def)

lemma result_step_fields:
  assumes "sub_result r \<noteq> Uncertain"
  shows "es_borrowed (exec_pipeline (result_commands cx r) s) = hdel (sub_transaction_id r) (es_borrowed s)"
    and "i \<noteq> sub_transaction_id r \<Longrightarrow> es_tx_data (exec_pipeline (result_commands cx r) s) i = es_tx_data s i"
  using exec_result_commands [OF assms, of cx s] by (auto simp: hset_data_def)

lemma results_step:
  assumes "eoa_inv cx s" and "\<forall>r \<in> set rs. result_ok cx s r"
    and "t = exec_pipeline (concat (map (result_commands cx) rs)) s"
  shows "held_b cx t \<union> held_s t = held_b cx s \<union> held_s s \<and>
    es_borrowed t = fold hdel (map sub_transaction_id (filter (\<lambda>r. sub_result r \<noteq> Uncertain) rs)) (es_borrowed s) \<and>
    (\<forall>i. (\<forall>r \<in> set rs. sub_transaction_id r = i \<longrightarrow> sub_result r = Uncertain) \<longrightarrow> es_tx_data t i = es_tx_data s i)"
  using assms
proof (induction rs arbitrary: s)
  case (Cons r rs)
  show ?case
  proof (cases "sub_result r = Uncertain")
    case True
    then have "result_commands cx r = []" by (simp add: result_commands_def)
    then show ?thesis using Cons.IH [of s] Cons.prems True by auto
  next
    case False
    let ?u = "exec_pipeline (result_commands cx r) s"
    have ok: "result_ok cx s r" using Cons.prems(2) by simp
    note st = result_step [OF Cons.prems(1) ok False refl]
    have "\<forall>r' \<in> set rs. result_ok cx ?u r'" using Cons.prems(2) st(2) by (simp add: result_ok_def)
    from Cons.IH [OF st(1) this] Cons.prems(3)
    have IH: "held_b cx t \<union> held_s t = held_b cx ?u \<union> held_s ?u"
      "es_borrowed t = fold hdel (map sub_transaction_id (filter (\<lambda>r. sub_result r \<noteq> Uncertain) rs)) (es_borrowed ?u)"
      "\<forall>i. (\<forall>r \<in> set rs. sub_transaction_id r = i \<longrightarrow> sub_result r = Uncertain) \<longrightarrow> es_tx_data t i = es_tx_data ?u i"
      by simp_all
    show ?thesis
      using IH st(2) result_step_fields [OF False, where cx = cx and s = s] False by auto
  qed
qed simp

lemma set_fold_hdel: "set (fold hdel is h) = {(k, v) \<in> set h. k \<notin> set is}"
  by (induction "is" arbitrary: h) auto

lemma process_commit:
  assumes "commits w (ProcessBorrowedTransactions cx results) s s'"
  shows "s' = exec_pipeline (concat (map (result_commands cx)
           (filter (\<lambda>r. hexists (sub_transaction_id r) (es_borrowed s)) results))) s"
  using assms by (auto simp: commits_def ProcessBorrowedTransactions_def)

text \<open>C16. Recording the outcome of sends frees no nonce: the pairs of nonce and intent held before and after the
commit are the same. A send with a definite outcome moves its borrowed record to the submitted rows under the
same nonce; a record whose outcomes are all uncertain stays borrowed byte for byte, and its request is untouched.\<close>

theorem recording_sends_frees_no_nonce:
  assumes reach: "eoa_reach cx ids s" "\<forall>i \<in> ids. wf_id i" and codec: "codec_ok (cx_codec cx)"
    and c: "commits w (ProcessBorrowedTransactions cx results) s s'" and read: "results_read cx results s"
  shows "held_b cx s' \<union> held_s s' = held_b cx s \<union> held_s s
    \<and> (\<forall>r \<in> set results. hexists (sub_transaction_id r) (es_borrowed s) \<and> sub_result r \<noteq> Uncertain
         \<longrightarrow> sub_transaction_id r \<notin> set (keys (es_borrowed s'))
           \<and> (st_nonce (sx_data (sub_transaction r)), sub_transaction_id r) \<in> held_s s')
    \<and> (\<forall>i j. (i, j) \<in> set (es_borrowed s) \<and> (\<forall>r \<in> set results. sub_transaction_id r = i \<longrightarrow> sub_result r = Uncertain)
         \<longrightarrow> (i, j) \<in> set (es_borrowed s') \<and> es_tx_data s' i = es_tx_data s i)"
proof -
  have inv: "eoa_inv cx s" by (rule eoa_reach_inv [OF reach codec])
  let ?valid = "filter (\<lambda>r. hexists (sub_transaction_id r) (es_borrowed s)) results"
  note s' = process_commit [OF c]
  have ok: "\<forall>r \<in> set ?valid. result_ok cx s r" using read by (simp add: results_read_def)
  note st = results_step [OF inv ok s']
  have inv': "eoa_inv cx s'" unfolding s' by (rule results_inv [OF inv]) (use ok in blast)
  then have rows': "inv_rows cx s'" by (simp add: eoa_inv_def)
  have bor: "set (es_borrowed s') = {(k, v) \<in> set (es_borrowed s). k \<notin> sub_transaction_id ` {r \<in> set ?valid. sub_result r \<noteq> Uncertain}}"
    using st by (auto simp: set_fold_hdel)
  have out: "sub_transaction_id r \<notin> set (keys (es_borrowed s'))" if "r \<in> set ?valid" "sub_result r \<noteq> Uncertain" for r
    using that bor by (auto simp: in_keys_iff)
  have moved: "(st_nonce (sx_data (sub_transaction r)), sub_transaction_id r) \<in> held_s s'"
    if r: "r \<in> set ?valid" "sub_result r \<noteq> Uncertain" for r
  proof -
    have "result_ok cx s r" using ok r(1) by blast
    then have "(st_nonce (sx_data (sub_transaction r)), sub_transaction_id r) \<in> held_b cx s' \<union> held_s s'"
      using st r(2) by (simp add: result_ok_def)
    then show ?thesis using held_b_id [OF rows'] out [OF r] by blast
  qed
  have kept: "(i, j) \<in> set (es_borrowed s') \<and> es_tx_data s' i = es_tx_data s i"
    if "(i, j) \<in> set (es_borrowed s)" "\<forall>r \<in> set results. sub_transaction_id r = i \<longrightarrow> sub_result r = Uncertain" for i j
    using that st unfolding bor by auto
  show ?thesis
    using out moved kept conjunct1 [OF st] by (intro conjI ballI allI impI; (elim conjE)?) simp_all
qed

theorem recording_sends_frees_no_nonce_witness:
  "held_b demo_cx demo_sent \<union> held_s demo_sent = held_b demo_cx demo_store \<union> held_s demo_store
   \<and> ''a'' \<notin> set (keys (es_borrowed demo_sent)) \<and> (7, ''a'') \<in> held_s demo_sent"
proof -
  have "hexists ''a'' (es_borrowed demo_store)"
    by (simp add: demo_store_def demo_admitted_eq demo_defs hset_new keys_def hexists_def)
  then show ?thesis
    using recording_sends_frees_no_nonce [OF reach_demo clean_demo codec_ok_demo commit_demo_sent results_read_demo]
    by (simp add: demo_result_defs)
qed

subsection \<open>Admitted requests are immutable\<close>

definition same_request :: "tx_id \<Rightarrow> estore \<Rightarrow> estore \<Rightarrow> bool" where
  "same_request i s t \<longleftrightarrow>
     (\<forall>d. es_tx_data s i = Some d \<longrightarrow>
        (case es_tx_data t i of None \<Rightarrow> True | Some d' \<Rightarrow> td_user_request d' = td_user_request d))"

lemma set_field_request [simp]: "td_user_request (set_field f d) = td_user_request d"
  by (cases f) auto

lemma exec_cmd_request:
  "es_tx_data s i = Some d \<Longrightarrow> \<exists>d'. es_tx_data (exec_cmd c s) i = Some d' \<and> td_user_request d' = td_user_request d"
  by (cases c) (auto simp: hset_data_def)

lemma exec_pipeline_request:
  "es_tx_data s i = Some d \<Longrightarrow> \<exists>d'. es_tx_data (exec_pipeline cs s) i = Some d' \<and> td_user_request d' = td_user_request d"
proof (induction cs arbitrary: s d)
  case (Cons c cs)
  then show ?case using exec_cmd_request [OF Cons.prems, of c] by fastforce
qed simp

lemma commits_request:
  assumes "commits w tx s t"
  shows "same_request i s t"
proof -
  obtain cs where "t = exec_pipeline cs s" using assms unfolding commits_def by blast
  then show ?thesis using exec_pipeline_request [of s i _ cs] by (fastforce simp: same_request_def)
qed

lemma eoa_act_request: "eoa_act cx a s t \<Longrightarrow> same_request i s t"
proof (induction rule: eoa_act.induct)
  case (admit k s json now limit)
  show ?case by (auto simp: same_request_def add_transaction_script_def user_request_of_def split: option.splits)
next
  case (acquire w s)
  show ?case by (simp add: same_request_def acquire_eoa_lock_aggressively_def split: option.split)
next
  case (manual_reset s now)
  show ?case by (simp add: same_request_def schedule_manual_reset_def split: option.split)
next
  case (expire s k d)
  then show ?case by (auto simp: same_request_def split: option.split)
next
  case (hydrate s ids)
  show ?case
    by (auto simp: same_request_def hydrate_pending_transactions_def Let_def split: option.split sum.split)
next
  case (hydrate_borrowed s records)
  show ?case by (auto simp: same_request_def hydrate_all_def Let_def split: option.split sum.split)
next
  case (foreign k s d)
  then show ?case by (auto simp: same_request_def split: option.split)
qed (erule commits_request)+

text \<open>Runs in which the record of an intent does not expire.\<close>

definition retaining_step :: "('tx, 'a, 'c) eoa_ctx \<Rightarrow> tx_id \<Rightarrow> estore \<Rightarrow> estore \<Rightarrow> bool" where
  "retaining_step cx i s t \<longleftrightarrow> eoa_step cx s t \<and> es_tx_data t i \<noteq> None"

lemma retaining_run:
  assumes "(retaining_step cx i)\<^sup>*\<^sup>* s t" and "user_request_of i s = Some json"
  shows "user_request_of i t = Some json"
  using assms
proof (induction rule: rtranclp_induct)
  case (step t u)
  then show ?case using eoa_act_request [of cx _ t u i]
    by (auto simp: retaining_step_def eoa_step_def same_request_def user_request_of_def bind_eq_Some_conv split: option.splits)
qed simp

text \<open>C17. An admitted request is immutable and its admission idempotent: as long as its record has not expired,
through any interleaving of admissions, takeovers and worker commits and whatever its stage, the retained
request is the admitted one, an identical retry succeeds without changing anything even when the queue is full,
and another request with the same id is refused without changing anything.\<close>

theorem admission_is_idempotent_and_immutable:
  assumes run: "(retaining_step cx (rq_transaction_id rq))\<^sup>*\<^sup>* (snd (add_transaction (cx_codec cx) now rq s)) t"
    and first: "fst (add_transaction (cx_codec cx) now rq s) = Inr ()"
    and json: "request_to_json (cx_codec cx) rq = Some json"
  shows "user_request_of (rq_transaction_id rq) t = Some json
    \<and> add_transaction (cx_codec cx) later rq t = (Inr (), t)
    \<and> (\<forall>rq' json'. rq_transaction_id rq' = rq_transaction_id rq \<and> request_to_json (cx_codec cx) rq' = Some json'
         \<and> json' \<noteq> json \<longrightarrow> add_transaction (cx_codec cx) later rq' t = (Inl (TransactionConflict (rq_transaction_id rq)), t))"
proof -
  have "user_request_of (rq_transaction_id rq) (snd (add_transaction (cx_codec cx) now rq s)) = Some json"
    using first json
    by (auto simp: add_transaction_def from_json_def add_transaction_script_def user_request_of_def empty_tx_data_def
        bind_eq_Some_conv split: option.splits if_splits)
  then have "user_request_of (rq_transaction_id rq) t = Some json" by (rule retaining_run [OF run])
  then show ?thesis using json by (simp add: add_transaction_def from_json_def add_transaction_script_def)
qed

theorem admission_is_idempotent_and_immutable_witness:
  "user_request_of ''a'' demo_store = Some ''r'' \<and> add_transaction (cx_codec demo_cx) 999 demo_request demo_store = (Inr (), demo_store)"
proof -
  let ?s = "exec_pipeline (cached_count_commands 7 None None) (acquire_eoa_lock_aggressively ''w'' demo_empty)"
  have json: "request_to_json (cx_codec demo_cx) demo_request = Some ''r''" "rq_transaction_id demo_request = ''a''"
    by (simp_all add: demo_defs)
  have first: "add_transaction (cx_codec demo_cx) 100 demo_request ?s = (Inr (), demo_admitted)"
    using json
    by (simp add: add_transaction_def from_json_def demo_admitted_def add_transaction_script_def user_request_of_def
        cached_count_commands_def acquire_eoa_lock_aggressively_def demo_empty_def MAX_PENDING_TRANSACTIONS_def)
  have "es_tx_data demo_store ''a'' \<noteq> None" by (simp add: demo_store_def demo_admitted_eq)
  then have "(retaining_step demo_cx ''a'')\<^sup>*\<^sup>* demo_admitted demo_store"
    by (intro r_into_rtranclp) (use eoa_act.incremented [OF demo_commit] in \<open>auto simp: retaining_step_def eoa_step_def\<close>)
  then show ?thesis
    using admission_is_idempotent_and_immutable [of demo_cx demo_request 100 ?s demo_store "''r''" 999] first json by simp
qed

subsection \<open>The text form of submitted rows\<close>

lemma parse_member_snd: "parse_member row = Some t \<Longrightarrow> snd row = st_nonce t"
  by (auto simp: parse_member_def split: list.splits option.splits)

lemma parse_member_long: "4 < length (split_on (CHR '':'') (fst row)) \<Longrightarrow> parse_member row = None"
  by (auto simp: parse_member_def split: list.splits)

lemma separator_dropped:
  assumes "CHR '':'' \<in> set (st_transaction_hash t) \<or> CHR '':'' \<in> set (st_transaction_id t)"
  shows "parse_member (to_redis_string_with_nonce t) = None"
proof (rule parse_member_long)
  have "0 < count_list (st_transaction_hash t) (CHR '':'') + count_list (st_transaction_id t) (CHR '':'')"
    using assms by (auto simp: zero_less_iff_neq_zero count_list_0_iff)
  then show "4 < length (split_on (CHR '':'') (fst (to_redis_string_with_nonce t)))"
    by (simp add: length_split_on to_redis_string_with_nonce_def)
qed

text \<open>C34. The text row of a submitted attempt reads back as the attempt, in the current and in the legacy format
(which drops the submission time), exactly when neither the hash nor the id contains the separator: a row whose
hash or id contains it is dropped by the reader, so that its attempt is never settled.\<close>

theorem submitted_row_roundtrip:
  assumes "st_queued_at t \<le> u64_max" and "st_submitted_at t \<le> u64_max"
  shows "(from_redis_strings [to_redis_string_with_nonce t] = [t]
            \<longleftrightarrow> CHR '':'' \<notin> set (st_transaction_hash t) \<and> CHR '':'' \<notin> set (st_transaction_id t))
    \<and> (from_redis_strings [to_redis_string_with_nonce t] = []
            \<longleftrightarrow> CHR '':'' \<in> set (st_transaction_hash t) \<or> CHR '':'' \<in> set (st_transaction_id t))
    \<and> (CHR '':'' \<notin> set (st_transaction_hash t) \<and> CHR '':'' \<notin> set (st_transaction_id t)
            \<longrightarrow> from_redis_strings [to_legacy_redis_string_with_nonce t] = [t\<lparr>st_submitted_at := 0\<rparr>])"
proof -
  let ?clean = "CHR '':'' \<notin> set (st_transaction_hash t) \<and> CHR '':'' \<notin> set (st_transaction_id t)"
  have "from_redis_strings [to_redis_string_with_nonce t] = [t]"
    and "from_redis_strings [to_legacy_redis_string_with_nonce t] = [t\<lparr>st_submitted_at := 0\<rparr>]" if ?clean
  proof -
    have wf: "wf_submitted t" "wf_submitted (t\<lparr>st_submitted_at := 0\<rparr>)"
      using that assms by (simp_all add: wf_submitted_def wf_text_def)
    have "to_legacy_redis_string_with_nonce t = to_legacy_redis_string_with_nonce (t\<lparr>st_submitted_at := 0\<rparr>)"
      by (simp add: to_legacy_redis_string_with_nonce_def)
    then have "parse_member (to_legacy_redis_string_with_nonce t) = Some (t\<lparr>st_submitted_at := 0\<rparr>)"
      using parse_to_legacy [OF wf(2)] by simp
    then show "from_redis_strings [to_redis_string_with_nonce t] = [t]"
      and "from_redis_strings [to_legacy_redis_string_with_nonce t] = [t\<lparr>st_submitted_at := 0\<rparr>]"
      by (simp_all add: from_redis_strings_def map_filter_simps parse_to_redis [OF wf(1)])
  qed
  moreover have "from_redis_strings [to_redis_string_with_nonce t] = []" if "\<not> ?clean"
    using that separator_dropped [of t] by (auto simp: from_redis_strings_def map_filter_simps)
  ultimately show ?thesis by (cases ?clean) (simp_all, blast)
qed

theorem submitted_row_roundtrip_witness:
  "from_redis_strings [to_redis_string_with_nonce demo_record] = [demo_record]
   \<and> from_redis_strings [to_redis_string_with_nonce (demo_record\<lparr>st_transaction_id := ''a:b''\<rparr>)] = []"
  using submitted_row_roundtrip [of demo_record] submitted_row_roundtrip [of "demo_record\<lparr>st_transaction_id := ''a:b''\<rparr>"]
  by (simp add: demo_record_def u64_max_def)

subsection \<open>The receipt scan\<close>

definition eligible :: "nat \<Rightarrow> (string \<times> nat) list \<Rightarrow> nat" where
  "eligible n z = length (filter (\<lambda>(m, sc). sc < n) z)"

lemma sorted_prefix:
  "sorted (map snd xs) \<Longrightarrow> take (length (filter (\<lambda>(m, sc). sc < n) xs)) xs = filter (\<lambda>(m, sc). sc < n) xs"
  for xs :: "(string \<times> nat) list"
proof (induction xs)
  case (Cons x xs)
  show ?case
  proof (cases "snd x < n")
    case False
    then have "filter (\<lambda>(m, sc). sc < n) (x # xs) = []" using Cons.prems by (fastforce simp: filter_empty_conv)
    then show ?thesis by simp
  qed (use Cons in \<open>simp add: case_prod_beta\<close>)
qed simp

lemma eligible_row_nth:
  assumes "row \<in> set z" and "snd row < n"
  shows "\<exists>i < eligible n z. zrange z ! i = row"
proof -
  let ?P = "\<lambda>(m, sc). sc < n"
  have le: "snd x \<le> snd y" if "(case x of (m, sc) \<Rightarrow> (sc, m)) \<le> (case y of (m, sc) \<Rightarrow> (sc, m))" for x y :: "string \<times> nat"
    using that by (auto simp: case_prod_beta less_eq_prod_def)
  have "sorted (map (\<lambda>(m, sc). (sc, m)) (zrange z))" by (simp add: zrange_def)
  then have srt: "sorted (map snd (zrange z))" using le by (simp add: sorted_iff_nth_mono)
  have len: "eligible n z = length (filter ?P (zrange z))"
    unfolding eligible_def zrange_def by (metis mset_filter mset_sort size_mset)
  have "row \<in> set (filter ?P (zrange z))" using assms by (simp add: case_prod_beta)
  then have "row \<in> set (take (eligible n z) (zrange z))" unfolding len using sorted_prefix [OF srt] by simp
  then show ?thesis by (auto simp: in_set_conv_nth)
qed

text \<open>A page is a window of ranks, taken modulo the number of eligible rows.\<close>

lemma page_rows:
  assumes "0 < eligible n z" and "submitted_page_script n offset limit z = (rows, next_offset)"
  shows "j < min limit (eligible n z) \<Longrightarrow> zrange z ! ((offset + j) mod eligible n z) \<in> set rows"
    and "next_offset = (offset + min limit (eligible n z)) mod eligible n z"
proof -
  define e where "e = eligible n z"
  define start where "start = offset mod e"
  define k where "k = min limit e"
  define head where "head = min k (e - start)"
  have e: "0 < e" using assms(1) by (simp add: e_def)
  have el: "e \<le> length (zrange z)" unfolding e_def eligible_def zrange_def by simp
  have st: "start < e" using e by (simp add: start_def)
  have rows: "rows = zrange_slice start head z @ (if head < k then zrange_slice 0 (k - head) z else [])"
    and nxt: "next_offset = (start + k) mod e"
    using assms(2) e by (auto simp: submitted_page_script_def Let_def eligible_def [symmetric] e_def [symmetric]
        start_def [symmetric] k_def [symmetric] head_def [symmetric] split: if_splits)
  show "next_offset = (offset + min limit (eligible n z)) mod eligible n z"
    unfolding nxt start_def k_def e_def by (simp add: mod_add_left_eq)
  show "zrange z ! ((offset + j) mod eligible n z) \<in> set rows" if "j < min limit (eligible n z)"
  proof (cases "j < head")
    case True
    then have "start + j < e" using st unfolding head_def by linarith
    then have "(offset + j) mod e = start + j" unfolding start_def by (metis mod_add_left_eq mod_less)
    moreover have "zrange z ! (start + j) \<in> set (zrange_slice start head z)"
      using True \<open>start + j < e\<close> el by (auto simp: zrange_slice_def in_set_conv_nth intro!: exI [of _ j])
    ultimately show ?thesis unfolding rows e_def by simp
  next
    case False
    have j: "j < k" using that by (simp add: k_def e_def)
    then have head: "head = e - start" "head < k" using False by (auto simp: head_def)
    have lt: "j - head < e" using j by (auto simp: k_def)
    have "start + j = e + (j - head)" using head False st by simp
    then have "(offset + j) mod e = j - head" using lt unfolding start_def
      by (metis mod_add_left_eq mod_add_self1 mod_less)
    moreover have "zrange z ! (j - head) \<in> set (zrange_slice 0 (k - head) z)"
      using j False el lt by (auto simp: zrange_slice_def in_set_conv_nth intro!: exI [of _ "j - head"])
    ultimately show ?thesis using head(2) unfolding rows e_def by simp
  qed
qed

text \<open>The records returned by \<open>k\<close> polls that follow each other's cursor over an unchanged store.\<close>

fun scan_records :: "nat \<Rightarrow> nat \<Rightarrow> nat \<Rightarrow> nat \<Rightarrow> estore \<Rightarrow> SubmittedTransactionDehydrated list" where
  "scan_records 0 n_txs offset limit s = []"
| "scan_records (Suc k) n_txs offset limit s =
     (case get_submitted_transaction_page n_txs offset limit s of
        (txs, next_offset) \<Rightarrow> txs @ scan_records k n_txs next_offset limit s)"

lemma page_records:
  assumes "0 < n_txs" "0 < limit" "0 < eligible n_txs (es_submitted s)" "length (es_submitted s) \<le> 2 ^ 53 - 1"
  obtains txs next_offset first where "get_submitted_transaction_page n_txs offset limit s = (txs, next_offset)"
    "first = offset \<or> first = 0"
    "offset \<le> 2 ^ 53 - 1 \<Longrightarrow> first = offset"
    "next_offset = (first + min (min limit 4096) (eligible n_txs (es_submitted s))) mod eligible n_txs (es_submitted s)"
    "\<And>j t. j < min (min limit 4096) (eligible n_txs (es_submitted s))
       \<Longrightarrow> parse_member (zrange (es_submitted s) ! ((first + j) mod eligible n_txs (es_submitted s))) = Some t \<Longrightarrow> t \<in> set txs"
proof -
  let ?e = "eligible n_txs (es_submitted s)"
  define first where "first = (if offset \<le> 2 ^ 53 - 1 then offset else 0)"
  obtain rows next_offset where p: "submitted_page_script n_txs first (min limit 4096) (es_submitted s) = (rows, next_offset)"
    by fastforce
  note page = page_rows [OF assms(3) p]
  show thesis
  proof (rule that [of "from_redis_strings rows" next_offset first])
    show "get_submitted_transaction_page n_txs offset limit s = (from_redis_strings rows, next_offset)"
      using assms(1,2) p by (simp add: get_submitted_transaction_page_def Let_def first_def)
    show "t \<in> set (from_redis_strings rows)" if "j < min (min limit 4096) ?e"
      "parse_member (zrange (es_submitted s) ! ((first + j) mod ?e)) = Some t" for j t
      using page(1) [OF that(1)] that(2) by (auto simp: set_from_redis_strings)
  qed (use page(2) in \<open>simp_all add: first_def\<close>)
qed

lemma scan_covers:
  assumes "0 < n_txs" "0 < limit" "0 < eligible n_txs (es_submitted s)" "length (es_submitted s) \<le> 2 ^ 53 - 1"
    and "parse_member (zrange (es_submitted s) ! ((offset + j) mod eligible n_txs (es_submitted s))) = Some t"
    and "j < k * min (min limit 4096) (eligible n_txs (es_submitted s))" and "offset \<le> 2 ^ 53 - 1"
  shows "t \<in> set (scan_records k n_txs offset limit s)"
  using assms
proof (induction k arbitrary: offset j)
  case (Suc k)
  let ?e = "eligible n_txs (es_submitted s)"
  let ?m = "min (min limit 4096) ?e"
  obtain txs next_offset first where p: "get_submitted_transaction_page n_txs offset limit s = (txs, next_offset)"
    "first = offset" "next_offset = (first + ?m) mod ?e"
    "\<And>j t. j < ?m \<Longrightarrow> parse_member (zrange (es_submitted s) ! ((first + j) mod ?e)) = Some t \<Longrightarrow> t \<in> set txs"
    using page_records [OF Suc.prems(1-4), of offset] Suc.prems(7) by metis
  show ?case
  proof (cases "j < ?m")
    case True
    then show ?thesis using p(4) [OF True] Suc.prems(5) p(2) by (simp add: p(1))
  next
    case False
    then have j: "?m + (j - ?m) = j" by (simp only: not_less le_add_diff_inverse)
    have "(next_offset + (j - ?m)) mod ?e = (offset + ?m + (j - ?m)) mod ?e"
      unfolding p(2,3) by (rule mod_add_left_eq)
    also have "\<dots> = (offset + j) mod ?e" by (simp only: add.assoc j)
    finally have m: "(next_offset + (j - ?m)) mod ?e = (offset + j) mod ?e" .
    have "?e \<le> length (es_submitted s)" by (simp add: eligible_def)
    moreover have "next_offset < ?e" using p(3) Suc.prems(3) by simp
    ultimately have off: "next_offset \<le> 2 ^ 53 - 1" using Suc.prems(4) by linarith
    have "t \<in> set (scan_records k n_txs next_offset limit s)"
    proof (rule Suc.IH [OF Suc.prems(1-4)])
      show "parse_member (zrange (es_submitted s) ! ((next_offset + (j - ?m)) mod ?e)) = Some t"
        unfolding m by (rule Suc.prems(5))
      show "j - ?m < k * ?m" using Suc.prems(6) False by (simp only: mult_Suc not_less) linarith
      show "next_offset \<le> 2 ^ 53 - 1" by (rule off)
    qed
    then show ?thesis by (simp add: p(1))
  qed
qed simp

text \<open>C26. The receipt scan starves no attempt: over an unchanged set, from any cursor (also one out of the exact
range of Lua numbers), every submitted attempt below the observed transaction count is returned within as many
consecutive polls as it takes to cover the set with pages of the bounded size.\<close>

theorem receipt_scan_reaches_every_attempt:
  assumes t: "submitted_rec s t" "st_nonce t < n_txs" and limit: "0 < limit"
    and size: "length (es_submitted s) \<le> 2 ^ 53 - 1" "length (es_submitted s) \<le> k * min limit 4096"
  shows "t \<in> set (scan_records (Suc k) n_txs offset limit s)"
proof -
  let ?e = "eligible n_txs (es_submitted s)"
  let ?m = "min (min limit 4096) ?e"
  obtain row where row: "row \<in> set (es_submitted s)" "parse_member row = Some t" using t(1) by (auto simp: submitted_rec_def)
  have "snd row < n_txs" using parse_member_snd [OF row(2)] t(2) by simp
  then obtain i where i: "i < ?e" "zrange (es_submitted s) ! i = row" using eligible_row_nth [OF row(1)] by blast
  have e: "0 < ?e" "?e \<le> length (es_submitted s)" using i(1) by (linarith, simp add: eligible_def)
  have n: "0 < n_txs" using t(2) by simp
  obtain txs next_offset where p: "get_submitted_transaction_page n_txs offset limit s = (txs, next_offset)"
    and nx: "next_offset < ?e" using page_records [OF n limit e(1) size(1), of offset] e(1) by (metis mod_less_divisor)
  define j where "j = (i + (?e - next_offset)) mod ?e"
  have "(next_offset + j) mod ?e = (next_offset + (i + (?e - next_offset))) mod ?e"
    unfolding j_def by (rule mod_add_right_eq)
  also have "\<dots> = (i + ?e) mod ?e" using nx by simp
  also have "\<dots> = i" using i(1) by simp
  finally have ji: "(next_offset + j) mod ?e = i" .
  have "?e \<le> k * ?m"
  proof (cases "min limit 4096 \<le> ?e")
    case True
    then have "?m = min limit 4096" by (rule min_absorb1)
    then show ?thesis using e(2) size(2) by linarith
  next
    case False
    have "0 < k" using e size(2) by (cases k) simp_all
    moreover have "?m = ?e" by (rule min_absorb2) (use False in linarith)
    ultimately show ?thesis by (metis mult_le_mono1 mult_1 Suc_leI One_nat_def)
  qed
  moreover have "j < ?e" using e(1) by (simp add: j_def)
  ultimately have "t \<in> set (scan_records k n_txs next_offset limit s)"
    using scan_covers [OF n limit e(1) size(1), of next_offset j t k] ji i(2) row(2) nx e(2) size(1) by simp
  then show ?thesis by (simp add: p)
qed

theorem receipt_scan_reaches_every_attempt_witness:
  "demo_record \<in> set (scan_records (Suc 1) 8 (2 ^ 60) 100 demo_sent)"
  by (rule receipt_scan_reaches_every_attempt [OF demo_submitted(1)]) (simp_all add: demo_record_def es_submitted_demo)

end
