(* ===== verification/Recovery_Ledger.thy ===== *)
theory Recovery_Ledger
  imports Finality
begin

text \<open>
  The recovery ledger of \<open>core/src/recovery.rs\<close>: the tables of the SQLite file as lists of rows,
  the functions that read and write them inside one SQL transaction, and the record of the one
  checkpoint publication that may be outstanding (\<open>recovery/projection.rs\<close>). A function that
  writes returns the new ledger, or an error, which rolls the transaction back; a statement that
  violates a constraint of the schema is the error the code turns into \<open>Storage\<close>. Text is a list of
  bytes. \<open>serde_json\<close>, SHA-256 and the parsers of the chain libraries are fields of \<open>journal_codec\<close>.
\<close>

subsection \<open>JSON values\<close>

datatype json =
    JNull
  | JBool bool
  | JInt int
  | JFloat string
  | JString string
  | JArray "json list"
  | JObject "(string \<times> json) list"

record journal_codec =
  jc_to_string :: "json \<Rightarrow> string option"
  jc_from_str :: "string \<Rightarrow> json option"
  jc_sha256_hex :: "string \<Rightarrow> string"
  jc_b256 :: "json \<Rightarrow> string option"
  jc_address :: "json \<Rightarrow> string option"
  jc_u256 :: "json \<Rightarrow> string option"
  jc_signature :: "string \<Rightarrow> string option"
  jc_userop :: "json \<Rightarrow> (nat \<Rightarrow> string \<Rightarrow> string option) option"
  jc_evidence_to_string :: "string FinalityEvidence \<Rightarrow> string option"
  jc_evidence_from_str :: "string \<Rightarrow> string FinalityEvidence option"

text \<open>\<open>Value::get\<close>, \<open>Value::as_str\<close> and deserialization as \<open>u64\<close> and \<open>String\<close>.\<close>

fun json_get :: "json \<Rightarrow> string \<Rightarrow> json option" where
  "json_get (JObject m) name = map_of m name"
| "json_get _ name = None"

fun json_str :: "json \<Rightarrow> string option" where
  "json_str (JString x) = Some x"
| "json_str _ = None"

fun json_u64 :: "json \<Rightarrow> nat option" where
  "json_u64 (JInt n) = (if 0 \<le> n \<and> n \<le> int u64_max then Some (nat n) else None)"
| "json_u64 _ = None"

definition remove_key :: "string \<Rightarrow> (string \<times> json) list \<Rightarrow> (string \<times> json) list" where
  "remove_key k m = filter (\<lambda>(k', v). k' \<noteq> k) m"

fun sort_json :: "json \<Rightarrow> json" where
  "sort_json (JObject m) = JObject (sort_key fst (map (\<lambda>(k, v). (k, sort_json v)) m))"
| "sort_json (JArray xs) = JArray (map sort_json xs)"
| "sort_json v = v"

subsection \<open>Errors and states\<close>

datatype RecoveryError =
    PublicationPending
  | Busy
  | Storage
  | Locked
  | Missing
  | RecoveryRequired string
  | ConflictError
  | Invalid string

datatype AdmissionState = Admitted | Terminal | Quarantined

definition parse_state :: "string \<Rightarrow> (RecoveryError, AdmissionState) result" where
  "parse_state s =
     (if s = ''admitted'' then Inr Admitted
      else if s = ''terminal'' then Inr Terminal
      else if s = ''quarantined'' then Inr Quarantined
      else Inl Storage)"

definition SCHEMA :: nat where "SCHEMA = 3"

definition i64_max :: nat where "i64_max = 2 ^ 63 - 1"

definition MAX_RECORD_BYTES :: nat where "MAX_RECORD_BYTES = 16 * 1024 * 1024"

definition ok_or :: "'e \<Rightarrow> 'a option \<Rightarrow> ('e, 'a) result" where
  "ok_or e x = (case x of None \<Rightarrow> Inl e | Some y \<Rightarrow> Inr y)"

subsection \<open>Identities\<close>

definition canonical :: "journal_codec \<Rightarrow> json \<Rightarrow> (RecoveryError, string) result" where
  "canonical cd v =
     bind_result (ok_or (Invalid ''cannot encode record'') (jc_to_string cd (sort_json v))) (\<lambda>encoded.
       if length encoded > MAX_RECORD_BYTES then Inl (Invalid ''record exceeds 16 MiB'')
       else Inr encoded)"

definition intent_of :: "string \<Rightarrow> json \<Rightarrow> json" where
  "intent_of kind payload =
     (case payload of
        JObject fs \<Rightarrow>
          (let fs = (if kind = ''erc4337'' then remove_key ''pregeneratedNonce'' fs else fs);
               fs = (if kind = ''eip7702'' then remove_key ''nonce'' fs else fs)
           in JObject fs)
      | _ \<Rightarrow> payload)"

definition admission_fingerprint :: "journal_codec \<Rightarrow> string \<Rightarrow> json \<Rightarrow> (RecoveryError, string) result" where
  "admission_fingerprint cd kind payload =
     bind_result (canonical cd (intent_of kind payload)) (\<lambda>c.
       Inr (jc_sha256_hex cd (kind @ [char_of (0::nat)] @ c)))"

definition identity :: "string \<Rightarrow> string \<Rightarrow> (RecoveryError, unit) result" where
  "identity kind i =
     (if kind \<notin> set [''eoa'', ''eoa_noop'', ''solana'', ''erc4337'', ''eip7702''] \<or> i = [] \<or> length i > 1024
      then Inl (Invalid ''unsupported kind or invalid transaction ID'')
      else Inr ())"

definition ascii_lower :: "char \<Rightarrow> bool" where
  "ascii_lower ch \<longleftrightarrow> 97 \<le> (of_char ch :: nat) \<and> (of_char ch :: nat) \<le> 122"

definition ascii_upper :: "char \<Rightarrow> bool" where
  "ascii_upper ch \<longleftrightarrow> 65 \<le> (of_char ch :: nat) \<and> (of_char ch :: nat) \<le> 90"

definition ascii_digit :: "char \<Rightarrow> bool" where
  "ascii_digit ch \<longleftrightarrow> digit_value ch \<noteq> None"

definition namespace_valid :: "string option \<Rightarrow> (RecoveryError, unit) result" where
  "namespace_valid namespace =
     (case namespace of
        None \<Rightarrow> Inr ()
      | Some ns \<Rightarrow>
          (if ns = [] \<or> length ns > 128
              \<or> \<not> list_all (\<lambda>b. ascii_lower b \<or> ascii_upper b \<or> ascii_digit b \<or> b = CHR ''-'' \<or> b = CHR ''_'') ns
           then Inl (Invalid ''namespace must use ASCII letters, digits, hyphens or underscores'')
           else Inr ()))"

definition marker_key :: "string option \<Rightarrow> string" where
  "marker_key namespace = (case namespace of None \<Rightarrow> ''engine'' | Some ns \<Rightarrow> ns) @ '':recovery:checkpoint''"

definition hex_lower :: "char \<Rightarrow> bool" where
  "hex_lower b \<longleftrightarrow> ascii_digit b \<or> (97 \<le> (of_char b :: nat) \<and> (of_char b :: nat) \<le> 102)"

definition validate_replay_key :: "string \<Rightarrow> string \<Rightarrow> (RecoveryError, unit) result" where
  "validate_replay_key kind key =
     (if key = [] \<or> length key > 2048 then Inl (Invalid ''invalid replay key'')
      else if kind = ''eoa'' \<or> kind = ''eoa_noop'' then
        (let fs = split_on CHR '':'' key in
         if length fs \<noteq> 4 \<or> fs ! 0 \<noteq> ''evm''
         then Inl (Invalid ''EOA replay key must be evm:chain:lowercase-address:nonce'')
         else case parse_unsigned u64_max (fs ! 1) of
           None \<Rightarrow> Inl (Invalid ''invalid replay chain'')
         | Some chain \<Rightarrow>
             (case parse_unsigned u64_max (fs ! 3) of
                None \<Rightarrow> Inl (Invalid ''invalid replay nonce'')
              | Some nonce \<Rightarrow>
                  (let address = fs ! 2 in
                   if fs ! 1 \<noteq> show_nat chain \<or> fs ! 3 \<noteq> show_nat nonce \<or> length address \<noteq> 42
                      \<or> take 2 address \<noteq> ''0x'' \<or> \<not> list_all hex_lower (drop 2 address)
                   then Inl (Invalid ''EOA replay key is not canonical'')
                   else Inr ())))
      else if take (length (kind @ '':'')) key \<noteq> kind @ '':''
      then Inl (Invalid ''replay key kind mismatch'')
      else Inr ())"

text \<open>\<open>key.split(':').nth(1)\<close>.\<close>

definition replay_chain :: "string \<Rightarrow> string option" where
  "replay_chain key = (case split_on CHR '':'' key of _ # chain # _ \<Rightarrow> Some chain | _ \<Rightarrow> None)"

subsection \<open>Tables\<close>

record Control =
  ct_schema :: nat
  ct_deployment :: string
  ct_epoch :: nat
  ct_checkpoint :: nat
  ct_namespace :: "string option"
  ct_run_id :: string
  ct_halted :: bool
  ct_reason :: "string option"

record admission_row =
  ar_id :: string
  ar_kind :: string
  ar_fingerprint :: string
  ar_payload :: string
  ar_state :: string
  ar_replay_key :: "string option"

record attempt_row =
  at_id :: string
  at_replay_key :: string
  at_digest :: string
  at_payload :: string

record PendingUpdate =
  pu_previous_token :: string
  pu_target_token :: string
  pu_redis_key :: string
  pu_run_id :: string

record solana_row =
  so_digest :: string
  so_broadcasts :: nat
  so_last :: int

text \<open>
  Rows are in the order of their sequence numbers. The tables \<open>projection_pending\<close> and
  \<open>solana_recovery\<close> do not exist in older schemas (\<open>None\<close>).
\<close>

record ledger =
  lg_control :: Control
  lg_admissions :: "admission_row list"
  lg_attempts :: "attempt_row list"
  lg_evidence :: "(string \<times> string) list"
  lg_checkpoints :: "(string \<times> string) list"
  lg_halts :: "(string \<times> string) list"
  lg_events :: "json list"
  lg_pending :: "PendingUpdate option option"
  lg_solana :: "(string \<times> solana_row) list option"

record AdmissionRecord =
  rec_id :: string
  rec_kind :: string
  rec_fingerprint :: string
  rec_payload :: json
  rec_state :: AdmissionState
  rec_replay_key :: "string option"

definition token :: "Control \<Rightarrow> string" where
  "token c = ''v'' @ show_nat (ct_schema c) @ '':'' @ ct_deployment c @ '':'' @ show_nat (ct_epoch c)
     @ '':'' @ show_nat (ct_checkpoint c)"

definition control_key :: "Control \<Rightarrow> string" where
  "control_key c = marker_key (ct_namespace c)"

definition control :: "ledger \<Rightarrow> (RecoveryError, Control) result" where
  "control L =
     (if ct_schema (lg_control L) \<notin> {1, 2, SCHEMA} then Inl (Invalid ''unknown ledger schema'')
      else Inr (lg_control L))"

definition find_admission :: "ledger \<Rightarrow> string \<Rightarrow> admission_row option" where
  "find_admission L i = find (\<lambda>a. ar_id a = i) (lg_admissions L)"

definition lookup :: "journal_codec \<Rightarrow> ledger \<Rightarrow> string \<Rightarrow> (RecoveryError, AdmissionRecord option) result" where
  "lookup cd L i =
     (case find_admission L i of
        None \<Rightarrow> Inr None
      | Some a \<Rightarrow>
          bind_result (ok_or Storage (jc_from_str cd (ar_payload a))) (\<lambda>payload.
          bind_result (parse_state (ar_state a)) (\<lambda>st.
            Inr (Some \<lparr>rec_id = ar_id a, rec_kind = ar_kind a, rec_fingerprint = ar_fingerprint a,
              rec_payload = payload, rec_state = st, rec_replay_key = ar_replay_key a\<rparr>))))"

subsection \<open>The outstanding publication\<close>

definition between :: "Control \<Rightarrow> Control \<Rightarrow> PendingUpdate" where
  "between previous target =
     \<lparr>pu_previous_token = token previous, pu_target_token = token target,
      pu_redis_key = control_key target, pu_run_id = ct_run_id target\<rparr>"

definition validate_pending :: "PendingUpdate \<Rightarrow> Control \<Rightarrow> (RecoveryError, unit) result" where
  "validate_pending p current =
     (let sequential = (0 < ct_checkpoint current
            \<and> pu_previous_token p = token (current\<lparr>ct_checkpoint := ct_checkpoint current - 1\<rparr>));
          migration = list_ex (\<lambda>schema. pu_previous_token p = token (current\<lparr>ct_schema := schema\<rparr>))
            [1..<ct_schema current]
      in if ct_schema current < 2 \<or> SCHEMA < ct_schema current \<or> pu_target_token p \<noteq> token current
            \<or> pu_redis_key p \<noteq> control_key current \<or> pu_run_id p \<noteq> ct_run_id current
            \<or> \<not> (sequential \<or> migration)
         then Inl Storage else Inr ())"

definition load :: "ledger \<Rightarrow> Control \<Rightarrow> (RecoveryError, PendingUpdate option) result" where
  "load L current =
     (if ct_schema current = 1 then Inr None
      else bind_result (ok_or Storage (lg_pending L)) (\<lambda>pending.
        case pending of
          None \<Rightarrow> Inr None
        | Some p \<Rightarrow> bind_result (validate_pending p current) (\<lambda>_. Inr (Some p))))"

definition record_pending :: "ledger \<Rightarrow> Control \<Rightarrow> Control \<Rightarrow> (RecoveryError, ledger) result" where
  "record_pending L previous target =
     (let pending = between previous target in
      bind_result (validate_pending pending target) (\<lambda>_.
        if lg_pending L = Some None then Inr (L\<lparr>lg_pending := Some (Some pending)\<rparr>) else Inl Storage))"

definition remove_exact :: "ledger \<Rightarrow> PendingUpdate \<Rightarrow> (RecoveryError, ledger) result" where
  "remove_exact L p =
     (if lg_pending L = Some (Some p) then Inr (L\<lparr>lg_pending := Some None\<rparr>) else Inl Storage)"

definition acknowledge :: "PendingUpdate \<Rightarrow> ledger \<Rightarrow> (RecoveryError, unit \<times> ledger) result" where
  "acknowledge p L =
     bind_result (control L) (\<lambda>current.
     bind_result (validate_pending p current) (\<lambda>_.
       if ct_halted current
       then Inl (RecoveryRequired ''pending checkpoint changed before acknowledgement'')
       else bind_result (load L current) (\<lambda>pending.
         if pending \<noteq> Some p
         then Inl (RecoveryRequired ''pending checkpoint changed before acknowledgement'')
         else bind_result (remove_exact L p) (\<lambda>L'. Inr ((), L')))))"

definition advance :: "ledger \<Rightarrow> (RecoveryError, Control \<times> ledger) result" where
  "advance L =
     bind_result (control L) (\<lambda>old.
       if ct_checkpoint old = i64_max then Inl (Invalid ''checkpoint exhausted'')
       else
         let L1 = L\<lparr>lg_control := (lg_control L)\<lparr>ct_checkpoint := ct_checkpoint (lg_control L) + 1\<rparr>\<rparr> in
         bind_result (control L1) (\<lambda>target.
         bind_result (record_pending L1 old target) (\<lambda>L2. Inr (old, L2))))"

definition migrate :: "ledger \<Rightarrow> (RecoveryError, unit \<times> ledger) result" where
  "migrate L =
     bind_result (control L) (\<lambda>old.
       if ct_schema old = SCHEMA then Inr ((), L)
       else if ct_halted old then Inl (RecoveryRequired ''legacy journal is not healthy'')
       else bind_result (load L old) (\<lambda>pending.
         if pending \<noteq> None then Inl (RecoveryRequired ''legacy journal is not healthy'')
         else if (ct_schema old = 1 \<and> lg_pending L \<noteq> None) \<or> lg_solana L \<noteq> None then Inl Storage
         else
           let L1 = (if ct_schema old = 1 then L\<lparr>lg_pending := Some None\<rparr> else L);
               L2 = L1\<lparr>lg_solana := Some [], lg_control := (lg_control L)\<lparr>ct_schema := SCHEMA\<rparr>\<rparr> in
           bind_result (control L2) (\<lambda>new.
           bind_result (record_pending L2 old new) (\<lambda>L3. Inr ((), L3)))))"

subsection \<open>Statements\<close>

definition insert_admission :: "admission_row \<Rightarrow> ledger \<Rightarrow> (RecoveryError, ledger) result" where
  "insert_admission a L =
     (if find_admission L (ar_id a) \<noteq> None
         \<or> (ar_replay_key a \<noteq> None \<and> ar_replay_key a \<in> ar_replay_key ` set (lg_admissions L))
      then Inl Storage
      else Inr (L\<lparr>lg_admissions := lg_admissions L @ [a]\<rparr>))"

definition update_admission :: "string \<Rightarrow> (admission_row \<Rightarrow> admission_row) \<Rightarrow> ledger \<Rightarrow> ledger" where
  "update_admission i f L =
     L\<lparr>lg_admissions := map (\<lambda>a. if ar_id a = i then f a else a) (lg_admissions L)\<rparr>"

definition set_replay_key :: "string \<Rightarrow> string \<Rightarrow> ledger \<Rightarrow> (RecoveryError, ledger) result" where
  "set_replay_key i key L =
     (if list_ex (\<lambda>a. ar_replay_key a = Some key \<and> ar_id a \<noteq> i) (lg_admissions L) then Inl Storage
      else Inr (update_admission i (ar_replay_key_update (\<lambda>_. Some key)) L))"

definition insert_attempt :: "attempt_row \<Rightarrow> ledger \<Rightarrow> (RecoveryError, ledger) result" where
  "insert_attempt a L =
     (if find_admission L (at_id a) = None
         \<or> list_ex (\<lambda>b. at_id b = at_id a \<and> at_digest b = at_digest a) (lg_attempts L)
      then Inl Storage
      else Inr (L\<lparr>lg_attempts := lg_attempts L @ [a]\<rparr>))"

definition insert_evidence :: "string \<Rightarrow> string \<Rightarrow> ledger \<Rightarrow> (RecoveryError, ledger) result" where
  "insert_evidence i evidence L =
     (if find_admission L i = None then Inl Storage
      else Inr (L\<lparr>lg_evidence := lg_evidence L @ [(i, evidence)]\<rparr>))"

definition insert_halt :: "string \<Rightarrow> ledger \<Rightarrow> ledger" where
  "insert_halt chain L =
     (if map_of (lg_halts L) chain \<noteq> None then L
      else L\<lparr>lg_halts := lg_halts L @ [(chain, ''finality checkpoint conflict'')]\<rparr>)"

definition chain_halted :: "ledger \<Rightarrow> string \<Rightarrow> bool" where
  "chain_halted L chain \<longleftrightarrow> map_of (lg_halts L) chain \<noteq> None"

definition replay_owner :: "ledger \<Rightarrow> string \<Rightarrow> string option" where
  "replay_owner L key = map_option ar_id (find (\<lambda>a. ar_replay_key a = Some key) (lg_admissions L))"

definition attempts_of :: "ledger \<Rightarrow> string \<Rightarrow> attempt_row list" where
  "attempts_of L i = filter (\<lambda>b. at_id b = i) (lg_attempts L)"

definition evidence_of :: "ledger \<Rightarrow> string \<Rightarrow> string list" where
  "evidence_of L i = map snd (filter (\<lambda>(j, e). j = i) (lg_evidence L))"

definition halt_control :: "string \<Rightarrow> ledger \<Rightarrow> ledger" where
  "halt_control reason L =
     L\<lparr>lg_control := (lg_control L)\<lparr>ct_halted := True,
        ct_reason := (case ct_reason (lg_control L) of None \<Rightarrow> Some reason | r \<Rightarrow> r)\<rparr>\<rparr>"

definition ensure_chain_not_halted :: "ledger \<Rightarrow> string \<Rightarrow> (RecoveryError, unit) result" where
  "ensure_chain_not_halted L chain =
     (if chain_halted L chain
      then Inl (RecoveryRequired ''chain finality conflict requires reconciliation'') else Inr ())"

definition load_chain_checkpoint ::
  "journal_codec \<Rightarrow> ledger \<Rightarrow> nat \<Rightarrow> (RecoveryError, string FinalityEvidence option) result" where
  "load_chain_checkpoint cd L chain_id =
     (case map_of (lg_checkpoints L) (show_nat chain_id) of
        None \<Rightarrow> Inr None
      | Some body \<Rightarrow> bind_result (ok_or Storage (jc_evidence_from_str cd body)) (\<lambda>e. Inr (Some e)))"

definition terminal_identity :: "journal_codec \<Rightarrow> json \<Rightarrow> (RecoveryError, string) result" where
  "terminal_identity cd evidence =
     canonical cd
       (case evidence of
          JObject fs \<Rightarrow>
            JObject (map (\<lambda>(k, v). (k,
              case v of JObject g \<Rightarrow>
                  if k = ''finality'' then JObject (remove_key ''checkpointHash'' (remove_key ''checkpointNumber'' g)) else v
              | _ \<Rightarrow> v)) fs)
        | _ \<Rightarrow> evidence)"

end
