(* ===== verification/Recovery_Journal.thy ===== *)
theory Recovery_Journal
  imports Recovery_Ledger
begin

text \<open>
  The running journal of \<open>core/src/recovery.rs\<close>: one process that owns the ledger file and mirrors
  the ledger's checkpoint into Redis. Every call to SQLite or Redis is a point where the world can
  interfere: \<open>je_fault\<close> says whether the call is answered, fails before or after it took effect, or
  the process dies before or after it took effect, and \<open>je_redis\<close> is what happened to Redis (another
  client, a failover, a restored snapshot) since the previous call. The guard \<open>serial\<close> makes the
  operations of one process a sequence.
\<close>

record redis =
  rd_server :: string
  rd_replication :: string
  rd_keys :: "(string \<times> string) list"

datatype fault = Reply | LostBefore | LostAfter | CrashBefore | CrashAfter

record journal_env =
  je_fault :: "nat \<Rightarrow> fault"
  je_redis :: "nat \<Rightarrow> redis \<Rightarrow> redis"
  je_slot :: bool
  je_writer :: bool
  je_now :: "nat option"

record journal =
  js_db :: ledger
  js_redis :: redis
  js_failed :: bool
  js_closed :: bool
  js_up :: bool
  js_file :: bool
  js_calls :: nat

datatype 'a outcome = Done 'a | Failed RecoveryError | Crashed

type_synonym 'a jm = "journal \<Rightarrow> 'a outcome \<times> journal"

type_synonym 'a tx = "ledger \<Rightarrow> (RecoveryError, 'a \<times> ledger) result"

definition jret :: "'a \<Rightarrow> 'a jm" where
  "jret x s = (Done x, s)"

definition jfail :: "RecoveryError \<Rightarrow> 'a jm" where
  "jfail e s = (Failed e, s)"

definition jbind :: "'a jm \<Rightarrow> ('a \<Rightarrow> 'b jm) \<Rightarrow> 'b jm" where
  "jbind m f s =
     (case m s of
        (Done x, s') \<Rightarrow> f x s'
      | (Failed e, s') \<Rightarrow> (Failed e, s')
      | (Crashed, s') \<Rightarrow> (Crashed, s'))"

definition of_result :: "(RecoveryError, 'a) result \<Rightarrow> 'a jm" where
  "of_result r = (case r of Inl e \<Rightarrow> jfail e | Inr x \<Rightarrow> jret x)"

subsection \<open>Calls\<close>

text \<open>\<open>RecoveryJournal::db\<close> with a closure that runs one SQL transaction.\<close>

definition db_call :: "journal_env \<Rightarrow> 'a tx \<Rightarrow> 'a jm" where
  "db_call env f s =
     (let i = js_calls s;
          s1 = s\<lparr>js_calls := Suc i\<rparr>;
          s2 = (case f (js_db s) of Inl e \<Rightarrow> s1 | Inr (x, L) \<Rightarrow> s1\<lparr>js_db := L\<rparr>)
      in case je_fault env i of
           Reply \<Rightarrow> (case f (js_db s) of Inl e \<Rightarrow> Failed e | Inr (x, L) \<Rightarrow> Done x, s2)
         | LostBefore \<Rightarrow> (Failed Storage, s1)
         | LostAfter \<Rightarrow> (Failed Storage, s2)
         | CrashBefore \<Rightarrow> (Crashed, s1\<lparr>js_up := False\<rparr>)
         | CrashAfter \<Rightarrow> (Crashed, s2\<lparr>js_up := False\<rparr>))"

definition db_read :: "journal_env \<Rightarrow> (ledger \<Rightarrow> (RecoveryError, 'a) result) \<Rightarrow> 'a jm" where
  "db_read env f = db_call env (\<lambda>L. bind_result (f L) (\<lambda>x. Inr (x, L)))"

text \<open>A command or script sent to Redis; \<open>None\<close> is an error reply or a lost connection.\<close>

definition redis_call :: "journal_env \<Rightarrow> (redis \<Rightarrow> 'a \<times> redis) \<Rightarrow> 'a option jm" where
  "redis_call env f s =
     (let i = js_calls s;
          rd = je_redis env i (js_redis s);
          s1 = s\<lparr>js_calls := Suc i, js_redis := rd\<rparr>;
          s2 = s\<lparr>js_calls := Suc i, js_redis := snd (f rd)\<rparr>
      in case je_fault env i of
           Reply \<Rightarrow> (Done (Some (fst (f rd))), s2)
         | LostBefore \<Rightarrow> (Done None, s1)
         | LostAfter \<Rightarrow> (Done None, s2)
         | CrashBefore \<Rightarrow> (Crashed, s1\<lparr>js_up := False\<rparr>)
         | CrashAfter \<Rightarrow> (Crashed, s2\<lparr>js_up := False\<rparr>))"

text \<open>The value of the first line of an \<open>INFO\<close> reply with the given prefix.\<close>

definition strip_cr :: "string \<Rightarrow> string" where
  "strip_cr l = (if l \<noteq> [] \<and> last l = char_of (13::nat) then butlast l else l)"

definition info_field :: "string \<Rightarrow> string \<Rightarrow> string option" where
  "info_field info key =
     map_option (\<lambda>l. drop (length key) l)
       (find (\<lambda>l. take (length key) l = key) (map strip_cr (split_on (char_of (10::nat)) info)))"

definition observe :: "string \<Rightarrow> redis \<Rightarrow> (string \<times> string \<times> string option) option" where
  "observe key rd =
     (case (info_field (rd_server rd) ''run_id:'', info_field (rd_replication rd) ''role:'') of
        (Some run, Some role) \<Rightarrow> Some (run, role, map_of (rd_keys rd) key)
      | _ \<Rightarrow> None)"

text \<open>\<open>None\<close> is any error of the observation.\<close>

definition observation :: "journal_env \<Rightarrow> string \<Rightarrow> (string \<times> string \<times> string option) option jm" where
  "observation env key =
     jbind (redis_call env (\<lambda>rd. (observe key rd, rd))) (\<lambda>r. jret (Option.bind r id))"

definition publish_checkpoint_script :: "PendingUpdate \<Rightarrow> redis \<Rightarrow> int \<times> redis" where
  "publish_checkpoint_script p rd =
     (let current = map_of (rd_keys rd) (pu_redis_key p) in
      if current = Some (pu_target_token p) then (1, rd)
      else if current \<noteq> Some (pu_previous_token p) then (0, rd)
      else (1, rd\<lparr>rd_keys := hset (pu_redis_key p) (pu_target_token p) (rd_keys rd)\<rparr>))"

subsection \<open>The safety gate\<close>

definition ignore_error :: "unit jm \<Rightarrow> unit jm" where
  "ignore_error m s = (case m s of (Failed e, s') \<Rightarrow> (Done (), s') | r \<Rightarrow> r)"

definition halt :: "journal_env \<Rightarrow> string \<Rightarrow> 'a jm" where
  "halt env reason s =
     jbind (ignore_error (db_call env (\<lambda>L. Inr ((), halt_control reason L)))) (\<lambda>_.
       jfail (RecoveryRequired reason)) (s\<lparr>js_failed := True\<rparr>)"

definition storage_result :: "journal_env \<Rightarrow> 'a jm \<Rightarrow> 'a jm" where
  "storage_result env m s =
     (case m s of (Failed Storage, s') \<Rightarrow> halt env ''ledger unavailable'' s' | r \<Rightarrow> r)"

definition observe_checkpoint :: "journal_env \<Rightarrow> Control \<Rightarrow> PendingUpdate option \<Rightarrow> unit jm" where
  "observe_checkpoint env current pending =
     jbind (observation env (control_key current)) (\<lambda>observed.
       case observed of
         None \<Rightarrow>
           (if pending \<noteq> None then jfail PublicationPending
            else halt env ''Redis continuity unavailable'')
       | Some (run, role, marker) \<Rightarrow>
           (if marker \<noteq> Some (token current)
               \<and> \<not> (\<exists>p \<in> set_option pending. marker = Some (pu_previous_token p))
            then halt env ''Redis checkpoint mismatch''
            else if role \<noteq> ''master'' then halt env ''Redis primary role changed''
            else if run \<noteq> ct_run_id current then halt env ''Redis process changed''
            else jret ()))"

definition complete_pending :: "journal_env \<Rightarrow> Control \<Rightarrow> PendingUpdate \<Rightarrow> unit jm" where
  "complete_pending env current pending =
     jbind (redis_call env (publish_checkpoint_script pending)) (\<lambda>reply.
       case reply of
         None \<Rightarrow> jfail PublicationPending
       | Some n \<Rightarrow>
           if n \<noteq> 1 then halt env ''Redis checkpoint mismatch''
           else jbind (observation env (control_key current)) (\<lambda>observed.
             case observed of
               None \<Rightarrow> jfail PublicationPending
             | Some (run, role, marker) \<Rightarrow>
                 (if marker \<noteq> Some (pu_target_token pending) then halt env ''Redis checkpoint mismatch''
                  else if role \<noteq> ''master'' then halt env ''Redis primary role changed''
                  else if run \<noteq> pu_run_id pending then halt env ''Redis process changed''
                  else jbind (storage_result env (db_call env (acknowledge pending))) (\<lambda>_.
                    observe_checkpoint env current None))))"

definition healthy_locked :: "journal_env \<Rightarrow> Control jm" where
  "healthy_locked env s =
     (if js_failed s then jfail (RecoveryRequired ''process safety gate is latched'') s
      else case db_read env (\<lambda>L. bind_result (control L) (\<lambda>current.
                  bind_result (load L current) (\<lambda>pending. Inr (current, pending)))) s of
        (Crashed, s') \<Rightarrow> (Crashed, s')
      | (Failed e, s') \<Rightarrow> halt env ''ledger unavailable'' s'
      | (Done (current, pending), s') \<Rightarrow>
          (if ct_halted current
           then jfail (RecoveryRequired ''durable safety gate is halted'') (s'\<lparr>js_failed := True\<rparr>)
           else jbind (observe_checkpoint env current pending) (\<lambda>_.
                jbind (case pending of None \<Rightarrow> jret () | Some p \<Rightarrow> complete_pending env current p) (\<lambda>_.
                  jret current)) s'))"

definition mirror :: "journal_env \<Rightarrow> Control \<Rightarrow> unit jm" where
  "mirror env old =
     jbind (storage_result env (db_read env (\<lambda>L.
       bind_result (control L) (\<lambda>current.
       bind_result (load L current) (\<lambda>pending.
       bind_result (ok_or Storage pending) (\<lambda>p.
         if pu_previous_token p \<noteq> token old then Inl Storage else Inr (current, p))))))) (\<lambda>(current, p).
     jbind (observe_checkpoint env current (Some p)) (\<lambda>_. complete_pending env current p))"

text \<open>\<open>run_owned\<close>: the operation is refused while a drain is waiting and after the journal is closed.\<close>

definition run_owned :: "journal_env \<Rightarrow> 'a jm \<Rightarrow> 'a jm" where
  "run_owned env m s = (if je_writer env \<or> js_closed s then jfail Busy s else m s)"

definition ensure_healthy :: "journal_env \<Rightarrow> unit jm" where
  "ensure_healthy env = run_owned env (jbind (healthy_locked env) (\<lambda>_. jret ()))"

definition close_and_drain :: "unit jm" where
  "close_and_drain s = (Done (), s\<lparr>js_closed := True\<rparr>)"

text \<open>
  The shape of every mutation: pass the gate, run one transaction, and publish the checkpoint
  when the transaction advanced it.
\<close>

definition mutation :: "journal_env \<Rightarrow> ('a \<times> Control option) tx \<Rightarrow> 'a jm" where
  "mutation env body =
     jbind (healthy_locked env) (\<lambda>_.
     jbind (storage_result env (db_call env body)) (\<lambda>(x, old).
     jbind (case old of None \<Rightarrow> jret () | Some c \<Rightarrow> mirror env c) (\<lambda>_. jret x)))"

definition advanced :: "'a \<Rightarrow> ledger \<Rightarrow> (RecoveryError, ('a \<times> Control option) \<times> ledger) result" where
  "advanced x L = bind_result (advance L) (\<lambda>(old, L'). Inr ((x, Some old), L'))"

subsection \<open>Admission\<close>

record AdmissionReservation =
  rv_payload :: json
  rv_terminal :: bool

definition reserve_tx ::
  "journal_codec \<Rightarrow> string \<Rightarrow> string \<Rightarrow> string \<Rightarrow> json \<Rightarrow> string \<Rightarrow> (AdmissionReservation \<times> Control option) tx" where
  "reserve_tx cd kind i fingerprint payload encoded L =
     bind_result (lookup cd L i) (\<lambda>found.
       case found of
         Some old \<Rightarrow>
           (if rec_kind old \<noteq> kind \<or> rec_fingerprint old \<noteq> fingerprint then Inl ConflictError
            else if rec_state old = Quarantined then Inl (RecoveryRequired ''transaction is quarantined'')
            else Inr ((\<lparr>rv_payload = rec_payload old, rv_terminal = (rec_state old = Terminal)\<rparr>, None), L))
       | None \<Rightarrow>
           bind_result (insert_admission \<lparr>ar_id = i, ar_kind = kind, ar_fingerprint = fingerprint,
               ar_payload = encoded, ar_state = ''admitted'', ar_replay_key = None\<rparr> L) (\<lambda>L1.
             advanced \<lparr>rv_payload = payload, rv_terminal = False\<rparr> L1))"

definition reserve_admission ::
  "journal_codec \<Rightarrow> journal_env \<Rightarrow> string \<Rightarrow> string \<Rightarrow> string \<Rightarrow> json \<Rightarrow> AdmissionReservation jm" where
  "reserve_admission cd env kind i fingerprint payload =
     (if \<not> je_slot env then jfail Busy
      else jbind (of_result (identity kind i)) (\<lambda>_.
           jbind (of_result (admission_fingerprint cd kind payload)) (\<lambda>computed.
             if computed \<noteq> fingerprint then jfail ConflictError
             else jbind (of_result (canonical cd payload)) (\<lambda>encoded.
               run_owned env (mutation env (reserve_tx cd kind i fingerprint payload encoded))))))"

definition admission :: "journal_codec \<Rightarrow> journal_env \<Rightarrow> string \<Rightarrow> string \<Rightarrow> AdmissionRecord option jm" where
  "admission cd env kind i =
     db_read env (\<lambda>L. bind_result (lookup cd L i) (\<lambda>r.
       if \<exists>x \<in> set_option r. rec_kind x \<noteq> kind then Inl ConflictError else Inr r))"

definition admission_state :: "journal_codec \<Rightarrow> journal_env \<Rightarrow> string \<Rightarrow> string \<Rightarrow> AdmissionState option jm" where
  "admission_state cd env kind i = jbind (admission cd env kind i) (\<lambda>r. jret (map_option rec_state r))"

definition terminal_evidence :: "journal_codec \<Rightarrow> journal_env \<Rightarrow> string \<Rightarrow> string \<Rightarrow> json option jm" where
  "terminal_evidence cd env kind i =
     db_read env (\<lambda>L. bind_result (lookup cd L i) (\<lambda>r.
       case r of
         None \<Rightarrow> Inr None
       | Some x \<Rightarrow>
           (if rec_kind x \<noteq> kind then Inl ConflictError
            else if rec_state x \<noteq> Terminal then Inr None
            else case evidence_of L i of
              [] \<Rightarrow> Inl Storage
            | body # _ \<Rightarrow> bind_result (ok_or Storage (jc_from_str cd body)) (\<lambda>v. Inr (Some v)))))"

definition validate_admission :: "journal_codec \<Rightarrow> journal_env \<Rightarrow> string \<Rightarrow> string \<Rightarrow> string \<Rightarrow> unit jm" where
  "validate_admission cd env kind i fingerprint =
     jbind (ensure_healthy env) (\<lambda>_.
     jbind (admission cd env kind i) (\<lambda>r.
       case r of
         None \<Rightarrow> jfail (RecoveryRequired ''untracked transaction'')
       | Some x \<Rightarrow>
           (if rec_fingerprint x \<noteq> fingerprint then jfail ConflictError
            else if rec_state x \<noteq> Admitted
            then jfail (RecoveryRequired ''transaction is terminal or quarantined'')
            else jret ())))"

definition validate_payload :: "journal_codec \<Rightarrow> journal_env \<Rightarrow> string \<Rightarrow> string \<Rightarrow> json \<Rightarrow> unit jm" where
  "validate_payload cd env kind i payload =
     jbind (of_result (admission_fingerprint cd kind payload)) (\<lambda>fingerprint.
     jbind (validate_admission cd env kind i fingerprint) (\<lambda>_.
     jbind (admission cd env kind i) (\<lambda>r.
       case r of
         None \<Rightarrow> jfail (RecoveryRequired ''untracked transaction'')
       | Some x \<Rightarrow>
           jbind (of_result (canonical cd (rec_payload x))) (\<lambda>stored.
           jbind (of_result (canonical cd payload)) (\<lambda>given.
             if stored \<noteq> given then jfail ConflictError else jret ())))))"

subsection \<open>Broadcast\<close>

definition chain_gate :: "string \<Rightarrow> string \<Rightarrow> string \<Rightarrow> ledger \<Rightarrow> (RecoveryError, unit) result" where
  "chain_gate missing kind key L =
     (if kind = ''solana'' then Inr ()
      else bind_result (ok_or (Invalid missing) (replay_chain key)) (ensure_chain_not_halted L))"

definition owner_gate :: "string \<Rightarrow> string \<Rightarrow> ledger \<Rightarrow> (RecoveryError, unit) result" where
  "owner_gate i key L =
     (if \<exists>w \<in> set_option (replay_owner L key). w \<noteq> i then Inl ConflictError else Inr ())"

definition validate_replay_binding :: "journal_codec \<Rightarrow> journal_env \<Rightarrow> string \<Rightarrow> string \<Rightarrow> string \<Rightarrow> unit jm" where
  "validate_replay_binding cd env kind i key =
     jbind (of_result (identity kind i)) (\<lambda>_.
     jbind (of_result (validate_replay_key kind key)) (\<lambda>_.
       run_owned env (jbind (healthy_locked env) (\<lambda>_.
         db_read env (\<lambda>L. bind_result (lookup cd L i) (\<lambda>r.
           case r of
             None \<Rightarrow> Inl (RecoveryRequired ''untracked signing intent'')
           | Some x \<Rightarrow>
               (if rec_kind x \<noteq> kind \<or> (\<exists>k \<in> set_option (rec_replay_key x). k \<noteq> key) then Inl ConflictError
                else if rec_state x \<noteq> Admitted
                then Inl (RecoveryRequired ''transaction is terminal or quarantined'')
                else bind_result (owner_gate i key L) (\<lambda>_.
                  chain_gate ''missing replay chain'' kind key L))))))))"

definition recovery_mode :: "ledger \<Rightarrow> string \<Rightarrow> (RecoveryError, bool) result" where
  "recovery_mode L i = bind_result (ok_or Storage (lg_solana L)) (\<lambda>rows. Inr (map_of rows i \<noteq> None))"

definition recovery_gate :: "string \<Rightarrow> string \<Rightarrow> ledger \<Rightarrow> (RecoveryError, unit) result" where
  "recovery_gate kind i L =
     (if kind \<noteq> ''solana'' then Inr ()
      else bind_result (recovery_mode L i) (\<lambda>mode.
        if mode then Inl (RecoveryRequired ''restored Solana intent requires a durable recovery broadcast claim'')
        else Inr ()))"

definition find_attempt :: "ledger \<Rightarrow> string \<Rightarrow> string \<Rightarrow> attempt_row option" where
  "find_attempt L i digest = find (\<lambda>b. at_id b = i \<and> at_digest b = digest) (lg_attempts L)"

definition record_attempt ::
  "string \<Rightarrow> string \<Rightarrow> string \<Rightarrow> string \<Rightarrow> string option \<Rightarrow> (unit \<times> Control option) tx" where
  "record_attempt i key digest encoded bound L =
     (case find_attempt L i digest of
        Some b \<Rightarrow>
          (if at_replay_key b \<noteq> key \<or> at_payload b \<noteq> encoded \<or> bound \<noteq> Some key then Inl Storage
           else Inr (((), None), L))
      | None \<Rightarrow>
          bind_result (set_replay_key i key L) (\<lambda>L1.
          bind_result (insert_attempt \<lparr>at_id = i, at_replay_key = key, at_digest = digest, at_payload = encoded\<rparr> L1)
            (advanced ())))"

definition broadcast_tx ::
  "journal_codec \<Rightarrow> string \<Rightarrow> string \<Rightarrow> string \<Rightarrow> string \<Rightarrow> string \<Rightarrow> (unit \<times> Control option) tx" where
  "broadcast_tx cd kind i key digest encoded L =
     bind_result (lookup cd L i) (\<lambda>r.
       case r of
         None \<Rightarrow> Inl (RecoveryRequired ''untracked broadcast'')
       | Some x \<Rightarrow>
           (if rec_kind x \<noteq> kind then Inl ConflictError
            else if rec_state x \<noteq> Admitted
            then Inl (RecoveryRequired ''transaction is terminal or quarantined'')
            else bind_result (recovery_gate kind i L) (\<lambda>_.
                 bind_result (chain_gate ''replay key has no chain identity'' kind key L) (\<lambda>_.
                   if \<exists>k \<in> set_option (rec_replay_key x). k \<noteq> key then Inl ConflictError
                   else bind_result (owner_gate i key L) (\<lambda>_.
                     record_attempt i key digest encoded (rec_replay_key x) L)))))"

definition before_broadcast :: "journal_codec \<Rightarrow> journal_env \<Rightarrow> string \<Rightarrow> string \<Rightarrow> string \<Rightarrow> json \<Rightarrow> unit jm" where
  "before_broadcast cd env kind i key attempt =
     jbind (of_result (identity kind i)) (\<lambda>_.
     jbind (of_result (validate_replay_key kind key)) (\<lambda>_.
     jbind (of_result (canonical cd attempt)) (\<lambda>encoded.
       run_owned env (mutation env (broadcast_tx cd kind i key (jc_sha256_hex cd encoded) encoded)))))"

definition latest_eoa_attempt :: "journal_codec \<Rightarrow> journal_env \<Rightarrow> string \<Rightarrow> string \<Rightarrow> json option jm" where
  "latest_eoa_attempt cd env i expected =
     jbind (of_result (identity ''eoa'' i)) (\<lambda>_.
     jbind (of_result (validate_replay_key ''eoa'' expected)) (\<lambda>_.
     jbind (ensure_healthy env) (\<lambda>_.
       db_read env (\<lambda>L. bind_result (lookup cd L i) (\<lambda>r.
         case r of
           None \<Rightarrow> Inl (RecoveryRequired ''untracked gap recovery'')
         | Some x \<Rightarrow>
             (if rec_kind x \<noteq> ''eoa'' \<or> rec_replay_key x \<noteq> Some expected then Inl ConflictError
              else if rec_state x \<noteq> Admitted
              then Inl (RecoveryRequired ''gap recovery is terminal or quarantined'')
              else bind_result (ok_or Storage (replay_chain expected)) (\<lambda>chain.
                   bind_result (ensure_chain_not_halted L chain) (\<lambda>_.
                     if attempts_of L i = [] then Inr None
                     else let b = last (attempts_of L i) in
                       if at_replay_key b \<noteq> expected then Inl Storage
                       else bind_result (ok_or Storage (jc_from_str cd (at_payload b))) (\<lambda>v.
                         Inr (Some v))))))))))"

end
