(* ===== verification/Recovery_Ops.thy ===== *)
theory Recovery_Ops
  imports Recovery_Journal
begin

text \<open>
  The rest of the journal: confirmation identities and terminal evidence, finality checkpoints per
  chain, the durable budget of Solana recovery broadcasts (\<open>recovery/solana_projection.rs\<close>), the
  start of a process, and the offline commands.
\<close>

subsection \<open>Terminal evidence\<close>

definition json_field :: "(json \<Rightarrow> 'a option) \<Rightarrow> json \<Rightarrow> string \<Rightarrow> (RecoveryError, 'a) result" where
  "json_field conv v name = ok_or ConflictError (Option.bind (json_get v name) conv)"

definition userop_matches :: "journal_codec \<Rightarrow> string \<Rightarrow> json \<Rightarrow> json \<Rightarrow> (RecoveryError, bool) result" where
  "userop_matches cd key ident attempt =
     bind_result (json_field json_u64 ident ''chainId'') (\<lambda>chain_id.
     bind_result (json_field (jc_address cd) ident ''sender'') (\<lambda>sender.
     bind_result (json_field (jc_address cd) ident ''entrypoint'') (\<lambda>entrypoint.
     bind_result (json_field (jc_u256 cd) ident ''nonce'') (\<lambda>nonce.
     bind_result (json_field (jc_b256 cd) ident ''userOperationHash'') (\<lambda>wanted.
       if key \<noteq> ''erc4337:'' @ show_nat chain_id @ '':'' @ entrypoint @ '':'' @ sender @ '':'' @ nonce
       then Inl ConflictError
       else bind_result (json_field (jc_userop cd) attempt ''userOperation'') (\<lambda>hash.
         Inr (json_field json_u64 attempt ''chainId'' = Inr chain_id
           \<and> json_field (jc_address cd) attempt ''sender'' = Inr sender
           \<and> json_field (jc_address cd) attempt ''entrypoint'' = Inr entrypoint
           \<and> json_field (jc_u256 cd) attempt ''nonce'' = Inr nonce
           \<and> hash chain_id entrypoint = Some wanted)))))))"

definition attempt_matches :: "journal_codec \<Rightarrow> string \<Rightarrow> string \<Rightarrow> json \<Rightarrow> json \<Rightarrow> (RecoveryError, bool) result" where
  "attempt_matches cd kind key ident attempt =
     (if kind = ''eoa'' \<or> kind = ''eoa_noop'' then
        bind_result (json_field (jc_b256 cd) ident ''transactionHash'') (\<lambda>wanted.
          Inr (json_field (jc_b256 cd) attempt ''transactionHash'' = Inr wanted))
      else if kind = ''solana'' then
        bind_result (json_field json_str ident ''signature'') (\<lambda>signature_text.
        bind_result (ok_or ConflictError (jc_signature cd signature_text)) (\<lambda>signature.
        bind_result (json_field json_str ident ''chainId'') (\<lambda>supplied_chain.
          Inr (key = ''solana:'' @ supplied_chain @ '':'' @ signature
            \<and> Option.bind (Option.bind (json_get attempt ''signature'') json_str) (jc_signature cd)
                = Some signature))))
      else if kind = ''erc4337'' then userop_matches cd key ident attempt
      else Inl (Invalid ''unsupported confirmation kind''))"

fun scan_attempts ::
  "journal_codec \<Rightarrow> string \<Rightarrow> string \<Rightarrow> json \<Rightarrow> attempt_row list \<Rightarrow> (RecoveryError, unit) result" where
  "scan_attempts cd kind key ident [] =
     Inl (RecoveryRequired ''confirmation identity is not a recorded broadcast attempt'')"
| "scan_attempts cd kind key ident (b # bs) =
     bind_result (ok_or Storage (jc_from_str cd (at_payload b))) (\<lambda>attempt.
     bind_result (attempt_matches cd kind key ident attempt) (\<lambda>found.
       if found then Inr () else scan_attempts cd kind key ident bs))"

definition supplied_chain_gate ::
  "ledger \<Rightarrow> string \<Rightarrow> string \<Rightarrow> json \<Rightarrow> (RecoveryError, unit) result" where
  "supplied_chain_gate L kind chain ident =
     (if kind = ''solana'' then Inr ()
      else bind_result (json_field json_u64 ident ''chainId'') (\<lambda>supplied_chain.
        if parse_unsigned u64_max chain \<noteq> Some supplied_chain then Inl ConflictError
        else ensure_chain_not_halted L chain))"

definition validate_attempt_identity_in_db ::
  "journal_codec \<Rightarrow> ledger \<Rightarrow> AdmissionRecord \<Rightarrow> json \<Rightarrow> (RecoveryError, unit) result" where
  "validate_attempt_identity_in_db cd L x ident =
     (if rec_state x = Quarantined then Inl (RecoveryRequired ''transaction is quarantined'')
      else bind_result (ok_or (RecoveryRequired ''confirmation has no recorded broadcast attempt'') (rec_replay_key x)) (\<lambda>key.
           bind_result (ok_or Storage (replay_chain key)) (\<lambda>chain.
           bind_result (supplied_chain_gate L (rec_kind x) chain ident) (\<lambda>_.
             if rec_kind x = ''eip7702''
             then Inl (RecoveryRequired ''bundled EIP-7702 lacks a qualified canonical UID witness'')
             else scan_attempts cd (rec_kind x) key ident (attempts_of L (rec_id x))))))"

definition validate_attempt_identity :: "journal_codec \<Rightarrow> journal_env \<Rightarrow> string \<Rightarrow> string \<Rightarrow> json \<Rightarrow> unit jm" where
  "validate_attempt_identity cd env kind i ident =
     jbind (ensure_healthy env) (\<lambda>_.
       db_read env (\<lambda>L. bind_result (lookup cd L i) (\<lambda>r.
         case r of
           None \<Rightarrow> Inl (RecoveryRequired ''untracked confirmation'')
         | Some x \<Rightarrow>
             (if rec_kind x \<noteq> kind then Inl ConflictError
              else validate_attempt_identity_in_db cd L x ident))))"

text \<open>The flag of the result says that the observation contradicts the retained one.\<close>

definition terminal_tx ::
  "journal_codec \<Rightarrow> string \<Rightarrow> string \<Rightarrow> json \<Rightarrow> string \<Rightarrow> string \<Rightarrow> (bool \<times> Control option) tx" where
  "terminal_tx cd kind i evidence normalized encoded L =
     bind_result (lookup cd L i) (\<lambda>r.
       case r of
         None \<Rightarrow> Inl (RecoveryRequired ''untracked terminal observation'')
       | Some x \<Rightarrow>
           (if rec_kind x \<noteq> kind then Inl ConflictError
            else bind_result (validate_attempt_identity_in_db cd L x evidence) (\<lambda>_.
              if rec_state x = Terminal then
                (case evidence_of L i of
                   [] \<Rightarrow> Inl Storage
                 | body # _ \<Rightarrow>
                     bind_result (ok_or Storage (jc_from_str cd body)) (\<lambda>previous.
                     bind_result (terminal_identity cd previous) (\<lambda>retained.
                       if retained = normalized then Inr ((False, None), L)
                       else bind_result (insert_evidence i encoded L) (\<lambda>L1.
                         Inr ((True, None), L1\<lparr>lg_control := (lg_control L1)\<lparr>ct_halted := True,
                           ct_reason := Some ''terminal evidence conflict''\<rparr>\<rparr>)))))
              else bind_result (insert_evidence i encoded L) (\<lambda>L1.
                advanced False (update_admission i (ar_state_update (\<lambda>_. ''terminal'')) L1)))))"

definition record_terminal :: "journal_codec \<Rightarrow> journal_env \<Rightarrow> string \<Rightarrow> string \<Rightarrow> json \<Rightarrow> unit jm" where
  "record_terminal cd env kind i evidence =
     jbind (of_result (identity kind i)) (\<lambda>_.
     jbind (of_result (terminal_identity cd evidence)) (\<lambda>normalized.
     jbind (of_result (canonical cd evidence)) (\<lambda>encoded.
       run_owned env (jbind (mutation env (terminal_tx cd kind i evidence normalized encoded)) (\<lambda>conflict s.
         if conflict then jfail (RecoveryRequired ''terminal evidence conflict'') (s\<lparr>js_failed := True\<rparr>)
         else jret () s)))))"

subsection \<open>Finality checkpoints\<close>

definition check_chain_healthy :: "journal_env \<Rightarrow> nat \<Rightarrow> unit jm" where
  "check_chain_healthy env chain_id =
     jbind (ensure_healthy env) (\<lambda>_. db_read env (\<lambda>L. ensure_chain_not_halted L (show_nat chain_id)))"

definition load_checkpoint :: "journal_codec \<Rightarrow> journal_env \<Rightarrow> nat \<Rightarrow> string FinalityEvidence option jm" where
  "load_checkpoint cd env chain_id =
     jbind (check_chain_healthy env chain_id) (\<lambda>_. db_read env (\<lambda>L. load_chain_checkpoint cd L chain_id))"

definition store_checkpoint ::
  "journal_codec \<Rightarrow> nat \<Rightarrow> string FinalityEvidence \<Rightarrow> ((bool \<times> bool) \<times> Control option) tx" where
  "store_checkpoint cd chain_id evidence L =
     bind_result (ok_or Storage (jc_evidence_to_string cd evidence)) (\<lambda>encoded.
       advanced (True, False) (L\<lparr>lg_checkpoints := hset (show_nat chain_id) encoded (lg_checkpoints L)\<rparr>))"

text \<open>The two flags of the result: accepted, and conflict.\<close>

definition checkpoint_tx ::
  "journal_codec \<Rightarrow> nat \<Rightarrow> string FinalityEvidence option \<Rightarrow> string FinalityEvidence
     \<Rightarrow> ((bool \<times> bool) \<times> Control option) tx" where
  "checkpoint_tx cd chain_id expected evidence L =
     bind_result (ensure_chain_not_halted L (show_nat chain_id)) (\<lambda>_.
     bind_result (load_chain_checkpoint cd L chain_id) (\<lambda>current.
       if current \<noteq> expected then Inr (((False, False), None), L)
       else case current of
         None \<Rightarrow> store_checkpoint cd chain_id evidence L
       | Some previous \<Rightarrow>
           (if fe_policy previous \<noteq> fe_policy evidence
               \<or> (fe_checkpoint_number previous = fe_checkpoint_number evidence
                  \<and> fe_checkpoint_hash previous \<noteq> fe_checkpoint_hash evidence)
            then advanced (False, True) (insert_halt (show_nat chain_id) L)
            else if fe_checkpoint_number evidence < fe_checkpoint_number previous
            then Inr (((False, False), None), L)
            else if fe_checkpoint_number evidence = fe_checkpoint_number previous
            then Inr (((True, False), None), L)
            else store_checkpoint cd chain_id evidence L)))"

definition commit_checkpoint ::
  "journal_codec \<Rightarrow> journal_env \<Rightarrow> nat \<Rightarrow> string FinalityEvidence option \<Rightarrow> string FinalityEvidence \<Rightarrow> bool jm" where
  "commit_checkpoint cd env chain_id expected evidence =
     run_owned env (jbind (mutation env (checkpoint_tx cd chain_id expected evidence)) (\<lambda>(accepted, conflict).
       if conflict then jfail (RecoveryRequired ''chain finality checkpoint conflicts'') else jret accepted))"

definition halt_chain :: "journal_env \<Rightarrow> nat \<Rightarrow> unit jm" where
  "halt_chain env chain_id =
     run_owned env (mutation env (\<lambda>L. advanced () (insert_halt (show_nat chain_id) L)))"

subsection \<open>Solana recovery broadcasts\<close>

definition MAX_SOLANA_RECOVERY_BROADCASTS :: nat where
  "MAX_SOLANA_RECOVERY_BROADCASTS = 20"

definition RECOVERY_BROADCAST_INTERVAL_MS :: nat where
  "RECOVERY_BROADCAST_INTERVAL_MS = 2000"

record RetainedSolanaAttempt =
  rs_replay_key :: string
  rs_payload :: json
  rs_state :: AdmissionState
  rs_broadcasts :: nat
  rs_last :: nat

record Retained =
  rt_public :: RetainedSolanaAttempt
  rt_digest :: string
  rt_recovery_mode :: bool

datatype SolanaRecoveryBroadcast = Granted nat nat | WaitMs nat | Exhausted

definition validate_schema :: "ledger \<Rightarrow> (RecoveryError, unit) result" where
  "validate_schema L =
     bind_result (control L) (\<lambda>c.
       if 3 \<le> ct_schema c then bind_result (ok_or Storage (lg_solana L)) (\<lambda>_. Inr ()) else Inr ())"

definition retained_wire :: "journal_codec \<Rightarrow> attempt_row \<Rightarrow> (RecoveryError, json) result" where
  "retained_wire cd b =
     bind_result (ok_or Storage (jc_from_str cd (at_payload b))) (\<lambda>payload.
     bind_result (canonical cd payload) (\<lambda>encoded.
       if encoded \<noteq> at_payload b \<or> jc_sha256_hex cd (at_payload b) \<noteq> at_digest b then Inl Storage
       else
     bind_result (ok_or Storage (Option.bind (json_get payload ''signature'') json_str)) (\<lambda>signature_text.
     bind_result (ok_or Storage (jc_signature cd signature_text)) (\<lambda>signature.
     bind_result (ok_or Storage (Option.bind (json_get payload ''chainId'') json_str)) (\<lambda>chain.
       if at_replay_key b \<noteq> ''solana:'' @ chain @ '':'' @ signature then Inl Storage
       else
     bind_result (ok_or Storage (json_get payload ''attempt'')) (\<lambda>attempt.
       if Option.bind (json_get attempt ''signature'') json_str \<noteq> Some signature then Inl Storage
       else case Option.bind (json_get attempt ''signed_transaction'') json_str of
         None \<Rightarrow> Inl (RecoveryRequired ''retained Solana attempt has no signed wire'')
       | Some wire \<Rightarrow>
           (if wire = [] then Inl (RecoveryRequired ''retained Solana attempt has no signed wire'')
            else Inr payload)))))))"

definition retained_budget :: "solana_row option \<Rightarrow> string \<Rightarrow> (RecoveryError, nat \<times> nat) result" where
  "retained_budget mode digest =
     (case mode of
        None \<Rightarrow> Inr (0, 0)
      | Some r \<Rightarrow>
          (if so_digest r \<noteq> digest \<or> so_broadcasts r > MAX_SOLANA_RECOVERY_BROADCASTS \<or> so_last r < 0
              \<or> (so_broadcasts r = 0) \<noteq> (so_last r = 0)
           then Inl Storage
           else Inr (so_broadcasts r, nat (so_last r))))"

definition retained_solana ::
  "journal_codec \<Rightarrow> ledger \<Rightarrow> string \<Rightarrow> json \<Rightarrow> (RecoveryError, Retained option) result" where
  "retained_solana cd L i expected_payload =
     bind_result (lookup cd L i) (\<lambda>r.
     bind_result (ok_or (RecoveryRequired ''untracked Solana projection recovery'') r) (\<lambda>x.
       if rec_kind x \<noteq> ''solana'' then Inl ConflictError
       else
     bind_result (admission_fingerprint cd ''solana'' expected_payload) (\<lambda>fingerprint.
       if rec_fingerprint x \<noteq> fingerprint then Inl ConflictError
       else
     bind_result (canonical cd (rec_payload x)) (\<lambda>stored.
     bind_result (canonical cd expected_payload) (\<lambda>expected.
       if stored \<noteq> expected then Inl ConflictError
       else if rec_state x = Quarantined then Inl (RecoveryRequired ''transaction is quarantined'')
       else
     bind_result (ok_or Storage (lg_solana L)) (\<lambda>rows.
       let mode = map_of rows i in
       case attempts_of L i of
         [] \<Rightarrow>
           (if rec_replay_key x \<noteq> None \<or> mode \<noteq> None \<or> rec_state x \<noteq> Admitted then Inl Storage
            else Inr None)
       | b # bs \<Rightarrow>
           (if bs \<noteq> [] \<or> rec_replay_key x \<noteq> Some (at_replay_key b) then Inl Storage
            else bind_result (retained_wire cd b) (\<lambda>payload.
                 bind_result (retained_budget mode (at_digest b)) (\<lambda>(broadcasts, last_at).
                   Inr (Some \<lparr>rt_public = \<lparr>rs_replay_key = at_replay_key b, rs_payload = payload,
                       rs_state = rec_state x, rs_broadcasts = broadcasts, rs_last = last_at\<rparr>,
                     rt_digest = at_digest b, rt_recovery_mode = (mode \<noteq> None)\<rparr>))))))))))"

text \<open>The constraints of the table.\<close>

definition solana_row_ok :: "solana_row \<Rightarrow> bool" where
  "solana_row_ok r \<longleftrightarrow> so_broadcasts r \<le> 20 \<and> 0 \<le> so_last r
     \<and> ((so_broadcasts r = 0 \<and> so_last r = 0) \<or> (so_broadcasts r > 0 \<and> so_last r > 0))"

definition insert_solana :: "string \<Rightarrow> solana_row \<Rightarrow> ledger \<Rightarrow> (RecoveryError, ledger) result" where
  "insert_solana i row L =
     (case lg_solana L of
        None \<Rightarrow> Inl Storage
      | Some rows \<Rightarrow>
          (if map_of rows i \<noteq> None \<or> find_admission L i = None \<or> \<not> solana_row_ok row then Inl Storage
           else Inr (L\<lparr>lg_solana := Some (rows @ [(i, row)])\<rparr>)))"

definition restore_tx ::
  "journal_codec \<Rightarrow> string \<Rightarrow> json \<Rightarrow> (RetainedSolanaAttempt option \<times> Control option) tx" where
  "restore_tx cd i payload L =
     bind_result (retained_solana cd L i payload) (\<lambda>r.
       case r of
         None \<Rightarrow> Inr ((None, None), L)
       | Some x \<Rightarrow>
           (if rt_recovery_mode x then Inr ((Some (rt_public x), None), L)
            else bind_result (insert_solana i \<lparr>so_digest = rt_digest x, so_broadcasts = 0, so_last = 0\<rparr> L)
              (advanced (Some (rt_public x)))))"

definition prepare_solana_restore ::
  "journal_codec \<Rightarrow> journal_env \<Rightarrow> string \<Rightarrow> json \<Rightarrow> RetainedSolanaAttempt option jm" where
  "prepare_solana_restore cd env i payload =
     jbind (of_result (identity ''solana'' i)) (\<lambda>_. run_owned env (mutation env (restore_tx cd i payload)))"

definition claim ::
  "string \<Rightarrow> RetainedSolanaAttempt \<Rightarrow> nat \<Rightarrow> ledger \<Rightarrow> (RecoveryError, SolanaRecoveryBroadcast \<times> ledger) result" where
  "claim i stored now L =
     (if rs_broadcasts stored \<ge> MAX_SOLANA_RECOVERY_BROADCASTS then Inr (Exhausted, L)
      else let elapsed = now - rs_last stored in
        if rs_last stored \<noteq> 0 \<and> elapsed < RECOVERY_BROADCAST_INTERVAL_MS
        then Inr (WaitMs (RECOVERY_BROADCAST_INTERVAL_MS - elapsed), L)
        else if now = 0 \<or> now > i64_max then Inl Storage
        else if rs_last stored > i64_max then Inl Storage
        else
          let broadcasts = rs_broadcasts stored + 1 in
          case lg_solana L of
            None \<Rightarrow> Inl Storage
          | Some rows \<Rightarrow>
              (case map_of rows i of
                 None \<Rightarrow> Inl Storage
               | Some row \<Rightarrow>
                   (let row' = row\<lparr>so_broadcasts := broadcasts, so_last := int now\<rparr> in
                    if so_broadcasts row \<noteq> rs_broadcasts stored \<or> so_last row \<noteq> int (rs_last stored)
                       \<or> \<not> solana_row_ok row'
                    then Inl Storage
                    else Inr (Granted broadcasts now, L\<lparr>lg_solana := Some (hset i row' rows)\<rparr>))))"

definition recovery_broadcast_tx ::
  "journal_codec \<Rightarrow> nat option \<Rightarrow> string \<Rightarrow> json \<Rightarrow> json \<Rightarrow> (SolanaRecoveryBroadcast \<times> Control option) tx" where
  "recovery_broadcast_tx cd clock i payload attempt L =
     bind_result (retained_solana cd L i payload) (\<lambda>r.
     bind_result (ok_or (RecoveryRequired ''missing retained Solana attempt'') r) (\<lambda>x.
       if \<not> rt_recovery_mode x \<or> rs_state (rt_public x) \<noteq> Admitted
       then Inl (RecoveryRequired ''Solana recovery broadcast is not allowed'')
       else
     bind_result (canonical cd (rs_payload (rt_public x))) (\<lambda>stored.
     bind_result (canonical cd attempt) (\<lambda>given.
       if stored \<noteq> given then Inl ConflictError
       else
     bind_result (ok_or Storage clock) (\<lambda>now.
     bind_result (claim i (rt_public x) now L) (\<lambda>(permission, L1).
       case permission of
         Granted _ _ \<Rightarrow> advanced permission L1
       | _ \<Rightarrow> Inr ((permission, None), L)))))))"

definition before_solana_recovery_broadcast ::
  "journal_codec \<Rightarrow> journal_env \<Rightarrow> string \<Rightarrow> json \<Rightarrow> json \<Rightarrow> SolanaRecoveryBroadcast jm" where
  "before_solana_recovery_broadcast cd env i payload attempt =
     jbind (of_result (identity ''solana'' i)) (\<lambda>_.
       run_owned env (mutation env (recovery_broadcast_tx cd (je_now env) i payload attempt)))"

end
