(* ===== verification/Recovery_Offline.thy ===== *)
theory Recovery_Offline
  imports Recovery_Ops
begin

text \<open>
  Starting a process on the ledger and the offline commands of \<open>core/src/recovery.rs\<close>. The owner
  lock is \<open>js_up\<close>: a running process holds it until it ends, so that a second process and the
  offline commands are refused. \<open>js_file\<close> says that the ledger file exists. Permission bits, file
  creation and \<open>PRAGMA\<close> settings of the file system layer count as part of the first SQLite call,
  which may fail; the cursor loop of one \<open>SCAN\<close> pattern counts as one Redis call.
\<close>

definition redis_connection :: "journal_env \<Rightarrow> unit jm" where
  "redis_connection env =
     jbind (redis_call env (\<lambda>rd. ((), rd))) (\<lambda>r. case r of None \<Rightarrow> jfail Storage | Some _ \<Rightarrow> jret ())"

definition observation_or_fail :: "journal_env \<Rightarrow> string \<Rightarrow> (string \<times> string \<times> string option) jm" where
  "observation_or_fail env key =
     jbind (observation env key) (\<lambda>r. case r of None \<Rightarrow> jfail Storage | Some x \<Rightarrow> jret x)"

definition has_prefix :: "string \<Rightarrow> redis \<Rightarrow> bool" where
  "has_prefix p rd \<longleftrightarrow> list_ex (\<lambda>(k, v). take (length p) k = p) (rd_keys rd)"

definition scan_prefix :: "journal_env \<Rightarrow> string \<Rightarrow> unit jm" where
  "scan_prefix env p =
     jbind (redis_call env (\<lambda>rd. (has_prefix p rd, rd))) (\<lambda>r.
       case r of
         None \<Rightarrow> jfail Storage
       | Some found \<Rightarrow> if found then jfail (Invalid ''destination Redis namespace is not empty'') else jret ())"

definition empty_namespace :: "journal_env \<Rightarrow> string option \<Rightarrow> unit jm" where
  "empty_namespace env namespace =
     jbind (of_result (namespace_valid namespace)) (\<lambda>_.
       case namespace of
         Some ns \<Rightarrow> jbind (scan_prefix env (ns @ '':'')) (\<lambda>_. scan_prefix env (''twmq:'' @ ns @ ''_''))
       | None \<Rightarrow> scan_prefix env [])"

definition set_nx :: "string \<Rightarrow> string \<Rightarrow> redis \<Rightarrow> bool \<times> redis" where
  "set_nx key v rd =
     (if map_of (rd_keys rd) key \<noteq> None then (False, rd)
      else (True, rd\<lparr>rd_keys := hset key v (rd_keys rd)\<rparr>))"

definition owner_lock :: "unit jm" where
  "owner_lock s = (if js_up s then jfail Locked s else jret () s)"

definition connection :: "unit jm" where
  "connection s = (if js_file s then jret () s else jfail Missing s)"

definition update_control :: "(Control \<Rightarrow> Control) \<Rightarrow> unit tx" where
  "update_control f L = Inr ((), L\<lparr>lg_control := f (lg_control L)\<rparr>)"

subsection \<open>Status\<close>

record RecoveryStatus =
  st_schema :: nat
  st_deployment :: string
  st_epoch :: nat
  st_checkpoint :: nat
  st_projection_pending :: bool
  st_namespace :: "string option"
  st_halted :: bool
  st_halt_reason :: "string option"
  st_admissions :: nat
  st_attempts :: nat
  st_terminal :: nat
  st_quarantined :: nat
  st_solana_intents :: nat
  st_solana_broadcasts :: nat

definition solana_counts :: "ledger \<Rightarrow> nat \<Rightarrow> (RecoveryError, nat \<times> nat) result" where
  "solana_counts L schema =
     (if schema < 3 then Inr (0, 0)
      else bind_result (ok_or Storage (lg_solana L)) (\<lambda>rows.
        Inr (length rows, sum_list (map (so_broadcasts \<circ> snd) rows))))"

definition status :: "ledger \<Rightarrow> (RecoveryError, RecoveryStatus) result" where
  "status L =
     bind_result (control L) (\<lambda>c.
     bind_result (load L c) (\<lambda>pending.
     bind_result (solana_counts L (ct_schema c)) (\<lambda>(intents, broadcasts).
       Inr \<lparr>st_schema = ct_schema c, st_deployment = ct_deployment c, st_epoch = ct_epoch c,
         st_checkpoint = ct_checkpoint c, st_projection_pending = (pending \<noteq> None),
         st_namespace = ct_namespace c, st_halted = ct_halted c, st_halt_reason = ct_reason c,
         st_admissions = length (lg_admissions L), st_attempts = length (lg_attempts L),
         st_terminal = length (filter (\<lambda>a. ar_state a = ''terminal'') (lg_admissions L)),
         st_quarantined = length (filter (\<lambda>a. ar_state a = ''quarantined'') (lg_admissions L)),
         st_solana_intents = intents, st_solana_broadcasts = broadcasts\<rparr>)))"

subsection \<open>Initialization and start\<close>

definition new_ledger :: "string \<Rightarrow> string option \<Rightarrow> string \<Rightarrow> ledger" where
  "new_ledger deployment namespace run =
     \<lparr>lg_control = \<lparr>ct_schema = SCHEMA, ct_deployment = deployment, ct_epoch = 1, ct_checkpoint = 0,
        ct_namespace = namespace, ct_run_id = run, ct_halted = True, ct_reason = Some ''initializing''\<rparr>,
      lg_admissions = [], lg_attempts = [], lg_evidence = [], lg_checkpoints = [], lg_halts = [],
      lg_events = [], lg_pending = Some None, lg_solana = Some []\<rparr>"

definition create_file :: "journal_env \<Rightarrow> ledger \<Rightarrow> unit jm" where
  "create_file env L s =
     (if je_fault env (js_calls s) \<in> {LostBefore, CrashBefore} then db_call env (\<lambda>L. Inr ((), L)) s
      else db_call env (\<lambda>_. Inr ((), L)) (s\<lparr>js_file := True\<rparr>))"

definition publish_marker :: "journal_env \<Rightarrow> string \<Rightarrow> Control jm" where
  "publish_marker env collision =
     jbind (db_read env control) (\<lambda>c.
     jbind (redis_call env (set_nx (control_key c) (token c))) (\<lambda>r.
       case r of
         None \<Rightarrow> jfail Storage
       | Some stored \<Rightarrow> if stored then jret c else jfail (RecoveryRequired collision)))"

definition clear_halt :: "journal_env \<Rightarrow> unit jm" where
  "clear_halt env = db_call env (update_control (\<lambda>c. c\<lparr>ct_halted := False, ct_reason := None\<rparr>))"

definition initialize :: "journal_env \<Rightarrow> string \<Rightarrow> string option \<Rightarrow> unit jm" where
  "initialize env deployment namespace =
     jbind (of_result (namespace_valid namespace)) (\<lambda>_ s.
       if js_file s then jfail (Invalid ''ledger already exists'') s
       else jbind owner_lock (\<lambda>_.
            jbind (redis_connection env) (\<lambda>_.
            jbind (empty_namespace env namespace) (\<lambda>_.
            jbind (observation_or_fail env (marker_key namespace)) (\<lambda>(run, role, marker).
              if role \<noteq> ''master'' then jfail (Invalid ''Redis must be a writable primary'')
              else jbind (create_file env (new_ledger deployment namespace run)) (\<lambda>_.
                   jbind (publish_marker env ''initialization collision'') (\<lambda>_.
                     clear_halt env)))))) s)"

definition prepare_owned_startup :: "journal_env \<Rightarrow> Control jm" where
  "prepare_owned_startup env =
     jbind (storage_result env (db_read env validate_schema)) (\<lambda>_.
     jbind (healthy_locked env) (\<lambda>_.
     jbind (db_read env (\<lambda>_. Inr ())) (\<lambda>_.
     jbind (healthy_locked env) (\<lambda>current.
       if ct_schema current < SCHEMA
       then jbind (storage_result env (db_call env migrate)) (\<lambda>_. healthy_locked env)
       else jret current))))"

definition on_error_down :: "'a jm \<Rightarrow> 'a jm" where
  "on_error_down m s = (case m s of (Failed e, s') \<Rightarrow> (Failed e, s'\<lparr>js_up := False\<rparr>) | r \<Rightarrow> r)"

definition open_journal :: "journal_env \<Rightarrow> string option \<Rightarrow> Control jm" where
  "open_journal env namespace s =
     (if \<not> js_file s then jfail Missing s
      else jbind (of_result (namespace_valid namespace)) (\<lambda>_.
           jbind owner_lock (\<lambda>_.
           jbind (db_read env control) (\<lambda>c.
             if ct_namespace c \<noteq> namespace
             then jfail (Invalid ''configured namespace does not match ledger'')
             else jbind (redis_connection env) (\<lambda>_ s1.
               on_error_down (prepare_owned_startup env)
                 (s1\<lparr>js_up := True, js_failed := False, js_closed := False\<rparr>))))) s)"

subsection \<open>Offline commands\<close>

definition quarantine :: "journal_env \<Rightarrow> unit jm" where
  "quarantine env =
     jbind owner_lock (\<lambda>_.
     jbind connection (\<lambda>_.
     jbind (db_read env control) (\<lambda>_.
       db_call env (\<lambda>L. Inr ((), halt_control ''operator quarantine'' L)))))"

definition json_opt :: "string option \<Rightarrow> json" where
  "json_opt x = (case x of None \<Rightarrow> JNull | Some y \<Rightarrow> JString y)"

definition json_pending :: "PendingUpdate option \<Rightarrow> json" where
  "json_pending p =
     (case p of
        None \<Rightarrow> JNull
      | Some u \<Rightarrow> JObject [(''previous_token'', JString (pu_previous_token u)),
          (''target_token'', JString (pu_target_token u)), (''redis_key'', JString (pu_redis_key u)),
          (''run_id'', JString (pu_run_id u))])"

definition reattach_tx :: "Control \<Rightarrow> PendingUpdate option \<Rightarrow> string \<Rightarrow> unit tx" where
  "reattach_tx c pending run L =
     bind_result (control L) (\<lambda>current.
     bind_result (if current \<noteq> c then Inr None else load L c) (\<lambda>found.
       if current \<noteq> c \<or> found \<noteq> pending then Inl (RecoveryRequired ''journal changed during reattach'')
       else bind_result (case pending of None \<Rightarrow> Inr L | Some p \<Rightarrow> remove_exact L p) (\<lambda>L1.
         Inr ((), L1\<lparr>lg_control := (lg_control L1)\<lparr>ct_run_id := run, ct_halted := False, ct_reason := None\<rparr>,
           lg_events := lg_events L1 @ [JObject [(''action'', JString ''reattach''),
             (''previous_run_id'', JString (ct_run_id c)), (''run_id'', JString run),
             (''acknowledged_pending'', json_pending pending)]]\<rparr>))))"

definition reattach_check :: "Control \<Rightarrow> string \<Rightarrow> (string \<times> string \<times> string option) option \<Rightarrow> string option" where
  "reattach_check c run observed =
     (case observed of
        None \<Rightarrow> Some ''Redis continuity unavailable''
      | Some (observed_run, role, marker) \<Rightarrow>
          (if marker \<noteq> Some (token c) then Some ''Redis checkpoint mismatch''
           else if role \<noteq> ''master'' then Some ''Redis primary role changed''
           else if observed_run \<noteq> run then Some ''Redis process changed''
           else None))"

definition continuity_reasons :: "string list" where
  "continuity_reasons = [''Redis process changed'', ''Redis continuity unavailable'', ''Redis primary role changed'']"

definition reattach :: "journal_env \<Rightarrow> string option \<Rightarrow> RecoveryStatus jm" where
  "reattach env namespace =
      jbind owner_lock (\<lambda>_.
      jbind connection (\<lambda>_.
           jbind (db_read env (\<lambda>L. bind_result (control L) (\<lambda>c. bind_result (validate_schema L) (\<lambda>_.
             bind_result (load L c) (\<lambda>pending. Inr (c, pending)))))) (\<lambda>(c, pending).
             if ct_namespace c \<noteq> namespace
             then jfail (Invalid ''configured namespace does not match ledger'')
             else if ct_halted c \<and> ct_reason c \<notin> Some ` set continuity_reasons
             then jfail (RecoveryRequired ''halt cannot be cleared by reattach'')
             else jbind (redis_connection env) (\<lambda>_.
                  jbind (observation_or_fail env (control_key c)) (\<lambda>(run, role, marker).
                    if role \<noteq> ''master'' \<or> marker \<noteq> Some (token c)
                    then jfail (RecoveryRequired ''reattach requires exact Redis checkpoint and primary role'')
                    else jbind (db_call env (reattach_tx c pending run)) (\<lambda>_.
                         jbind (observation env (control_key c)) (\<lambda>observed.
                           case reattach_check c run observed of
                             Some reason \<Rightarrow>
                               jbind (db_call env (\<lambda>L. Inr ((), halt_control reason L))) (\<lambda>_.
                                 jfail (RecoveryRequired reason))
                           | None \<Rightarrow> db_read env status)))))))"

definition terminal_conflict :: "ledger \<Rightarrow> bool" where
  "terminal_conflict L \<longleftrightarrow> list_ex (\<lambda>(i, e). length (evidence_of L i) > 1) (lg_evidence L)"

definition quarantine_sent :: "ledger \<Rightarrow> ledger" where
  "quarantine_sent L =
     L\<lparr>lg_admissions := map (\<lambda>a. if ar_state a \<noteq> ''terminal'' \<and> attempts_of L (ar_id a) \<noteq> []
         then a\<lparr>ar_state := ''quarantined''\<rparr> else a) (lg_admissions L)\<rparr>"

definition recover_schema :: "nat \<Rightarrow> ledger \<Rightarrow> (RecoveryError, ledger) result" where
  "recover_schema schema L =
     bind_result (if schema = 1 then (if lg_pending L \<noteq> None then Inl Storage else Inr (L\<lparr>lg_pending := Some None\<rparr>))
                  else Inr L) (\<lambda>L1.
     bind_result (if schema < SCHEMA then (if lg_solana L1 \<noteq> None then Inl Storage else Inr (L1\<lparr>lg_solana := Some []\<rparr>))
                  else bind_result (validate_schema L1) (\<lambda>_. Inr L1)) (\<lambda>L2.
       if lg_pending L2 = None then Inl Storage
       else Inr (L2\<lparr>lg_pending := Some None, lg_control := (lg_control L2)\<lparr>ct_schema := SCHEMA\<rparr>\<rparr>)))"

definition recover_tx :: "Control \<Rightarrow> PendingUpdate option \<Rightarrow> string option \<Rightarrow> string \<Rightarrow> unit tx" where
  "recover_tx old discarded new_namespace run L =
     bind_result (recover_schema (ct_schema old) L) (\<lambda>L1.
       let L2 = quarantine_sent L1 in
       Inr ((), L2\<lparr>lg_control := (lg_control L2)\<lparr>ct_namespace := new_namespace,
             ct_epoch := ct_epoch (lg_control L2) + 1, ct_checkpoint := 0, ct_run_id := run,
             ct_halted := True, ct_reason := Some ''recovery incomplete''\<rparr>,
           lg_events := lg_events L2 @ [JObject [(''action'', JString ''recover''),
             (''previous_namespace'', json_opt (ct_namespace old)), (''new_namespace'', json_opt new_namespace),
             (''previous_epoch'', JInt (int (ct_epoch old))), (''discarded_pending'', json_pending discarded)]]\<rparr>))"

definition recover_confirm :: "journal_env \<Rightarrow> unit jm" where
  "recover_confirm env =
     jbind (publish_marker env ''recovery namespace collision'') (\<lambda>c.
     jbind (observation_or_fail env (control_key c)) (\<lambda>(current_run, current_role, current_marker).
       if current_run \<noteq> ct_run_id c \<or> current_role \<noteq> ''master'' \<or> current_marker \<noteq> Some (token c)
       then jfail (RecoveryRequired ''Redis changed during recovery'')
       else clear_halt env))"

definition recover :: "journal_env \<Rightarrow> string option \<Rightarrow> RecoveryStatus jm" where
  "recover env new_namespace =
     jbind (of_result (namespace_valid new_namespace)) (\<lambda>_.
       if new_namespace = None then jfail (Invalid ''recovery requires a new explicit namespace'')
       else jbind owner_lock (\<lambda>_.
            jbind connection (\<lambda>_.
            jbind (db_read env (\<lambda>L. bind_result (control L) (\<lambda>old. bind_result (load L old) (\<lambda>pending.
              Inr (old, pending, terminal_conflict L))))) (\<lambda>(old, pending, conflict).
              if conflict
              then jfail (RecoveryRequired ''conflicting terminal evidence requires dedicated reconciliation'')
              else if ct_namespace old = new_namespace
              then jfail (Invalid ''recovery must use a different empty namespace'')
              else if ct_epoch old = i64_max then jfail (Invalid ''deployment epoch exhausted'')
              else jbind (redis_connection env) (\<lambda>_.
                   jbind (empty_namespace env new_namespace) (\<lambda>_.
                   jbind (observation_or_fail env (marker_key new_namespace)) (\<lambda>(run, role, marker).
                     if role \<noteq> ''master'' then jfail (Invalid ''Redis must be a writable primary'')
                     else jbind (db_call env (recover_tx old pending new_namespace run)) (\<lambda>_.
                          jbind (recover_confirm env) (\<lambda>_. db_read env status)))))))))"

end
