(* ===== verification/Recovery_Order.thy ===== *)
theory Recovery_Order
  imports Recovery_Offline
begin

text \<open>
  The steps of a journal and how they act on the ledger. Whatever the world does in between, an
  operation changes the ledger only by the transactions it commits; a relation on ledgers that is
  a preorder and contains these transactions therefore contains every run, crashes and restarts
  included. The locale \<open>journal_order\<close> lifts such a relation from the transactions to the calls and
  the gate, and \<open>ledger_order\<close> to all operations.
\<close>

definition within :: "(ledger \<Rightarrow> ledger \<Rightarrow> bool) \<Rightarrow> 'a jm \<Rightarrow> bool" where
  "within R m \<longleftrightarrow> (\<forall>s. R (js_db s) (js_db (snd (m s))))"

definition tx_within :: "(ledger \<Rightarrow> ledger \<Rightarrow> bool) \<Rightarrow> 'a tx \<Rightarrow> bool" where
  "tx_within R f \<longleftrightarrow> (\<forall>L x L'. f L = Inr (x, L') \<longrightarrow> R L L')"

lemma withinD: "within R m \<Longrightarrow> m s = (r, s') \<Longrightarrow> R (js_db s) (js_db s')"
  by (metis snd_conv within_def)

lemma within_apply: "within R m \<Longrightarrow> R (js_db s) (js_db (snd (m s)))"
  by (simp add: within_def)

named_theorems within_intros \<open>operations that change the ledger within a relation\<close>

inductive journal_step :: "journal_codec \<Rightarrow> journal \<Rightarrow> journal \<Rightarrow> bool" for cd where
  ensure_healthy: "js_up s \<Longrightarrow> journal_step cd s (snd (ensure_healthy env s))"
| reserve_admission: "js_up s \<Longrightarrow> journal_step cd s (snd (reserve_admission cd env kind i fingerprint payload s))"
| admission: "js_up s \<Longrightarrow> journal_step cd s (snd (admission cd env kind i s))"
| admission_state: "js_up s \<Longrightarrow> journal_step cd s (snd (admission_state cd env kind i s))"
| terminal_evidence: "js_up s \<Longrightarrow> journal_step cd s (snd (terminal_evidence cd env kind i s))"
| validate_admission: "js_up s \<Longrightarrow> journal_step cd s (snd (validate_admission cd env kind i fingerprint s))"
| validate_payload: "js_up s \<Longrightarrow> journal_step cd s (snd (validate_payload cd env kind i payload s))"
| validate_replay_binding: "js_up s \<Longrightarrow> journal_step cd s (snd (validate_replay_binding cd env kind i key s))"
| before_broadcast: "js_up s \<Longrightarrow> journal_step cd s (snd (before_broadcast cd env kind i key attempt s))"
| latest_eoa_attempt: "js_up s \<Longrightarrow> journal_step cd s (snd (latest_eoa_attempt cd env i key s))"
| validate_attempt_identity: "js_up s \<Longrightarrow> journal_step cd s (snd (validate_attempt_identity cd env kind i ident s))"
| record_terminal: "js_up s \<Longrightarrow> journal_step cd s (snd (record_terminal cd env kind i evidence s))"
| check_chain_healthy: "js_up s \<Longrightarrow> journal_step cd s (snd (check_chain_healthy env chain_id s))"
| load_checkpoint: "js_up s \<Longrightarrow> journal_step cd s (snd (load_checkpoint cd env chain_id s))"
| commit_checkpoint: "js_up s \<Longrightarrow> journal_step cd s (snd (commit_checkpoint cd env chain_id expected ev s))"
| halt_chain: "js_up s \<Longrightarrow> journal_step cd s (snd (halt_chain env chain_id s))"
| prepare_solana_restore: "js_up s \<Longrightarrow> journal_step cd s (snd (prepare_solana_restore cd env i payload s))"
| before_solana_recovery_broadcast:
    "js_up s \<Longrightarrow> journal_step cd s (snd (before_solana_recovery_broadcast cd env i payload attempt s))"
| close_and_drain: "js_up s \<Longrightarrow> journal_step cd s (snd (close_and_drain s))"
| exit_process: "journal_step cd s (s\<lparr>js_up := False\<rparr>)"
| open_journal: "journal_step cd s (snd (open_journal env namespace s))"
| quarantine: "journal_step cd s (snd (quarantine env s))"
| reattach: "journal_step cd s (snd (reattach env namespace s))"
| recover: "journal_step cd s (snd (recover env namespace s))"
| redis_change: "journal_step cd s (s\<lparr>js_redis := rd\<rparr>)"

inductive_cases journal_stepE: "journal_step cd s s'"

text \<open>A journal begins with an initialization that found no ledger, however that went.\<close>

inductive journal_reach :: "journal_codec \<Rightarrow> journal \<Rightarrow> bool" for cd where
  init: "\<lbrakk>\<not> js_file s; \<not> js_up s; s' = snd (initialize env deployment namespace s); js_file s'\<rbrakk>
           \<Longrightarrow> journal_reach cd s'"
| step: "\<lbrakk>journal_reach cd s; journal_step cd s s'\<rbrakk> \<Longrightarrow> journal_reach cd s'"

subsection \<open>Calls and the gate\<close>

locale call_order =
  fixes R :: "ledger \<Rightarrow> ledger \<Rightarrow> bool"
  assumes R_refl: "R L L"
    and R_trans: "R L L' \<Longrightarrow> R L' L'' \<Longrightarrow> R L L''"
begin

lemma within_jret [within_intros]: "within R (jret x)"
  by (simp add: within_def jret_def R_refl)

lemma within_jfail [within_intros]: "within R (jfail e)"
  by (simp add: within_def jfail_def R_refl)

lemma within_of_result [within_intros]: "within R (of_result r)"
  by (cases r) (simp_all add: of_result_def within_jret within_jfail)

lemma within_jbind [within_intros]:
  assumes "within R m" and "\<And>x. within R (f x)"
  shows "within R (jbind m f)"
  unfolding within_def
proof
  fix s
  obtain r s' where m: "m s = (r, s')" by (cases "m s")
  have 1: "R (js_db s) (js_db s')" using assms(1) m by (rule withinD)
  have 2: "R (js_db s') (js_db (snd (f x s')))" for x using assms(2) [of x] by (simp add: within_def)
  show "R (js_db s) (js_db (snd (jbind m f s)))"
    using m 1 R_trans [OF 1 2] by (cases r) (simp_all add: jbind_def)
qed

lemma within_db_call [within_intros]: "tx_within R f \<Longrightarrow> within R (db_call env f)"
  by (auto simp: within_def tx_within_def db_call_def Let_def R_refl split: fault.splits sum.splits prod.splits)

lemma within_db_read [within_intros]: "within R (db_read env f)"
  unfolding db_read_def
  by (rule within_db_call) (auto simp: tx_within_def bind_result_def R_refl split: sum.splits)

lemma within_redis_call [within_intros]: "within R (redis_call env f)"
  by (auto simp: within_def redis_call_def Let_def R_refl split: fault.splits)

lemma within_observation [within_intros]: "within R (observation env key)"
  unfolding observation_def by (intro within_intros)

lemma within_if: "within R m \<Longrightarrow> within R m' \<Longrightarrow> within R (\<lambda>s. if b s then m s else m' s)"
  by (simp add: within_def)

lemma within_redis_connection [within_intros]: "within R (redis_connection env)"
  unfolding redis_connection_def by (auto intro!: within_intros split: option.splits)

lemma within_observation_or_fail [within_intros]: "within R (observation_or_fail env key)"
  unfolding observation_or_fail_def by (auto intro!: within_intros split: option.splits)

lemma within_owner_lock [within_intros]: "within R owner_lock"
  by (simp add: within_def owner_lock_def jfail_def jret_def R_refl)

lemma within_connection [within_intros]: "within R connection"
  by (simp add: within_def connection_def jfail_def jret_def R_refl)

lemma within_empty_namespace [within_intros]: "within R (empty_namespace env namespace)"
  unfolding empty_namespace_def scan_prefix_def by (auto intro!: within_intros split: option.splits)

lemma within_publish_marker [within_intros]: "within R (publish_marker env collision)"
  unfolding publish_marker_def by (auto intro!: within_intros split: option.splits)

end

text \<open>Calls to Redis and reads leave the ledger as it is.\<close>

interpretation unchanged: call_order "(=)"
  by unfold_locales auto

text \<open>Operations that start from a given ledger.\<close>

definition within_from :: "(ledger \<Rightarrow> ledger \<Rightarrow> bool) \<Rightarrow> ledger \<Rightarrow> 'a jm \<Rightarrow> bool" where
  "within_from R L m \<longleftrightarrow> (\<forall>s. js_db s = L \<longrightarrow> R L (js_db (snd (m s))))"

lemma within_from_start: "(\<And>L. within_from R L m) \<Longrightarrow> within R m"
  by (simp add: within_def within_from_def)

lemma within_fromI: "within R m \<Longrightarrow> within_from R L m"
  by (auto simp: within_def within_from_def)

lemma within_from_keep:
  assumes "within (=) m" and "R L L" and "\<And>x. within_from R L (f x)"
  shows "within_from R L (jbind m f)"
  unfolding within_from_def
proof (intro allI impI)
  fix s :: journal assume "js_db s = L"
  moreover obtain r s' where m: "m s = (r, s')" by (cases "m s")
  moreover have "js_db s = js_db s'" using assms(1) m by (rule withinD)
  ultimately show "R L (js_db (snd (jbind m f s)))"
    using assms(2,3) by (cases r) (auto simp: jbind_def within_from_def)
qed

lemma within_from_read:
  assumes "R L L" and "\<And>x. g L = Inr x \<Longrightarrow> within_from R L (f x)"
  shows "within_from R L (jbind (db_read env g) f)"
  using assms
  by (auto simp: within_from_def jbind_def db_read_def db_call_def Let_def bind_result_def split: fault.splits sum.splits)

locale journal_order = call_order R for R +
  assumes R_halt: "R L (halt_control reason L)"
    and R_ack: "tx_within R (acknowledge p)"
begin

lemma within_frame: "within R m \<Longrightarrow> R (js_db s) (js_db (snd (m (s\<lparr>js_failed := b\<rparr>))))"
  by (force simp: within_def dest: spec [where x = "s\<lparr>js_failed := b\<rparr>"])

lemma within_halt [within_intros]: "within R (halt env reason)"
proof -
  have "within R (ignore_error (db_call env (\<lambda>L. Inr ((), halt_control reason L))))"
  proof -
    have "within R (db_call env (\<lambda>L. Inr ((), halt_control reason L)))"
      by (rule within_db_call) (simp add: tx_within_def R_halt)
    then show ?thesis
      unfolding within_def [of R "ignore_error _"] ignore_error_def
      by (auto split: prod.splits outcome.splits dest: withinD)
  qed
  then have "within R (jbind (ignore_error (db_call env (\<lambda>L. Inr ((), halt_control reason L)))) (\<lambda>_. jfail (RecoveryRequired reason)))"
    by (intro within_intros)
  then show ?thesis
    using within_frame [where b = True] unfolding within_def [of R "halt env reason"] halt_def by blast
qed

lemma within_storage_result [within_intros]:
  assumes "within R m"
  shows "within R (storage_result env m)"
  unfolding within_def
proof
  fix s
  obtain r s' where m: "m s = (r, s')" by (cases "m s")
  have 1: "R (js_db s) (js_db s')" using assms m by (rule withinD)
  have 2: "R (js_db s') (js_db (snd (halt env ''ledger unavailable'' s')))"
    by (rule within_halt [unfolded within_def, THEN spec])
  show "R (js_db s) (js_db (snd (storage_result env m s)))"
    using m 1 R_trans [OF 1 2] by (auto simp: storage_result_def split: outcome.splits RecoveryError.splits)
qed

lemma within_observe_checkpoint [within_intros]: "within R (observe_checkpoint env c p)"
  unfolding observe_checkpoint_def
  by (intro within_intros) (auto intro: within_intros split: option.splits)

lemma within_complete_pending [within_intros]: "within R (complete_pending env c p)"
  unfolding complete_pending_def
  by (rule within_jbind, rule within_redis_call)
     (auto intro!: within_intros R_ack split: option.splits)

lemma within_healthy_locked [within_intros]: "within R (healthy_locked env)"
  unfolding within_def
proof
  fix s
  let ?r = "db_read env (\<lambda>L. bind_result (control L) (\<lambda>current.
                  bind_result (load L current) (\<lambda>pending. Inr (current, pending))))"
  obtain r s' where m: "?r s = (r, s')" by (cases "?r s")
  have 1: "R (js_db s) (js_db s')" using within_db_read m by (rule withinD)
  have 2: "R (js_db s') (js_db (snd (halt env ''ledger unavailable'' s')))"
    by (rule within_halt [unfolded within_def, THEN spec])
  have "within R (jbind (observe_checkpoint env current pending) (\<lambda>_.
                jbind (case pending of None \<Rightarrow> jret () | Some p \<Rightarrow> complete_pending env current p) (\<lambda>_.
                  jret current)))" for current pending
    by (intro within_intros) (auto intro: within_intros split: option.splits)
  then have 3: "R (js_db s') (js_db (snd (jbind (observe_checkpoint env current pending) (\<lambda>_.
                jbind (case pending of None \<Rightarrow> jret () | Some p \<Rightarrow> complete_pending env current p) (\<lambda>_.
                  jret current)) s')))" for current pending
    by (simp add: within_def)
  show "R (js_db s) (js_db (snd (healthy_locked env s)))"
    using m 1 R_trans [OF 1 2] R_trans [OF 1 3]
    by (auto simp: healthy_locked_def jfail_def R_refl split: outcome.splits)
qed

lemma within_mirror [within_intros]: "within R (mirror env old)"
  unfolding mirror_def by (intro within_intros) (auto intro: within_intros)

lemma within_run_owned [within_intros]: "within R m \<Longrightarrow> within R (run_owned env m)"
  by (auto simp: within_def run_owned_def jfail_def R_refl)

lemma within_ensure_healthy [within_intros]: "within R (ensure_healthy env)"
  unfolding ensure_healthy_def by (intro within_intros)

lemma within_mutation [within_intros]: "tx_within R body \<Longrightarrow> within R (mutation env body)"
  unfolding mutation_def by (intro within_intros) (auto intro!: within_intros split: option.splits)

end

subsection \<open>Operations\<close>

lemma recover_tx_evidence:
  "recover_tx c pending namespace run L = Inr (x, L') \<Longrightarrow> terminal_conflict L' = terminal_conflict L"
  by (auto simp: recover_tx_def recover_schema_def bind_result_def quarantine_sent_def terminal_conflict_def
      evidence_of_def Let_def split: sum.splits if_splits)


locale ledger_order = journal_order R for R +
  fixes cd :: journal_codec
  assumes R_reserve: "canonical cd payload = Inr encoded \<Longrightarrow> tx_within R (reserve_tx cd kind i fingerprint payload encoded)"
    and R_broadcast: "canonical cd attempt = Inr encoded \<Longrightarrow> tx_within R (broadcast_tx cd kind i key (jc_sha256_hex cd encoded) encoded)"
    and R_terminal: "tx_within R (terminal_tx cd kind i evidence normalized encoded)"
    and R_checkpoint: "tx_within R (checkpoint_tx cd chain_id expected ev)"
    and R_halt_chain: "tx_within R (\<lambda>L. advanced () (insert_halt chain L))"
    and R_restore: "tx_within R (restore_tx cd i payload)"
    and R_recovery_broadcast: "tx_within R (recovery_broadcast_tx cd clock i payload attempt)"
    and R_migrate: "tx_within R migrate"
    and R_reattach: "\<not> (ct_halted c \<and> ct_reason c \<notin> Some ` set continuity_reasons) \<Longrightarrow> tx_within R (reattach_tx c pending run)"
    and R_recover: "recover_tx c pending namespace run L = Inr (x, L') \<Longrightarrow> c = lg_control L \<Longrightarrow> \<not> terminal_conflict L \<Longrightarrow> R L L'"
    and R_clear_halt: "\<not> terminal_conflict L \<Longrightarrow> R L (L\<lparr>lg_control := (lg_control L)\<lparr>ct_halted := False, ct_reason := None\<rparr>\<rparr>)"
begin

lemma within_of_result_bind [within_intros]:
  assumes "\<And>x. r = Inr x \<Longrightarrow> within R (f x)"
  shows "within R (jbind (of_result r) f)"
proof (cases r)
  case (Inl e)
  then have "jbind (of_result r) f = jfail e" by (auto simp: jbind_def of_result_def jfail_def)
  then show ?thesis by (simp add: within_jfail)
next
  case (Inr x)
  then have "jbind (of_result r) f = f x" by (auto simp: jbind_def of_result_def jret_def)
  then show ?thesis using assms [OF Inr] by simp
qed

lemma within_set: "within R m \<Longrightarrow> within R (\<lambda>s. m (s\<lparr>js_up := a, js_failed := b, js_closed := c\<rparr>))"
  unfolding within_def
  apply (rule allI)
  subgoal for s by (erule allE [where x = "s\<lparr>js_up := a, js_failed := b, js_closed := c\<rparr>"]) simp
  done

lemma within_reserve_admission [within_intros]: "within R (reserve_admission cd env kind i fingerprint payload)"
  unfolding reserve_admission_def by (auto intro!: within_intros R_reserve)

lemma within_before_broadcast [within_intros]: "within R (before_broadcast cd env kind i key attempt)"
  unfolding before_broadcast_def by (auto intro!: within_intros R_broadcast)

lemma within_admission [within_intros]: "within R (admission cd env kind i)"
  unfolding admission_def by (rule within_db_read)

lemma within_validate_admission [within_intros]: "within R (validate_admission cd env kind i fingerprint)"
  unfolding validate_admission_def by (auto intro!: within_intros split: option.splits)

lemma within_validate_payload [within_intros]: "within R (validate_payload cd env kind i payload)"
  unfolding validate_payload_def by (auto intro!: within_intros split: option.splits)

lemma within_record_terminal [within_intros]: "within R (record_terminal cd env kind i evidence)"
proof -
  have "within R (\<lambda>s. if conflict then jfail (RecoveryRequired ''terminal evidence conflict'') (s\<lparr>js_failed := True\<rparr>)
      else jret () s)" for conflict
    by (simp add: within_def jfail_def jret_def R_refl)
  then show ?thesis unfolding record_terminal_def by (intro within_intros R_terminal)
qed

lemma within_commit_checkpoint [within_intros]: "within R (commit_checkpoint cd env chain_id expected ev)"
  unfolding commit_checkpoint_def by (auto intro!: within_intros R_checkpoint split: prod.splits)

lemma within_check_chain_healthy [within_intros]: "within R (check_chain_healthy env chain_id)"
  unfolding check_chain_healthy_def by (intro within_intros)

lemma within_clear_halt: "\<not> terminal_conflict L \<Longrightarrow> within_from R L (clear_halt env)"
  using R_clear_halt
  by (auto simp: within_from_def clear_halt_def update_control_def db_call_def Let_def R_refl split: fault.splits)

lemma within_prepare_owned_startup: "within R (prepare_owned_startup env)"
  unfolding prepare_owned_startup_def by (auto intro!: within_intros R_migrate)

lemma within_on_error_down: "within R m \<Longrightarrow> within R (on_error_down m)"
  unfolding within_def [of R "on_error_down m"] on_error_down_def
  by (auto split: prod.splits outcome.splits dest: withinD)

lemma tx_within_halt: "tx_within R (\<lambda>L. Inr ((), halt_control reason L))"
  by (simp add: tx_within_def R_halt)

lemma within_open_journal [within_intros]: "within R (open_journal env namespace)"
  unfolding open_journal_def [abs_def]
  by (rule within_if, rule within_jfail)
     (auto intro!: within_intros within_set within_on_error_down within_prepare_owned_startup)

lemma within_quarantine [within_intros]: "within R (quarantine env)"
  unfolding quarantine_def by (intro within_intros tx_within_halt)

lemma within_reattach [within_intros]: "within R (reattach env namespace)"
  unfolding reattach_def
  by (auto intro!: within_intros tx_within_halt R_reattach split: option.splits)

lemma within_recover_confirm: "\<not> terminal_conflict L \<Longrightarrow> within_from R L (recover_confirm env)"
  unfolding recover_confirm_def
  by (auto intro!: within_from_keep [OF unchanged.within_publish_marker R_refl]
      within_from_keep [OF unchanged.within_observation_or_fail R_refl] within_fromI [OF within_jfail] within_clear_halt)

lemma within_from_jbind:
  "within_from R L m \<Longrightarrow> (\<And>x. within R (f x)) \<Longrightarrow> within_from R L (jbind m f)"
  unfolding within_from_def
proof (intro allI impI)
  fix s :: journal
  assume m: "\<forall>s. js_db s = L \<longrightarrow> R L (js_db (snd (m s)))" and f: "\<And>x. within R (f x)" and s: "js_db s = L"
  obtain r s' where ms: "m s = (r, s')" by (cases "m s")
  have 1: "R L (js_db s')" using m s ms by (metis snd_conv)
  have 2: "R (js_db s') (js_db (snd (f x s')))" for x using f [of x] by (simp add: within_def)
  show "R L (js_db (snd (jbind m f s)))" using ms 1 R_trans [OF 1 2] by (cases r) (simp_all add: jbind_def)
qed

lemma within_from_tx:
  assumes "\<And>x L'. f L = Inr (x, L') \<Longrightarrow> R L L' \<and> within_from R L' (g x)"
  shows "within_from R L (jbind (db_call env f) g)"
  unfolding within_from_def
proof (intro allI impI)
  fix s :: journal assume s: "js_db s = L"
  obtain r s' where m: "db_call env f s = (r, s')" by (cases "db_call env f s")
  have 1: "R L (js_db s')"
    using m s assms by (auto simp: db_call_def Let_def R_refl split: fault.splits sum.splits prod.splits)
  have 2: "within_from R (js_db s') (g x)" if "r = Done x" for x
    using m s assms that by (auto simp: db_call_def Let_def split: fault.splits sum.splits prod.splits)
  show "R L (js_db (snd (jbind (db_call env f) g s)))"
    using m 1 2 R_trans [OF 1] by (cases r) (auto simp: jbind_def within_from_def)
qed

lemma within_recover [within_intros]: "within R (recover env namespace)"
proof -
  have tx: "within_from R L (jbind (db_call env (recover_tx (lg_control L) pending ns run)) (\<lambda>_.
      jbind (recover_confirm env) (\<lambda>_. db_read env status)))"
    if "\<not> terminal_conflict L" for L pending ns run
    by (rule within_from_tx)
       (use that R_recover recover_tx_evidence in \<open>blast intro: within_from_jbind within_recover_confirm within_db_read\<close>)
  show ?thesis
    unfolding recover_def
    apply (rule within_jbind [OF within_of_result])
    apply (simp only: split: if_split, intro conjI impI within_jfail)
    apply (rule within_from_start)
    apply (rule within_from_keep [OF unchanged.within_owner_lock R_refl])
    apply (rule within_from_keep [OF unchanged.within_connection R_refl])
    apply (rule within_from_read [OF R_refl])
    apply (auto simp: bind_result_def control_def R_refl intro!: within_fromI [OF within_jfail]
        within_from_keep [OF unchanged.within_redis_connection] within_from_keep [OF unchanged.within_empty_namespace]
        within_from_keep [OF unchanged.within_observation_or_fail] tx split: sum.splits if_splits)
    done
qed

lemma within_admission_state [within_intros]: "within R (admission_state cd env kind i)"
  unfolding admission_state_def by (intro within_intros)

lemma within_terminal_evidence [within_intros]: "within R (terminal_evidence cd env kind i)"
  unfolding terminal_evidence_def by (intro within_intros)

lemma within_validate_replay_binding [within_intros]: "within R (validate_replay_binding cd env kind i key)"
  unfolding validate_replay_binding_def by (intro within_intros)

lemma within_latest_eoa_attempt [within_intros]: "within R (latest_eoa_attempt cd env i key)"
  unfolding latest_eoa_attempt_def by (intro within_intros)

lemma within_validate_attempt_identity [within_intros]: "within R (validate_attempt_identity cd env kind i ident)"
  unfolding validate_attempt_identity_def by (intro within_intros)

lemma within_load_checkpoint [within_intros]: "within R (load_checkpoint cd env chain_id)"
  unfolding load_checkpoint_def by (intro within_intros)

lemma within_halt_chain [within_intros]: "within R (halt_chain env chain_id)"
  unfolding halt_chain_def by (intro within_intros R_halt_chain)

lemma within_prepare_solana_restore [within_intros]: "within R (prepare_solana_restore cd env i payload)"
  unfolding prepare_solana_restore_def by (intro within_intros R_restore)

lemma within_before_solana_recovery_broadcast [within_intros]:
  "within R (before_solana_recovery_broadcast cd env i payload attempt)"
  unfolding before_solana_recovery_broadcast_def by (intro within_intros R_recovery_broadcast)

lemmas within_operations =
  within_ensure_healthy within_reserve_admission within_admission within_admission_state
  within_terminal_evidence within_validate_admission within_validate_payload
  within_validate_replay_binding within_before_broadcast within_latest_eoa_attempt
  within_validate_attempt_identity within_record_terminal within_check_chain_healthy
  within_load_checkpoint within_commit_checkpoint within_halt_chain within_prepare_solana_restore
  within_before_solana_recovery_broadcast within_open_journal within_quarantine within_reattach
  within_recover

theorem journal_step_within: "journal_step cd s s' \<Longrightarrow> R (js_db s) (js_db s')"
  by (induction rule: journal_step.induct)
     (simp_all add: within_operations [THEN within_apply] close_and_drain_def R_refl)

theorem journal_steps_within: "(journal_step cd)\<^sup>*\<^sup>* s s' \<Longrightarrow> R (js_db s) (js_db s')"
  by (induction rule: rtranclp_induct) (auto intro: R_refl R_trans dest: journal_step_within)

end

end
