(* ===== verification/Recovery_Inv.thy ===== *)
theory Recovery_Inv
  imports Recovery_Order
begin

text \<open>
  The ledger's invariant and the order in which it grows: rows are only added, an admission keeps
  its intent and its replay key, a terminal or quarantined admission stays what it is, halted chains
  stay halted, spent Solana broadcasts stay spent. Both are preserved by every transaction, so that
  \<open>ledger_le\<close> is an instance of \<open>ledger_order\<close>.
\<close>

subsection \<open>Definitions\<close>

definition replay_unique :: "admission_row list \<Rightarrow> bool" where
  "replay_unique as \<longleftrightarrow> distinct (List.map_filter ar_replay_key as)"

definition wf_admissions :: "ledger \<Rightarrow> bool" where
  "wf_admissions L \<longleftrightarrow> distinct (map ar_id (lg_admissions L))
     \<and> (\<forall>a \<in> set (lg_admissions L). ar_state a \<in> {''admitted'', ''terminal'', ''quarantined''})
     \<and> replay_unique (lg_admissions L)"

definition wf_attempts :: "ledger \<Rightarrow> bool" where
  "wf_attempts L \<longleftrightarrow> distinct (map (\<lambda>b. (at_id b, at_digest b)) (lg_attempts L))
     \<and> (\<lambda>b. (at_id b, Some (at_replay_key b))) ` set (lg_attempts L)
          \<subseteq> (\<lambda>a. (ar_id a, ar_replay_key a)) ` set (lg_admissions L)
     \<and> (\<forall>a \<in> set (lg_admissions L). ar_replay_key a \<noteq> None \<longrightarrow> attempts_of L (ar_id a) \<noteq> [])"

definition wf_evidence :: "ledger \<Rightarrow> bool" where
  "wf_evidence L \<longleftrightarrow>
     fst ` set (lg_evidence L) \<subseteq> ar_id ` set (lg_admissions L)
     \<and> (\<forall>a \<in> set (lg_admissions L).
          (ar_state a = ''terminal'') = (evidence_of L (ar_id a) \<noteq> [])
          \<and> (ar_state a = ''terminal'' \<longrightarrow> ar_replay_key a \<noteq> None))"

definition solana_ok :: "ledger \<Rightarrow> string \<Rightarrow> solana_row \<Rightarrow> bool" where
  "solana_ok L i row \<longleftrightarrow> solana_row_ok row
     \<and> (i, ''solana'') \<in> (\<lambda>a. (ar_id a, ar_kind a)) ` set (lg_admissions L)
     \<and> map at_digest (attempts_of L i) = [so_digest row]"

definition wf_solana :: "ledger \<Rightarrow> bool" where
  "wf_solana L \<longleftrightarrow>
     (\<forall>rows. lg_solana L = Some rows \<longrightarrow> distinct (map fst rows) \<and> (\<forall>(i, row) \<in> set rows. solana_ok L i row))"

definition wf_control :: "ledger \<Rightarrow> bool" where
  "wf_control L \<longleftrightarrow>
     (let c = lg_control L in
      ct_schema c \<in> {1, 2, 3} \<and> ct_checkpoint c \<le> i64_max
      \<and> (lg_pending L = None) = (ct_schema c = 1) \<and> (lg_solana L = None) = (ct_schema c < 3)
      \<and> (\<forall>p. lg_pending L = Some (Some p) \<longrightarrow> validate_pending p c = Inr ()))"

definition ledger_wf :: "ledger \<Rightarrow> bool" where
  "ledger_wf L \<longleftrightarrow> wf_admissions L \<and> wf_attempts L \<and> wf_evidence L \<and> wf_solana L \<and> wf_control L"

definition row_le :: "admission_row \<Rightarrow> admission_row \<Rightarrow> bool" where
  "row_le a a' \<longleftrightarrow> ar_id a' = ar_id a \<and> ar_kind a' = ar_kind a \<and> ar_fingerprint a' = ar_fingerprint a
     \<and> ar_payload a' = ar_payload a \<and> (ar_replay_key a \<noteq> None \<longrightarrow> ar_replay_key a' = ar_replay_key a)
     \<and> (ar_state a \<noteq> ''admitted'' \<longrightarrow> ar_state a' = ar_state a)"

definition budget_le :: "solana_row \<Rightarrow> solana_row \<Rightarrow> bool" where
  "budget_le row row' \<longleftrightarrow> row' = row \<or> (so_broadcasts row < so_broadcasts row'
     \<and> (0 < so_last row \<longrightarrow> so_last row + int RECOVERY_BROADCAST_INTERVAL_MS \<le> so_last row'))"

definition solana_le :: "(string \<times> solana_row) list option \<Rightarrow> (string \<times> solana_row) list option \<Rightarrow> bool" where
  "solana_le S S' \<longleftrightarrow> (\<forall>rows i row. S = Some rows \<and> map_of rows i = Some row \<longrightarrow>
     (\<exists>rows' row'. S' = Some rows' \<and> map_of rows' i = Some row' \<and> so_digest row' = so_digest row
        \<and> budget_le row row'))"

definition control_le :: "Control \<Rightarrow> Control \<Rightarrow> bool" where
  "control_le c c' \<longleftrightarrow> ct_deployment c' = ct_deployment c \<and> ct_schema c \<le> ct_schema c'
     \<and> (ct_epoch c < ct_epoch c' \<or> (ct_epoch c' = ct_epoch c \<and> ct_checkpoint c \<le> ct_checkpoint c'
          \<and> ct_namespace c' = ct_namespace c))"

text \<open>What the code relies on: a finality record that was written reads back.\<close>

definition evidence_codec_ok :: "journal_codec \<Rightarrow> bool" where
  "evidence_codec_ok cd \<longleftrightarrow> (\<forall>e t. jc_evidence_to_string cd e = Some t \<longrightarrow> jc_evidence_from_str cd t = Some e)"

text \<open>An accepted checkpoint is only replaced by a later one of the same policy.\<close>

definition checkpoints_le :: "journal_codec \<Rightarrow> ledger \<Rightarrow> ledger \<Rightarrow> bool" where
  "checkpoints_le cd L L' \<longleftrightarrow> evidence_codec_ok cd \<longrightarrow> (\<forall>n e. load_chain_checkpoint cd L n = Inr (Some e) \<longrightarrow>
     (\<exists>e'. load_chain_checkpoint cd L' n = Inr (Some e') \<and> fe_policy e' = fe_policy e
        \<and> (e' = e \<or> fe_checkpoint_number e < fe_checkpoint_number e')))"

definition history_le :: "journal_codec \<Rightarrow> ledger \<Rightarrow> ledger \<Rightarrow> bool" where
  "history_le cd L L' \<longleftrightarrow> prefix (lg_attempts L) (lg_attempts L') \<and> prefix (lg_evidence L) (lg_evidence L')
     \<and> list_all2 row_le (lg_admissions L) (take (length (lg_admissions L)) (lg_admissions L'))
     \<and> prefix (lg_halts L) (lg_halts L') \<and> prefix (lg_events L) (lg_events L')
     \<and> solana_le (lg_solana L) (lg_solana L') \<and> control_le (lg_control L) (lg_control L')
     \<and> checkpoints_le cd L L'"

definition ledger_le :: "journal_codec \<Rightarrow> ledger \<Rightarrow> ledger \<Rightarrow> bool" where
  "ledger_le cd L L' \<longleftrightarrow> (ledger_wf L \<longrightarrow> ledger_wf L' \<and> history_le cd L L')"

subsection \<open>Order\<close>

lemma row_le_refl [simp]: "row_le a a"
  by (simp add: row_le_def)

lemma row_le_trans: "row_le a b \<Longrightarrow> row_le b c \<Longrightarrow> row_le a c"
  by (auto simp: row_le_def)

lemma budget_le_refl [simp]: "budget_le row row"
  by (simp add: budget_le_def)

lemma budget_le_trans: "budget_le a b \<Longrightarrow> budget_le b c \<Longrightarrow> budget_le a c"
  by (auto simp: budget_le_def)

lemma solana_le_refl [simp]: "solana_le S S"
  by (auto simp: solana_le_def)

lemma solana_leD:
  "solana_le (Some rows) S' \<Longrightarrow> map_of rows i = Some row \<Longrightarrow>
     \<exists>rows' row'. S' = Some rows' \<and> map_of rows' i = Some row' \<and> so_digest row' = so_digest row
        \<and> budget_le row row'"
  by (simp add: solana_le_def)

lemma solana_le_trans:
  assumes "solana_le S S'" and "solana_le S' S''"
  shows "solana_le S S''"
  unfolding solana_le_def
proof (intro allI impI, elim conjE)
  fix rows i row assume "S = Some rows" and "map_of rows i = Some row"
  with assms(1) obtain rows' row' where 1: "S' = Some rows'" "map_of rows' i = Some row'"
    "so_digest row' = so_digest row" "budget_le row row'"
    using solana_leD by blast
  with assms(2) obtain rows'' row'' where 2: "S'' = Some rows''" "map_of rows'' i = Some row''"
    "so_digest row'' = so_digest row'" "budget_le row' row''"
    using solana_leD by blast
  from 1 2 show "\<exists>rows' row'. S'' = Some rows' \<and> map_of rows' i = Some row' \<and> so_digest row' = so_digest row
        \<and> budget_le row row'"
    by (intro exI [of _ rows''] exI [of _ row'']) (auto intro: budget_le_trans)
qed

lemma control_le_refl [simp]: "control_le c c"
  by (simp add: control_le_def)

lemma control_le_trans: "control_le a b \<Longrightarrow> control_le b c \<Longrightarrow> control_le a c"
  by (auto simp: control_le_def)

lemma checkpoints_le_refl [simp]: "checkpoints_le cd L L"
  by (simp add: checkpoints_le_def)

lemma checkpoints_leD:
  "checkpoints_le cd L L' \<Longrightarrow> evidence_codec_ok cd \<Longrightarrow> load_chain_checkpoint cd L n = Inr (Some e) \<Longrightarrow>
     \<exists>e'. load_chain_checkpoint cd L' n = Inr (Some e') \<and> fe_policy e' = fe_policy e
        \<and> (e' = e \<or> fe_checkpoint_number e < fe_checkpoint_number e')"
  by (simp add: checkpoints_le_def)

lemma checkpoints_le_trans:
  assumes "checkpoints_le cd a b" and "checkpoints_le cd b c"
  shows "checkpoints_le cd a c"
  unfolding checkpoints_le_def
proof (intro allI impI)
  fix n e assume ok: "evidence_codec_ok cd" and "load_chain_checkpoint cd a n = Inr (Some e)"
  with assms(1) obtain e1 where 1: "load_chain_checkpoint cd b n = Inr (Some e1)" "fe_policy e1 = fe_policy e"
    "e1 = e \<or> fe_checkpoint_number e < fe_checkpoint_number e1"
    using checkpoints_leD [OF _ ok] by blast
  with assms(2) obtain e2 where "load_chain_checkpoint cd c n = Inr (Some e2)" "fe_policy e2 = fe_policy e1"
    "e2 = e1 \<or> fe_checkpoint_number e1 < fe_checkpoint_number e2"
    using checkpoints_leD [OF _ ok] by blast
  with 1 show "\<exists>e'. load_chain_checkpoint cd c n = Inr (Some e') \<and> fe_policy e' = fe_policy e
        \<and> (e' = e \<or> fe_checkpoint_number e < fe_checkpoint_number e')"
    by (intro exI [of _ e2]) auto
qed

lemma checkpoints_le_same: "lg_checkpoints L' = lg_checkpoints L \<Longrightarrow> checkpoints_le cd L L'"
  by (simp add: checkpoints_le_def load_chain_checkpoint_def)

lemma rows_le_refl: "list_all2 row_le xs (take (length xs) xs)"
  by (simp add: list_all2_same)

lemma rows_le_trans:
  assumes "list_all2 row_le xs (take (length xs) ys)" and "list_all2 row_le ys (take (length ys) zs)"
  shows "list_all2 row_le xs (take (length xs) zs)"
proof -
  have len: "length xs \<le> length ys" using list_all2_lengthD [OF assms(1)] by simp
  have "list_all2 row_le (take (length xs) ys) (take (length xs) (take (length ys) zs))"
    using assms(2) by (rule list_all2_takeI)
  moreover have "take (length xs) (take (length ys) zs) = take (length xs) zs" using len by (simp add: min_absorb1)
  ultimately have "list_all2 row_le (take (length xs) ys) (take (length xs) zs)" by simp
  then show ?thesis
    using list_all2_trans [of row_le row_le row_le xs "take (length xs) ys"] row_le_trans assms(1) by blast
qed

lemma history_le_refl [simp]: "history_le cd L L"
  by (simp add: history_le_def rows_le_refl del: take_all)

lemma history_le_trans: "history_le cd a b \<Longrightarrow> history_le cd b c \<Longrightarrow> history_le cd a c"
  unfolding history_le_def
  by (elim conjE, intro conjI; (rule prefix_order.trans | rule rows_le_trans | rule solana_le_trans
      | rule control_le_trans | rule checkpoints_le_trans); assumption)

lemma ledger_le_refl [simp]: "ledger_le cd L L"
  by (simp add: ledger_le_def)

lemma ledger_le_trans: "ledger_le cd a b \<Longrightarrow> ledger_le cd b c \<Longrightarrow> ledger_le cd a c"
  unfolding ledger_le_def using history_le_trans by blast

end
