(* ===== verification/Recovery_Tx.thy ===== *)
theory Recovery_Tx
  imports Recovery_Inv
begin

text \<open>
  Every transaction of the journal keeps the ledger's invariant and moves it up in the order.
\<close>

subsection \<open>Reading\<close>

lemma ok_or_Inr: "ok_or e x = Inr y \<longleftrightarrow> x = Some y"
  by (cases x) (auto simp: ok_or_def)

lemma find_admission_Some: "find_admission L i = Some a \<Longrightarrow> a \<in> set (lg_admissions L) \<and> ar_id a = i"
  by (metis (mono_tags, lifting) find_Some_iff find_admission_def nth_mem)

lemma find_admission_None: "find_admission L i = None \<longleftrightarrow> i \<notin> ar_id ` set (lg_admissions L)"
  by (auto simp: find_admission_def find_None_iff)

lemma admission_unique:
  "wf_admissions L \<Longrightarrow> a \<in> set (lg_admissions L) \<Longrightarrow> b \<in> set (lg_admissions L) \<Longrightarrow> ar_id a = ar_id b \<Longrightarrow> a = b"
  unfolding wf_admissions_def by (meson inj_on_def distinct_map)

lemma lookup_Some:
  assumes "lookup cd L i = Inr (Some x)"
  obtains a where "find_admission L i = Some a" "a \<in> set (lg_admissions L)" "ar_id a = i" "rec_id x = i"
    "rec_kind x = ar_kind a" "rec_fingerprint x = ar_fingerprint a" "rec_replay_key x = ar_replay_key a"
    "parse_state (ar_state a) = Inr (rec_state x)" "jc_from_str cd (ar_payload a) = Some (rec_payload x)"
  using assms find_admission_Some [of L i]
  by (cases "find_admission L i") (auto simp: lookup_def bind_result_Inr ok_or_Inr)

lemma lookup_None: "lookup cd L i = Inr None \<longleftrightarrow> find_admission L i = None"
  by (auto simp: lookup_def bind_result_Inr split: option.splits)

lemma parse_state_Inr:
  "parse_state t = Inr st \<longleftrightarrow> t = (case st of Admitted \<Rightarrow> ''admitted'' | Terminal \<Rightarrow> ''terminal'' | Quarantined \<Rightarrow> ''quarantined'')"
  by (auto simp: parse_state_def split: AdmissionState.splits)

lemma replay_uniqueD:
  assumes "replay_unique as" and "a \<in> set as" and "b \<in> set as"
    and "ar_replay_key a = Some k" and "ar_replay_key b = Some k"
  shows "a = b"
proof -
  have "inj_on ar_replay_key (set (filter (\<lambda>a. ar_replay_key a \<noteq> None) as))"
    using assms(1) by (auto simp: replay_unique_def map_filter_def distinct_map inj_on_def)
  then show ?thesis by (rule inj_onD) (use assms(2-5) in auto)
qed

lemma map_filter_append [simp]: "List.map_filter f (xs @ ys) = List.map_filter f xs @ List.map_filter f ys"
  by (induction xs) (auto split: option.splits)

lemma map_filter_cong_map:
  "(\<And>a. a \<in> set xs \<Longrightarrow> f (g a) = f a) \<Longrightarrow> List.map_filter f (map g xs) = List.map_filter f xs"
  by (induction xs) (auto split: option.splits)

lemma set_map_filter [simp]: "k \<in> set (List.map_filter f xs) \<longleftrightarrow> (\<exists>x \<in> set xs. f x = Some k)"
  by (induction xs) (auto split: option.splits)

lemma replay_unique_append [simp]:
  "replay_unique (as @ bs) \<longleftrightarrow> replay_unique as \<and> replay_unique bs
     \<and> set (List.map_filter ar_replay_key as) \<inter> set (List.map_filter ar_replay_key bs) = {}"
  by (auto simp: replay_unique_def)

lemma wf_admissions_map:
  assumes "wf_admissions L" and rows: "lg_admissions L' = map f (lg_admissions L)"
    and f: "\<And>a. a \<in> set (lg_admissions L) \<Longrightarrow> ar_id (f a) = ar_id a \<and> ar_replay_key (f a) = ar_replay_key a
              \<and> ar_state (f a) \<in> {''admitted'', ''terminal'', ''quarantined''}"
  shows "wf_admissions L'"
proof -
  have ids: "map ar_id (map f (lg_admissions L)) = map ar_id (lg_admissions L)" using f by simp
  have "List.map_filter ar_replay_key (map f (lg_admissions L)) = List.map_filter ar_replay_key (lg_admissions L)"
    using f by (intro map_filter_cong_map) simp
  then show ?thesis using assms(1) f unfolding wf_admissions_def replay_unique_def rows ids by simp
qed

lemma wf_children_map:
  assumes rows: "lg_admissions L' = map f (lg_admissions L)"
    and same: "lg_attempts L' = lg_attempts L" "lg_evidence L' = lg_evidence L" "lg_solana L' = lg_solana L"
    and f: "\<And>a. a \<in> set (lg_admissions L) \<Longrightarrow> ar_id (f a) = ar_id a \<and> ar_kind (f a) = ar_kind a
              \<and> ar_replay_key (f a) = ar_replay_key a \<and> (ar_state (f a) = ''terminal'') = (ar_state a = ''terminal'')"
  shows "wf_attempts L \<Longrightarrow> wf_attempts L'" and "wf_evidence L \<Longrightarrow> wf_evidence L'" and "wf_solana L \<Longrightarrow> wf_solana L'"
proof -
  have of: "attempts_of L' i = attempts_of L i" "evidence_of L' i = evidence_of L i" for i
    by (simp_all add: attempts_of_def evidence_of_def same)
  have img: "(\<lambda>a. g (ar_id a) (ar_kind a) (ar_replay_key a)) ` set (lg_admissions L')
      = (\<lambda>a. g (ar_id a) (ar_kind a) (ar_replay_key a)) ` set (lg_admissions L)"
    for g :: "string \<Rightarrow> string \<Rightarrow> string option \<Rightarrow> 'a"
    using f by (simp add: rows image_image)
  have all: "(\<forall>a \<in> set (lg_admissions L'). P (ar_id a) (ar_replay_key a) (ar_state a = ''terminal''))
      \<longleftrightarrow> (\<forall>a \<in> set (lg_admissions L). P (ar_id a) (ar_replay_key a) (ar_state a = ''terminal''))" for P
    using f by (simp add: rows)
  show "wf_attempts L \<Longrightarrow> wf_attempts L'"
    using img [of "\<lambda>i _ k. (i, k)"] unfolding wf_attempts_def of same
      all [of "\<lambda>i k _. k \<noteq> None \<longrightarrow> attempts_of L i \<noteq> []"] by simp
  show "wf_evidence L \<Longrightarrow> wf_evidence L'"
    using img [of "\<lambda>i _ _. i"] unfolding wf_evidence_def of same
      all [of "\<lambda>i k t. t = (evidence_of L i \<noteq> []) \<and> (t \<longrightarrow> k \<noteq> None)"] by simp
  show "wf_solana L \<Longrightarrow> wf_solana L'"
    using img [of "\<lambda>i k _. (i, k)"] unfolding wf_solana_def solana_ok_def of same by simp
qed

lemma wf_solana_iff:
  "wf_solana L \<longleftrightarrow> (\<forall>rows. lg_solana L = Some rows \<longrightarrow> distinct (map fst rows)
     \<and> (\<forall>i row. (i, row) \<in> set rows \<longrightarrow> solana_ok L i row))"
  by (auto simp: wf_solana_def)

lemma wf_solana_mono:
  assumes "wf_solana L" and "lg_solana L' = lg_solana L"
    and "(\<lambda>a. (ar_id a, ar_kind a)) ` set (lg_admissions L) \<subseteq> (\<lambda>a. (ar_id a, ar_kind a)) ` set (lg_admissions L')"
    and "\<And>rows i row. lg_solana L = Some rows \<Longrightarrow> (i, row) \<in> set rows \<Longrightarrow> attempts_of L' i = attempts_of L i"
  shows "wf_solana L'"
proof -
  have "solana_ok L' i row" if "lg_solana L = Some rows" "(i, row) \<in> set rows" "solana_ok L i row" for rows i row
    using assms(3) assms(4) [OF that(1,2)] that(3) by (auto simp: solana_ok_def)
  then show ?thesis using assms(1,2) unfolding wf_solana_iff by simp
qed

lemma set_update_admission [simp]:
  "set (lg_admissions (update_admission i f L)) = (\<lambda>a. if ar_id a = i then f a else a) ` set (lg_admissions L)"
  by (simp add: update_admission_def)

subsection \<open>The control row\<close>

lemma control_Inr: "control L = Inr c \<longleftrightarrow> c = lg_control L \<and> ct_schema c \<in> {1, 2, 3}"
  by (auto simp: control_def SCHEMA_def)

lemma record_pending_Inr:
  "record_pending L previous target = Inr L' \<longleftrightarrow>
     validate_pending (between previous target) target = Inr () \<and> lg_pending L = Some None
     \<and> L' = L\<lparr>lg_pending := Some (Some (between previous target))\<rparr>"
  by (auto simp: record_pending_def bind_result_Inr Let_def)

lemma advance_Inr:
  assumes "advance L = Inr (old, L')"
  shows "old = lg_control L" and "ct_checkpoint old \<noteq> i64_max" and "lg_pending L = Some None"
    and "validate_pending (between old (old\<lparr>ct_checkpoint := ct_checkpoint old + 1\<rparr>))
           (old\<lparr>ct_checkpoint := ct_checkpoint old + 1\<rparr>) = Inr ()"
    and "L' = L\<lparr>lg_control := old\<lparr>ct_checkpoint := ct_checkpoint old + 1\<rparr>,
             lg_pending := Some (Some (between old (old\<lparr>ct_checkpoint := ct_checkpoint old + 1\<rparr>)))\<rparr>"
  using assms
  by (auto simp: advance_def bind_result_Inr control_Inr record_pending_Inr Let_def split: if_splits)

lemma wf_rows_cong:
  assumes "lg_admissions L' = lg_admissions L" and "lg_attempts L' = lg_attempts L"
    and "lg_evidence L' = lg_evidence L" and "lg_solana L' = lg_solana L"
  shows "wf_admissions L' = wf_admissions L" and "wf_attempts L' = wf_attempts L"
    and "wf_evidence L' = wf_evidence L" and "wf_solana L' = wf_solana L"
  using assms
  by (simp_all add: wf_admissions_def wf_attempts_def wf_evidence_def wf_solana_def solana_ok_def attempts_of_def evidence_of_def)

text \<open>A transaction that only touches the control row, the outstanding publication and the events.\<close>

lemma ledger_le_control:
  assumes "lg_admissions L' = lg_admissions L" and "lg_attempts L' = lg_attempts L"
    and "lg_evidence L' = lg_evidence L" and "lg_solana L' = lg_solana L"
    and "lg_halts L' = lg_halts L" and "lg_checkpoints L' = lg_checkpoints L"
    and "prefix (lg_events L) (lg_events L')"
    and "wf_control L \<Longrightarrow> wf_control L' \<and> control_le (lg_control L) (lg_control L')"
  shows "ledger_le cd L L'"
  using assms wf_rows_cong [OF assms(1-4)] checkpoints_le_same [OF assms(6)] rows_le_refl [of "lg_admissions L"]
  by (simp add: ledger_le_def ledger_wf_def history_le_def)

lemma advance_le:
  assumes "advance L = Inr (old, L')"
  shows "ledger_le cd L L'"
proof -
  note a = advance_Inr [OF assms]
  show ?thesis
    by (rule ledger_le_control)
       (use a(2-4) in \<open>auto simp: a(5) a(1) wf_control_def control_le_def Let_def\<close>)
qed

lemma advanced_le:
  assumes "advanced x M = Inr (y, L')" and "ledger_le cd L M"
  shows "ledger_le cd L L'"
  using assms advance_le ledger_le_trans by (force simp: advanced_def bind_result_Inr)

lemma halt_le: "ledger_le cd L (halt_control reason L)"
  by (rule ledger_le_control)
     (auto simp: halt_control_def wf_control_def control_le_def Let_def validate_pending_def token_def control_key_def)

lemma acknowledge_Inr:
  assumes "acknowledge p L = Inr (u, L')"
  shows "lg_pending L = Some (Some p)" and "L' = L\<lparr>lg_pending := Some None\<rparr>" and "\<not> ct_halted (lg_control L)"
  using assms
  by (auto simp: acknowledge_def bind_result_Inr control_Inr remove_exact_def split: if_splits)

lemma acknowledge_le: "tx_within (ledger_le cd) (acknowledge p)"
  unfolding tx_within_def
proof (intro allI impI)
  fix L x L' assume "acknowledge p L = Inr (x, L')"
  note a = acknowledge_Inr [OF this]
  show "ledger_le cd L L'"
    by (rule ledger_le_control) (use a(1) in \<open>auto simp: a(2) wf_control_def Let_def\<close>)
qed

lemma clear_halt_le: "ledger_le cd L (L\<lparr>lg_control := (lg_control L)\<lparr>ct_halted := False, ct_reason := None\<rparr>\<rparr>)"
  by (rule ledger_le_control)
     (auto simp: wf_control_def control_le_def Let_def validate_pending_def token_def control_key_def)

subsection \<open>Start and offline commands\<close>

lemma reattach_le: "tx_within (ledger_le cd) (reattach_tx c pending run)"
  unfolding tx_within_def
proof (intro allI impI)
  fix L x L' assume "reattach_tx c pending run L = Inr (x, L')"
  then obtain L1 where c: "c = lg_control L" "ct_schema c \<in> {1, 2, 3}" "load L c = Inr pending"
    and L1: "(case pending of None \<Rightarrow> Inr L | Some p \<Rightarrow> remove_exact L p) = Inr L1"
    and L': "L' = L1\<lparr>lg_control := (lg_control L1)\<lparr>ct_run_id := run, ct_halted := False, ct_reason := None\<rparr>,
           lg_events := lg_events L1 @ [JObject [(''action'', JString ''reattach''),
             (''previous_run_id'', JString (ct_run_id c)), (''run_id'', JString run),
             (''acknowledged_pending'', json_pending pending)]]\<rparr>"
    by (auto simp: reattach_tx_def bind_result_Inr control_Inr split: if_splits)
  have L1': "L1 = L\<lparr>lg_pending := (if ct_schema c = 1 then lg_pending L else Some None)\<rparr> \<and> (ct_schema c \<noteq> 1 \<longrightarrow> lg_pending L \<noteq> None)"
    using L1 c(3) by (auto simp: load_def bind_result_Inr ok_or_Inr remove_exact_def split: option.splits if_splits)
  show "ledger_le cd L L'"
    by (rule ledger_le_control) (use L1' c in \<open>auto simp: L' wf_control_def control_le_def Let_def\<close>)
qed

lemma migrate_le: "tx_within (ledger_le cd) migrate"
  unfolding tx_within_def
proof (intro allI impI)
  fix L x L' assume m: "migrate L = Inr (x, L')"
  let ?new = "(lg_control L)\<lparr>ct_schema := SCHEMA\<rparr>"
  show "ledger_le cd L L'"
  proof (cases "ct_schema (lg_control L) = SCHEMA")
    case True
    then show ?thesis using m by (auto simp: migrate_def bind_result_Inr control_Inr)
  next
    case False
    with m have ok: "validate_pending (between (lg_control L) ?new) ?new = Inr ()"
      and sol: "lg_solana L = None"
      and L': "L' = L\<lparr>lg_pending := Some (Some (between (lg_control L) ?new)), lg_solana := Some [], lg_control := ?new\<rparr>"
      by (auto simp: migrate_def bind_result_Inr control_Inr record_pending_Inr Let_def split: if_splits)
    show ?thesis unfolding ledger_le_def
    proof
      assume wf: "ledger_wf L"
      have rows: "wf_admissions L' = wf_admissions L" "wf_attempts L' = wf_attempts L" "wf_evidence L' = wf_evidence L"
        by (simp_all add: L' wf_admissions_def wf_attempts_def wf_evidence_def attempts_of_def evidence_of_def)
      have "wf_solana L'" by (simp add: L' wf_solana_def)
      moreover have "wf_control L'" using wf ok by (auto simp: L' ledger_wf_def wf_control_def Let_def SCHEMA_def)
      ultimately have "ledger_wf L'" using wf rows by (simp add: ledger_wf_def)
      moreover have "history_le cd L L'"
        using wf sol rows_le_refl [of "lg_admissions L"] checkpoints_le_same [of L' L cd]
        by (auto simp: L' history_le_def control_le_def solana_le_def ledger_wf_def wf_control_def Let_def SCHEMA_def)
      ultimately show "ledger_wf L' \<and> history_le cd L L'" ..
    qed
  qed
qed

lemma list_all2_map_row:
  "(\<And>a. a \<in> set xs \<Longrightarrow> row_le a (f a)) \<Longrightarrow> list_all2 row_le xs (take (length xs) (map f xs))"
  by (simp add: list_all2_conv_all_nth)

lemma quarantine_sent_le: "ledger_le cd L (quarantine_sent L)"
proof -
  define f :: "admission_row \<Rightarrow> admission_row" where "f = (\<lambda>a. if ar_state a \<noteq> ''terminal'' \<and> attempts_of L (ar_id a) \<noteq> [] then a\<lparr>ar_state := ''quarantined''\<rparr> else a)"
  have M: "quarantine_sent L = L\<lparr>lg_admissions := map f (lg_admissions L)\<rparr>"
    by (simp add: quarantine_sent_def f_def)
  have f: "ar_id (f a) = ar_id a \<and> ar_kind (f a) = ar_kind a \<and> ar_replay_key (f a) = ar_replay_key a
      \<and> (ar_state (f a) = ''terminal'') = (ar_state a = ''terminal'')" for a by (simp add: f_def)
  show ?thesis unfolding ledger_le_def M
  proof
    let ?M = "L\<lparr>lg_admissions := map f (lg_admissions L)\<rparr>"
    assume wf: "ledger_wf L"
    have st: "ar_state a \<in> {''admitted'', ''terminal'', ''quarantined''}" if "a \<in> set (lg_admissions L)" for a
      using wf that by (simp add: ledger_wf_def wf_admissions_def)
    have st': "ar_state (f a) \<in> {''admitted'', ''terminal'', ''quarantined''}" if "a \<in> set (lg_admissions L)" for a
      using st [OF that] by (simp add: f_def)
    have rl: "row_le a (f a)" if "a \<in> set (lg_admissions L)" for a
      using st [OF that] by (auto simp: f_def row_le_def)
    have "wf_admissions ?M" using wf f st' by (intro wf_admissions_map [of L ?M f]) (simp_all add: ledger_wf_def)
    moreover have "wf_attempts ?M" "wf_evidence ?M" "wf_solana ?M"
      using wf f wf_children_map [of ?M f L] by (simp_all add: ledger_wf_def)
    moreover have "wf_control ?M" using wf by (simp add: ledger_wf_def wf_control_def)
    moreover have "history_le cd L ?M"
      using list_all2_map_row [of "lg_admissions L" f] rl checkpoints_le_same [of ?M L cd] by (simp add: history_le_def)
    ultimately show "ledger_wf ?M \<and> history_le cd L ?M" by (simp add: ledger_wf_def)
  qed
qed

lemma recover_schema_le:
  assumes "recover_schema schema L = Inr L1" and "schema = ct_schema (lg_control L)"
  shows "ledger_le cd L L1" and "lg_pending L1 = Some None" and "ct_schema (lg_control L1) = SCHEMA"
    and "lg_solana L1 \<noteq> None" and "lg_control L1 = (lg_control L)\<lparr>ct_schema := SCHEMA\<rparr>"
proof -
  let ?sol = "if ct_schema (lg_control L) < 3 then Some [] else lg_solana L"
  have L1: "L1 = L\<lparr>lg_pending := Some None, lg_solana := ?sol, lg_control := (lg_control L)\<lparr>ct_schema := SCHEMA\<rparr>\<rparr>"
    and sol: "ct_schema (lg_control L) < 3 \<Longrightarrow> lg_solana L = None" "ct_schema (lg_control L) \<ge> 3 \<Longrightarrow> lg_solana L \<noteq> None"
    using assms by (auto simp: recover_schema_def bind_result_Inr validate_schema_def ok_or_Inr control_Inr SCHEMA_def
        split: if_splits)
  show "lg_pending L1 = Some None" "ct_schema (lg_control L1) = SCHEMA" "lg_control L1 = (lg_control L)\<lparr>ct_schema := SCHEMA\<rparr>"
    by (simp_all add: L1)
  show "lg_solana L1 \<noteq> None" using sol by (simp add: L1)
  show "ledger_le cd L L1" unfolding ledger_le_def
  proof
    assume wf: "ledger_wf L"
    have rows: "wf_admissions L1 = wf_admissions L" "wf_attempts L1 = wf_attempts L" "wf_evidence L1 = wf_evidence L"
      by (simp_all add: L1 wf_admissions_def wf_attempts_def wf_evidence_def attempts_of_def evidence_of_def)
    have "wf_solana L1" using wf by (simp add: L1 ledger_wf_def wf_solana_def solana_ok_def attempts_of_def)
    moreover have "wf_control L1" using wf sol by (auto simp: L1 ledger_wf_def wf_control_def Let_def SCHEMA_def)
    ultimately have "ledger_wf L1" using wf rows by (simp add: ledger_wf_def)
    moreover have "solana_le (lg_solana L) (lg_solana L1)" using sol by (auto simp: L1 solana_le_def)
    then have "history_le cd L L1"
      using wf rows_le_refl [of "lg_admissions L"] checkpoints_le_same [of L1 L cd]
      by (auto simp: L1 history_le_def control_le_def ledger_wf_def wf_control_def Let_def SCHEMA_def)
    ultimately show "ledger_wf L1 \<and> history_le cd L L1" ..
  qed
qed

text \<open>The control row that the recovery read is the one it replaces.\<close>

lemma recover_tx_le:
  assumes "recover_tx old discarded namespace run L = Inr (x, L')" and "ct_schema old = ct_schema (lg_control L)"
  shows "ledger_le cd L L'"
proof -
  from assms(1) obtain L1 where L1: "recover_schema (ct_schema old) L = Inr L1"
    and L': "L' = (quarantine_sent L1)\<lparr>lg_control := (lg_control L1)\<lparr>ct_namespace := namespace,
             ct_epoch := ct_epoch (lg_control L1) + 1, ct_checkpoint := 0, ct_run_id := run,
             ct_halted := True, ct_reason := Some ''recovery incomplete''\<rparr>,
           lg_events := lg_events L1 @ [JObject [(''action'', JString ''recover''),
             (''previous_namespace'', json_opt (ct_namespace old)), (''new_namespace'', json_opt namespace),
             (''previous_epoch'', JInt (int (ct_epoch old))), (''discarded_pending'', json_pending discarded)]]\<rparr>"
    by (auto simp: recover_tx_def bind_result_Inr Let_def quarantine_sent_def)
  note s = recover_schema_le [OF L1 assms(2)]
  have "ledger_le cd (quarantine_sent L1) L'"
    by (rule ledger_le_control)
       (use s(2-4) in \<open>auto simp: L' quarantine_sent_def wf_control_def control_le_def Let_def SCHEMA_def\<close>)
  then show ?thesis using s(1) quarantine_sent_le ledger_le_trans by blast
qed

subsection \<open>Admissions, attempts and evidence\<close>

lemma attempts_of_append [simp]:
  "attempts_of (L\<lparr>lg_attempts := lg_attempts L @ [b], lg_admissions := as\<rparr>) i = attempts_of L i @ (if at_id b = i then [b] else [])"
  by (simp add: attempts_of_def)

lemma evidence_of_append:
  "lg_evidence L' = lg_evidence L @ [(j, e)] \<Longrightarrow> evidence_of L' i = evidence_of L i @ (if j = i then [e] else [])"
  by (simp add: evidence_of_def)

lemma evidence_of_Nil: "evidence_of L i = [] \<longleftrightarrow> i \<notin> fst ` set (lg_evidence L)"
  by (force simp: evidence_of_def filter_empty_conv)

lemma attempts_of_cong: "lg_attempts L' = lg_attempts L \<Longrightarrow> attempts_of L' i = attempts_of L i"
  by (simp add: attempts_of_def)

lemma evidence_of_cong: "lg_evidence L' = lg_evidence L \<Longrightarrow> evidence_of L' i = evidence_of L i"
  by (simp add: evidence_of_def)

lemma insert_admission_le:
  assumes "insert_admission a L = Inr M" and "ar_replay_key a = None" and "ar_state a = ''admitted''"
  shows "ledger_le cd L M"
  unfolding ledger_le_def
proof
  assume wf: "ledger_wf L"
  have new: "ar_id a \<notin> ar_id ` set (lg_admissions L)" and M: "M = L\<lparr>lg_admissions := lg_admissions L @ [a]\<rparr>"
    using assms(1) by (auto simp: insert_admission_def find_admission_None split: if_splits)
  have of: "attempts_of M i = attempts_of L i" "evidence_of M i = evidence_of L i" for i
    by (simp_all add: M attempts_of_def evidence_of_def)
  have "replay_unique (lg_admissions L @ [a]) = replay_unique (lg_admissions L)"
    using assms(2) by (simp add: replay_unique_def)
  then have "wf_admissions M" using wf new assms(3) by (auto simp: M ledger_wf_def wf_admissions_def)
  moreover have "wf_attempts M" using wf assms(2) unfolding ledger_wf_def wf_attempts_def of by (auto simp: M)
  moreover have "evidence_of L (ar_id a) = []"
    using wf new by (auto simp: ledger_wf_def wf_evidence_def evidence_of_Nil)
  then have "wf_evidence M" using wf assms(3) unfolding ledger_wf_def wf_evidence_def of by (auto simp: M)
  moreover have "wf_solana L" using wf by (simp add: ledger_wf_def)
  then have "wf_solana M" by (rule wf_solana_mono) (auto simp: M attempts_of_def)
  moreover have "wf_control M" using wf by (simp add: ledger_wf_def M wf_control_def)
  moreover have "history_le cd L M"
    using rows_le_refl [of "lg_admissions L"] checkpoints_le_same [of M L cd] by (simp add: M history_le_def)
  ultimately show "ledger_wf M \<and> history_le cd L M" by (simp add: ledger_wf_def)
qed

lemma reserve_le: "tx_within (ledger_le cd) (reserve_tx cd kind i fingerprint payload encoded)"
  unfolding tx_within_def
  by (auto simp: reserve_tx_def bind_result_Inr split: option.splits if_splits
      elim!: advanced_le insert_admission_le)

end
