(* ===== verification/Recovery_Rows.thy ===== *)
theory Recovery_Rows
  imports Recovery_Tx
begin

text \<open>
  The transactions that bind a replay key, record an attempt, settle an admission, spend a Solana
  broadcast or move a finality checkpoint, and the instance of \<open>ledger_order\<close> they complete.
\<close>

subsection \<open>One row\<close>

lemma map_other: "i \<notin> ar_id ` set xs \<Longrightarrow> map (\<lambda>b. if ar_id b = i then f b else b) xs = xs"
  by (induction xs) auto

lemma split_admission:
  assumes "wf_admissions L" and "a \<in> set (lg_admissions L)"
  obtains xs ys where "lg_admissions L = xs @ a # ys"
    and "\<And>f. lg_admissions (update_admission (ar_id a) f L) = xs @ f a # ys"
proof -
  obtain xs ys where l: "lg_admissions L = xs @ a # ys" using assms(2) by (meson split_list)
  then have "ar_id a \<notin> ar_id ` set xs" "ar_id a \<notin> ar_id ` set ys"
    using assms(1) by (auto simp: wf_admissions_def)
  then show ?thesis using that [OF l] l by (simp add: update_admission_def map_other)
qed

lemma rows_le_update:
  assumes "row_le a a'"
  shows "list_all2 row_le (xs @ a # ys) (take (length (xs @ a # ys)) (xs @ a' # ys))"
  using assms by (simp add: list_all2_append list_all2_same)

lemma find_attempt_None:
  "find_attempt L i digest = None \<longleftrightarrow> (i, digest) \<notin> (\<lambda>b. (at_id b, at_digest b)) ` set (lg_attempts L)"
  by (auto simp: find_attempt_def find_None_iff)

subsection \<open>Attempts\<close>

lemma record_new_attempt_le:
  assumes wf: "ledger_wf L" and a: "a \<in> set (lg_admissions L)" and st: "ar_state a = ''admitted''"
    and key: "ar_replay_key a = None \<or> ar_replay_key a = Some k"
    and owner: "\<forall>b \<in> set (lg_admissions L). ar_replay_key b = Some k \<longrightarrow> ar_id b = ar_id a"
    and new: "find_attempt L (ar_id a) digest = None"
    and sol: "\<forall>rows. lg_solana L = Some rows \<longrightarrow> ar_id a \<notin> fst ` set rows"
    and M: "M = (update_admission (ar_id a) (ar_replay_key_update (\<lambda>_. Some k)) L)
      \<lparr>lg_attempts := lg_attempts L @ [\<lparr>at_id = ar_id a, at_replay_key = k, at_digest = digest, at_payload = t\<rparr>]\<rparr>"
  shows "ledger_wf M \<and> history_le cd L M"
proof -
  let ?b = "\<lparr>at_id = ar_id a, at_replay_key = k, at_digest = digest, at_payload = t\<rparr>"
  let ?a = "a\<lparr>ar_replay_key := Some k\<rparr>"
  have wfa: "wf_admissions L" and wft: "wf_attempts L" and wfe: "wf_evidence L" and wfs: "wf_solana L"
    and wfc: "wf_control L" using wf by (simp_all add: ledger_wf_def)
  obtain xs ys where l: "lg_admissions L = xs @ a # ys" and l': "lg_admissions M = xs @ ?a # ys"
    using split_admission [OF wfa a] unfolding M by (metis (no_types, lifting) ledger.ext_inject ledger.surjective ledger.update_convs(3))
  have at: "lg_attempts M = lg_attempts L @ [?b]" and ev: "lg_evidence M = lg_evidence L"
    and so: "lg_solana M = lg_solana L" and ct: "lg_control M = lg_control L" and pe: "lg_pending M = lg_pending L"
    and cp: "lg_checkpoints M = lg_checkpoints L" and ha: "lg_halts M = lg_halts L" and eve: "lg_events M = lg_events L"
    by (simp_all add: M update_admission_def)
  have of: "attempts_of M i = attempts_of L i @ (if ar_id a = i then [?b] else [])" for i
    by (simp add: attempts_of_def at)
  have eo: "evidence_of M i = evidence_of L i" for i by (simp add: evidence_of_def ev)
  have others: "Some k \<notin> ar_replay_key ` set xs" "Some k \<notin> ar_replay_key ` set ys"
  proof -
    have ids: "ar_id a \<notin> ar_id ` set xs" "ar_id a \<notin> ar_id ` set ys" using wfa by (auto simp: l wf_admissions_def)
    have "ar_id b = ar_id a" if "b \<in> set xs \<union> set ys" "ar_replay_key b = Some k" for b using owner that by (auto simp: l)
    with ids show "Some k \<notin> ar_replay_key ` set xs" "Some k \<notin> ar_replay_key ` set ys"
      by (metis (no_types, lifting) UnI1 UnI2 imageE imageI)+
  qed
  have "replay_unique (lg_admissions M)"
  proof -
    have "k \<notin> set (List.map_filter ar_replay_key xs)" "k \<notin> set (List.map_filter ar_replay_key ys)"
      using others by (auto simp: image_iff)
    then show ?thesis using wfa key unfolding wf_admissions_def replay_unique_def l l'
      by (auto split: option.splits simp del: set_map_filter)
  qed
  then have "wf_admissions M" using wfa st by (simp add: wf_admissions_def l l')
  moreover have "wf_attempts M"
  proof -
    let ?A = "\<lambda>as. (\<lambda>a. (ar_id a, ar_replay_key a)) ` set as"
    let ?B = "\<lambda>b. (at_id b, Some (at_replay_key b))"
    have sub: "?B ` set (lg_attempts L) \<subseteq> ?A (lg_admissions L)" using wft by (simp add: wf_attempts_def)
    have "?B ` set (lg_attempts L) \<subseteq> ?A (lg_admissions M)"
    proof
      fix p assume p: "p \<in> ?B ` set (lg_attempts L)"
      then have "p \<in> ?A (lg_admissions L)" using sub by blast
      then consider "p \<in> ?A xs" | "p \<in> ?A ys" | "p = (ar_id a, ar_replay_key a)" by (auto simp: l)
      then show "p \<in> ?A (lg_admissions M)"
      proof cases
        case 3
        then have "ar_replay_key a = Some k" using p key by auto
        then show ?thesis using 3 by (simp add: l')
      qed (auto simp: l')
    qed
    moreover have "?B ?b \<in> ?A (lg_admissions M)" by (simp add: l')
    ultimately have 1: "?B ` set (lg_attempts M) \<subseteq> ?A (lg_admissions M)" by (simp add: at)
    have 2: "distinct (map (\<lambda>b. (at_id b, at_digest b)) (lg_attempts M))"
      using wft new by (simp add: at wf_attempts_def find_attempt_None)
    have 3: "\<forall>c \<in> set (lg_admissions L). ar_replay_key c \<noteq> None \<longrightarrow> attempts_of L (ar_id c) \<noteq> []"
      using wft by (simp add: wf_attempts_def)
    have "\<forall>c \<in> set (lg_admissions M). ar_replay_key c \<noteq> None \<longrightarrow> attempts_of M (ar_id c) \<noteq> []"
      using 3 unfolding of l l' by simp
    with 1 2 show ?thesis by (simp add: wf_attempts_def)
  qed
  moreover have "wf_evidence M"
    using wfe st unfolding wf_evidence_def eo ev l l' by simp
  moreover have "wf_solana M"
    using wfs so
  proof (rule wf_solana_mono)
    show "(\<lambda>a. (ar_id a, ar_kind a)) ` set (lg_admissions L) \<subseteq> (\<lambda>a. (ar_id a, ar_kind a)) ` set (lg_admissions M)"
      by (simp add: l l')
    show "attempts_of M i = attempts_of L i" if "lg_solana L = Some rows" "(i, row) \<in> set rows" for rows i row
      using sol that by (force simp: of)
  qed
  moreover have "wf_control M" using wfc by (simp add: wf_control_def ct pe so)
  moreover have "row_le a ?a" using key by (auto simp: row_le_def)
  then have "history_le cd L M"
    using rows_le_update [of a ?a xs ys] checkpoints_le_same [OF cp] by (simp add: history_le_def at ev so ct ha eve l l')
  ultimately show ?thesis by (simp add: ledger_wf_def)
qed

lemma broadcast_tx_Inr:
  assumes "broadcast_tx cd kind i key digest encoded L = Inr ((u, old), L')"
  obtains a where "find_admission L i = Some a" "a \<in> set (lg_admissions L)" "ar_id a = i" "ar_kind a = kind"
    "ar_state a = ''admitted''" "ar_replay_key a = None \<or> ar_replay_key a = Some key"
    "recovery_gate kind i L = Inr ()" "chain_gate ''replay key has no chain identity'' kind key L = Inr ()"
    "owner_gate i key L = Inr ()" "record_attempt i key digest encoded (ar_replay_key a) L = Inr ((u, old), L')"
proof -
  from assms obtain x where x: "lookup cd L i = Inr (Some x)" "rec_kind x = kind" "rec_state x = Admitted"
    "recovery_gate kind i L = Inr ()" "chain_gate ''replay key has no chain identity'' kind key L = Inr ()"
    "\<not> (\<exists>k \<in> set_option (rec_replay_key x). k \<noteq> key)" "owner_gate i key L = Inr ()"
    "record_attempt i key digest encoded (rec_replay_key x) L = Inr ((u, old), L')"
    by (auto simp: broadcast_tx_def bind_result_Inr split: option.splits if_splits)
  from x(1) obtain a where a: "find_admission L i = Some a" "a \<in> set (lg_admissions L)" "ar_id a = i"
    "rec_kind x = ar_kind a" "rec_replay_key x = ar_replay_key a" "parse_state (ar_state a) = Inr (rec_state x)"
    by (rule lookup_Some)
  show ?thesis
    by (rule that [of a]) (use x a in \<open>auto simp: parse_state_Inr split: option.splits\<close>, cases "ar_replay_key a", auto)
qed

lemma record_attempt_Inr:
  assumes "record_attempt i key digest encoded bound L = Inr ((u, old), L')"
  shows "(find_attempt L i digest = Some \<lparr>at_id = i, at_replay_key = key, at_digest = digest, at_payload = encoded\<rparr>
            \<and> bound = Some key \<and> L' = L \<and> old = None)
       \<or> (find_attempt L i digest = None \<and> (\<exists>c. old = Some c \<and> advance
            ((update_admission i (ar_replay_key_update (\<lambda>_. Some key)) L)\<lparr>lg_attempts := lg_attempts L
               @ [\<lparr>at_id = i, at_replay_key = key, at_digest = digest, at_payload = encoded\<rparr>]\<rparr>) = Inr (c, L')))"
proof (cases "find_attempt L i digest")
  case None
  then show ?thesis using assms
    by (auto simp: record_attempt_def bind_result_Inr set_replay_key_def insert_attempt_def advanced_def
        update_admission_def split: if_splits)
next
  case (Some b)
  then have "at_id b = i" "at_digest b = digest" by (auto simp: find_attempt_def find_Some_iff)
  with Some show ?thesis using assms by (auto simp: record_attempt_def split: if_splits)
qed

lemma owner_gate_Inr:
  assumes "owner_gate i key L = Inr ()" and "wf_admissions L"
  shows "\<forall>b \<in> set (lg_admissions L). ar_replay_key b = Some key \<longrightarrow> ar_id b = i"
proof (intro ballI impI)
  fix b assume b: "b \<in> set (lg_admissions L)" "ar_replay_key b = Some key"
  then have "find (\<lambda>a. ar_replay_key a = Some key) (lg_admissions L) \<noteq> None" by (auto simp: find_None_iff)
  then obtain c where c: "find (\<lambda>a. ar_replay_key a = Some key) (lg_admissions L) = Some c" by blast
  then have "c \<in> set (lg_admissions L)" "ar_replay_key c = Some key" by (auto simp: find_Some_iff)
  then have "c = b" using b assms(2) replay_uniqueD by (metis wf_admissions_def)
  moreover have "ar_id c = i" using assms(1) c by (auto simp: owner_gate_def replay_owner_def split: if_splits)
  ultimately show "ar_id b = i" by simp
qed

lemma recovery_gate_Inr:
  assumes "recovery_gate (ar_kind a) (ar_id a) L = Inr ()" and wf: "wf_admissions L" "wf_solana L"
    and a: "a \<in> set (lg_admissions L)" and rows: "lg_solana L = Some rows"
  shows "ar_id a \<notin> fst ` set rows"
proof (cases "ar_kind a = ''solana''")
  case True
  then show ?thesis using assms(1) rows
    by (auto simp: recovery_gate_def recovery_mode_def bind_result_Inr ok_or_Inr map_of_eq_None_iff split: if_splits)
next
  case False
  show ?thesis
  proof
    assume "ar_id a \<in> fst ` set rows"
    then obtain row where "(ar_id a, row) \<in> set rows" by force
    then have "solana_ok L (ar_id a) row" using wf(2) rows by (auto simp: wf_solana_iff)
    then obtain c where c: "c \<in> set (lg_admissions L)" "ar_id c = ar_id a" "ar_kind c = ''solana''"
      by (auto simp: solana_ok_def)
    then have "c = a" using admission_unique [OF wf(1) c(1) a] by simp
    with c(3) False show False by simp
  qed
qed

lemma broadcast_le: "tx_within (ledger_le cd) (broadcast_tx cd kind i key digest encoded)"
  unfolding tx_within_def
proof (intro allI impI)
  fix L x L' assume "broadcast_tx cd kind i key digest encoded L = Inr (x, L')"
  then have "broadcast_tx cd kind i key digest encoded L = Inr ((fst x, snd x), L')" by (cases x) simp
  then obtain a where a: "a \<in> set (lg_admissions L)" "ar_id a = i" "ar_kind a = kind" "ar_state a = ''admitted''"
    "ar_replay_key a = None \<or> ar_replay_key a = Some key" "recovery_gate kind i L = Inr ()" "owner_gate i key L = Inr ()"
    "record_attempt i key digest encoded (ar_replay_key a) L = Inr ((fst x, snd x), L')"
    by (rule broadcast_tx_Inr)
  let ?M = "(update_admission i (ar_replay_key_update (\<lambda>_. Some key)) L)\<lparr>lg_attempts := lg_attempts L
               @ [\<lparr>at_id = i, at_replay_key = key, at_digest = digest, at_payload = encoded\<rparr>]\<rparr>"
  from record_attempt_Inr [OF a(8)] show "ledger_le cd L L'"
  proof (elim disjE conjE exE)
    fix c assume new: "find_attempt L i digest = None" and adv: "advance ?M = Inr (c, L')"
    have "ledger_le cd L ?M" unfolding ledger_le_def
    proof
      assume wf: "ledger_wf L"
      then have w: "wf_admissions L" "wf_solana L" by (simp_all add: ledger_wf_def)
      show "ledger_wf ?M \<and> history_le cd L ?M"
        by (rule record_new_attempt_le [OF wf a(1) a(4) a(5), of digest ?M encoded cd])
           (use owner_gate_Inr [OF a(7) w(1)] recovery_gate_Inr [OF _ w a(1)] a new in auto)
    qed
    then show ?thesis using advance_le [OF adv] ledger_le_trans by blast
  qed simp
qed

subsection \<open>Terminal evidence\<close>

lemma settle_le:
  assumes wf: "ledger_wf L" and a: "a \<in> set (lg_admissions L)" and st: "ar_state a = ''admitted''"
    and key: "ar_replay_key a \<noteq> None"
    and M: "M = update_admission (ar_id a) (ar_state_update (\<lambda>_. ''terminal'')) (L\<lparr>lg_evidence := lg_evidence L @ [(ar_id a, e)]\<rparr>)"
  shows "ledger_wf M \<and> history_le cd L M"
proof -
  let ?a = "a\<lparr>ar_state := ''terminal''\<rparr>"
  have wfa: "wf_admissions L" and wft: "wf_attempts L" and wfe: "wf_evidence L" and wfs: "wf_solana L"
    and wfc: "wf_control L" using wf by (simp_all add: ledger_wf_def)
  have M': "lg_admissions M = lg_admissions (update_admission (ar_id a) (ar_state_update (\<lambda>_. ''terminal'')) L)"
    by (simp add: M update_admission_def)
  obtain xs ys where l: "lg_admissions L = xs @ a # ys" and l': "lg_admissions M = xs @ ?a # ys"
    using split_admission [OF wfa a] unfolding M' by metis
  have at: "lg_attempts M = lg_attempts L" and ev: "lg_evidence M = lg_evidence L @ [(ar_id a, e)]"
    and so: "lg_solana M = lg_solana L" and ct: "lg_control M = lg_control L" and pe: "lg_pending M = lg_pending L"
    and cp: "lg_checkpoints M = lg_checkpoints L" and ha: "lg_halts M = lg_halts L" and eve: "lg_events M = lg_events L"
    by (simp_all add: M update_admission_def)
  have of: "attempts_of M i = attempts_of L i" for i by (simp add: attempts_of_def at)
  have eo: "evidence_of M i = evidence_of L i @ (if ar_id a = i then [e] else [])" for i by (rule evidence_of_append [OF ev])
  have ids: "ar_id a \<notin> ar_id ` set xs" "ar_id a \<notin> ar_id ` set ys" using wfa by (auto simp: l wf_admissions_def)
  have "wf_admissions M" using wfa by (simp add: wf_admissions_def l l' replay_unique_def)
  moreover have "wf_attempts M" using wft unfolding wf_attempts_def of at l l' by simp
  moreover have "wf_evidence M"
  proof -
    have old: "(ar_state c = ''terminal'') = (evidence_of L (ar_id c) \<noteq> []) \<and> (ar_state c = ''terminal'' \<longrightarrow> ar_replay_key c \<noteq> None)"
      if "c \<in> set xs \<union> set ys" for c using wfe that by (auto simp: wf_evidence_def l)
    have "evidence_of M (ar_id c) = evidence_of L (ar_id c)" if "c \<in> set xs \<union> set ys" for c
      using ids that by (auto simp: eo)
    then have "\<forall>c \<in> set xs \<union> set ys. (ar_state c = ''terminal'') = (evidence_of M (ar_id c) \<noteq> [])
        \<and> (ar_state c = ''terminal'' \<longrightarrow> ar_replay_key c \<noteq> None)" using old by simp
    moreover have "fst ` set (lg_evidence M) \<subseteq> ar_id ` set (lg_admissions M)"
      using wfe by (auto simp: wf_evidence_def l l' ev)
    ultimately show ?thesis using key unfolding wf_evidence_def l' by (simp add: eo)
  qed
  moreover have "wf_solana M" using wfs so by (rule wf_solana_mono) (simp_all add: l l' of)
  moreover have "wf_control M" using wfc by (simp add: wf_control_def ct pe so)
  moreover have "row_le a ?a" using st by (simp add: row_le_def)
  then have "history_le cd L M"
    using rows_le_update [of a ?a xs ys] checkpoints_le_same [OF cp] by (simp add: history_le_def at ev so ct ha eve l l')
  ultimately show ?thesis by (simp add: ledger_wf_def)
qed

lemma contradict_le:
  assumes wf: "ledger_wf L" and a: "a \<in> set (lg_admissions L)" and st: "ar_state a = ''terminal''"
    and M: "M = L\<lparr>lg_evidence := lg_evidence L @ [(ar_id a, e)],
      lg_control := (lg_control L)\<lparr>ct_halted := True, ct_reason := r\<rparr>\<rparr>"
  shows "ledger_wf M \<and> history_le cd L M"
proof -
  have eo: "evidence_of M i = evidence_of L i @ (if ar_id a = i then [e] else [])" for i
    by (rule evidence_of_append) (simp add: M)
  have "evidence_of L (ar_id a) \<noteq> []" using wf a st by (simp add: ledger_wf_def wf_evidence_def)
  then have "(evidence_of M i \<noteq> []) = (evidence_of L i \<noteq> [])" for i by (auto simp: eo)
  then have "wf_evidence M" using wf a unfolding ledger_wf_def wf_evidence_def by (simp add: M)
  moreover have "wf_admissions M" "wf_attempts M" "wf_solana M"
    using wf by (simp_all add: ledger_wf_def wf_admissions_def wf_attempts_def wf_solana_def solana_ok_def attempts_of_def M)
  moreover have "wf_control M"
    using wf by (auto simp: ledger_wf_def wf_control_def Let_def M validate_pending_def token_def control_key_def)
  moreover have "history_le cd L M"
    using rows_le_refl [of "lg_admissions L"] checkpoints_le_same [of M L cd] by (simp add: history_le_def M control_le_def)
  ultimately show ?thesis by (simp add: ledger_wf_def)
qed

lemma validate_attempt_identity_Inr:
  "validate_attempt_identity_in_db cd L x ident = Inr () \<Longrightarrow> rec_state x \<noteq> Quarantined \<and> rec_replay_key x \<noteq> None"
  by (auto simp: validate_attempt_identity_in_db_def bind_result_Inr ok_or_Inr split: if_splits)

lemma terminal_tx_Inr:
  assumes "terminal_tx cd kind i evidence normalized encoded L = Inr ((conflict, old), L')"
  obtains a x where "lookup cd L i = Inr (Some x)" "a \<in> set (lg_admissions L)" "find_admission L i = Some a" "ar_id a = i"
    "rec_kind x = kind" "ar_kind a = kind"
    "validate_attempt_identity_in_db cd L x evidence = Inr ()" "ar_replay_key a \<noteq> None" "ar_state a \<noteq> ''quarantined''"
    "(ar_state a = ''terminal'' \<and> \<not> conflict \<and> old = None \<and> L' = L
        \<and> (\<exists>body previous. evidence_of L i \<noteq> [] \<and> body = hd (evidence_of L i) \<and> jc_from_str cd body = Some previous
             \<and> terminal_identity cd previous = Inr normalized))
     \<or> (ar_state a = ''terminal'' \<and> conflict \<and> old = None
        \<and> L' = L\<lparr>lg_evidence := lg_evidence L @ [(i, encoded)], lg_control := (lg_control L)\<lparr>ct_halted := True,
            ct_reason := Some ''terminal evidence conflict''\<rparr>\<rparr>)
     \<or> (ar_state a = ''admitted'' \<and> \<not> conflict \<and> (\<exists>c. old = Some c \<and>
          advance (update_admission i (ar_state_update (\<lambda>_. ''terminal'')) (L\<lparr>lg_evidence := lg_evidence L @ [(i, encoded)]\<rparr>))
            = Inr (c, L')))"
proof -
  from assms obtain x where x: "lookup cd L i = Inr (Some x)" "rec_kind x = kind"
    "validate_attempt_identity_in_db cd L x evidence = Inr ()"
    by (auto simp: terminal_tx_def bind_result_Inr split: option.splits if_splits)
  from x(1) obtain a where a: "find_admission L i = Some a" "a \<in> set (lg_admissions L)" "ar_id a = i"
    "rec_kind x = ar_kind a" "rec_replay_key x = ar_replay_key a" "parse_state (ar_state a) = Inr (rec_state x)"
    by (rule lookup_Some)
  show ?thesis
  proof (rule that [OF x(1) a(2) a(1) a(3) x(2) _ x(3)])
    show "ar_kind a = kind" "ar_replay_key a \<noteq> None" "ar_state a \<noteq> ''quarantined''"
      using validate_attempt_identity_Inr [OF x(3)] a x(2) by (auto simp: parse_state_Inr split: AdmissionState.splits)
    show "(ar_state a = ''terminal'' \<and> \<not> conflict \<and> old = None \<and> L' = L
        \<and> (\<exists>body previous. evidence_of L i \<noteq> [] \<and> body = hd (evidence_of L i) \<and> jc_from_str cd body = Some previous
             \<and> terminal_identity cd previous = Inr normalized))
     \<or> (ar_state a = ''terminal'' \<and> conflict \<and> old = None
        \<and> L' = L\<lparr>lg_evidence := lg_evidence L @ [(i, encoded)], lg_control := (lg_control L)\<lparr>ct_halted := True,
            ct_reason := Some ''terminal evidence conflict''\<rparr>\<rparr>)
     \<or> (ar_state a = ''admitted'' \<and> \<not> conflict \<and> (\<exists>c. old = Some c \<and>
          advance (update_admission i (ar_state_update (\<lambda>_. ''terminal'')) (L\<lparr>lg_evidence := lg_evidence L @ [(i, encoded)]\<rparr>))
            = Inr (c, L')))"
      using assms x validate_attempt_identity_Inr [OF x(3)] a(6)
      by (auto simp: terminal_tx_def bind_result_Inr ok_or_Inr insert_evidence_def advanced_def parse_state_Inr
          split: if_splits list.splits AdmissionState.splits)
  qed
qed

lemma terminal_le: "tx_within (ledger_le cd) (terminal_tx cd kind i evidence normalized encoded)"
  unfolding tx_within_def
proof (intro allI impI)
  fix L x L' assume "terminal_tx cd kind i evidence normalized encoded L = Inr (x, L')"
  then have t: "terminal_tx cd kind i evidence normalized encoded L = Inr ((fst x, snd x), L')" by (cases x) simp
  obtain a where a: "a \<in> set (lg_admissions L)" "ar_id a = i" "ar_replay_key a \<noteq> None"
    and c: "L' = L \<or> (ar_state a = ''terminal'' \<and> L' = L\<lparr>lg_evidence := lg_evidence L @ [(i, encoded)],
          lg_control := (lg_control L)\<lparr>ct_halted := True, ct_reason := Some ''terminal evidence conflict''\<rparr>\<rparr>)
        \<or> (ar_state a = ''admitted'' \<and> (\<exists>c. advance (update_admission i (ar_state_update (\<lambda>_. ''terminal''))
             (L\<lparr>lg_evidence := lg_evidence L @ [(i, encoded)]\<rparr>)) = Inr (c, L')))"
    by (rule terminal_tx_Inr [OF t]) blast
  from c show "ledger_le cd L L'"
  proof (elim disjE conjE exE)
    fix c assume st: "ar_state a = ''admitted''"
      and adv: "advance (update_admission i (ar_state_update (\<lambda>_. ''terminal''))
             (L\<lparr>lg_evidence := lg_evidence L @ [(i, encoded)]\<rparr>)) = Inr (c, L')"
    have "ledger_le cd L (update_admission i (ar_state_update (\<lambda>_. ''terminal''))
             (L\<lparr>lg_evidence := lg_evidence L @ [(i, encoded)]\<rparr>))"
      using settle_le [OF _ a(1) st a(3) refl] a(2) by (simp add: ledger_le_def)
    then show ?thesis using advance_le [OF adv] ledger_le_trans by blast
  next
    assume "ar_state a = ''terminal''" and "L' = L\<lparr>lg_evidence := lg_evidence L @ [(i, encoded)],
          lg_control := (lg_control L)\<lparr>ct_halted := True, ct_reason := Some ''terminal evidence conflict''\<rparr>\<rparr>"
    then show ?thesis using contradict_le [OF _ a(1)] a(2) by (simp add: ledger_le_def)
  qed simp
qed

subsection \<open>Finality checkpoints\<close>

text \<open>A transaction that only touches the checkpoints and the halted chains.\<close>

lemma ledger_le_chains:
  assumes "lg_admissions L' = lg_admissions L" and "lg_attempts L' = lg_attempts L"
    and "lg_evidence L' = lg_evidence L" and "lg_solana L' = lg_solana L" and "lg_control L' = lg_control L"
    and "lg_pending L' = lg_pending L" and "lg_events L' = lg_events L"
    and "prefix (lg_halts L) (lg_halts L')" and "checkpoints_le cd L L'"
  shows "ledger_le cd L L'"
  using assms wf_rows_cong [OF assms(1-4)] rows_le_refl [of "lg_admissions L"]
  by (simp add: ledger_le_def ledger_wf_def history_le_def wf_control_def)

lemma insert_halt_le: "ledger_le cd L (insert_halt chain L)"
  by (rule ledger_le_chains) (auto simp: insert_halt_def intro: checkpoints_le_same)

lemma halt_chain_le: "tx_within (ledger_le cd) (\<lambda>L. advanced () (insert_halt chain L))"
  unfolding tx_within_def by (intro allI impI, erule advanced_le) (rule insert_halt_le)

lemma map_of_hset [simp]: "map_of (hset k v h) = (map_of h)(k \<mapsto> v)"
  by (simp add: hset_def update_conv')

lemma store_checkpoint_le:
  assumes "store_checkpoint cd chain_id ev L = Inr (x, L')" and "load_chain_checkpoint cd L chain_id = Inr current"
    and "\<And>p. current = Some p \<Longrightarrow> fe_policy ev = fe_policy p \<and> fe_checkpoint_number p < fe_checkpoint_number ev"
  shows "ledger_le cd L L'"
proof -
  from assms(1) obtain t where t: "jc_evidence_to_string cd ev = Some t"
    and adv: "advanced (True, False) (L\<lparr>lg_checkpoints := hset (show_nat chain_id) t (lg_checkpoints L)\<rparr>) = Inr (x, L')"
    by (auto simp: store_checkpoint_def bind_result_Inr ok_or_Inr)
  let ?M = "L\<lparr>lg_checkpoints := hset (show_nat chain_id) t (lg_checkpoints L)\<rparr>"
  have new: "load_chain_checkpoint cd ?M n = (if n = chain_id then Inr (Some ev) else load_chain_checkpoint cd L n)"
    if "evidence_codec_ok cd" for n
    using that t by (simp add: load_chain_checkpoint_def show_nat_inject bind_result_def ok_or_def evidence_codec_ok_def)
  have "checkpoints_le cd L ?M"
    using assms(2,3) new by (auto simp: checkpoints_le_def)
  then have "ledger_le cd L ?M" by (intro ledger_le_chains) simp_all
  then show ?thesis using adv by (rule advanced_le [rotated])
qed

lemma checkpoint_le: "tx_within (ledger_le cd) (checkpoint_tx cd chain_id expected ev)"
  unfolding tx_within_def
proof (intro allI impI)
  fix L x L' assume t: "checkpoint_tx cd chain_id expected ev L = Inr (x, L')"
  then obtain current where cur: "load_chain_checkpoint cd L chain_id = Inr current"
    by (auto simp: checkpoint_tx_def bind_result_Inr)
  consider "L' = L" | y where "advanced y (insert_halt (show_nat chain_id) L) = Inr (x, L')"
    | "store_checkpoint cd chain_id ev L = Inr (x, L')"
      "\<And>p. current = Some p \<Longrightarrow> fe_policy ev = fe_policy p \<and> fe_checkpoint_number p < fe_checkpoint_number ev"
    using t cur by (auto simp: checkpoint_tx_def bind_result_Inr split: if_splits option.splits)
  then show "ledger_le cd L L'"
  proof cases
    case 2
    then show ?thesis by (rule advanced_le) (rule insert_halt_le)
  next
    case 3
    show ?thesis by (rule store_checkpoint_le [OF 3(1) cur 3(2)])
  qed simp
qed

subsection \<open>Solana recovery\<close>

lemma retained_Some:
  assumes "retained_solana cd L i payload = Inr (Some x)"
  obtains a b where "a \<in> set (lg_admissions L)" "ar_id a = i" "ar_kind a = ''solana''" "ar_state a \<noteq> ''quarantined''"
    "attempts_of L i = [b]" "rt_digest x = at_digest b" "lg_solana L \<noteq> None"
    "rt_recovery_mode x = (map_of (the (lg_solana L)) i \<noteq> None)"
    "retained_budget (map_of (the (lg_solana L)) i) (at_digest b) = Inr (rs_broadcasts (rt_public x), rs_last (rt_public x))"
    "parse_state (ar_state a) = Inr (rs_state (rt_public x))"
    "retained_wire cd b = Inr (rs_payload (rt_public x))"
proof -
  from assms obtain y where y: "lookup cd L i = Inr (Some y)" "rec_kind y = ''solana''" "rec_state y \<noteq> Quarantined"
    by (auto simp: retained_solana_def bind_result_Inr ok_or_Inr split: if_splits)
  from y(1) obtain a where a: "a \<in> set (lg_admissions L)" "ar_id a = i"
    "rec_kind y = ar_kind a" "parse_state (ar_state a) = Inr (rec_state y)"
    by (rule lookup_Some)
  from assms y(1) obtain rows b where b: "lg_solana L = Some rows" "attempts_of L i = [b]"
    "rt_digest x = at_digest b" "rt_recovery_mode x = (map_of rows i \<noteq> None)" "rs_state (rt_public x) = rec_state y"
    "retained_wire cd b = Inr (rs_payload (rt_public x))"
    "retained_budget (map_of rows i) (at_digest b) = Inr (rs_broadcasts (rt_public x), rs_last (rt_public x))"
    by (auto simp: retained_solana_def bind_result_Inr ok_or_Inr Let_def split: if_splits list.splits prod.splits)
  show ?thesis
    by (rule that [OF a(1,2) _ _ b(2)]) (use y a b in \<open>auto simp: parse_state_Inr split: AdmissionState.splits\<close>)
qed

text \<open>A transaction that only touches the broadcast budgets.\<close>

lemma ledger_le_solana:
  assumes M: "M = L\<lparr>lg_solana := S\<rparr>" and "solana_le (lg_solana L) S"
    and "lg_solana L \<noteq> None" and "S \<noteq> None" and "wf_solana L \<Longrightarrow> wf_solana M"
  shows "ledger_le cd L M"
proof -
  have "wf_admissions M = wf_admissions L" "wf_attempts M = wf_attempts L" "wf_evidence M = wf_evidence L"
    by (simp_all add: M wf_admissions_def wf_attempts_def wf_evidence_def attempts_of_def evidence_of_def)
  moreover have "wf_control L \<Longrightarrow> wf_control M" using assms(3,4) by (auto simp: M wf_control_def Let_def)
  moreover have "history_le cd L M"
    using assms(2) rows_le_refl [of "lg_admissions L"] checkpoints_le_same [of M L cd] by (simp add: M history_le_def)
  ultimately show ?thesis using assms(5) by (simp add: ledger_le_def ledger_wf_def)
qed

lemma solana_ok_cong: "solana_ok (L\<lparr>lg_solana := S\<rparr>) i row = solana_ok L i row"
  by (simp add: solana_ok_def attempts_of_def)

lemma restore_le: "tx_within (ledger_le cd) (restore_tx cd i payload)"
  unfolding tx_within_def
proof (intro allI impI)
  fix L x L' assume t: "restore_tx cd i payload L = Inr (x, L')"
  show "ledger_le cd L L'"
  proof (cases "L' = L")
    case False
    with t obtain y where y: "retained_solana cd L i payload = Inr (Some y)" "\<not> rt_recovery_mode y"
      and ins: "bind_result (insert_solana i \<lparr>so_digest = rt_digest y, so_broadcasts = 0, so_last = 0\<rparr> L)
              (advanced (Some (rt_public y))) = Inr (x, L')"
      by (auto simp: restore_tx_def bind_result_Inr split: option.splits if_splits)
    from y(1) obtain a b where a: "a \<in> set (lg_admissions L)" "ar_id a = i" "ar_kind a = ''solana''"
      and b: "attempts_of L i = [b]" "rt_digest y = at_digest b"
      by (rule retained_Some)
    let ?row = "\<lparr>so_digest = at_digest b, so_broadcasts = 0, so_last = 0\<rparr>"
    from ins b obtain rows where rows: "lg_solana L = Some rows" "map_of rows i = None"
      and adv: "advanced (Some (rt_public y)) (L\<lparr>lg_solana := Some (rows @ [(i, ?row)])\<rparr>) = Inr (x, L')"
      by (auto simp: insert_solana_def bind_result_Inr split: option.splits if_splits)
    have "solana_ok L i ?row" using a b by (force simp: solana_ok_def solana_row_ok_def)
    then have "ledger_le cd L (L\<lparr>lg_solana := Some (rows @ [(i, ?row)])\<rparr>)"
      using rows
      by (intro ledger_le_solana [OF refl])
         (auto simp: solana_le_def map_add_Some_iff wf_solana_iff solana_ok_cong map_of_eq_None_iff)
    then show ?thesis using adv by (rule advanced_le [rotated])
  qed simp
qed

lemma claim_Inr:
  assumes "claim i stored now L = Inr (p, L1)"
  shows "(\<exists>rows row. p = Granted (rs_broadcasts stored + 1) now \<and> lg_solana L = Some rows \<and> map_of rows i = Some row
            \<and> so_broadcasts row = rs_broadcasts stored \<and> so_last row = int (rs_last stored)
            \<and> rs_broadcasts stored < MAX_SOLANA_RECOVERY_BROADCASTS
            \<and> (rs_last stored \<noteq> 0 \<longrightarrow> rs_last stored + RECOVERY_BROADCAST_INTERVAL_MS \<le> now)
            \<and> solana_row_ok (row\<lparr>so_broadcasts := rs_broadcasts stored + 1, so_last := int now\<rparr>)
            \<and> L1 = L\<lparr>lg_solana := Some (hset i (row\<lparr>so_broadcasts := rs_broadcasts stored + 1, so_last := int now\<rparr>) rows)\<rparr>)
       \<or> ((\<forall>n t. p \<noteq> Granted n t) \<and> L1 = L)"
proof -
  let ?b = "rs_broadcasts stored" and ?l = "rs_last stored"
  consider "?b \<ge> MAX_SOLANA_RECOVERY_BROADCASTS" | "?b < MAX_SOLANA_RECOVERY_BROADCASTS" "?l \<noteq> 0" "now - ?l < RECOVERY_BROADCAST_INTERVAL_MS"
    | "?b < MAX_SOLANA_RECOVERY_BROADCASTS" "?l = 0 \<or> RECOVERY_BROADCAST_INTERVAL_MS \<le> now - ?l" by linarith
  then show ?thesis
  proof cases
    case 3
    then obtain rows row where "lg_solana L = Some rows" "map_of rows i = Some row"
      using assms by (auto simp: claim_def Let_def split: if_splits option.splits)
    moreover have "?l \<noteq> 0 \<longrightarrow> ?l + RECOVERY_BROADCAST_INTERVAL_MS \<le> now"
      using 3(2) by (auto simp: RECOVERY_BROADCAST_INTERVAL_MS_def)
    ultimately show ?thesis using assms 3
      by (intro disjI1 exI [of _ rows] exI [of _ row]) (auto simp: claim_def Let_def not_less split: if_splits)
  qed (rule disjI2, use assms in \<open>force simp: claim_def Let_def\<close>)+
qed

lemma recovery_broadcast_Granted:
  assumes "recovery_broadcast_tx cd clock i payload attempt L = Inr ((p, old), L')"
  obtains x now L1 where "retained_solana cd L i payload = Inr (Some x)" "rt_recovery_mode x" "rs_state (rt_public x) = Admitted"
    "clock = Some now" "claim i (rt_public x) now L = Inr (p, L1)"
    "(\<forall>n t. p \<noteq> Granted n t) \<and> old = None \<and> L' = L \<or> (\<exists>c n t. p = Granted n t \<and> old = Some c \<and> advance L1 = Inr (c, L'))"
    "canonical cd (rs_payload (rt_public x)) = canonical cd attempt" "\<exists>w. canonical cd attempt = Inr w"
proof -
  from assms obtain x w now q L1 where x: "retained_solana cd L i payload = Inr (Some x)" "rt_recovery_mode x"
    "rs_state (rt_public x) = Admitted" "canonical cd (rs_payload (rt_public x)) = Inr w" "canonical cd attempt = Inr w"
    "clock = Some now" "claim i (rt_public x) now L = Inr (q, L1)"
    and r: "(case q of Granted _ _ \<Rightarrow> advanced q L1 | _ \<Rightarrow> Inr ((q, None), L)) = Inr ((p, old), L')"
    by (auto simp: recovery_broadcast_tx_def bind_result_Inr ok_or_Inr split: if_splits)
  have "q = p" using r by (cases q) (auto simp: advanced_def bind_result_Inr)
  then show ?thesis
    by (intro that [OF x(1,2,3,6)]) (use x r in \<open>auto simp: advanced_def bind_result_Inr split: SolanaRecoveryBroadcast.splits\<close>)
qed

lemma set_hset: "distinct (map fst h) \<Longrightarrow> (j, v) \<in> set (hset k w h) \<Longrightarrow> (j = k \<and> v = w) \<or> (j, v) \<in> set h"
  by (induction h) (auto simp: hset_def split: if_splits)

lemma distinct_hset: "distinct (map fst h) \<Longrightarrow> distinct (map fst (hset k w h))"
  unfolding hset_def by (rule distinct_update)

lemma recovery_broadcast_le: "tx_within (ledger_le cd) (recovery_broadcast_tx cd clock i payload attempt)"
  unfolding tx_within_def
proof (intro allI impI)
  fix L x L' assume "recovery_broadcast_tx cd clock i payload attempt L = Inr (x, L')"
  then have t: "recovery_broadcast_tx cd clock i payload attempt L = Inr ((fst x, snd x), L')" by (cases x) simp
  show "ledger_le cd L L'"
  proof (rule recovery_broadcast_Granted [OF t])
    fix y now L1 assume c: "claim i (rt_public y) now L = Inr (fst x, L1)"
      and r: "(\<forall>n t. fst x \<noteq> Granted n t) \<and> snd x = None \<and> L' = L \<or> (\<exists>c n t. fst x = Granted n t \<and> snd x = Some c \<and> advance L1 = Inr (c, L'))"
    show ?thesis
    proof (cases "L' = L")
      case False
      with r obtain c' n t' where g: "fst x = Granted n t'" and adv: "advance L1 = Inr (c', L')" by blast
      from claim_Inr [OF c] g obtain rows row where rows: "lg_solana L = Some rows" "map_of rows i = Some row"
        "so_broadcasts row = rs_broadcasts (rt_public y)" "so_last row = int (rs_last (rt_public y))"
        "rs_last (rt_public y) \<noteq> 0 \<longrightarrow> rs_last (rt_public y) + RECOVERY_BROADCAST_INTERVAL_MS \<le> now"
        "solana_row_ok (row\<lparr>so_broadcasts := rs_broadcasts (rt_public y) + 1, so_last := int now\<rparr>)"
        and L1: "L1 = L\<lparr>lg_solana := Some (hset i (row\<lparr>so_broadcasts := rs_broadcasts (rt_public y) + 1, so_last := int now\<rparr>) rows)\<rparr>"
        by auto
      have "ledger_le cd L L1"
      proof (rule ledger_le_solana [OF L1])
        show "solana_le (lg_solana L) (Some (hset i (row\<lparr>so_broadcasts := rs_broadcasts (rt_public y) + 1, so_last := int now\<rparr>) rows))"
          using rows by (auto simp: solana_le_def budget_le_def)
        show "wf_solana L1" if "wf_solana L"
        proof -
          have d: "distinct (map fst rows)" and ok: "\<forall>i row. (i, row) \<in> set rows \<longrightarrow> solana_ok L i row"
            using that rows(1) by (auto simp: wf_solana_iff)
          have "(i, row) \<in> set rows" using rows(2) by (rule map_of_SomeD)
          then have "solana_ok L i (row\<lparr>so_broadcasts := rs_broadcasts (rt_public y) + 1, so_last := int now\<rparr>)"
            using ok rows(6) by (auto simp: solana_ok_def)
          then show ?thesis
            using d ok by (auto simp: L1 wf_solana_iff solana_ok_cong distinct_hset dest: set_hset)
        qed
      qed (use rows in auto)
      then show ?thesis using advance_le [OF adv] ledger_le_trans by blast
    qed simp
  qed
qed

subsection \<open>All operations\<close>

interpretation growth: ledger_order "ledger_le cd" cd for cd
  by unfold_locales
     (auto intro: ledger_le_trans halt_le acknowledge_le reserve_le broadcast_le terminal_le checkpoint_le halt_chain_le
       restore_le recovery_broadcast_le migrate_le reattach_le clear_halt_le recover_tx_le)

end
