(* ===== verification/Recovery_Gate.thy ===== *)
theory Recovery_Gate
  imports Recovery_Rows
begin

text \<open>
  What a successful call tells: the rules \<open>*_Done\<close> read off the state and the ledger after a call
  that returned, \<open>preserves\<close> carries a state predicate through calls that may also fail or crash, and
  \<open>published\<close> is what the gate leaves behind.
\<close>

subsection \<open>Calls that returned\<close>

lemma jbind_Done: "jbind m f s = (Done y, s') \<longleftrightarrow> (\<exists>x s1. m s = (Done x, s1) \<and> f x s1 = (Done y, s'))"
  by (cases "m s"; cases "fst (m s)") (auto simp: jbind_def)

lemma jret_Done [simp]: "jret x s = (Done y, s') \<longleftrightarrow> y = x \<and> s' = s"
  by (auto simp: jret_def)

lemma jfail_Done [simp]: "jfail e s \<noteq> (Done y, s')"
  by (simp add: jfail_def)

lemma of_result_Done: "of_result r s = (Done y, s') \<longleftrightarrow> r = Inr y \<and> s' = s"
  by (cases r) (auto simp: of_result_def)

lemma db_call_Done:
  "db_call env f s = (Done x, s') \<longleftrightarrow> je_fault env (js_calls s) = Reply
     \<and> (\<exists>L. f (js_db s) = Inr (x, L) \<and> s' = s\<lparr>js_calls := Suc (js_calls s), js_db := L\<rparr>)"
  by (auto simp: db_call_def Let_def split: fault.splits sum.splits)

lemma db_read_Done:
  "db_read env f s = (Done x, s') \<longleftrightarrow> je_fault env (js_calls s) = Reply
     \<and> f (js_db s) = Inr x \<and> s' = s\<lparr>js_calls := Suc (js_calls s)\<rparr>"
  by (auto simp: db_read_def db_call_Done bind_result_Inr)

lemma redis_call_Done:
  "redis_call env f s = (Done (Some x), s') \<longleftrightarrow> je_fault env (js_calls s) = Reply
     \<and> x = fst (f (je_redis env (js_calls s) (js_redis s)))
     \<and> s' = s\<lparr>js_calls := Suc (js_calls s), js_redis := snd (f (je_redis env (js_calls s) (js_redis s)))\<rparr>"
  by (auto simp: redis_call_def Let_def split: fault.splits)

lemma observation_Done:
  "observation env key s = (Done (Some x), s') \<longleftrightarrow> je_fault env (js_calls s) = Reply
     \<and> s' = s\<lparr>js_calls := Suc (js_calls s), js_redis := je_redis env (js_calls s) (js_redis s)\<rparr>
     \<and> observe key (js_redis s') = Some x"
proof -
  have "Some x = Option.bind y id \<longleftrightarrow> y = Some (Some x)" for y :: "(string \<times> string \<times> string option) option option"
    by (cases y) auto
  then have "observation env key s = (Done (Some x), s') \<longleftrightarrow> redis_call env (\<lambda>rd. (observe key rd, rd)) s = (Done (Some (Some x)), s')"
    by (simp add: observation_def jbind_Done)
  then show ?thesis by (auto simp: redis_call_Done)
qed

lemma ignore_error_Failed: "jbind m (\<lambda>_. jfail e) s \<noteq> (Done y, s')"
  by (simp add: jbind_Done)

lemma halt_Done [simp]: "halt env reason s \<noteq> (Done y, s')"
  by (simp add: halt_def jbind_Done)

lemma storage_result_Done [simp]: "storage_result env m s = (Done y, s') \<longleftrightarrow> m s = (Done y, s')"
  by (auto simp: storage_result_def split: prod.splits outcome.splits RecoveryError.splits)

lemma run_owned_Done: "run_owned env m s = (Done y, s') \<longleftrightarrow> \<not> je_writer env \<and> \<not> js_closed s \<and> m s = (Done y, s')"
  by (auto simp: run_owned_def)

subsection \<open>The gate\<close>

definition observed :: "Control \<Rightarrow> journal \<Rightarrow> bool" where
  "observed c s \<longleftrightarrow> observe (control_key c) (js_redis s) = Some (ct_run_id c, ''master'', Some (token c))"

definition published :: "journal \<Rightarrow> bool" where
  "published s \<longleftrightarrow> observed (lg_control (js_db s)) s \<and> \<not> ct_halted (lg_control (js_db s))
     \<and> (\<forall>p. lg_pending (js_db s) \<noteq> Some (Some p))"

lemma observe_checkpoint_Done:
  assumes "observe_checkpoint env c pending s = (Done u, s')"
  shows "js_db s' = js_db s" and "js_failed s' = js_failed s" and "pending = None \<Longrightarrow> observed c s'"
proof -
  from assms obtain o' s1 where o: "observation env (control_key c) s = (Done o', s1)"
    and r: "(case o' of
         None \<Rightarrow>
           (if pending \<noteq> None then jfail PublicationPending
            else halt env ''Redis continuity unavailable'')
       | Some (run, role, marker) \<Rightarrow>
           (if marker \<noteq> Some (token c)
               \<and> \<not> (\<exists>p \<in> set_option pending. marker = Some (pu_previous_token p))
            then halt env ''Redis checkpoint mismatch''
            else if role \<noteq> ''master'' then halt env ''Redis primary role changed''
            else if run \<noteq> ct_run_id c then halt env ''Redis process changed''
            else jret ())) s1 = (Done u, s')"
    by (auto simp: observe_checkpoint_def jbind_Done)
  from r obtain run role marker where so: "o' = Some (run, role, marker)" and s': "s' = s1"
    and m: "role = ''master''" "run = ct_run_id c" "pending = None \<Longrightarrow> marker = Some (token c)"
    by (auto split: option.splits if_splits)
  from o so have "js_db s1 = js_db s" "js_failed s1 = js_failed s" "observe (control_key c) (js_redis s1) = Some (run, role, marker)"
    by (auto simp: observation_Done)
  then show "js_db s' = js_db s" "js_failed s' = js_failed s" "pending = None \<Longrightarrow> observed c s'"
    using s' m by (simp_all add: observed_def)
qed

lemma complete_pending_Done:
  assumes "complete_pending env c p s = (Done u, s')"
  shows "acknowledge p (js_db s) = Inr ((), js_db s')" and "js_failed s' = js_failed s" and "observed c s'"
proof -
  from assms obtain reply s1 where c1: "redis_call env (publish_checkpoint_script p) s = (Done reply, s1)"
    and r1: "(case reply of None \<Rightarrow> jfail PublicationPending
       | Some n \<Rightarrow>
           if n \<noteq> 1 then halt env ''Redis checkpoint mismatch''
           else jbind (observation env (control_key c)) (\<lambda>observed.
             case observed of
               None \<Rightarrow> jfail PublicationPending
             | Some (run, role, marker) \<Rightarrow>
                 (if marker \<noteq> Some (pu_target_token p) then halt env ''Redis checkpoint mismatch''
                  else if role \<noteq> ''master'' then halt env ''Redis primary role changed''
                  else if run \<noteq> pu_run_id p then halt env ''Redis process changed''
                  else jbind (storage_result env (db_call env (acknowledge p))) (\<lambda>_.
                    observe_checkpoint env c None)))) s1 = (Done u, s')"
    unfolding complete_pending_def jbind_Done by blast
  from r1 obtain n o' s2 where n: "reply = Some n" and c2: "observation env (control_key c) s1 = (Done o', s2)"
    and r2: "(case o' of
               None \<Rightarrow> jfail PublicationPending
             | Some (run, role, marker) \<Rightarrow>
                 (if marker \<noteq> Some (pu_target_token p) then halt env ''Redis checkpoint mismatch''
                  else if role \<noteq> ''master'' then halt env ''Redis primary role changed''
                  else if run \<noteq> pu_run_id p then halt env ''Redis process changed''
                  else jbind (storage_result env (db_call env (acknowledge p))) (\<lambda>_.
                    observe_checkpoint env c None))) s2 = (Done u, s')"
    by (auto simp: jbind_Done split: option.splits if_splits)
  from r2 obtain x s3 where x: "o' = Some x" and ack: "db_call env (acknowledge p) s2 = (Done (), s3)"
    and ob: "observe_checkpoint env c None s3 = (Done u, s')"
    by (auto simp: jbind_Done split: option.splits if_splits)
  have "js_db s2 = js_db s" "js_failed s2 = js_failed s"
    using c1 c2 unfolding n x redis_call_Done observation_Done by auto
  then show "acknowledge p (js_db s) = Inr ((), js_db s')" "js_failed s' = js_failed s" "observed c s'"
    using observe_checkpoint_Done [OF ob] ack by (auto simp: db_call_Done)
qed

lemma healthy_locked_Done:
  assumes "healthy_locked env s = (Done c, s')"
  shows "\<not> js_failed s" and "js_failed s' = js_failed s" and "c = lg_control (js_db s)" and "\<not> ct_halted c"
    and "observed c s'" and "\<exists>q. js_db s' = (js_db s)\<lparr>lg_pending := q\<rparr>" and "wf_control (js_db s) \<Longrightarrow> published s'"
proof -
  let ?read = "db_read env (\<lambda>L. bind_result (control L) (\<lambda>current.
                  bind_result (load L current) (\<lambda>pending. Inr (current, pending))))"
  from assms obtain s1 pending where nf: "\<not> js_failed s" and rd: "?read s = (Done (c, pending), s1)"
    and nh: "\<not> ct_halted c"
    and m: "jbind (observe_checkpoint env c pending) (\<lambda>_.
                jbind (case pending of None \<Rightarrow> jret () | Some p \<Rightarrow> complete_pending env c p) (\<lambda>_.
                  jret c)) s1 = (Done c, s')"
    by (auto simp: healthy_locked_def jbind_Done split: if_splits prod.splits outcome.splits)
  from m obtain s2 where ob: "observe_checkpoint env c pending s1 = (Done (), s2)"
    and cp: "(case pending of None \<Rightarrow> jret () | Some p \<Rightarrow> complete_pending env c p) s2 = (Done (), s')"
    by (auto simp: jbind_Done)
  from rd have s1: "js_db s1 = js_db s" "js_failed s1 = js_failed s"
    and c: "control (js_db s) = Inr c" "load (js_db s) c = Inr pending"
    by (auto simp: db_read_Done bind_result_Inr)
  note o = observe_checkpoint_Done [OF ob]
  show "\<not> js_failed s" "\<not> ct_halted c" by (rule nf, rule nh)
  show cc: "c = lg_control (js_db s)" using c(1) by (simp add: control_Inr)
  have *: "js_failed s' = js_failed s \<and> observed c s' \<and> (\<exists>q. js_db s' = (js_db s)\<lparr>lg_pending := q\<rparr>)
      \<and> (wf_control (js_db s) \<longrightarrow> (\<forall>p. lg_pending (js_db s') \<noteq> Some (Some p)))"
  proof (cases pending)
    case None
    then have "s' = s2" using cp by simp
    moreover have "\<forall>p. lg_pending (js_db s) \<noteq> Some (Some p)" if "wf_control (js_db s)"
      using c(2) None that cc
      by (auto simp: load_def bind_result_Inr ok_or_Inr wf_control_def Let_def split: if_splits option.splits)
    moreover have "\<exists>q. js_db s = (js_db s)\<lparr>lg_pending := q\<rparr>"
      by (rule exI [of _ "lg_pending (js_db s)"]) simp
    ultimately show ?thesis using o s1 None by simp
  next
    case (Some p)
    then have "complete_pending env c p s2 = (Done (), s')" using cp by simp
    note k = complete_pending_Done [OF this]
    show ?thesis using k o s1 acknowledge_Inr [OF k(1)] by auto
  qed
  then show "js_failed s' = js_failed s" "observed c s'" "\<exists>q. js_db s' = (js_db s)\<lparr>lg_pending := q\<rparr>" by simp_all
  show "published s'" if "wf_control (js_db s)"
    using * that cc nh by (auto simp: published_def)
qed

lemma mirror_Done:
  assumes "mirror env old s = (Done u, s')"
  shows "js_db s' = (js_db s)\<lparr>lg_pending := Some None\<rparr>" and "js_failed s' = js_failed s" and "published s'"
proof -
  from assms obtain c p s1 s2 where rd: "db_read env (\<lambda>L.
       bind_result (control L) (\<lambda>current.
       bind_result (load L current) (\<lambda>pending.
       bind_result (ok_or Storage pending) (\<lambda>p.
         if pu_previous_token p \<noteq> token old then Inl Storage else Inr (current, p))))) s = (Done (c, p), s1)"
    and ob: "observe_checkpoint env c (Some p) s1 = (Done (), s2)" and cp: "complete_pending env c p s2 = (Done u, s')"
    by (auto simp: mirror_def jbind_Done)
  from rd have s1: "js_db s1 = js_db s" "js_failed s1 = js_failed s" and c: "c = lg_control (js_db s)"
    by (auto simp: db_read_Done bind_result_Inr control_Inr split: if_splits)
  note o = observe_checkpoint_Done [OF ob] and k = complete_pending_Done [OF cp]
  note a = acknowledge_Inr [OF k(1)]
  show 1: "js_db s' = (js_db s)\<lparr>lg_pending := Some None\<rparr>" using a o s1 by simp
  show "js_failed s' = js_failed s" using k o s1 by simp
  show "published s'" using k(3) a(3) o(1) s1(1) unfolding published_def 1 c by simp
qed

text \<open>A mutation that returned: its transaction ran on the ledger the gate left, and was published.\<close>

lemma mutation_Done:
  assumes "mutation env body s = (Done x, s')"
  obtains L L' old where "\<not> js_failed s" "L = (js_db s)\<lparr>lg_pending := lg_pending L\<rparr>" "\<not> ct_halted (lg_control (js_db s))"
    "body L = Inr ((x, old), L')" "old = None \<Longrightarrow> js_db s' = L' \<and> observed (lg_control L) s'"
    "wf_control (js_db s) \<Longrightarrow> old = None \<Longrightarrow> \<forall>p. lg_pending L \<noteq> Some (Some p)"
    "old \<noteq> None \<Longrightarrow> js_db s' = L'\<lparr>lg_pending := Some None\<rparr> \<and> published s'"
    "js_failed s' = js_failed s"
proof -
  from assms obtain c s1 old s2 where h: "healthy_locked env s = (Done c, s1)"
    and b: "db_call env body s1 = (Done (x, old), s2)"
    and m: "(case old of None \<Rightarrow> jret () | Some c \<Rightarrow> mirror env c) s2 = (Done (), s')"
    by (auto simp: mutation_def jbind_Done)
  note h' = healthy_locked_Done [OF h]
  from b obtain L' where L': "body (js_db s1) = Inr ((x, old), L')" and s2: "js_db s2 = L'" "js_redis s2 = js_redis s1" "js_failed s2 = js_failed s1"
    by (auto simp: db_call_Done)
  from h'(6) obtain q where q: "js_db s1 = (js_db s)\<lparr>lg_pending := q\<rparr>" by blast
  show ?thesis
  proof (rule that [OF h'(1), of "js_db s1" old L'])
    show "js_db s1 = (js_db s)\<lparr>lg_pending := lg_pending (js_db s1)\<rparr>" by (simp add: q)
    show "\<not> ct_halted (lg_control (js_db s))" using h'(3,4) by simp
    show "body (js_db s1) = Inr ((x, old), L')" by (rule L')
    show "js_db s' = L' \<and> observed (lg_control (js_db s1)) s'" if "old = None"
      using that m s2 h'(3,5) q by (simp add: observed_def)
    show "\<forall>p. lg_pending (js_db s1) \<noteq> Some (Some p)" if "wf_control (js_db s)" "old = None"
      using h'(7) [OF that(1)] by (simp add: published_def)
    show "js_db s' = L'\<lparr>lg_pending := Some None\<rparr> \<and> published s'" if "old \<noteq> None"
    proof -
      from that obtain k where "mirror env k s2 = (Done (), s')" using m by (cases old) auto
      then show ?thesis using mirror_Done s2 by metis
    qed
    show "js_failed s' = js_failed s"
      using m s2(3) h'(2) mirror_Done(2) by (cases old) auto
  qed
qed

end
