(* ===== verification/Recovery_Latch.thy ===== *)
theory Recovery_Latch
  imports Recovery_Rows
begin

text \<open>
  Contradictory terminal evidence latches the journal: a second instance of \<open>ledger_order\<close>, in
  which a ledger that retains two witnesses for one intent is halted for that reason and stays so.
\<close>

definition conflict_ok :: "ledger \<Rightarrow> bool" where
  "conflict_ok L \<longleftrightarrow> (terminal_conflict L \<longrightarrow>
     ct_halted (lg_control L) \<and> ct_reason (lg_control L) = Some ''terminal evidence conflict'')"

definition latch_le :: "journal_codec \<Rightarrow> ledger \<Rightarrow> ledger \<Rightarrow> bool" where
  "latch_le cd L L' \<longleftrightarrow> ledger_le cd L L' \<and> (ledger_wf L \<and> conflict_ok L \<longrightarrow> conflict_ok L')"

text \<open>Transactions that touch neither the evidence nor the halt.\<close>

definition quiet :: "ledger \<Rightarrow> ledger \<Rightarrow> bool" where
  "quiet L L' \<longleftrightarrow> lg_evidence L' = lg_evidence L \<and> ct_halted (lg_control L') = ct_halted (lg_control L)
     \<and> ct_reason (lg_control L') = ct_reason (lg_control L)"

lemma terminal_conflict_iff: "terminal_conflict L \<longleftrightarrow> (\<exists>i. length (evidence_of L i) > 1)"
proof
  assume "\<exists>i. length (evidence_of L i) > 1"
  then obtain i where i: "length (evidence_of L i) > 1" by blast
  then have "evidence_of L i \<noteq> []" by auto
  then have "i \<in> fst ` set (lg_evidence L)" using evidence_of_Nil by blast
  with i show "terminal_conflict L" by (force simp: terminal_conflict_def list_ex_iff)
qed (auto simp: terminal_conflict_def list_ex_iff)

lemma terminal_conflict_cong: "lg_evidence L' = lg_evidence L \<Longrightarrow> terminal_conflict L' = terminal_conflict L"
  by (simp add: terminal_conflict_def evidence_of_def)

lemma quiet_latch: "ledger_le cd L L' \<Longrightarrow> quiet L L' \<Longrightarrow> latch_le cd L L'"
  using terminal_conflict_cong [of L' L] by (simp add: latch_le_def quiet_def conflict_ok_def)

lemma tx_quiet_latch: "tx_within (ledger_le cd) f \<Longrightarrow> tx_within quiet f \<Longrightarrow> tx_within (latch_le cd) f"
  by (auto simp: tx_within_def intro: quiet_latch)

lemma latch_le_refl [simp]: "latch_le cd L L"
  by (simp add: latch_le_def)

lemma latch_le_trans: "latch_le cd a b \<Longrightarrow> latch_le cd b c \<Longrightarrow> latch_le cd a c"
  unfolding latch_le_def
  by (elim conjE, intro conjI, rule ledger_le_trans, assumption, assumption) (simp add: ledger_le_def)

lemma advance_quiet: "advance M = Inr (c, L') \<Longrightarrow> quiet L M \<Longrightarrow> quiet L L'"
  using advance_Inr(1,5) [of M c L'] by (simp add: quiet_def)

lemma advanced_quiet: "advanced x M = Inr (y, L') \<Longrightarrow> quiet L M \<Longrightarrow> quiet L L'"
  by (auto simp: advanced_def bind_result_Inr intro: advance_quiet)

lemma quiet_refl [simp]: "quiet L L"
  by (simp add: quiet_def)

lemma quiet_control_transactions:
  "tx_within quiet (acknowledge p)" "tx_within quiet migrate"
proof -
  show "tx_within quiet (acknowledge p)" unfolding tx_within_def
    using acknowledge_Inr(2) by (fastforce simp: quiet_def)
  show "tx_within quiet migrate" unfolding tx_within_def
    by (auto simp: migrate_def bind_result_Inr control_Inr record_pending_Inr Let_def quiet_def split: if_splits)
qed

lemma quiet_reserve: "tx_within quiet (reserve_tx cd kind i fingerprint payload encoded)"
  by (auto simp: tx_within_def reserve_tx_def insert_admission_def bind_result_Inr quiet_def
      split: if_splits option.splits elim!: advanced_quiet [unfolded quiet_def])

lemma quiet_updates [simp]:
  "quiet (insert_halt chain L) L' = quiet L L'" "quiet (L\<lparr>lg_checkpoints := h\<rparr>) L' = quiet L L'"
  by (simp_all add: insert_halt_def quiet_def)

lemma advanced_quietD: "advanced x M = Inr (y, L') \<Longrightarrow> quiet M L'"
  by (erule advanced_quiet) (simp add: quiet_def)

lemma quiet_checkpoint:
  "tx_within quiet (checkpoint_tx cd chain_id expected ev)" "tx_within quiet (\<lambda>L. advanced () (insert_halt chain L))"
  by (auto simp: tx_within_def checkpoint_tx_def store_checkpoint_def bind_result_Inr
      split: if_splits option.splits dest!: advanced_quietD)

lemma insert_solana_quiet: "insert_solana i row L = Inr M \<Longrightarrow> quiet L M"
  by (auto simp: insert_solana_def quiet_def split: if_splits option.splits)

lemma quiet_restore: "tx_within quiet (restore_tx cd i payload)"
  by (auto simp: tx_within_def restore_tx_def bind_result_Inr split: if_splits option.splits
      elim!: advanced_quiet insert_solana_quiet)

lemma claim_quiet: "claim i stored now L = Inr (p, M) \<Longrightarrow> quiet L M"
  by (auto simp: claim_def Let_def quiet_def split: if_splits option.splits)

lemma quiet_broadcast: "tx_within quiet (broadcast_tx cd kind i key digest encoded)"
  unfolding tx_within_def
proof (intro allI impI)
  fix L x L' assume "broadcast_tx cd kind i key digest encoded L = Inr (x, L')"
  then have "broadcast_tx cd kind i key digest encoded L = Inr ((fst x, snd x), L')" by (cases x) simp
  then obtain k where "record_attempt i key digest encoded k L = Inr ((fst x, snd x), L')" by (rule broadcast_tx_Inr)
  from record_attempt_Inr [OF this] show "quiet L L'"
    by (auto simp: quiet_def update_admission_def elim!: advance_quiet [unfolded quiet_def])
qed

lemma quiet_recovery_broadcast: "tx_within quiet (recovery_broadcast_tx cd clock i payload attempt)"
  unfolding tx_within_def
proof (intro allI impI)
  fix L x L' assume "recovery_broadcast_tx cd clock i payload attempt L = Inr (x, L')"
  then obtain y now p M where c: "claim i y now L = Inr (p, M)"
    and r: "(case p of Granted _ _ \<Rightarrow> advanced p M | _ \<Rightarrow> Inr ((p, None), L)) = Inr (x, L')"
    by (auto simp: recovery_broadcast_tx_def bind_result_Inr split: if_splits)
  from r show "quiet L L'" using claim_quiet [OF c] by (cases p) (auto elim: advanced_quiet)
qed

lemma latch_terminal: "tx_within (latch_le cd) (terminal_tx cd kind i evidence normalized encoded)"
  unfolding tx_within_def
proof (intro allI impI)
  fix L x L' assume "terminal_tx cd kind i evidence normalized encoded L = Inr (x, L')"
  then have t: "terminal_tx cd kind i evidence normalized encoded L = Inr ((fst x, snd x), L')" by (cases x) simp
  have le: "ledger_le cd L L'" using terminal_le t unfolding tx_within_def by blast
  obtain a where a: "a \<in> set (lg_admissions L)" "ar_id a = i"
    and c: "L' = L \<or> (ar_state a = ''terminal'' \<and> L' = L\<lparr>lg_evidence := lg_evidence L @ [(i, encoded)],
          lg_control := (lg_control L)\<lparr>ct_halted := True, ct_reason := Some ''terminal evidence conflict''\<rparr>\<rparr>)
        \<or> (ar_state a = ''admitted'' \<and> (\<exists>c. advance (update_admission i (ar_state_update (\<lambda>_. ''terminal''))
             (L\<lparr>lg_evidence := lg_evidence L @ [(i, encoded)]\<rparr>)) = Inr (c, L')))"
    by (rule terminal_tx_Inr [OF t]) blast
  from c show "latch_le cd L L'"
  proof (elim disjE conjE exE)
    fix c assume st: "ar_state a = ''admitted''"
      and adv: "advance (update_admission i (ar_state_update (\<lambda>_. ''terminal''))
             (L\<lparr>lg_evidence := lg_evidence L @ [(i, encoded)]\<rparr>)) = Inr (c, L')"
    have ev: "lg_evidence L' = lg_evidence L @ [(i, encoded)]"
      and ct: "ct_halted (lg_control L') = ct_halted (lg_control L)" "ct_reason (lg_control L') = ct_reason (lg_control L)"
      using advance_Inr(5,1) [OF adv] by (simp_all add: update_admission_def)
    have "conflict_ok L'" if wf: "ledger_wf L" and ok: "conflict_ok L"
    proof -
      have "evidence_of L i = []" using wf a st by (auto simp: ledger_wf_def wf_evidence_def)
      then have "length (evidence_of L' j) > 1 \<longrightarrow> length (evidence_of L j) > 1" for j
        by (auto simp: evidence_of_append [OF ev])
      then have "terminal_conflict L' \<Longrightarrow> terminal_conflict L" by (auto simp: terminal_conflict_iff)
      then show ?thesis using ok ct by (simp add: conflict_ok_def)
    qed
    then show ?thesis using le by (simp add: latch_le_def)
  qed (use le in \<open>auto simp: latch_le_def conflict_ok_def\<close>)
qed

lemma latch_reattach:
  assumes "\<not> (ct_halted c \<and> ct_reason c \<notin> Some ` set continuity_reasons)"
  shows "tx_within (latch_le cd) (reattach_tx c pending run)"
  unfolding tx_within_def
proof (intro allI impI)
  fix L x L' assume t: "reattach_tx c pending run L = Inr (x, L')"
  then have c: "c = lg_control L" and ev: "lg_evidence L' = lg_evidence L"
    by (auto simp: reattach_tx_def bind_result_Inr control_Inr remove_exact_def split: if_splits option.splits)
  have "\<not> terminal_conflict L" if "conflict_ok L"
    using that assms by (auto simp: c conflict_ok_def continuity_reasons_def)
  moreover have "ledger_le cd L L'" using reattach_le t unfolding tx_within_def by blast
  ultimately show "latch_le cd L L'" using terminal_conflict_cong [OF ev] by (auto simp: latch_le_def conflict_ok_def)
qed

lemma latch_recover:
  assumes "recover_tx c pending namespace run L = Inr (x, L')" and "c = lg_control L" and "\<not> terminal_conflict L"
  shows "latch_le cd L L'"
  using recover_tx_le [OF assms(1)] recover_tx_evidence [OF assms(1)] assms(2,3)
  by (simp add: latch_le_def conflict_ok_def)

interpretation latch: ledger_order "latch_le cd" cd for cd
proof unfold_locales
  show "latch_le cd L (halt_control reason L)" for L reason
    using halt_le terminal_conflict_cong [of "halt_control reason L" L]
    by (auto simp: latch_le_def conflict_ok_def halt_control_def split: option.splits)
  show "latch_le cd L (L\<lparr>lg_control := (lg_control L)\<lparr>ct_halted := False, ct_reason := None\<rparr>\<rparr>)"
    if "\<not> terminal_conflict L" for L
    using clear_halt_le that
      terminal_conflict_cong [of "L\<lparr>lg_control := (lg_control L)\<lparr>ct_halted := False, ct_reason := None\<rparr>\<rparr>" L]
    by (simp add: latch_le_def conflict_ok_def)
qed (rule latch_le_refl | (rule latch_le_trans; assumption) | rule latch_terminal | (rule latch_reattach; assumption)
     | (rule latch_recover; assumption) | rule tx_quiet_latch [OF acknowledge_le quiet_control_transactions(1)]
     | rule tx_quiet_latch [OF reserve_le quiet_reserve] | rule tx_quiet_latch [OF broadcast_le quiet_broadcast]
     | rule tx_quiet_latch [OF checkpoint_le quiet_checkpoint(1)] | rule tx_quiet_latch [OF halt_chain_le quiet_checkpoint(2)]
     | rule tx_quiet_latch [OF restore_le quiet_restore] | rule tx_quiet_latch [OF recovery_broadcast_le quiet_recovery_broadcast]
     | rule tx_quiet_latch [OF migrate_le quiet_control_transactions(2)])+

end
