(* ===== verification/Recovery_Reach.thy ===== *)
theory Recovery_Reach
  imports Recovery_Gate Recovery_Latch
begin

text \<open>
  Reachable journals, and what the mutating operations leave in the ledger when they return.
\<close>

subsection \<open>State predicates through calls\<close>

definition preserves :: "(journal \<Rightarrow> bool) \<Rightarrow> 'a jm \<Rightarrow> bool" where
  "preserves P m \<longleftrightarrow> (\<forall>s. P s \<longrightarrow> P (snd (m s)))"

named_theorems preserves_intros \<open>calls that keep a state predicate\<close>

lemma preserves_jret [preserves_intros]: "preserves P (jret x)"
  by (simp add: preserves_def jret_def)

lemma preserves_jfail [preserves_intros]: "preserves P (jfail e)"
  by (simp add: preserves_def jfail_def)

lemma preserves_of_result [preserves_intros]: "preserves P (of_result r)"
  by (cases r) (simp_all add: of_result_def preserves_jret preserves_jfail)

lemma preserves_jbind [preserves_intros]:
  assumes "preserves P m" and "\<And>x. preserves P (f x)"
  shows "preserves P (jbind m f)"
  unfolding preserves_def
proof (intro allI impI)
  fix s assume P: "P s"
  obtain r s' where m: "m s = (r, s')" by (cases "m s")
  have "P s'" using assms(1) P m by (metis preserves_def snd_conv)
  then show "P (snd (jbind m f s))" using assms(2) m by (cases r) (simp_all add: jbind_def preserves_def)
qed

text \<open>Predicates that depend on the ledger and the existence of its file only.\<close>

definition on_ledger :: "(bool \<Rightarrow> ledger \<Rightarrow> bool) \<Rightarrow> journal \<Rightarrow> bool" where
  "on_ledger Q s = Q (js_file s) (js_db s)"

lemma preserves_redis_call [preserves_intros]: "preserves (on_ledger Q) (redis_call env f)"
  by (auto simp: preserves_def on_ledger_def redis_call_def Let_def split: fault.splits)

lemma preserves_db_call [preserves_intros]:
  "(\<And>b L x L'. f L = Inr (x, L') \<Longrightarrow> Q b L \<Longrightarrow> Q b L') \<Longrightarrow> preserves (on_ledger Q) (db_call env f)"
  by (auto simp: preserves_def on_ledger_def db_call_def Let_def split: fault.splits sum.splits prod.splits)

lemma preserves_db_read [preserves_intros]: "preserves (on_ledger Q) (db_read env f)"
  unfolding db_read_def by (rule preserves_db_call) (auto simp: bind_result_Inr)

lemma preserves_observation [preserves_intros]: "preserves (on_ledger Q) (observation env key)"
  unfolding observation_def by (intro preserves_intros)

lemma preserves_observation_or_fail [preserves_intros]: "preserves (on_ledger Q) (observation_or_fail env key)"
  unfolding observation_or_fail_def by (auto intro!: preserves_intros split: option.splits)

lemma preserves_redis_connection [preserves_intros]: "preserves (on_ledger Q) (redis_connection env)"
  unfolding redis_connection_def by (auto intro!: preserves_intros split: option.splits)

lemma preserves_empty_namespace [preserves_intros]: "preserves (on_ledger Q) (empty_namespace env namespace)"
  unfolding empty_namespace_def scan_prefix_def by (auto intro!: preserves_intros split: option.splits)

lemma preserves_publish_marker [preserves_intros]: "preserves (on_ledger Q) (publish_marker env collision)"
  unfolding publish_marker_def by (auto intro!: preserves_intros split: option.splits)

lemma preserves_owner_lock [preserves_intros]: "preserves P owner_lock"
  by (simp add: preserves_def owner_lock_def jfail_def jret_def)

lemma preserves_connection [preserves_intros]: "preserves P connection"
  by (simp add: preserves_def connection_def jfail_def jret_def)

lemma preserves_if: "preserves P m \<Longrightarrow> preserves P m' \<Longrightarrow> preserves P (\<lambda>s. if b s then m s else m' s)"
  by (simp add: preserves_def)

subsection \<open>Reachable ledgers are well-formed\<close>

lemma new_ledger_wf: "ledger_wf (new_ledger deployment namespace run)"
  by (simp add: ledger_wf_def new_ledger_def wf_admissions_def wf_attempts_def wf_evidence_def wf_solana_def
      wf_control_def replay_unique_def SCHEMA_def)

abbreviation file_wf :: "bool \<Rightarrow> ledger \<Rightarrow> bool" where
  "file_wf file L \<equiv> file \<longrightarrow> ledger_wf L \<and> lg_evidence L = []"

lemma preserves_create_file:
  "preserves (on_ledger file_wf) (create_file env (new_ledger deployment namespace run))"
  unfolding preserves_def create_file_def
  by (auto simp: on_ledger_def db_call_def Let_def new_ledger_wf new_ledger_def [THEN arg_cong [of _ _ lg_evidence]]
      split: fault.splits)

lemma preserves_clear_halt: "preserves (on_ledger file_wf) (clear_halt env)"
  unfolding clear_halt_def
  by (rule preserves_db_call)
     (use clear_halt_le in \<open>auto simp: update_control_def ledger_le_def\<close>)

lemma initialize_wf: "preserves (on_ledger file_wf) (initialize env deployment namespace)"
  unfolding initialize_def
  by (intro preserves_jbind preserves_of_result preserves_if preserves_jfail)
     (auto intro!: preserves_intros preserves_create_file preserves_clear_halt)

lemma journal_reach_ok: "journal_reach cd s \<Longrightarrow> ledger_wf (js_db s) \<and> conflict_ok (js_db s)"
proof (induction rule: journal_reach.induct)
  case (init s s' env deployment namespace)
  then have "on_ledger file_wf s'" using initialize_wf by (simp add: preserves_def on_ledger_def)
  with init show ?case by (simp add: on_ledger_def conflict_ok_def terminal_conflict_def)
next
  case (step s s')
  then show ?case using latch.journal_step_within [of cd s s'] by (simp add: latch_le_def ledger_le_def)
qed

lemma journal_reach_wf: "journal_reach cd s \<Longrightarrow> ledger_wf (js_db s)"
  using journal_reach_ok by blast

lemma journal_reach_steps: "(journal_step cd)\<^sup>*\<^sup>* s s' \<Longrightarrow> journal_reach cd s \<Longrightarrow> journal_reach cd s'"
  by (induction rule: rtranclp_induct) (auto intro: journal_reach.step)

lemma history_steps:
  assumes "journal_reach cd s" and "(journal_step cd)\<^sup>*\<^sup>* s s'"
  shows "history_le cd (js_db s) (js_db s')"
  using growth.journal_steps_within [OF assms(2)] journal_reach_wf [OF assms(1)] by (simp add: ledger_le_def)

lemma history_row:
  assumes "history_le cd L L'" and "a \<in> set (lg_admissions L)"
  obtains a' where "a' \<in> set (lg_admissions L')" "row_le a a'"
proof -
  let ?n = "length (lg_admissions L)"
  have l: "list_all2 row_le (lg_admissions L) (take ?n (lg_admissions L'))" using assms(1) by (simp add: history_le_def)
  from assms(2) obtain k where k: "k < ?n" "lg_admissions L ! k = a" by (auto simp: in_set_conv_nth)
  then have "row_le a (take ?n (lg_admissions L') ! k)" using list_all2_nthD [OF l k(1)] by simp
  moreover have "take ?n (lg_admissions L') ! k \<in> set (lg_admissions L')"
    using k list_all2_lengthD [OF l] by (metis in_set_takeD nth_mem)
  ultimately show ?thesis using that by blast
qed

lemma attempt_key:
  assumes "ledger_wf L" and a: "a \<in> set (lg_admissions L)" and b: "b \<in> set (attempts_of L (ar_id a))"
  shows "Some (at_replay_key b) = ar_replay_key a"
proof -
  have "b \<in> set (lg_attempts L)" "at_id b = ar_id a" using b by (auto simp: attempts_of_def)
  then have "(ar_id a, Some (at_replay_key b)) \<in> (\<lambda>a. (ar_id a, ar_replay_key a)) ` set (lg_admissions L)"
    using assms(1) by (force simp: ledger_wf_def wf_attempts_def)
  then obtain c where "c \<in> set (lg_admissions L)" "ar_id c = ar_id a" "ar_replay_key c = Some (at_replay_key b)" by auto
  moreover have "wf_admissions L" using assms(1) by (simp add: ledger_wf_def)
  ultimately show ?thesis using admission_unique a by metis
qed

lemma attempts_of_Nil_iff:
  assumes "ledger_wf L" and "a \<in> set (lg_admissions L)"
  shows "attempts_of L (ar_id a) = [] \<longleftrightarrow> ar_replay_key a = None"
proof (cases "attempts_of L (ar_id a)")
  case Nil
  then show ?thesis using assms by (auto simp: ledger_wf_def wf_attempts_def)
next
  case (Cons b bs)
  then have "Some (at_replay_key b) = ar_replay_key a" using attempt_key [OF assms, of b] by simp
  then have "ar_replay_key a \<noteq> None" by (metis option.distinct(1))
  then show ?thesis using Cons by simp
qed

subsection \<open>Broadcast\<close>

lemma before_broadcast_Done:
  assumes "before_broadcast cd env kind i key attempt s = (Done u, s')" and wf: "ledger_wf (js_db s)"
  obtains a t where "a \<in> set (lg_admissions (js_db s'))" "ar_id a = i" "ar_kind a = kind" "ar_state a = ''admitted''"
    "ar_replay_key a = Some key" "canonical cd attempt = Inr t"
    "\<lparr>at_id = i, at_replay_key = key, at_digest = jc_sha256_hex cd t, at_payload = t\<rparr> \<in> set (lg_attempts (js_db s'))"
    "published s'" "chain_gate ''replay key has no chain identity'' kind key (js_db s') = Inr ()"
    "validate_replay_key kind key = Inr ()" "\<not> js_failed s'" "recovery_gate kind i (js_db s) = Inr ()"
proof -
  from assms(1) obtain t where vr: "validate_replay_key kind key = Inr ()" and t: "canonical cd attempt = Inr t"
    and m: "mutation env (broadcast_tx cd kind i key (jc_sha256_hex cd t) t) s = (Done u, s')"
    by (auto simp: before_broadcast_def jbind_Done of_result_Done run_owned_Done)
  let ?b = "\<lparr>at_id = i, at_replay_key = key, at_digest = jc_sha256_hex cd t, at_payload = t\<rparr>"
  have wfc: "wf_control (js_db s)" using wf by (simp add: ledger_wf_def)
  show ?thesis
  proof (rule mutation_Done [OF m])
    fix L L' old
    assume nf: "\<not> js_failed s" "js_failed s' = js_failed s" and L: "L = (js_db s)\<lparr>lg_pending := lg_pending L\<rparr>"
      and nh: "\<not> ct_halted (lg_control (js_db s))"
      and b: "broadcast_tx cd kind i key (jc_sha256_hex cd t) t L = Inr ((u, old), L')"
      and old: "old = None \<Longrightarrow> js_db s' = L' \<and> observed (lg_control L) s'"
      "wf_control (js_db s) \<Longrightarrow> old = None \<Longrightarrow> \<forall>p. lg_pending L \<noteq> Some (Some p)"
      and new: "old \<noteq> None \<Longrightarrow> js_db s' = L'\<lparr>lg_pending := Some None\<rparr> \<and> published s'"
    from b obtain a where a: "a \<in> set (lg_admissions L)" "ar_id a = i" "ar_kind a = kind" "ar_state a = ''admitted''"
      "chain_gate ''replay key has no chain identity'' kind key L = Inr ()" "recovery_gate kind i L = Inr ()"
      "record_attempt i key (jc_sha256_hex cd t) t (ar_replay_key a) L = Inr ((u, old), L')"
      by (rule broadcast_tx_Inr)
    have same: "lg_control L = lg_control (js_db s)" "lg_solana L = lg_solana (js_db s)" by (subst L, simp)+
    have cg: "chain_gate m kind key L2 = chain_gate m kind key L" if "lg_halts L2 = lg_halts L" for m L2
      using that by (simp add: chain_gate_def bind_result_def ensure_chain_not_halted_def chain_halted_def split: sum.splits)
    have rg: "recovery_gate kind i (js_db s) = Inr ()"
      using a(6) unfolding recovery_gate_def recovery_mode_def same .
    from record_attempt_Inr [OF a(7)] show thesis
    proof (elim disjE conjE exE)
      assume f: "find_attempt L i (jc_sha256_hex cd t) = Some ?b" and bound: "ar_replay_key a = Some key"
        and e: "L' = L" "old = None"
      have "?b \<in> set (lg_attempts L)" using f by (metis (mono_tags, lifting) find_Some_iff find_attempt_def nth_mem)
      moreover have "published s'" using old [OF _ ] wfc e nh same by (simp add: published_def)
      ultimately show thesis
        using that [of a t] a bound t vr old(1) e nf rg by simp
    next
      fix c assume oc: "old = Some c" and adv: "advance
            ((update_admission i (ar_replay_key_update (\<lambda>_. Some key)) L)\<lparr>lg_attempts := lg_attempts L @ [?b]\<rparr>) = Inr (c, L')"
      note L' = advance_Inr(5) [OF adv]
      have s': "js_db s' = L'\<lparr>lg_pending := Some None\<rparr>" "published s'" using new oc by simp_all
      have row: "a\<lparr>ar_replay_key := Some key\<rparr> \<in> set (lg_admissions (js_db s'))"
        using a(1,2) by (force simp: s' L')
      have at: "?b \<in> set (lg_attempts (js_db s'))" by (simp add: s' L')
      have gate: "chain_gate ''replay key has no chain identity'' kind key (js_db s') = Inr ()"
        using a(5) by (subst cg) (simp_all add: s' L' update_admission_def)
      show thesis
        by (rule that [OF row _ _ _ _ t at s'(2) gate vr]) (use a nf rg in simp_all)
    qed
  qed
qed

end
