(* ===== verification/Recovery_Keys.thy ===== *)
theory Recovery_Keys
  imports Recovery_Ledger
begin

text \<open>
  Identities of the journal: the canonical replay keys of EOA transactions and the canonical text
  of a JSON value.
\<close>

subsection \<open>Replay keys\<close>

lemma split_on_ConsD:
  "split_on c xs = p # q # ps \<Longrightarrow> \<exists>ys. xs = p @ c # ys \<and> c \<notin> set p \<and> split_on c ys = q # ps"
proof (induction xs arbitrary: p)
  case (Cons x xs)
  show ?case
  proof (cases "x = c")
    case True
    then show ?thesis using Cons.prems by auto
  next
    case False
    then obtain p' where p: "p = x # p'" "split_on c xs = p' # q # ps"
      using Cons.prems by (auto split: list.splits)
    from Cons.IH [OF p(2)] False p(1) show ?thesis by auto
  qed
qed simp

lemma split_on_single: "split_on c xs = [p] \<Longrightarrow> xs = p \<and> c \<notin> set p"
proof (induction xs arbitrary: p)
  case (Cons x xs)
  show ?case
  proof (cases "x = c")
    case True
    then show ?thesis using Cons.prems by simp
  next
    case False
    then obtain p' where p: "p = x # p'" "split_on c xs = [p']"
      using Cons.prems by (auto split: list.splits)
    from Cons.IH [OF p(2)] False p(1) show ?thesis by auto
  qed
qed simp

lemma split_on_4:
  assumes "split_on c xs = [p0, p1, p2, p3]"
  shows "xs = p0 @ c # p1 @ c # p2 @ c # p3" and "c \<notin> set p1" and "c \<notin> set p2" and "c \<notin> set p3"
proof -
  from split_on_ConsD [OF assms] obtain y1 where 1: "xs = p0 @ c # y1" "split_on c y1 = [p1, p2, p3]" by auto
  from split_on_ConsD [OF 1(2)] obtain y2 where 2: "y1 = p1 @ c # y2" "c \<notin> set p1" "split_on c y2 = [p2, p3]" by auto
  from split_on_ConsD [OF 2(3)] obtain y3 where 3: "y2 = p2 @ c # y3" "c \<notin> set p2" "split_on c y3 = [p3]" by auto
  note 4 = split_on_single [OF 3(3)]
  show "xs = p0 @ c # p1 @ c # p2 @ c # p3" "c \<notin> set p1" "c \<notin> set p2" "c \<notin> set p3"
    using 1(1) 2 3 4 by simp_all
qed

lemma length_show_nat: "n < 10 ^ k \<Longrightarrow> 0 < k \<Longrightarrow> length (show_nat n) \<le> k"
proof (induction k arbitrary: n)
  case (Suc k)
  show ?case
  proof (cases "n < 10")
    case True
    then show ?thesis by (subst show_nat.simps) simp
  next
    case False
    then have "k \<noteq> 0" using Suc.prems by (cases k) auto
    moreover have "n div 10 < 10 ^ k" using Suc.prems by (simp add: div_less_iff_less_mult mult.commute)
    ultimately have "length (show_nat (n div 10)) \<le> k" using Suc.IH by blast
    with False show ?thesis by (subst show_nat.simps) simp
  qed
qed simp

lemma length_show_u64: "n \<le> u64_max \<Longrightarrow> length (show_nat n) \<le> 20"
  by (rule length_show_nat) (simp_all add: u64_max_def)

definition eoa_replay_key :: "nat \<Rightarrow> string \<Rightarrow> nat \<Rightarrow> string" where
  "eoa_replay_key chain address nonce = ''evm:'' @ show_nat chain @ '':'' @ address @ '':'' @ show_nat nonce"

definition canonical_address :: "string \<Rightarrow> bool" where
  "canonical_address address \<longleftrightarrow> (\<exists>digits. address = ''0x'' @ digits \<and> length digits = 40 \<and> list_all hex_lower digits)"

lemma hex_lower_no_colon: "hex_lower b \<Longrightarrow> b \<noteq> CHR '':''"
  by (auto simp: hex_lower_def ascii_digit_def digit_value_def)

lemma canonical_address_no_colon: "canonical_address a \<Longrightarrow> CHR '':'' \<notin> set a"
  using hex_lower_no_colon by (fastforce simp: canonical_address_def list_all_iff)

lemma canonical_address_iff:
  "canonical_address a \<longleftrightarrow> length a = 42 \<and> take 2 a = ''0x'' \<and> list_all hex_lower (drop 2 a)"
proof
  assume r: "length a = 42 \<and> take 2 a = ''0x'' \<and> list_all hex_lower (drop 2 a)"
  have "a = take 2 a @ drop 2 a" by simp
  then have "a = ''0x'' @ drop 2 a" using r by simp
  moreover have "length (drop 2 a) = 40" using r by simp
  ultimately show "canonical_address a" using r unfolding canonical_address_def by blast
qed (auto simp: canonical_address_def)

lemma replay_key_accepted:
  assumes "kind = ''eoa'' \<or> kind = ''eoa_noop''" and "chain \<le> u64_max" and "nonce \<le> u64_max" and a: "canonical_address address"
  shows "validate_replay_key kind (eoa_replay_key chain address nonce) = Inr ()"
proof -
  let ?k = "eoa_replay_key chain address nonce"
  have len: "length address = 42" and hex: "take 2 address = ''0x''" "list_all hex_lower (drop 2 address)"
    using a by (simp_all add: canonical_address_iff)
  have s: "split_on CHR '':'' ?k = [''evm'', show_nat chain, address, show_nat nonce]"
    using split_on_append [of "CHR '':''" "''evm''"] canonical_address_no_colon [OF a]
    by (simp add: eoa_replay_key_def split_on_append)
  have "length ?k \<le> 2048"
    using length_show_u64 [OF assms(2)] length_show_u64 [OF assms(3)] len by (simp add: eoa_replay_key_def)
  moreover have "?k \<noteq> []" by (simp add: eoa_replay_key_def)
  ultimately show ?thesis
    using assms(1-3) len hex by (auto simp: validate_replay_key_def Let_def s)
qed

lemma replay_key_canonical:
  assumes k: "kind = ''eoa'' \<or> kind = ''eoa_noop''" and v: "validate_replay_key kind key = Inr ()"
  shows "\<exists>chain nonce address. key = eoa_replay_key chain address nonce \<and> chain \<le> u64_max \<and> nonce \<le> u64_max
    \<and> canonical_address address"
proof -
  let ?fs = "split_on CHR '':'' key"
  from k v have len: "length ?fs = 4" "?fs ! 0 = ''evm''"
    by (auto simp: validate_replay_key_def Let_def split: if_splits)
  obtain f0 f1 f2 f3 where fs: "?fs = [f0, f1, f2, f3]"
    using len(1) by (auto simp: numeral_eq_Suc length_Suc_conv)
  from k v obtain chain nonce where c: "parse_unsigned u64_max f1 = Some chain" "parse_unsigned u64_max f3 = Some nonce"
    "f1 = show_nat chain" "f3 = show_nat nonce" "length f2 = 42" "take 2 f2 = ''0x''" "list_all hex_lower (drop 2 f2)"
    by (auto simp: validate_replay_key_def Let_def fs split: if_splits option.splits)
  have "f0 = ''evm''" using len(2) unfolding fs by simp
  then have "key = eoa_replay_key chain f2 nonce"
    using split_on_4(1) [OF fs] c(3,4) by (simp add: eoa_replay_key_def)
  then show ?thesis
    using c parse_unsigned_bound [OF c(1)] parse_unsigned_bound [OF c(2)] by (auto simp: canonical_address_iff)
qed

lemma eoa_replay_key_inject:
  assumes "canonical_address a" and "canonical_address b"
  shows "eoa_replay_key c a n = eoa_replay_key d b m \<longleftrightarrow> c = d \<and> a = b \<and> n = m"
proof -
  have "split_on CHR '':'' (eoa_replay_key c a n) = [''evm'', show_nat c, a, show_nat n]" if "canonical_address a" for c a n
    using split_on_append [of "CHR '':''" "''evm''"] canonical_address_no_colon [OF that]
    by (simp add: eoa_replay_key_def split_on_append)
  then have "[''evm'', show_nat c, a, show_nat n] = [''evm'', show_nat d, b, show_nat m]"
    if "eoa_replay_key c a n = eoa_replay_key d b m"
    using assms that by metis
  then show ?thesis by (auto simp: show_nat_inject)
qed

text \<open>
  C33. The replay keys of the EOA kinds are exactly the texts \<open>evm:chain:address:nonce\<close> of a 64-bit chain id, a
  lowercase address and a 64-bit nonce, and the three are determined by the text: no two
  spellings stand for the same wallet and nonce, and no text stands for two of them.
\<close>

theorem replay_keys_are_canonical:
  "(validate_replay_key ''eoa'' key = Inr () \<longleftrightarrow>
      (\<exists>!x. case x of (chain, address, nonce) \<Rightarrow> key = eoa_replay_key chain address nonce
         \<and> chain \<le> u64_max \<and> nonce \<le> u64_max \<and> canonical_address address))
    \<and> validate_replay_key ''eoa_noop'' key = validate_replay_key ''eoa'' key"
proof
  show "validate_replay_key ''eoa'' key = Inr () \<longleftrightarrow>
      (\<exists>!x. case x of (chain, address, nonce) \<Rightarrow> key = eoa_replay_key chain address nonce
         \<and> chain \<le> u64_max \<and> nonce \<le> u64_max \<and> canonical_address address)" (is "_ \<longleftrightarrow> (\<exists>!x. ?P x)")
  proof
    assume "validate_replay_key ''eoa'' key = Inr ()"
    then obtain chain nonce address where k: "?P (chain, address, nonce)" using replay_key_canonical [of "''eoa''" key] by auto
    show "\<exists>!x. ?P x"
    proof (rule ex1I [of _ "(chain, address, nonce)"])
      fix x assume "?P x"
      with k show "x = (chain, address, nonce)" by (cases x) (auto simp: eoa_replay_key_inject)
    qed (rule k)
  next
    assume "\<exists>!x. ?P x"
    then show "validate_replay_key ''eoa'' key = Inr ()" using replay_key_accepted [of "''eoa''"] by (auto dest!: ex1_implies_ex)
  qed
  show "validate_replay_key ''eoa_noop'' key = validate_replay_key ''eoa'' key" by (simp add: validate_replay_key_def)
qed

end
