(* ===== verification/Recovery_Json.thy ===== *)
theory Recovery_Json
  imports Recovery_Ledger "HOL-Library.Multiset"
begin

text \<open>
  Canonical JSON: sorting the keys of every object is idempotent, commutes with the normalization of
  terminal evidence, and makes a record and its fingerprint independent of the order of the keys.
\<close>

subsection \<open>Sorting by key\<close>

lemma insort_key_map: "insort_key f (g x) (map g xs) = map g (insort_key (\<lambda>x. f (g x)) x xs)"
  by (induction xs) auto

lemma sort_key_map: "sort_key f (map g xs) = map g (sort_key (\<lambda>x. f (g x)) xs)"
  by (induction xs) (simp_all add: insort_key_map)

lemma sort_key_idem [simp]: "sort_key f (sort_key f xs) = sort_key f xs"
  by (rule sort_key_id_if_sorted) (rule sorted_sort_key)

abbreviation sort_field :: "string \<times> json \<Rightarrow> string \<times> json" where
  "sort_field \<equiv> \<lambda>(k, v). (k, sort_json v)"

lemma fst_sort_field [simp]: "fst (sort_field kv) = fst kv"
  by (cases kv) simp

text \<open>A map that keeps the keys commutes with sorting by key.\<close>

lemma map_sort_fst:
  assumes "\<And>kv. fst (g kv) = fst kv"
  shows "map g (sort_key fst xs) = sort_key fst (map g xs)"
  using sort_key_map [of fst g xs] assms by simp

lemma sort_json_idem [simp]: "sort_json (sort_json v) = sort_json v"
proof (induction v rule: sort_json.induct)
  case (1 m)
  have "map sort_field (map sort_field m) = map sort_field m" using 1 by auto
  then show ?case by (simp add: map_sort_fst del: map_map)
qed auto

lemma sort_fields_idem [simp]:
  "sort_key fst (map sort_field (sort_key fst (map sort_field m))) = sort_key fst (map sort_field m)"
  using sort_json_idem [of "JObject m"] by simp

subsection \<open>Canonical text\<close>

lemma canonical_sort [simp]: "canonical cd (sort_json v) = canonical cd v"
  by (simp add: canonical_def)

text \<open>What the code relies on of the JSON library: a text that was written reads back.\<close>

definition json_codec_ok :: "journal_codec \<Rightarrow> bool" where
  "json_codec_ok cd \<longleftrightarrow> (\<forall>v t. jc_to_string cd v = Some t \<longrightarrow> jc_from_str cd t = Some v)"

lemma canonical_read: "json_codec_ok cd \<Longrightarrow> canonical cd v = Inr t \<Longrightarrow> jc_from_str cd t = Some (sort_json v)"
  by (auto simp: canonical_def json_codec_ok_def bind_result_def ok_or_def split: sum.splits option.splits if_splits)

lemma remove_key_sort [simp]: "remove_key k (sort_key fst m) = sort_key fst (remove_key k m)"
  by (simp add: remove_key_def filter_sort)

lemma remove_key_map [simp]: "remove_key k (map sort_field m) = map sort_field (remove_key k m)"
  by (induction m) (auto simp: remove_key_def)

text \<open>The normalization of terminal evidence and its key order.\<close>

abbreviation strip_field :: "string \<times> json \<Rightarrow> string \<times> json" where
  "strip_field \<equiv> \<lambda>(k, v). (k, case v of JObject g \<Rightarrow>
      if k = ''finality'' then JObject (remove_key ''checkpointHash'' (remove_key ''checkpointNumber'' g)) else v
    | _ \<Rightarrow> v)"

lemma fst_strip_field [simp]: "fst (strip_field kv) = fst kv"
  by (cases kv) simp

lemma strip_sort_field: "sort_field (strip_field (sort_field kv)) = sort_field (strip_field kv)"
proof (cases kv)
  case (Pair k v)
  show ?thesis
  proof (cases v)
    case (JObject g)
    show ?thesis by (simp add: Pair JObject)
  qed (use sort_json_idem [of v] in \<open>simp_all add: Pair\<close>)
qed

lemma terminal_identity_sort [simp]: "terminal_identity cd (sort_json v) = terminal_identity cd v"
proof (cases v)
  case (JObject fs)
  have "sort_json (JObject (map strip_field (sort_key fst (map sort_field fs))))
      = JObject (sort_key fst (map sort_field (map strip_field (map sort_field fs))))"
    by (simp add: map_sort_fst del: map_map)
  also have "map sort_field (map strip_field (map sort_field fs)) = map sort_field (map strip_field fs)"
    using strip_sort_field by (simp add: comp_def)
  finally have "sort_json (JObject (map strip_field (sort_key fst (map sort_field fs)))) = sort_json (JObject (map strip_field fs))"
    by simp
  then have "canonical cd (JObject (map strip_field (sort_key fst (map sort_field fs)))) = canonical cd (JObject (map strip_field fs))"
    by (simp only: canonical_def)
  then show ?thesis by (simp only: terminal_identity_def JObject sort_json.simps json.case)
next
  case (JArray xs)
  then show ?thesis using canonical_sort [of cd v] by (simp add: terminal_identity_def)
qed (simp_all add: terminal_identity_def)

subsection \<open>Fingerprints\<close>

lemma sort_key_mset_eq:
  assumes "mset xs = mset ys" and "distinct (map fst xs)"
  shows "sort_key fst xs = sort_key fst ys"
proof -
  have sets: "set ys = set xs" using mset_eq_setD [OF assms(1)] by simp
  have inj: "inj_on fst (set (sort_key fst xs) \<union> set (sort_key fst ys))" using assms(2) sets by (simp add: distinct_map)
  have "mset (map fst ys) = mset (map fst xs)" using assms(1) by simp
  then have "distinct (map fst ys)" using mset_eq_imp_distinct_iff [of "map fst ys" "map fst xs"] assms(2) by simp
  then have "distinct (map fst (sort_key fst xs))" "distinct (map fst (sort_key fst ys))"
    using assms(2) by (simp_all add: distinct_map)
  then show ?thesis
    using map_sorted_distinct_set_unique [OF inj sorted_sort_key _ sorted_sort_key] sets by (simp only: set_sort)
qed

end
