(* ===== verification/Recovery_Demo.thy ===== *)
theory Recovery_Demo
  imports Recovery_Reach Recovery_Keys Recovery_Json
begin

text \<open>
  A journal that runs without faults: initialization, start, and either an EOA admission with its
  broadcast, or a Solana admission with its broadcast, restoration, recovery broadcasts and terminal
  evidence. The codec stores the text of a JSON string as it is and has two objects.
\<close>

definition demo_wire :: json where
  "demo_wire = JObject [(''attempt'', JObject [(''signature'', JString ''g''), (''signed_transaction'', JString ''x'')]),
     (''chainId'', JString ''c''), (''signature'', JString ''g'')]"

definition demo_proof :: json where
  "demo_proof = JObject [(''chainId'', JString ''c''), (''signature'', JString ''g'')]"

definition demo_journal_codec :: journal_codec where
  "demo_journal_codec = \<lparr>jc_to_string = (\<lambda>v. if v = demo_wire then Some ''W'' else if v = demo_proof then Some ''E''
       else if v \<in> {JString ''W'', JString ''E''} then None else json_str v),
     jc_from_str = (\<lambda>t. Some (if t = ''W'' then demo_wire else if t = ''E'' then demo_proof else JString t)), jc_sha256_hex = id,
     jc_b256 = json_str, jc_address = json_str, jc_u256 = json_str, jc_signature = Some,
     jc_userop = (\<lambda>_. None), jc_evidence_to_string = (\<lambda>_. None), jc_evidence_from_str = (\<lambda>_. None)\<rparr>"

definition demo_at :: "nat \<Rightarrow> journal_env" where
  "demo_at now = \<lparr>je_fault = (\<lambda>_. Reply), je_redis = (\<lambda>_ rd. rd), je_slot = True, je_writer = False, je_now = Some now\<rparr>"

abbreviation demo_env :: journal_env where
  "demo_env \<equiv> demo_at 1000"

definition demo_key :: string where
  "demo_key = ''evm:1:0x00000000000000000000000000000000000000aa:7''"

definition demo_control :: "nat \<Rightarrow> Control" where
  "demo_control n = \<lparr>ct_schema = 3, ct_deployment = ''d1'', ct_epoch = 1, ct_checkpoint = n,
     ct_namespace = None, ct_run_id = ''r1'', ct_halted = False, ct_reason = None\<rparr>"

definition demo_ledger :: "nat \<Rightarrow> admission_row list \<Rightarrow> attempt_row list \<Rightarrow> ledger" where
  "demo_ledger n as bs = \<lparr>lg_control = demo_control n, lg_admissions = as, lg_attempts = bs, lg_evidence = [],
     lg_checkpoints = [], lg_halts = [], lg_events = [], lg_pending = Some None, lg_solana = Some []\<rparr>"

definition demo_redis :: "(string \<times> string) list \<Rightarrow> redis" where
  "demo_redis ks = \<lparr>rd_server = ''run_id:r1'', rd_replication = ''role:master'', rd_keys = ks\<rparr>"

definition demo_journal :: "bool \<Rightarrow> nat \<Rightarrow> ledger \<Rightarrow> (string \<times> string) list \<Rightarrow> journal" where
  "demo_journal up n L ks = \<lparr>js_db = L, js_redis = demo_redis ks, js_failed = False, js_closed = False,
     js_up = up, js_file = True, js_calls = n\<rparr>"

definition demo_absent :: journal where
  "demo_absent = (demo_journal False 0 (new_ledger [] None []) [])\<lparr>js_file := False\<rparr>"

definition demo_row :: "string option \<Rightarrow> admission_row" where
  "demo_row key = \<lparr>ar_id = ''t1'', ar_kind = ''eoa'', ar_fingerprint = ''eoa'' @ [char_of (0::nat)] @ ''p'',
     ar_payload = ''p'', ar_state = ''admitted'', ar_replay_key = key\<rparr>"

definition demo_attempt :: attempt_row where
  "demo_attempt = \<lparr>at_id = ''t1'', at_replay_key = demo_key, at_digest = ''w'', at_payload = ''w''\<rparr>"

subsection \<open>Calls without faults\<close>

lemma demo_db_call:
  "db_call (demo_at now) f s = (case f (js_db s) of Inl e \<Rightarrow> (Failed e, s\<lparr>js_calls := Suc (js_calls s)\<rparr>)
     | Inr (x, L) \<Rightarrow> (Done x, s\<lparr>js_calls := Suc (js_calls s), js_db := L\<rparr>))"
  by (auto simp: db_call_def demo_at_def Let_def split: sum.splits)

lemma demo_db_read:
  "db_read (demo_at now) f s = (case f (js_db s) of Inl e \<Rightarrow> (Failed e, s\<lparr>js_calls := Suc (js_calls s)\<rparr>)
     | Inr x \<Rightarrow> (Done x, s\<lparr>js_calls := Suc (js_calls s)\<rparr>))"
  by (auto simp: db_read_def demo_db_call bind_result_def split: sum.splits)

lemma demo_redis_call:
  "redis_call (demo_at now) f s = (Done (Some (fst (f (js_redis s)))),
     s\<lparr>js_calls := Suc (js_calls s), js_redis := snd (f (js_redis s))\<rparr>)"
  by (simp add: redis_call_def demo_at_def Let_def)

lemma demo_info: "info_field ''run_id:r1'' ''run_id:'' = Some ''r1''" "info_field ''role:master'' ''role:'' = Some ''master''"
  by code_simp+

lemma demo_observe: "observe key (demo_redis ks) = Some (''r1'', ''master'', map_of ks key)"
  by (simp add: observe_def demo_redis_def demo_info)

lemma demo_observation:
  "observation (demo_at now) key s = (Done (observe key (js_redis s)), s\<lparr>js_calls := Suc (js_calls s)\<rparr>)"
  by (simp add: observation_def demo_redis_call jbind_def jret_def)

lemmas demo_calls = demo_db_call demo_db_read demo_redis_call demo_observation jbind_def jret_def jfail_def of_result_def

lemma demo_control_simps [simp]:
  "ct_schema (demo_control n) = 3" "ct_run_id (demo_control n) = ''r1''" "ct_halted (demo_control n) = False"
  "ct_checkpoint (demo_control n) = n" "ct_namespace (demo_control n) = None"
  "(demo_control n)\<lparr>ct_checkpoint := m\<rparr> = demo_control m"
  by (simp_all add: demo_control_def)

lemma demo_token_inject [simp]: "token (demo_control m) = token (demo_control n) \<longleftrightarrow> m = n"
  by (simp add: token_def demo_control_def show_nat_inject)

lemma demo_control_key [simp]: "control_key (demo_control n) = ''engine:recovery:checkpoint''"
  by (simp add: control_key_def marker_key_def)

abbreviation demo_keys :: "nat \<Rightarrow> (string \<times> string) list" where
  "demo_keys n \<equiv> [(''engine:recovery:checkpoint'', token (demo_control n))]"

lemma demo_control_read: "lg_control L = demo_control n \<Longrightarrow> control L = Inr (demo_control n)"
  by (simp add: control_def SCHEMA_def)

lemma demo_observe_checkpoint:
  assumes "js_redis s = demo_redis (demo_keys m)" and "m = n \<or> (\<exists>p. pending = Some p \<and> pu_previous_token p = token (demo_control m))"
  shows "observe_checkpoint (demo_at now) (demo_control n) pending s = (Done (), s\<lparr>js_calls := Suc (js_calls s)\<rparr>)"
  using assms by (auto simp: observe_checkpoint_def demo_calls demo_observe)

lemma demo_healthy:
  assumes "lg_control L = demo_control n" and "lg_pending L = Some None"
  shows "healthy_locked (demo_at now) (demo_journal up c L (demo_keys n))
     = (Done (demo_control n), demo_journal up (c + 2) L (demo_keys n))"
proof -
  have L: "control L = Inr (demo_control n)" "load L (demo_control n) = Inr None"
    using assms by (simp_all add: demo_control_read load_def bind_result_def ok_or_def)
  show ?thesis
    by (simp add: healthy_locked_def jbind_def jret_def demo_db_read L bind_result_def demo_journal_def
        demo_observe_checkpoint [of _ n])
qed

definition demo_pending :: "nat \<Rightarrow> PendingUpdate" where
  "demo_pending n = between (demo_control n) (demo_control (Suc n))"

lemma demo_validate: "validate_pending (demo_pending n) (demo_control (Suc n)) = Inr ()"
  by (simp add: demo_pending_def between_def validate_pending_def SCHEMA_def Let_def)

lemma demo_advance:
  assumes "lg_control L = demo_control n" and "lg_pending L = Some None" and "n < i64_max"
  shows "advance L = Inr (demo_control n, L\<lparr>lg_control := demo_control (Suc n), lg_pending := Some (Some (demo_pending n))\<rparr>)"
  using demo_validate [of n] assms
  by (simp add: advance_def demo_control_read bind_result_def record_pending_def Let_def demo_pending_def)

lemma demo_mirror:
  assumes "lg_control L = demo_control (Suc n)"
  shows "mirror (demo_at now) (demo_control n) (demo_journal up c (L\<lparr>lg_pending := Some (Some (demo_pending n))\<rparr>) (demo_keys n))
   = (Done (), demo_journal up (c + 6) (L\<lparr>lg_pending := Some None\<rparr>) (demo_keys (Suc n)))"
proof -
  let ?L = "L\<lparr>lg_pending := Some (Some (demo_pending n))\<rparr>"
  have L: "control ?L = Inr (demo_control (Suc n))" "load ?L (demo_control (Suc n)) = Inr (Some (demo_pending n))"
    using demo_validate [of n] assms by (simp_all add: demo_control_read load_def bind_result_def ok_or_def)
  have p: "pu_previous_token (demo_pending n) = token (demo_control n)" "pu_target_token (demo_pending n) = token (demo_control (Suc n))"
    "pu_run_id (demo_pending n) = ''r1''" "pu_redis_key (demo_pending n) = ''engine:recovery:checkpoint''"
    by (simp_all add: demo_pending_def between_def)
  have a: "acknowledge (demo_pending n) ?L = Inr ((), L\<lparr>lg_pending := Some None\<rparr>)"
    using demo_validate [of n] L by (simp add: acknowledge_def bind_result_def remove_exact_def)
  have pub: "publish_checkpoint_script (demo_pending n) (demo_redis (demo_keys n)) = (1, demo_redis (demo_keys (Suc n)))"
    by (simp add: publish_checkpoint_script_def p Let_def demo_redis_def hset_def)
  show ?thesis
    by (simp add: mirror_def complete_pending_def jbind_def storage_result_def demo_db_read demo_db_call demo_redis_call
        demo_observation L p bind_result_def ok_or_def demo_journal_def demo_observe_checkpoint [of _ n]
        demo_observe_checkpoint [of _ "Suc n"] pub demo_observe a)
qed

text \<open>A mutation on a ledger in step with Redis, with and without a new checkpoint.\<close>

lemma demo_mutation:
  assumes "body L = advanced x M" and "lg_control L = demo_control n" "lg_pending L = Some None"
    and "lg_control M = demo_control n" "lg_pending M = Some None" and "n < i64_max"
  shows "mutation (demo_at now) body (demo_journal up c L (demo_keys n))
    = (Done x, demo_journal up (c + 9) (M\<lparr>lg_control := demo_control (Suc n)\<rparr>) (demo_keys (Suc n)))"
proof -
  have b: "db_call (demo_at now) body (demo_journal up (c + 2) L (demo_keys n))
      = (Done (x, Some (demo_control n)), demo_journal up (c + 3)
          (M\<lparr>lg_control := demo_control (Suc n), lg_pending := Some (Some (demo_pending n))\<rparr>) (demo_keys n))"
    using assms by (simp add: demo_db_call demo_journal_def advanced_def demo_advance bind_result_def)
  have M: "M\<lparr>lg_control := demo_control (Suc n), lg_pending := Some None\<rparr> = M\<lparr>lg_control := demo_control (Suc n)\<rparr>"
    using assms(5) by (cases M) simp
  show ?thesis
    using demo_mirror [of "M\<lparr>lg_control := demo_control (Suc n)\<rparr>" n now up "c + 3"]
    by (simp add: mutation_def jbind_def jret_def storage_result_def demo_healthy [OF assms(2,3)] b M
        add.commute del: add_2_eq_Suc' add_Suc_right)
qed

lemma demo_mutation_quiet:
  assumes "body L = Inr ((x, None), M)" and "lg_control L = demo_control n" "lg_pending L = Some None"
  shows "mutation (demo_at now) body (demo_journal up c L (demo_keys n)) = (Done x, demo_journal up (c + 3) M (demo_keys n))"
proof -
  have "db_call (demo_at now) body (demo_journal up (c + 2) L (demo_keys n)) = (Done (x, None), demo_journal up (c + 3) M (demo_keys n))"
    using assms(1) by (simp add: demo_db_call demo_journal_def)
  then show ?thesis
    by (simp add: mutation_def jbind_def jret_def storage_result_def demo_healthy [OF assms(2,3)]
        add.commute del: add_2_eq_Suc' add_Suc_right)
qed

lemma demo_ledger_simps [simp]:
  "lg_control (demo_ledger n as bs) = demo_control n" "lg_pending (demo_ledger n as bs) = Some None"
  "(demo_ledger n as bs)\<lparr>lg_control := demo_control m\<rparr> = demo_ledger m as bs"
  by (simp_all add: demo_ledger_def)

subsection \<open>The run\<close>

definition demo_initialized :: journal where
  "demo_initialized = demo_journal False 7 (demo_ledger 0 [] []) (demo_keys 0)"

definition demo_open :: journal where
  "demo_open = demo_journal True 15 (demo_ledger 0 [] []) (demo_keys 0)"

definition demo_reserved :: journal where
  "demo_reserved = demo_journal True 24 (demo_ledger 1 [demo_row None] []) (demo_keys 1)"

definition demo_broadcast :: journal where
  "demo_broadcast = demo_journal True 33 (demo_ledger (Suc 1) [demo_row (Some demo_key)] [demo_attempt]) (demo_keys (Suc 1))"

lemma demo_new: "new_ledger ''d1'' None ''r1'' = (demo_ledger 0 [] [])\<lparr>lg_control := (demo_control 0)\<lparr>ct_halted := True, ct_reason := Some ''initializing''\<rparr>\<rparr>"
  by (simp add: new_ledger_def demo_ledger_def demo_control_def SCHEMA_def)

lemma demo_empty_redis:
  "has_prefix p (demo_redis []) = False" "set_nx key v (demo_redis []) = (True, demo_redis [(key, v)])"
  by (simp_all add: has_prefix_def set_nx_def demo_redis_def hset_def)

lemma demo_halted_control [simp]:
  "token ((demo_control n)\<lparr>ct_halted := b, ct_reason := r\<rparr>) = token (demo_control n)"
  "control_key ((demo_control n)\<lparr>ct_halted := b, ct_reason := r\<rparr>) = control_key (demo_control n)"
  by (simp_all add: token_def control_key_def)

lemma demo_initialize: "initialize demo_env ''d1'' None demo_absent = (Done (), demo_initialized)"
proof -
  have c: "control ((demo_ledger n as bs)\<lparr>lg_control := (demo_control n)\<lparr>ct_halted := b, ct_reason := r\<rparr>\<rparr>)
      = Inr ((demo_control n)\<lparr>ct_halted := b, ct_reason := r\<rparr>)" for n as bs b r
    by (simp add: control_def SCHEMA_def)
  have f: "je_fault demo_env i = Reply" for i by (simp add: demo_at_def)
  have L: "(demo_ledger 0 [] [])\<lparr>lg_control := demo_control 0\<lparr>ct_halted := False, ct_reason := None\<rparr>\<rparr> = demo_ledger 0 [] []"
    by (simp add: demo_ledger_def demo_control_def)
  show ?thesis
    unfolding initialize_def demo_absent_def demo_initialized_def demo_journal_def
    by (simp add: namespace_valid_def demo_calls owner_lock_def redis_connection_def empty_namespace_def scan_prefix_def
        observation_or_fail_def demo_observe create_file_def publish_marker_def clear_halt_def update_control_def
        demo_empty_redis demo_new f c L)
qed

lemma demo_opens: "open_journal demo_env None demo_initialized = (Done (demo_control 0), demo_open)"
proof -
  have L: "control (demo_ledger n as bs) = Inr (demo_control n)" "validate_schema (demo_ledger n as bs) = Inr ()" for n as bs
    by (simp_all add: demo_control_read validate_schema_def demo_ledger_def bind_result_def ok_or_def)
  have j: "demo_journal True c (demo_ledger 0 [] []) (demo_keys 0) = \<lparr>js_db = demo_ledger 0 [] [], js_redis = demo_redis (demo_keys 0),
      js_failed = False, js_closed = False, js_up = True, js_file = True, js_calls = c\<rparr>" for c
    by (simp add: demo_journal_def)
  show ?thesis
    unfolding open_journal_def demo_initialized_def demo_open_def prepare_owned_startup_def
    using demo_healthy [of "demo_ledger 0 [] []" 0 1000 True 10] demo_healthy [of "demo_ledger 0 [] []" 0 1000 True 13]
    by (simp add: namespace_valid_def demo_calls owner_lock_def redis_connection_def on_error_down_def storage_result_def L j
        demo_journal_def [of False] SCHEMA_def)
qed

lemma demo_canonical [simp]: "t \<notin> {''W'', ''E''} \<Longrightarrow> canonical demo_journal_codec (JString t) = (if length t > MAX_RECORD_BYTES then Inl (Invalid ''record exceeds 16 MiB'') else Inr t)"
  by (simp add: canonical_def demo_journal_codec_def bind_result_def ok_or_def demo_wire_def demo_proof_def)

lemma demo_reserve:
  "reserve_admission demo_journal_codec demo_env ''eoa'' ''t1'' (ar_fingerprint (demo_row None)) (JString ''p'') demo_open
   = (Done \<lparr>rv_payload = JString ''p'', rv_terminal = False\<rparr>, demo_reserved)"
proof -
  have "reserve_tx demo_journal_codec ''eoa'' ''t1'' (ar_fingerprint (demo_row None)) (JString ''p'') ''p'' (demo_ledger 0 [] [])
      = advanced \<lparr>rv_payload = JString ''p'', rv_terminal = False\<rparr> (demo_ledger 0 [demo_row None] [])"
    by (simp add: reserve_tx_def lookup_def find_admission_def insert_admission_def demo_ledger_def demo_row_def bind_result_def)
  from demo_mutation [where body = "reserve_tx demo_journal_codec ''eoa'' ''t1'' (ar_fingerprint (demo_row None)) (JString ''p'') ''p''", OF this] show ?thesis
    by (simp add: reserve_admission_def demo_at_def [THEN arg_cong [of _ _ je_slot]] demo_at_def [THEN arg_cong [of _ _ je_writer]]
        jbind_def of_result_def jret_def identity_def admission_fingerprint_def intent_of_def bind_result_def MAX_RECORD_BYTES_def
        demo_journal_codec_def [THEN arg_cong [of _ _ jc_sha256_hex]] demo_row_def run_owned_def demo_open_def demo_reserved_def
        i64_max_def demo_journal_def [THEN arg_cong [of _ _ js_closed]])
qed

lemma demo_key_canonical: "demo_key = eoa_replay_key 1 ''0x00000000000000000000000000000000000000aa'' 7"
  by code_simp

lemma demo_address: "canonical_address ''0x00000000000000000000000000000000000000aa''"
  unfolding canonical_address_iff by code_simp

lemma demo_replay_key: "validate_replay_key ''eoa'' demo_key = Inr ()"
  unfolding demo_key_canonical by (rule replay_key_accepted) (simp_all add: u64_max_def demo_address)

lemma demo_replay_chain: "replay_chain demo_key = Some ''1''"
  by code_simp

lemma demo_broadcasts:
  "before_broadcast demo_journal_codec demo_env ''eoa'' ''t1'' demo_key (JString ''w'') demo_reserved = (Done (), demo_broadcast)"
proof -
  have "broadcast_tx demo_journal_codec ''eoa'' ''t1'' demo_key ''w'' ''w'' (demo_ledger 1 [demo_row None] [])
      = advanced () (demo_ledger 1 [demo_row (Some demo_key)] [demo_attempt])"
    by (simp add: broadcast_tx_def lookup_def find_admission_def demo_ledger_def demo_row_def bind_result_def ok_or_def
        demo_journal_codec_def parse_state_def recovery_gate_def chain_gate_def demo_replay_chain ensure_chain_not_halted_def
        chain_halted_def owner_gate_def replay_owner_def record_attempt_def find_attempt_def set_replay_key_def
        update_admission_def insert_attempt_def demo_attempt_def)
  from demo_mutation [where body = "broadcast_tx demo_journal_codec ''eoa'' ''t1'' demo_key ''w'' ''w''", OF this] show ?thesis
    by (simp add: before_broadcast_def demo_at_def [THEN arg_cong [of _ _ je_writer]] jbind_def of_result_def jret_def identity_def
        demo_replay_key MAX_RECORD_BYTES_def demo_journal_codec_def [THEN arg_cong [of _ _ jc_sha256_hex]] run_owned_def
        demo_reserved_def demo_broadcast_def i64_max_def demo_journal_def [THEN arg_cong [of _ _ js_closed]])
qed

lemma demo_rebroadcasts:
  "before_broadcast demo_journal_codec demo_env ''eoa'' ''t1'' demo_key (JString ''w'') demo_broadcast
     = (Done (), demo_broadcast\<lparr>js_calls := 36\<rparr>)"
proof -
  let ?L = "demo_ledger (Suc 1) [demo_row (Some demo_key)] [demo_attempt]"
  have b: "broadcast_tx demo_journal_codec ''eoa'' ''t1'' demo_key ''w'' ''w'' ?L = Inr (((), None), ?L)"
    by (simp add: broadcast_tx_def lookup_def find_admission_def demo_ledger_def demo_row_def bind_result_def ok_or_def
        demo_journal_codec_def parse_state_def recovery_gate_def chain_gate_def demo_replay_chain ensure_chain_not_halted_def
        chain_halted_def owner_gate_def replay_owner_def record_attempt_def find_attempt_def demo_attempt_def)
  from demo_mutation_quiet [where body = "broadcast_tx demo_journal_codec ''eoa'' ''t1'' demo_key ''w'' ''w''", OF b]
  have "mutation demo_env (broadcast_tx demo_journal_codec ''eoa'' ''t1'' demo_key ''w'' ''w'') demo_broadcast
      = (Done (), demo_broadcast\<lparr>js_calls := 36\<rparr>)"
    by (simp add: demo_broadcast_def) (simp add: demo_journal_def)
  then show ?thesis
    by (simp add: before_broadcast_def demo_at_def [THEN arg_cong [of _ _ je_writer]] jbind_def of_result_def jret_def identity_def
        demo_replay_key MAX_RECORD_BYTES_def demo_journal_codec_def [THEN arg_cong [of _ _ jc_sha256_hex]] run_owned_def
        demo_broadcast_def demo_journal_def)
qed

subsection \<open>Reachability\<close>

lemma demo_initialized_reach: "journal_reach cd demo_initialized"
  by (rule journal_reach.init [of demo_absent demo_initialized demo_env "''d1''" None])
     (simp_all add: demo_initialize, simp_all add: demo_absent_def demo_initialized_def demo_journal_def)

lemma demo_open_reach: "journal_reach cd demo_open"
  using journal_reach.step [OF demo_initialized_reach journal_step.open_journal [of _ _ demo_env None]]
  by (simp add: demo_opens)

lemma demo_up [simp]: "js_up demo_open" "js_up demo_reserved" "js_up demo_broadcast"
  by (simp_all add: demo_open_def demo_reserved_def demo_broadcast_def demo_journal_def)

lemma demo_reserved_reach: "journal_reach demo_journal_codec demo_reserved"
  using journal_reach.step [OF demo_open_reach [of demo_journal_codec] journal_step.reserve_admission [of _ _ demo_env "''eoa''" "''t1''"
      "ar_fingerprint (demo_row None)" "JString ''p''"]]
  by (simp add: demo_reserve)

lemma demo_broadcast_reach: "journal_reach demo_journal_codec demo_broadcast"
  using journal_reach.step [OF demo_reserved_reach journal_step.before_broadcast [of _ _ demo_env "''eoa''" "''t1''"
      demo_key "JString ''w''"]]
  by (simp add: demo_broadcasts)

subsection \<open>A Solana intent\<close>

definition demo_solana ::
  "nat \<Rightarrow> string \<Rightarrow> attempt_row list \<Rightarrow> (string \<times> solana_row) list \<Rightarrow> (string \<times> string) list \<Rightarrow> ledger" where
  "demo_solana n st bs so es = (demo_ledger n [\<lparr>ar_id = ''s1'', ar_kind = ''solana'', ar_fingerprint = ''solana'' @ [char_of (0::nat)] @ ''p'',
       ar_payload = ''p'', ar_state = st, ar_replay_key = (if bs = [] then None else Some ''solana:c:g'')\<rparr>] bs)
     \<lparr>lg_solana := Some so, lg_evidence := es\<rparr>"

definition demo_wired :: attempt_row where
  "demo_wired = \<lparr>at_id = ''s1'', at_replay_key = ''solana:c:g'', at_digest = ''W'', at_payload = ''W''\<rparr>"

definition demo_budget :: "nat \<Rightarrow> int \<Rightarrow> (string \<times> solana_row) list" where
  "demo_budget k t = [(''s1'', \<lparr>so_digest = ''W'', so_broadcasts = k, so_last = t\<rparr>)]"

lemma demo_solana_simps [simp]:
  "lg_control (demo_solana n st bs so es) = demo_control n" "lg_pending (demo_solana n st bs so es) = Some None"
  "(demo_solana n st bs so es)\<lparr>lg_control := demo_control m\<rparr> = demo_solana m st bs so es"
  by (simp_all add: demo_solana_def demo_ledger_def)

lemma json_str_Some: "json_str v = Some t \<longleftrightarrow> v = JString t"
  by (cases v) auto

lemma demo_codec_ok: "json_codec_ok demo_journal_codec"
  by (auto simp: json_codec_ok_def demo_journal_codec_def json_str_Some split: if_splits)

lemma demo_objects [simp]:
  "canonical demo_journal_codec demo_wire = Inr ''W''" "canonical demo_journal_codec demo_proof = Inr ''E''"
  "terminal_identity demo_journal_codec demo_wire = Inr ''W''" "terminal_identity demo_journal_codec demo_proof = Inr ''E''"
proof -
  have s: "sort_json demo_wire = demo_wire" "sort_json demo_proof = demo_proof" by code_simp+
  have w: "demo_wire \<noteq> demo_proof" by (simp add: demo_wire_def demo_proof_def)
  show "canonical demo_journal_codec demo_wire = Inr ''W''" "canonical demo_journal_codec demo_proof = Inr ''E''"
    using w by (simp_all add: canonical_def s demo_journal_codec_def bind_result_def ok_or_def MAX_RECORD_BYTES_def)
  moreover have "terminal_identity demo_journal_codec demo_wire = canonical demo_journal_codec demo_wire"
    "terminal_identity demo_journal_codec demo_proof = canonical demo_journal_codec demo_proof"
    unfolding terminal_identity_def by (simp_all add: demo_wire_def demo_proof_def)
  ultimately show "terminal_identity demo_journal_codec demo_wire = Inr ''W''" "terminal_identity demo_journal_codec demo_proof = Inr ''E''"
    by simp_all
qed

lemma demo_decode [simp]:
  "jc_from_str demo_journal_codec ''W'' = Some demo_wire" "jc_from_str demo_journal_codec ''E'' = Some demo_proof"
  "jc_from_str demo_journal_codec ''p'' = Some (JString ''p'')" "jc_sha256_hex demo_journal_codec t = t"
  "jc_signature demo_journal_codec t = Some t"
  by (simp_all add: demo_journal_codec_def)

lemma demo_fields [simp]:
  "json_get demo_wire ''signature'' = Some (JString ''g'')" "json_get demo_wire ''chainId'' = Some (JString ''c'')"
  "json_get demo_wire ''attempt'' = Some (JObject [(''signature'', JString ''g''), (''signed_transaction'', JString ''x'')])"
  "json_get demo_proof ''signature'' = Some (JString ''g'')" "json_get demo_proof ''chainId'' = Some (JString ''c'')"
  by (simp_all add: demo_wire_def demo_proof_def)

lemma demo_writer [simp]: "je_writer (demo_at now) = False" "je_slot (demo_at now)" "je_now (demo_at now) = Some now"
  by (simp_all add: demo_at_def)

lemma demo_open_flag [simp]: "js_closed (demo_journal up c L ks) = False" "js_up (demo_journal up c L ks) = up"
  "js_db (demo_journal up c L ks) = L"
  by (simp_all add: demo_journal_def)

lemma demo_lookup:
  "lookup demo_journal_codec (demo_solana n ''admitted'' bs so es) ''s1'' = Inr (Some \<lparr>rec_id = ''s1'', rec_kind = ''solana'',
     rec_fingerprint = ''solana'' @ [char_of (0::nat)] @ ''p'', rec_payload = JString ''p'', rec_state = Admitted,
     rec_replay_key = (if bs = [] then None else Some ''solana:c:g'')\<rparr>)"
  "lookup demo_journal_codec (demo_solana n ''terminal'' bs so es) ''s1'' = Inr (Some \<lparr>rec_id = ''s1'', rec_kind = ''solana'',
     rec_fingerprint = ''solana'' @ [char_of (0::nat)] @ ''p'', rec_payload = JString ''p'', rec_state = Terminal,
     rec_replay_key = (if bs = [] then None else Some ''solana:c:g'')\<rparr>)"
  by (simp_all add: lookup_def find_admission_def demo_solana_def demo_ledger_def bind_result_def ok_or_def parse_state_def)

lemma demo_solana_reserve:
  "reserve_admission demo_journal_codec demo_env ''solana'' ''s1'' (''solana'' @ [char_of (0::nat)] @ ''p'') (JString ''p'') demo_open
   = (Done \<lparr>rv_payload = JString ''p'', rv_terminal = False\<rparr>,
      demo_journal True (15 + 9) (demo_solana 1 ''admitted'' [] [] []) (demo_keys 1))"
proof -
  have "reserve_tx demo_journal_codec ''solana'' ''s1'' (''solana'' @ [char_of (0::nat)] @ ''p'') (JString ''p'') ''p'' (demo_ledger 0 [] [])
      = advanced \<lparr>rv_payload = JString ''p'', rv_terminal = False\<rparr> (demo_solana 0 ''admitted'' [] [] [])"
    by (simp add: reserve_tx_def lookup_def find_admission_def insert_admission_def demo_solana_def demo_ledger_def bind_result_def)
  from demo_mutation [where body = "reserve_tx demo_journal_codec ''solana'' ''s1'' (''solana'' @ [char_of (0::nat)] @ ''p'') (JString ''p'') ''p''",
      OF this, of 0 1000 True 15] show ?thesis
    by (simp add: reserve_admission_def jbind_def of_result_def jret_def identity_def admission_fingerprint_def intent_of_def
        bind_result_def MAX_RECORD_BYTES_def run_owned_def demo_open_def i64_max_def)
qed

lemma demo_solana_broadcast:
  assumes "n < i64_max"
  shows "before_broadcast demo_journal_codec demo_env ''solana'' ''s1'' ''solana:c:g'' demo_wire
     (demo_journal True c (demo_solana n ''admitted'' [] [] []) (demo_keys n))
   = (Done (), demo_journal True (c + 9) (demo_solana (Suc n) ''admitted'' [demo_wired] [] []) (demo_keys (Suc n)))"
proof -
  have "broadcast_tx demo_journal_codec ''solana'' ''s1'' ''solana:c:g'' ''W'' ''W'' (demo_solana n ''admitted'' [] [] [])
      = advanced () (demo_solana n ''admitted'' [demo_wired] [] [])"
    by (simp add: broadcast_tx_def demo_lookup bind_result_def recovery_gate_def recovery_mode_def chain_gate_def owner_gate_def
        replay_owner_def record_attempt_def find_attempt_def set_replay_key_def update_admission_def insert_attempt_def ok_or_def)
       (simp add: demo_wired_def demo_solana_def demo_ledger_def set_replay_key_def insert_attempt_def replay_owner_def
        update_admission_def bind_result_def find_admission_def find_attempt_def)
  from demo_mutation [where body = "broadcast_tx demo_journal_codec ''solana'' ''s1'' ''solana:c:g'' ''W'' ''W''", OF this, of n 1000 True c] show ?thesis
    by (simp add: before_broadcast_def jbind_def of_result_def jret_def identity_def validate_replay_key_def run_owned_def assms)
qed

lemma demo_retained:
  "retained_solana demo_journal_codec (demo_solana n ''admitted'' [demo_wired] [] []) ''s1'' (JString ''p'')
     = Inr (Some \<lparr>rt_public = \<lparr>rs_replay_key = ''solana:c:g'', rs_payload = demo_wire, rs_state = Admitted, rs_broadcasts = 0, rs_last = 0\<rparr>,
         rt_digest = ''W'', rt_recovery_mode = False\<rparr>)"
  "k \<le> 20 \<Longrightarrow> (k = 0) = (t = 0) \<Longrightarrow>
     retained_solana demo_journal_codec (demo_solana n ''admitted'' [demo_wired] (demo_budget k (int t)) []) ''s1'' (JString ''p'')
     = Inr (Some \<lparr>rt_public = \<lparr>rs_replay_key = ''solana:c:g'', rs_payload = demo_wire, rs_state = Admitted, rs_broadcasts = k, rs_last = t\<rparr>,
         rt_digest = ''W'', rt_recovery_mode = True\<rparr>)"
  by (simp_all add: retained_solana_def demo_lookup bind_result_def ok_or_def admission_fingerprint_def intent_of_def MAX_RECORD_BYTES_def)
     (simp_all add: demo_solana_def demo_ledger_def demo_wired_def attempts_of_def retained_wire_def bind_result_def ok_or_def
        retained_budget_def demo_budget_def Let_def MAX_SOLANA_RECOVERY_BROADCASTS_def)

lemma demo_solana_restore:
  assumes "n < i64_max"
  shows "prepare_solana_restore demo_journal_codec demo_env ''s1'' (JString ''p'')
     (demo_journal True c (demo_solana n ''admitted'' [demo_wired] [] []) (demo_keys n))
   = (Done (Some \<lparr>rs_replay_key = ''solana:c:g'', rs_payload = demo_wire, rs_state = Admitted, rs_broadcasts = 0, rs_last = 0\<rparr>),
      demo_journal True (c + 9) (demo_solana (Suc n) ''admitted'' [demo_wired] (demo_budget 0 0) []) (demo_keys (Suc n)))"
proof -
  have "restore_tx demo_journal_codec ''s1'' (JString ''p'') (demo_solana n ''admitted'' [demo_wired] [] [])
      = advanced (Some \<lparr>rs_replay_key = ''solana:c:g'', rs_payload = demo_wire, rs_state = Admitted, rs_broadcasts = 0, rs_last = 0\<rparr>)
          (demo_solana n ''admitted'' [demo_wired] (demo_budget 0 0) [])"
    by (simp add: restore_tx_def demo_retained bind_result_def insert_solana_def)
       (simp add: demo_solana_def demo_ledger_def find_admission_def demo_budget_def solana_row_ok_def)
  from demo_mutation [where body = "restore_tx demo_journal_codec ''s1'' (JString ''p'')", OF this, of n 1000 True c] show ?thesis
    by (simp add: prepare_solana_restore_def jbind_def of_result_def jret_def identity_def run_owned_def assms)
qed

lemma demo_solana_grant:
  assumes "k < 20" "(k = 0) = (t = 0)" "t + 2000 \<le> now" "now \<le> i64_max" "n < i64_max"
  shows "before_solana_recovery_broadcast demo_journal_codec (demo_at now) ''s1'' (JString ''p'') demo_wire
     (demo_journal True c (demo_solana n ''admitted'' [demo_wired] (demo_budget k (int t)) []) (demo_keys n))
   = (Done (Granted (Suc k) now),
      demo_journal True (c + 9) (demo_solana (Suc n) ''admitted'' [demo_wired] (demo_budget (Suc k) (int now)) []) (demo_keys (Suc n)))"
proof -
  have "t \<le> i64_max" "\<not> now - t < 2000" using assms by linarith+
  then have "recovery_broadcast_tx demo_journal_codec (Some now) ''s1'' (JString ''p'') demo_wire
        (demo_solana n ''admitted'' [demo_wired] (demo_budget k (int t)) [])
      = advanced (Granted (Suc k) now) (demo_solana n ''admitted'' [demo_wired] (demo_budget (Suc k) (int now)) [])"
    using assms
    by (simp add: recovery_broadcast_tx_def demo_retained bind_result_def ok_or_def claim_def Let_def MAX_SOLANA_RECOVERY_BROADCASTS_def
        RECOVERY_BROADCAST_INTERVAL_MS_def)
       (simp add: demo_solana_def demo_ledger_def demo_budget_def hset_def solana_row_ok_def)
  from demo_mutation [where body = "recovery_broadcast_tx demo_journal_codec (Some now) ''s1'' (JString ''p'') demo_wire", OF this, of n now True c]
  show ?thesis using assms(5)
    by (simp add: before_solana_recovery_broadcast_def jbind_def of_result_def jret_def identity_def run_owned_def)
qed

lemma demo_solana_terminal:
  assumes "n < i64_max"
  shows "record_terminal demo_journal_codec demo_env ''solana'' ''s1'' demo_wire
     (demo_journal True c (demo_solana n ''admitted'' [demo_wired] so []) (demo_keys n))
   = (Done (), demo_journal True (c + 9) (demo_solana (Suc n) ''terminal'' [demo_wired] so [(''s1'', ''W'')]) (demo_keys (Suc n)))"
proof -
  have "replay_chain ''solana:c:g'' = Some ''c''" by code_simp
  then have "terminal_tx demo_journal_codec ''solana'' ''s1'' demo_wire ''W'' ''W'' (demo_solana n ''admitted'' [demo_wired] so [])
      = advanced False (demo_solana n ''terminal'' [demo_wired] so [(''s1'', ''W'')])"
    by (simp add: terminal_tx_def demo_lookup bind_result_def validate_attempt_identity_in_db_def ok_or_def supplied_chain_gate_def)
       (simp add: demo_solana_def demo_ledger_def attempts_of_def demo_wired_def bind_result_def ok_or_def attempt_matches_def json_field_def
         insert_evidence_def find_admission_def update_admission_def)
  from demo_mutation [where body = "terminal_tx demo_journal_codec ''solana'' ''s1'' demo_wire ''W'' ''W''", OF this, of n 1000 True c]
  show ?thesis using assms
    by (simp add: record_terminal_def jbind_def of_result_def jret_def identity_def run_owned_def)
qed

lemma demo_terminal_again:
  "terminal_tx demo_journal_codec ''solana'' ''s1'' demo_wire ''W'' ''W'' (demo_solana n ''terminal'' [demo_wired] so [(''s1'', ''W'')])
     = Inr ((False, None), demo_solana n ''terminal'' [demo_wired] so [(''s1'', ''W'')])"
  "terminal_tx demo_journal_codec ''solana'' ''s1'' demo_proof ''E'' ''E'' (demo_solana n ''terminal'' [demo_wired] so [(''s1'', ''W'')])
     = Inr ((True, None), (demo_solana n ''terminal'' [demo_wired] so [(''s1'', ''W''), (''s1'', ''E'')])
         \<lparr>lg_control := (demo_control n)\<lparr>ct_halted := True, ct_reason := Some ''terminal evidence conflict''\<rparr>\<rparr>)"
proof -
  have "replay_chain ''solana:c:g'' = Some ''c''" by code_simp
  then have "validate_attempt_identity_in_db demo_journal_codec (demo_solana n ''terminal'' [demo_wired] so es) \<lparr>rec_id = ''s1'', rec_kind = ''solana'',
     rec_fingerprint = f, rec_payload = p, rec_state = Terminal, rec_replay_key = Some ''solana:c:g''\<rparr> v = Inr ()"
    if "v = demo_wire \<or> v = demo_proof" for v es f p
    using that
    by (simp add: validate_attempt_identity_in_db_def ok_or_def bind_result_def supplied_chain_gate_def)
       (auto simp: demo_solana_def demo_ledger_def attempts_of_def demo_wired_def bind_result_def ok_or_def attempt_matches_def json_field_def)
  moreover have "evidence_of (demo_solana n ''terminal'' [demo_wired] so [(''s1'', ''W'')]) ''s1'' = [''W'']"
    by (simp add: evidence_of_def demo_solana_def)
  ultimately show "terminal_tx demo_journal_codec ''solana'' ''s1'' demo_wire ''W'' ''W'' (demo_solana n ''terminal'' [demo_wired] so [(''s1'', ''W'')])
     = Inr ((False, None), demo_solana n ''terminal'' [demo_wired] so [(''s1'', ''W'')])"
    "terminal_tx demo_journal_codec ''solana'' ''s1'' demo_proof ''E'' ''E'' (demo_solana n ''terminal'' [demo_wired] so [(''s1'', ''W'')])
     = Inr ((True, None), (demo_solana n ''terminal'' [demo_wired] so [(''s1'', ''W''), (''s1'', ''E'')])
         \<lparr>lg_control := (demo_control n)\<lparr>ct_halted := True, ct_reason := Some ''terminal evidence conflict''\<rparr>\<rparr>)"
    by (simp_all add: terminal_tx_def demo_lookup bind_result_def ok_or_def insert_evidence_def)
       (simp_all add: demo_solana_def demo_ledger_def find_admission_def)
qed

text \<open>The run of the Solana intent, state by state.\<close>

definition demo_restored :: journal where
  "demo_restored = demo_journal True 42 (demo_solana 3 ''admitted'' [demo_wired] (demo_budget 0 0) []) (demo_keys 3)"

definition demo_granted :: "nat \<Rightarrow> journal" where
  "demo_granted k = demo_journal True (42 + k * 9)
     (demo_solana (3 + k) ''admitted'' [demo_wired] (demo_budget k (int (k * 2000))) []) (demo_keys (3 + k))"

definition demo_settled :: journal where
  "demo_settled = demo_journal True 51 (demo_solana 4 ''terminal'' [demo_wired] (demo_budget 0 0) [(''s1'', ''W'')]) (demo_keys 4)"

lemma demo_reach_step:
  assumes "journal_reach cd s" and "y = (r, s')" and "journal_step cd s (snd y)"
  shows "journal_reach cd s'"
  using journal_reach.step [OF assms(1,3)] assms(2) by simp

lemma demo_restored_reach: "journal_reach demo_journal_codec demo_restored"
proof -
  let ?s = "\<lambda>n. demo_journal True (15 + n * 9) (demo_solana n ''admitted'' (if n < 2 then [] else [demo_wired]) [] []) (demo_keys n)"
  have "journal_reach demo_journal_codec (?s 1)"
    using demo_reach_step [OF demo_open_reach demo_solana_reserve journal_step.reserve_admission] by simp
  moreover have "before_broadcast demo_journal_codec demo_env ''solana'' ''s1'' ''solana:c:g'' demo_wire (?s 1) = (Done (), ?s 2)"
    using demo_solana_broadcast [of 1 24] by (simp add: i64_max_def numeral_2_eq_2 [symmetric] eval_nat_numeral(2) [symmetric])
  ultimately have "journal_reach demo_journal_codec (?s 2)"
    by (rule demo_reach_step [OF _ _ journal_step.before_broadcast]) simp
  then have "journal_reach demo_journal_codec (demo_journal True 33 (demo_solana 2 ''admitted'' [demo_wired] [] []) (demo_keys 2))" by simp
  from demo_reach_step [OF this demo_solana_restore journal_step.prepare_solana_restore] show ?thesis
    by (simp add: demo_restored_def i64_max_def)
qed

lemma demo_grants:
  assumes "k < 20"
  shows "before_solana_recovery_broadcast demo_journal_codec (demo_at (Suc k * 2000)) ''s1'' (JString ''p'') demo_wire (demo_granted k)
    = (Done (Granted (Suc k) (Suc k * 2000)), demo_granted (Suc k))"
proof -
  have "Suc k * 2000 \<le> i64_max" "3 + k < i64_max" using assms by (simp_all add: i64_max_def)
  from demo_solana_grant [OF assms _ _ this, of "k * 2000" "42 + k * 9"] show ?thesis
    by (simp add: demo_granted_def algebra_simps)
qed

lemma demo_granted_up [simp]: "js_up (demo_granted k)"
  by (simp add: demo_granted_def)

lemma demo_granted_reach: "k \<le> 20 \<Longrightarrow> journal_reach demo_journal_codec (demo_granted k)"
proof (induction k)
  case 0
  then show ?case using demo_restored_reach by (simp add: demo_restored_def demo_granted_def)
next
  case (Suc k)
  then show ?case
    using demo_reach_step [OF Suc.IH demo_grants journal_step.before_solana_recovery_broadcast] by simp
qed

lemma demo_settled_reach: "journal_reach demo_journal_codec demo_settled"
  using demo_reach_step [OF demo_restored_reach [unfolded demo_restored_def] demo_solana_terminal journal_step.record_terminal]
  by (simp add: demo_settled_def i64_max_def)

definition demo_contradicted :: journal where
  "demo_contradicted = (demo_journal True 54 ((demo_solana 4 ''terminal'' [demo_wired] (demo_budget 0 0) [(''s1'', ''W''), (''s1'', ''E'')])
     \<lparr>lg_control := (demo_control 4)\<lparr>ct_halted := True, ct_reason := Some ''terminal evidence conflict''\<rparr>\<rparr>) (demo_keys 4))\<lparr>js_failed := True\<rparr>"

lemma demo_settled_up [simp]: "js_up demo_restored" "js_up demo_settled"
  by (simp_all add: demo_restored_def demo_settled_def)

lemma demo_settles:
  "record_terminal demo_journal_codec demo_env ''solana'' ''s1'' demo_wire demo_restored = (Done (), demo_settled)"
  using demo_solana_terminal [of 3 42 "demo_budget 0 0"] by (simp add: demo_restored_def demo_settled_def i64_max_def)

lemma demo_resettles:
  "record_terminal demo_journal_codec demo_env ''solana'' ''s1'' demo_wire demo_settled = (Done (), demo_settled\<lparr>js_calls := 54\<rparr>)"
  using demo_mutation_quiet [where body = "terminal_tx demo_journal_codec ''solana'' ''s1'' demo_wire ''W'' ''W''", OF demo_terminal_again(1) demo_solana_simps(1,2), of 1000 True 51 4 "demo_budget 0 0"]
  by (simp add: demo_settled_def record_terminal_def jbind_def of_result_def jret_def identity_def run_owned_def)
     (simp add: demo_journal_def)

lemma demo_contradicts:
  "record_terminal demo_journal_codec demo_env ''solana'' ''s1'' demo_proof demo_settled
     = (Failed (RecoveryRequired ''terminal evidence conflict''), demo_contradicted)"
  using demo_mutation_quiet [where body = "terminal_tx demo_journal_codec ''solana'' ''s1'' demo_proof ''E'' ''E''", OF demo_terminal_again(2) demo_solana_simps(1,2), of 1000 True 51 4 "demo_budget 0 0"]
  by (simp add: demo_settled_def demo_contradicted_def record_terminal_def jbind_def of_result_def jret_def jfail_def identity_def run_owned_def)

lemma demo_contradicted_reach: "journal_reach demo_journal_codec demo_contradicted"
  using demo_reach_step [OF demo_settled_reach demo_contradicts journal_step.record_terminal] by simp

end
