(* ===== verification/Recovery_Thms.thy ===== *)
theory Recovery_Thms
  imports Recovery_Demo
begin

text \<open>
  What the recovery journal promises its clients, over every sequence of operations, lost replies,
  crashes, restarts and changes to Redis.
\<close>

subsection \<open>The schema\<close>

text \<open>
  C13. The ledger keeps its schema: whatever the operations, faults, crashes and restarts since its
  initialization, ids are unique, every state text is one of the three the reader accepts, a replay
  key belongs to one admission and exactly the bound ones have attempts, every attempt carries its
  admission's replay key, exactly the terminal admissions have evidence, and an outstanding
  publication names the current checkpoint as its target.
\<close>

theorem reachable_ledger_keeps_schema:
  assumes "journal_reach cd s"
  shows "distinct (map ar_id (lg_admissions (js_db s)))
    \<and> distinct (List.map_filter ar_replay_key (lg_admissions (js_db s)))
    \<and> distinct (map (\<lambda>b. (at_id b, at_digest b)) (lg_attempts (js_db s)))
    \<and> (\<forall>a \<in> set (lg_admissions (js_db s)).
         (\<exists>st. parse_state (ar_state a) = Inr st)
         \<and> (ar_replay_key a = None) = (attempts_of (js_db s) (ar_id a) = [])
         \<and> (\<forall>b \<in> set (attempts_of (js_db s) (ar_id a)). Some (at_replay_key b) = ar_replay_key a)
         \<and> (ar_state a = ''terminal'') = (evidence_of (js_db s) (ar_id a) \<noteq> []))
    \<and> (\<forall>p. lg_pending (js_db s) = Some (Some p) \<longrightarrow> pu_target_token p = token (lg_control (js_db s)))"
proof -
  have wf: "ledger_wf (js_db s)" using assms by (rule journal_reach_wf)
  let ?L = "js_db s"
  note own = attempt_key [OF wf]
  have "(ar_replay_key a = None) = (attempts_of ?L (ar_id a) = [])" if "a \<in> set (lg_admissions ?L)" for a
    using attempts_of_Nil_iff [OF wf that] by simp
  moreover have "\<exists>st. parse_state (ar_state a) = Inr st" if "a \<in> set (lg_admissions ?L)" for a
    using wf that by (auto simp: ledger_wf_def wf_admissions_def parse_state_def)
  moreover have "pu_target_token p = token (lg_control ?L)" if "lg_pending ?L = Some (Some p)" for p
    using wf that by (auto simp: ledger_wf_def wf_control_def Let_def validate_pending_def split: if_splits)
  ultimately show ?thesis
    using wf own by (simp add: ledger_wf_def wf_admissions_def wf_attempts_def wf_evidence_def replay_unique_def)
qed

theorem reachable_ledger_keeps_schema_witness:
  "journal_reach demo_journal_codec demo_broadcast \<and> distinct (map ar_id (lg_admissions (js_db demo_broadcast)))
    \<and> lg_admissions (js_db demo_broadcast) = [demo_row (Some demo_key)]"
  using reachable_ledger_keeps_schema [OF demo_broadcast_reach] demo_broadcast_reach
  by (simp add: demo_broadcast_def demo_journal_def demo_ledger_def)

subsection \<open>Broadcast\<close>

text \<open>
  C4. Write-ahead: when \<open>before_broadcast\<close> returns, the exact wire is already in the ledger under
  the replay key, the admission is bound to that key and still admitted, its chain is not halted, and
  Redis, on the primary the ledger knows, carries the ledger's own checkpoint with no publication
  outstanding.
\<close>

theorem attempt_is_durable_before_broadcast:
  assumes "journal_reach cd s" and "before_broadcast cd env kind i key attempt s = (Done (), s')"
  shows "\<exists>a t. a \<in> set (lg_admissions (js_db s')) \<and> ar_id a = i \<and> ar_kind a = kind \<and> ar_state a = ''admitted''
    \<and> ar_replay_key a = Some key \<and> canonical cd attempt = Inr t
    \<and> \<lparr>at_id = i, at_replay_key = key, at_digest = jc_sha256_hex cd t, at_payload = t\<rparr> \<in> set (lg_attempts (js_db s'))
    \<and> (kind \<noteq> ''solana'' \<longrightarrow> (\<exists>chain. replay_chain key = Some chain \<and> \<not> chain_halted (js_db s') chain))
    \<and> observe (control_key (lg_control (js_db s'))) (js_redis s')
        = Some (ct_run_id (lg_control (js_db s')), ''master'', Some (token (lg_control (js_db s'))))
    \<and> \<not> ct_halted (lg_control (js_db s')) \<and> (\<forall>p. lg_pending (js_db s') \<noteq> Some (Some p))"
proof -
  from assms(2) journal_reach_wf [OF assms(1)] obtain a t where a: "a \<in> set (lg_admissions (js_db s'))" "ar_id a = i"
    "ar_kind a = kind" "ar_state a = ''admitted''" "ar_replay_key a = Some key" "canonical cd attempt = Inr t"
    "\<lparr>at_id = i, at_replay_key = key, at_digest = jc_sha256_hex cd t, at_payload = t\<rparr> \<in> set (lg_attempts (js_db s'))"
    and p: "published s'" and g: "chain_gate ''replay key has no chain identity'' kind key (js_db s') = Inr ()"
    by (rule before_broadcast_Done)
  have "kind \<noteq> ''solana'' \<longrightarrow> (\<exists>chain. replay_chain key = Some chain \<and> \<not> chain_halted (js_db s') chain)"
    using g by (auto simp: chain_gate_def bind_result_Inr ok_or_Inr ensure_chain_not_halted_def split: if_splits)
  with a p show ?thesis by (intro exI [of _ a] exI [of _ t]) (simp add: published_def observed_def)
qed

theorem attempt_is_durable_before_broadcast_witness:
  "before_broadcast demo_journal_codec demo_env ''eoa'' ''t1'' demo_key (JString ''w'') demo_reserved = (Done (), demo_broadcast)
    \<and> observe (control_key (lg_control (js_db demo_broadcast))) (js_redis demo_broadcast)
        = Some (ct_run_id (lg_control (js_db demo_broadcast)), ''master'', Some (token (lg_control (js_db demo_broadcast))))"
  using attempt_is_durable_before_broadcast [OF demo_reserved_reach demo_broadcasts] demo_broadcasts by blast

text \<open>
  C2. A replay key (chain, wallet and nonce of an EOA transaction) is sent for one intent only, for the life of
  the ledger: once \<open>before_broadcast\<close> let an intent send under a key, it lets no other intent send
  under it, after any operations, faults, crashes, restarts, reattachments and recoveries.
\<close>

theorem replay_key_is_sent_for_one_intent:
  assumes "journal_reach cd s" and "js_up s" and "before_broadcast cd env kind i key attempt s = (Done (), s1)"
    and "(journal_step cd)\<^sup>*\<^sup>* s1 s2" and "before_broadcast cd env' kind' j key attempt' s2 = (Done (), s3)"
  shows "j = i \<and> kind' = kind"
proof -
  have "journal_step cd s (snd (before_broadcast cd env kind i key attempt s))"
    using assms(2) by (rule journal_step.before_broadcast)
  then have r1: "journal_reach cd s1" using journal_reach.step [OF assms(1)] assms(3) by simp
  have r2: "journal_reach cd s2" using journal_reach_steps [OF assms(4) r1] .
  from assms(3) journal_reach_wf [OF assms(1)] obtain a where a: "a \<in> set (lg_admissions (js_db s1))" "ar_id a = i"
    "ar_kind a = kind" "ar_replay_key a = Some key" by (rule before_broadcast_Done)
  from assms(5) journal_reach_wf [OF r2] obtain b where b: "b \<in> set (lg_admissions (js_db s3))" "ar_id b = j"
    "ar_kind b = kind'" "ar_replay_key b = Some key" by (rule before_broadcast_Done)
  have le: "ledger_le cd (js_db s2) (js_db s3)"
    using within_apply [OF growth.within_before_broadcast [of cd env' kind' j key attempt'], of s2] assms(5) by simp
  then have h: "history_le cd (js_db s1) (js_db s3)" and wf: "ledger_wf (js_db s3)"
    using history_steps [OF r1 assms(4)] history_le_trans journal_reach_wf [OF r2] by (auto simp: ledger_le_def)
  from history_row [OF h a(1)] obtain a' where a': "a' \<in> set (lg_admissions (js_db s3))" "row_le a a'" .
  have "ar_replay_key a' = Some key" using a'(2) a(4) by (simp add: row_le_def)
  then have "a' = b" using wf a'(1) b by (auto simp: ledger_wf_def wf_admissions_def intro: replay_uniqueD)
  then show ?thesis using a'(2) a b by (simp add: row_le_def)
qed

theorem replay_key_is_sent_for_one_intent_witness:
  "before_broadcast demo_journal_codec demo_env ''eoa'' ''t1'' demo_key (JString ''w'') demo_broadcast
     = (Done (), demo_broadcast\<lparr>js_calls := 36\<rparr>) \<and> ar_id (demo_row (Some demo_key)) = ''t1'' \<and> ar_kind (demo_row (Some demo_key)) = ''eoa''"
  using replay_key_is_sent_for_one_intent [OF demo_reserved_reach demo_up(2) demo_broadcasts rtranclp.rtrancl_refl demo_rebroadcasts]
    demo_rebroadcasts by (simp add: demo_row_def)

subsection \<open>Solana recovery budget\<close>

lemma recovery_broadcast_Done:
  assumes "before_solana_recovery_broadcast cd env i payload attempt s = (Done (Granted n t), s')" and wf: "ledger_wf (js_db s)"
  obtains a rows row rows' row' where "a \<in> set (lg_admissions (js_db s))" "ar_id a = i" "ar_state a = ''admitted''"
    "lg_solana (js_db s) = Some rows" "map_of rows i = Some row" "n = so_broadcasts row + 1"
    "0 < so_last row \<Longrightarrow> so_last row + int RECOVERY_BROADCAST_INTERVAL_MS \<le> int t"
    "lg_solana (js_db s') = Some rows'" "map_of rows' i = Some row'" "so_broadcasts row' = n" "so_last row' = int t"
    "solana_row_ok row'" "published s'"
proof -
  from assms(1) have m: "mutation env (recovery_broadcast_tx cd (je_now env) i payload attempt) s = (Done (Granted n t), s')"
    by (auto simp: before_solana_recovery_broadcast_def jbind_Done of_result_Done run_owned_Done)
  show ?thesis
  proof (rule mutation_Done [OF m])
    fix L L' old
    assume L: "L = (js_db s)\<lparr>lg_pending := lg_pending L\<rparr>"
      and b: "recovery_broadcast_tx cd (je_now env) i payload attempt L = Inr ((Granted n t, old), L')"
      and new: "old \<noteq> None \<Longrightarrow> js_db s' = L'\<lparr>lg_pending := Some None\<rparr> \<and> published s'"
    from b obtain x now L1 where x: "retained_solana cd L i payload = Inr (Some x)" "rs_state (rt_public x) = Admitted"
      and c: "claim i (rt_public x) now L = Inr (Granted n t, L1)"
      and r: "(\<forall>m u. Granted n t \<noteq> Granted m u) \<and> old = None \<and> L' = L \<or> (\<exists>c m u. Granted n t = Granted m u \<and> old = Some c \<and> advance L1 = Inr (c, L'))"
      by (rule recovery_broadcast_Granted)
    from r obtain c' where adv: "old = Some c'" "advance L1 = Inr (c', L')" by blast
    from x(1) obtain a where a: "a \<in> set (lg_admissions L)" "ar_id a = i" "parse_state (ar_state a) = Inr (rs_state (rt_public x))"
      by (rule retained_Some)
    from claim_Inr [OF c] obtain rows row where row: "lg_solana L = Some rows" "map_of rows i = Some row"
      "n = rs_broadcasts (rt_public x) + 1" "t = now" "so_broadcasts row = rs_broadcasts (rt_public x)" "so_last row = int (rs_last (rt_public x))"
      "rs_last (rt_public x) \<noteq> 0 \<longrightarrow> rs_last (rt_public x) + RECOVERY_BROADCAST_INTERVAL_MS \<le> now"
      "solana_row_ok (row\<lparr>so_broadcasts := rs_broadcasts (rt_public x) + 1, so_last := int now\<rparr>)"
      and L1: "L1 = L\<lparr>lg_solana := Some (hset i (row\<lparr>so_broadcasts := rs_broadcasts (rt_public x) + 1, so_last := int now\<rparr>) rows)\<rparr>"
      by auto
    have s': "js_db s' = L'\<lparr>lg_pending := Some None\<rparr>" "published s'" using new adv(1) by simp_all
    have same: "lg_admissions L = lg_admissions (js_db s)" "lg_solana L = lg_solana (js_db s)" by (subst L, simp)+
    note L' = advance_Inr(5) [OF adv(2)]
    show thesis
      by (rule that [of a rows row "hset i (row\<lparr>so_broadcasts := rs_broadcasts (rt_public x) + 1, so_last := int now\<rparr>) rows"
            "row\<lparr>so_broadcasts := rs_broadcasts (rt_public x) + 1, so_last := int now\<rparr>"])
         (use a row s' same x(2) in \<open>auto simp: L' L1 parse_state_Inr\<close>)
  qed
qed

text \<open>
  C19. The recovery budget of a restored Solana intent cannot be reset: of two granted broadcasts of
  the same intent the later one has the higher number, is at least 2000 milliseconds after the
  earlier one, and no number exceeds 20, whatever operations, crashes, restarts and losses of Redis
  lie between them.
\<close>

theorem solana_recovery_budget_is_durable:
  assumes "journal_reach cd s" and "js_up s"
    and "before_solana_recovery_broadcast cd env i payload attempt s = (Done (Granted n t), s1)"
    and "(journal_step cd)\<^sup>*\<^sup>* s1 s2"
    and "before_solana_recovery_broadcast cd env' i payload' attempt' s2 = (Done (Granted m u), s3)"
  shows "n < m \<and> m \<le> MAX_SOLANA_RECOVERY_BROADCASTS \<and> t + RECOVERY_BROADCAST_INTERVAL_MS \<le> u"
proof -
  have "journal_step cd s (snd (before_solana_recovery_broadcast cd env i payload attempt s))"
    using assms(2) by (rule journal_step.before_solana_recovery_broadcast)
  then have r1: "journal_reach cd s1" using journal_reach.step [OF assms(1)] assms(3) by simp
  have r2: "journal_reach cd s2" using journal_reach_steps [OF assms(4) r1] .
  from assms(3) journal_reach_wf [OF assms(1)] obtain rows row where
    1: "lg_solana (js_db s1) = Some rows" "map_of rows i = Some row" "so_broadcasts row = n" "so_last row = int t" "solana_row_ok row"
    by (rule recovery_broadcast_Done) blast
  from assms(5) journal_reach_wf [OF r2] obtain rows2 row2 row3 where
    2: "lg_solana (js_db s2) = Some rows2" "map_of rows2 i = Some row2" "m = so_broadcasts row2 + 1"
      "0 < so_last row2 \<Longrightarrow> so_last row2 + int RECOVERY_BROADCAST_INTERVAL_MS \<le> int u" "so_broadcasts row3 = m" "solana_row_ok row3"
    by (rule recovery_broadcast_Done) blast
  have "solana_le (lg_solana (js_db s1)) (lg_solana (js_db s2))"
    using history_steps [OF r1 assms(4)] by (simp add: history_le_def)
  then have b: "budget_le row row2" using solana_leD [of rows "lg_solana (js_db s2)" i row] 1 2 by auto
  from assms(3) journal_reach_wf [OF assms(1)] obtain row0 :: solana_row where "n = so_broadcasts row0 + 1"
    by (rule recovery_broadcast_Done) blast
  then have "0 < n" by simp
  then have t: "0 < t" using 1 by (auto simp: solana_row_ok_def)
  have "int t + int RECOVERY_BROADCAST_INTERVAL_MS \<le> int u"
    using b 1 2(4) t by (auto simp: budget_le_def)
  then show ?thesis using b 1 2(3,5,6)
    by (auto simp: budget_le_def solana_row_ok_def MAX_SOLANA_RECOVERY_BROADCASTS_def)
qed

theorem solana_recovery_budget_is_durable_witness:
  "before_solana_recovery_broadcast demo_journal_codec (demo_at 2000) ''s1'' (JString ''p'') demo_wire (demo_granted 0)
      = (Done (Granted 1 2000), demo_granted 1)
    \<and> before_solana_recovery_broadcast demo_journal_codec (demo_at 4000) ''s1'' (JString ''p'') demo_wire (demo_granted 1)
      = (Done (Granted 2 4000), demo_granted 2)
    \<and> 2000 + RECOVERY_BROADCAST_INTERVAL_MS \<le> 4000"
proof -
  have g: "before_solana_recovery_broadcast demo_journal_codec (demo_at 2000) ''s1'' (JString ''p'') demo_wire (demo_granted 0)
      = (Done (Granted 1 2000), demo_granted 1)"
    "before_solana_recovery_broadcast demo_journal_codec (demo_at 4000) ''s1'' (JString ''p'') demo_wire (demo_granted 1)
      = (Done (Granted 2 4000), demo_granted 2)"
    using demo_grants [of 0] demo_grants [of 1] by (simp_all add: numeral_2_eq_2 [symmetric])
  with solana_recovery_budget_is_durable [OF demo_granted_reach demo_granted_up g(1) rtranclp.rtrancl_refl g(2)] show ?thesis by simp
qed

subsection \<open>Settled intents\<close>

text \<open>
  C11. An intent that is terminal or quarantined is never sent again: from any reachable ledger in which
  its admission is not admitted any more, no later call of \<open>before_broadcast\<close> or
  \<open>before_solana_recovery_broadcast\<close> permits a send for its id.
\<close>

theorem settled_intent_is_never_sent_again:
  assumes "journal_reach cd s" and "a \<in> set (lg_admissions (js_db s))" and "ar_state a \<noteq> ''admitted''"
    and "(journal_step cd)\<^sup>*\<^sup>* s s'"
  shows "fst (before_broadcast cd env kind (ar_id a) key attempt s') \<noteq> Done ()
    \<and> fst (before_solana_recovery_broadcast cd env (ar_id a) payload attempt s') \<noteq> Done (Granted n t)"
proof -
  have r: "journal_reach cd s'" using journal_reach_steps [OF assms(4,1)] .
  have wf: "ledger_wf (js_db s')" using r by (rule journal_reach_wf)
  then have wfa: "wf_admissions (js_db s')" by (simp add: ledger_wf_def)
  from history_row [OF history_steps [OF assms(1,4)] assms(2)] obtain a' where
    a': "a' \<in> set (lg_admissions (js_db s'))" "row_le a a'" .
  have st: "ar_state a' \<noteq> ''admitted''" "ar_id a' = ar_id a" using a'(2) assms(3) by (auto simp: row_le_def)
  have "False" if "before_solana_recovery_broadcast cd env (ar_id a) payload attempt s' = (Done (Granted n t), s2)" for s2
    using that wf
  proof (rule recovery_broadcast_Done)
    fix c assume "c \<in> set (lg_admissions (js_db s'))" "ar_id c = ar_id a" "ar_state c = ''admitted''"
    then show False using admission_unique [OF wfa a'(1)] st by metis
  qed
  moreover have "False" if d: "before_broadcast cd env kind (ar_id a) key attempt s' = (Done (), s2)" for s2
    using d wf
  proof (rule before_broadcast_Done)
    fix c assume c: "c \<in> set (lg_admissions (js_db s2))" "ar_id c = ar_id a" "ar_state c = ''admitted''"
    have "ledger_le cd (js_db s') (js_db s2)"
      using within_apply [OF growth.within_before_broadcast [of cd env kind "ar_id a" key attempt], of s'] d by simp
    then have h: "history_le cd (js_db s') (js_db s2)" and w: "wf_admissions (js_db s2)" using wf by (auto simp: ledger_le_def ledger_wf_def)
    from history_row [OF h a'(1)] obtain d where "d \<in> set (lg_admissions (js_db s2))" "row_le a' d" .
    then show False using admission_unique [OF w c(1)] c st by (metis row_le_def)
  qed
  ultimately show ?thesis by (metis prod.collapse)
qed

theorem settled_intent_is_never_sent_again_witness:
  "ar_state (hd (lg_admissions (js_db demo_settled))) = ''terminal''
    \<and> fst (before_solana_recovery_broadcast demo_journal_codec (demo_at 2000) ''s1'' (JString ''p'') demo_wire demo_settled)
        \<noteq> Done (Granted 1 2000)"
proof -
  obtain a where a: "lg_admissions (js_db demo_settled) = [a]" "ar_id a = ''s1''" "ar_state a = ''terminal''"
    by (simp add: demo_settled_def demo_solana_def demo_ledger_def)
  then show ?thesis
    using settled_intent_is_never_sent_again [OF demo_settled_reach _ _ rtranclp.rtrancl_refl, of a] by simp
qed

end
