(* ===== verification/Recovery_Evidence.thy ===== *)
theory Recovery_Evidence
  imports Recovery_Demo
begin

text \<open>
  Terminal evidence: an outcome that was recorded is final, and contradictory evidence stops the
  deployment until a dedicated reconciliation.
\<close>

subsection \<open>Recording\<close>

lemma record_terminal_Done:
  assumes "record_terminal cd env kind i e s = (Done u, s')" and wf: "ledger_wf (js_db s)" and cd: "json_codec_ok cd"
  obtains body previous n where "evidence_of (js_db s') i \<noteq> []" "hd (evidence_of (js_db s') i) = body"
    "jc_from_str cd body = Some previous" "terminal_identity cd previous = Inr n" "terminal_identity cd e = Inr n"
    "(i, kind, ''terminal'') \<in> (\<lambda>a. (ar_id a, ar_kind a, ar_state a)) ` set (lg_admissions (js_db s'))"
    "\<not> ct_halted (lg_control (js_db s'))"
proof -
  from assms(1) obtain n t where n: "terminal_identity cd e = Inr n" "canonical cd e = Inr t"
    and m: "mutation env (terminal_tx cd kind i e n t) s = (Done False, s')"
    by (auto simp: record_terminal_def jbind_Done of_result_Done run_owned_Done split: if_splits)
  have wfc: "wf_control (js_db s)" using wf by (simp add: ledger_wf_def)
  show ?thesis
  proof (rule mutation_Done [OF m])
    fix L L' old
    assume L: "L = (js_db s)\<lparr>lg_pending := lg_pending L\<rparr>" and nh: "\<not> ct_halted (lg_control (js_db s))"
      and b: "terminal_tx cd kind i e n t L = Inr ((False, old), L')"
      and old: "old = None \<Longrightarrow> js_db s' = L' \<and> observed (lg_control L) s'"
      and new: "old \<noteq> None \<Longrightarrow> js_db s' = L'\<lparr>lg_pending := Some None\<rparr> \<and> published s'"
    have same: "lg_admissions L = lg_admissions (js_db s)" "lg_evidence L = lg_evidence (js_db s)"
      "lg_control L = lg_control (js_db s)" by (subst L, simp)+
    from b obtain a where a: "a \<in> set (lg_admissions L)" "ar_id a = i" "ar_kind a = kind"
      and c: "(ar_state a = ''terminal'' \<and> old = None \<and> L' = L
        \<and> (\<exists>body previous. evidence_of L i \<noteq> [] \<and> body = hd (evidence_of L i) \<and> jc_from_str cd body = Some previous
             \<and> terminal_identity cd previous = Inr n))
       \<or> (ar_state a = ''admitted'' \<and> (\<exists>c. old = Some c \<and>
          advance (update_admission i (ar_state_update (\<lambda>_. ''terminal'')) (L\<lparr>lg_evidence := lg_evidence L @ [(i, t)]\<rparr>))
            = Inr (c, L')))"
      by (rule terminal_tx_Inr) blast
    from c show thesis
    proof (elim disjE conjE exE)
      fix body previous
      assume r: "ar_state a = ''terminal''" "old = None" "L' = L" "evidence_of L i \<noteq> []" "body = hd (evidence_of L i)"
        "jc_from_str cd body = Some previous" "terminal_identity cd previous = Inr n"
      have s': "js_db s' = L" using old r by simp
      show thesis
        by (rule that [of body previous n]) (use r a n nh same in \<open>auto simp: s' image_iff intro!: bexI [of _ a]\<close>)
    next
      fix c assume st: "ar_state a = ''admitted''" and oc: "old = Some c"
        and adv: "advance (update_admission i (ar_state_update (\<lambda>_. ''terminal'')) (L\<lparr>lg_evidence := lg_evidence L @ [(i, t)]\<rparr>)) = Inr (c, L')"
      have s': "js_db s' = L'\<lparr>lg_pending := Some None\<rparr>" "published s'" using new oc by simp_all
      have ev: "lg_evidence (js_db s') = lg_evidence L @ [(i, t)]"
        and rows: "lg_admissions (js_db s') = lg_admissions (update_admission i (ar_state_update (\<lambda>_. ''terminal'')) L)"
        using advance_Inr(5) [OF adv] by (simp_all add: s' update_admission_def)
      have "evidence_of L i = []" using wf a st same by (auto simp: ledger_wf_def wf_evidence_def evidence_of_def)
      then have "evidence_of (js_db s') i = [t]" by (simp add: evidence_of_append [OF ev])
      moreover have "a\<lparr>ar_state := ''terminal''\<rparr> \<in> set (lg_admissions (js_db s'))" using a by (force simp: rows)
      then have "(i, kind, ''terminal'') \<in> (\<lambda>a. (ar_id a, ar_kind a, ar_state a)) ` set (lg_admissions (js_db s'))"
        by (rule rev_image_eqI) (use a in simp)
      moreover have "\<not> ct_halted (lg_control (js_db s'))" using s'(2) by (simp add: published_def)
      ultimately show thesis
        using that [of t "sort_json e" n] canonical_read [OF cd n(2)] n(1) by simp
    qed
  qed
qed

text \<open>
  C8. A terminal outcome is final: of two observations that were accepted for the same intent, the
  later one says the same as the earlier one, up to the finality checkpoint it was seen under, and the
  retained witness of the first is the only one, whatever operations, faults, restarts and
  recoveries lie between.
\<close>

theorem terminal_outcome_is_final:
  assumes "json_codec_ok cd" and "journal_reach cd s" and "js_up s"
    and "record_terminal cd env kind i e s = (Done (), s1)"
    and "(journal_step cd)\<^sup>*\<^sup>* s1 s2" and "record_terminal cd env' kind' i e' s2 = (Done (), s3)"
  shows "terminal_identity cd e' = terminal_identity cd e \<and> kind' = kind
    \<and> (\<exists>body. evidence_of (js_db s1) i = [body] \<and> evidence_of (js_db s3) i = [body])"
proof -
  have "journal_step cd s (snd (record_terminal cd env kind i e s))" using assms(3) by (rule journal_step.record_terminal)
  then have r1: "journal_reach cd s1" using journal_reach.step [OF assms(2)] assms(4) by simp
  have r2: "journal_reach cd s2" using journal_reach_steps [OF assms(5) r1] .
  have l: "latch_le cd (js_db s2) (js_db s3)"
    using within_apply [OF latch.within_record_terminal [of cd env' kind' i e'], of s2] assms(6) by simp
  then have r3: "ledger_wf (js_db s3)" "conflict_ok (js_db s3)"
    using journal_reach_ok [OF r2] by (auto simp: latch_le_def ledger_le_def)
  have h: "history_le cd (js_db s1) (js_db s3)"
    using history_steps [OF r1 assms(5)] l journal_reach_wf [OF r2] history_le_trans by (auto simp: latch_le_def ledger_le_def)
  from assms(4) journal_reach_wf [OF assms(2)] assms(1) obtain body p n where
    1: "evidence_of (js_db s1) i \<noteq> []" "hd (evidence_of (js_db s1) i) = body" "jc_from_str cd body = Some p"
      "terminal_identity cd p = Inr n" "terminal_identity cd e = Inr n"
      "(i, kind, ''terminal'') \<in> (\<lambda>a. (ar_id a, ar_kind a, ar_state a)) ` set (lg_admissions (js_db s1))"
      "\<not> ct_halted (lg_control (js_db s1))" by (rule record_terminal_Done)
  from assms(6) journal_reach_wf [OF r2] assms(1) obtain body' p' n' where
    3: "evidence_of (js_db s3) i \<noteq> []" "hd (evidence_of (js_db s3) i) = body'" "jc_from_str cd body' = Some p'"
      "terminal_identity cd p' = Inr n'" "terminal_identity cd e' = Inr n'"
      "(i, kind', ''terminal'') \<in> (\<lambda>a. (ar_id a, ar_kind a, ar_state a)) ` set (lg_admissions (js_db s3))"
      "\<not> ct_halted (lg_control (js_db s3))" by (rule record_terminal_Done)
  have single: "evidence_of (js_db t) i = [hd (evidence_of (js_db t) i)]"
    if "conflict_ok (js_db t)" "\<not> ct_halted (lg_control (js_db t))" "evidence_of (js_db t) i \<noteq> []" for t
  proof -
    have "\<not> length (evidence_of (js_db t) i) > 1" using that(1,2) by (auto simp: conflict_ok_def terminal_conflict_iff)
    then show ?thesis using that(3) by (cases "evidence_of (js_db t) i") auto
  qed
  have "prefix (lg_evidence (js_db s1)) (lg_evidence (js_db s3))" using h by (simp add: history_le_def)
  then have "prefix (evidence_of (js_db s1) i) (evidence_of (js_db s3) i)" by (auto simp: evidence_of_def prefix_def)
  then have "body' = body" using 1(1,2) 3(2) by (auto simp: prefix_def)
  from 1(6) obtain a where a: "a \<in> set (lg_admissions (js_db s1))" "ar_id a = i" "ar_kind a = kind" by auto
  from history_row [OF h a(1)] obtain a' where a': "a' \<in> set (lg_admissions (js_db s3))" "row_le a a'" .
  from 3(6) obtain b where b: "b \<in> set (lg_admissions (js_db s3))" "ar_id b = i" "ar_kind b = kind'" by auto
  have "a' = b" using admission_unique [OF _ a'(1) b(1)] r3(1) a' a b by (simp add: ledger_wf_def row_le_def)
  then have "kind' = kind" using a a' b by (simp add: row_le_def)
  then show ?thesis
    using \<open>body' = body\<close> 1 3 single [of s1] single [of s3] journal_reach_ok [OF r1] r3(2) by simp
qed

theorem terminal_outcome_is_final_witness:
  "record_terminal demo_journal_codec demo_env ''solana'' ''s1'' demo_wire demo_restored = (Done (), demo_settled)
    \<and> record_terminal demo_journal_codec demo_env ''solana'' ''s1'' demo_wire demo_settled = (Done (), demo_settled\<lparr>js_calls := 54\<rparr>)
    \<and> evidence_of (js_db (demo_settled\<lparr>js_calls := 54\<rparr>)) ''s1'' = evidence_of (js_db demo_settled) ''s1''"
  using terminal_outcome_is_final [OF demo_codec_ok demo_restored_reach demo_settled_up(1) demo_settles rtranclp.rtrancl_refl demo_resettles]
    demo_settles demo_resettles by auto

subsection \<open>Contradictions\<close>

lemma mutation_halted: "ct_halted (lg_control (js_db s)) \<Longrightarrow> mutation env body s \<noteq> (Done x, s')"
  by (auto elim: mutation_Done)

lemma open_journal_halted:
  assumes "ct_halted (lg_control (js_db s))"
  shows "open_journal env namespace s \<noteq> (Done c, s')"
proof
  assume "open_journal env namespace s = (Done c, s')"
  then have "\<exists>s1. js_db s1 = js_db s \<and> prepare_owned_startup env s1 = (Done c, s')"
    by (auto simp: open_journal_def jbind_Done of_result_Done owner_lock_def db_read_Done redis_connection_def redis_call_Done
        on_error_down_def split: if_splits option.splits prod.splits outcome.splits)
       (rule exI, rule conjI [rotated], assumption, simp)
  then obtain s1 where s1: "js_db s1 = js_db s" and p: "prepare_owned_startup env s1 = (Done c, s')" by blast
  from p obtain c' s2 s3 where "db_read env validate_schema s1 = (Done (), s2)" "healthy_locked env s2 = (Done c', s3)"
    by (auto simp: prepare_owned_startup_def jbind_Done)
  moreover from this(2) have "c' = lg_control (js_db s2)" "\<not> ct_halted c'" by (rule healthy_locked_Done)+
  ultimately show False using assms s1 by (simp add: db_read_Done)
qed

lemma reattach_halted:
  assumes "ct_halted (lg_control (js_db s))" and "ct_reason (lg_control (js_db s)) \<notin> Some ` set continuity_reasons"
  shows "reattach env namespace s \<noteq> (Done st, s')"
  using assms
  by (auto simp: reattach_def jbind_Done owner_lock_def connection_def db_read_Done bind_result_Inr control_Inr split: if_splits)

lemma recover_conflict:
  assumes "terminal_conflict (js_db s)"
  shows "recover env namespace s \<noteq> (Done st, s')"
  using assms
  by (auto simp: recover_def jbind_Done of_result_Done owner_lock_def connection_def db_read_Done bind_result_Inr split: if_splits)

text \<open>
  C14. Contradictory evidence stops the deployment for good: once the ledger retains two witnesses for an
  intent, it is halted for that reason after any further operations, faults, restarts and commands,
  nothing is admitted, sent or settled any more, no process starts on it, and neither \<open>reattach\<close> nor
  \<open>recover\<close> clears it.
\<close>

theorem contradiction_stops_the_deployment:
  assumes "journal_reach cd s" and "1 < length (evidence_of (js_db s) i)" and "(journal_step cd)\<^sup>*\<^sup>* s s'"
  shows "ct_halted (lg_control (js_db s')) \<and> ct_reason (lg_control (js_db s')) = Some ''terminal evidence conflict''
    \<and> fst (reserve_admission cd env kind j fingerprint payload s') \<noteq> Done reservation
    \<and> fst (before_broadcast cd env kind j key attempt s') \<noteq> Done ()
    \<and> fst (before_solana_recovery_broadcast cd env j payload attempt s') \<noteq> Done permission
    \<and> fst (record_terminal cd env kind j e s') \<noteq> Done ()
    \<and> fst (open_journal env namespace s') \<noteq> Done c
    \<and> fst (reattach env namespace s') \<noteq> Done status1
    \<and> fst (recover env namespace s') \<noteq> Done status2"
proof -
  have "prefix (lg_evidence (js_db s)) (lg_evidence (js_db s'))"
    using history_steps [OF assms(1,3)] by (simp add: history_le_def)
  then have "prefix (evidence_of (js_db s) i) (evidence_of (js_db s') i)" by (auto simp: evidence_of_def prefix_def)
  then have "1 < length (evidence_of (js_db s') i)" using assms(2) prefix_length_le by fastforce
  then have tc: "terminal_conflict (js_db s')" by (auto simp: terminal_conflict_iff)
  then have h: "ct_halted (lg_control (js_db s'))" "ct_reason (lg_control (js_db s')) = Some ''terminal evidence conflict''"
    using journal_reach_ok [OF journal_reach_steps [OF assms(3,1)]] by (simp_all add: conflict_ok_def)
  have r: "ct_reason (lg_control (js_db s')) \<notin> Some ` set continuity_reasons" by (simp add: h(2) continuity_reasons_def)
  note m = mutation_halted [OF h(1)]
  have "reserve_admission cd env kind j fingerprint payload s' \<noteq> (Done reservation, t)" for t
    by (auto simp: m reserve_admission_def jbind_Done of_result_Done run_owned_Done split: if_splits)
  moreover have "before_broadcast cd env kind j key attempt s' \<noteq> (Done (), t)" for t
    by (auto simp: m before_broadcast_def jbind_Done of_result_Done run_owned_Done)
  moreover have "before_solana_recovery_broadcast cd env j payload attempt s' \<noteq> (Done permission, t)" for t
    by (auto simp: m before_solana_recovery_broadcast_def jbind_Done of_result_Done run_owned_Done)
  moreover have "record_terminal cd env kind j e s' \<noteq> (Done (), t)" for t
    by (auto simp: m record_terminal_def jbind_Done of_result_Done run_owned_Done)
  ultimately show ?thesis
    using h open_journal_halted [OF h(1)] reattach_halted [OF h(1) r] recover_conflict [OF tc]
    by (metis prod.collapse)
qed

theorem contradiction_stops_the_deployment_witness:
  "record_terminal demo_journal_codec demo_env ''solana'' ''s1'' demo_proof demo_settled
      = (Failed (RecoveryRequired ''terminal evidence conflict''), demo_contradicted)
    \<and> ct_halted (lg_control (js_db demo_contradicted))
    \<and> (\<forall>st. fst (recover demo_env (Some ''n2'') (demo_contradicted\<lparr>js_up := False\<rparr>)) \<noteq> Done st)"
proof -
  have "1 < length (evidence_of (js_db demo_contradicted) ''s1'')"
    by (simp add: demo_contradicted_def evidence_of_def demo_solana_def demo_journal_def)
  from contradiction_stops_the_deployment [OF demo_contradicted_reach this r_into_rtranclp [of "journal_step demo_journal_codec", OF journal_step.exit_process]]
  show ?thesis using demo_contradicts by simp
qed

end
