(* ===== verification/Recovery_Restore.thy ===== *)
theory Recovery_Restore
  imports Recovery_Demo
begin

text \<open>
  Coming back: the recovery into a new namespace, and the repair of a publication that a fault
  interrupted.
\<close>

subsection \<open>Recovery into a new namespace\<close>

lemma observation_or_fail_Done:
  "observation_or_fail env key s = (Done x, s') \<longleftrightarrow> observation env key s = (Done (Some x), s')"
proof
  assume "observation env key s = (Done (Some x), s')"
  then show "observation_or_fail env key s = (Done x, s')" by (simp add: observation_or_fail_def jbind_Done exI [of _ "Some x"])
qed (auto simp: observation_or_fail_def jbind_Done split: option.splits)

lemma recover_confirm_Done:
  assumes "recover_confirm env s = (Done u, s')"
  shows "js_db s' = (js_db s)\<lparr>lg_control := (lg_control (js_db s))\<lparr>ct_halted := False, ct_reason := None\<rparr>\<rparr>"
    and "observed (lg_control (js_db s')) s'"
proof -
  from assms obtain c s1 x s2 where p: "publish_marker env ''recovery namespace collision'' s = (Done c, s1)"
    and o: "observation_or_fail env (control_key c) s1 = (Done x, s2)"
    and x: "x = (ct_run_id c, ''master'', Some (token c))" and h: "clear_halt env s2 = (Done u, s')"
    by (auto simp: recover_confirm_def jbind_Done split: if_splits)
  have c: "c = lg_control (js_db s)" using p by (auto simp: publish_marker_def jbind_Done db_read_Done control_Inr split: option.splits if_splits)
  have s1: "js_db s1 = js_db s" using unchanged.within_publish_marker p by (metis withinD)
  have s2: "js_db s2 = js_db s" "observe (control_key c) (js_redis s2) = Some x"
    using o s1 unfolding observation_or_fail_Done observation_Done by auto
  have s': "s' = s2\<lparr>js_calls := Suc (js_calls s2), js_db := (js_db s)\<lparr>lg_control := c\<lparr>ct_halted := False, ct_reason := None\<rparr>\<rparr>\<rparr>"
    using h by (auto simp: clear_halt_def db_call_Done update_control_def s2 c)
  show "js_db s' = (js_db s)\<lparr>lg_control := (lg_control (js_db s))\<lparr>ct_halted := False, ct_reason := None\<rparr>\<rparr>" by (simp add: s' c)
  show "observed (lg_control (js_db s')) s'" using s2(2) x by (simp add: s' observed_def control_key_def token_def)
qed

lemma recover_Done:
  assumes "recover env namespace s = (Done st, s')"
  obtains pending run L where "namespace \<noteq> None" "ct_namespace (lg_control (js_db s)) \<noteq> namespace" "\<not> terminal_conflict (js_db s)"
    "recover_tx (lg_control (js_db s)) pending namespace run (js_db s) = Inr ((), L)"
    "js_db s' = L\<lparr>lg_control := (lg_control L)\<lparr>ct_halted := False, ct_reason := None\<rparr>\<rparr>"
    "observed (lg_control (js_db s')) s'" "status (js_db s') = Inr st"
proof -
  let ?rest = "\<lambda>(old, pending, conflict). if conflict
              then jfail (RecoveryRequired ''conflicting terminal evidence requires dedicated reconciliation'')
              else if ct_namespace old = namespace
              then jfail (Invalid ''recovery must use a different empty namespace'')
              else if ct_epoch old = i64_max then jfail (Invalid ''deployment epoch exhausted'')
              else jbind (redis_connection env) (\<lambda>_.
                   jbind (empty_namespace env namespace) (\<lambda>_.
                   jbind (observation_or_fail env (marker_key namespace)) (\<lambda>(run, role, marker).
                     if role \<noteq> ''master'' then jfail (Invalid ''Redis must be a writable primary'')
                     else jbind (db_call env (recover_tx old pending namespace run)) (\<lambda>_.
                          jbind (recover_confirm env) (\<lambda>_. db_read env status)))))"
  from assms obtain old pending conflict s1 where n: "namespace \<noteq> None"
    and r: "db_read env (\<lambda>L. bind_result (control L) (\<lambda>old. bind_result (load L old) (\<lambda>pending.
              Inr (old, pending, terminal_conflict L)))) s = (Done (old, pending, conflict), s1)"
    and rest: "?rest (old, pending, conflict) s1 = (Done st, s')"
    unfolding recover_def jbind_Done of_result_Done
    by (auto simp: jbind_Done owner_lock_def connection_def split: if_splits)
  have rd: "js_db s1 = js_db s" "old = lg_control (js_db s)" "conflict = terminal_conflict (js_db s)"
    using r by (auto simp: db_read_Done bind_result_Inr control_Inr)
  from rest obtain s2 s3 x s4 s5 s6 where ns: "ct_namespace old \<noteq> namespace" "\<not> conflict"
    and c1: "redis_connection env s1 = (Done (), s2)" and c2: "empty_namespace env namespace s2 = (Done (), s3)"
    and c3: "observation_or_fail env (marker_key namespace) s3 = (Done x, s4)"
    and tx: "db_call env (recover_tx old pending namespace (fst x)) s4 = (Done (), s5)"
    and cf: "recover_confirm env s5 = (Done (), s6)" and stt: "db_read env status s6 = (Done st, s')"
    by (auto simp: jbind_Done split: if_splits)
  have "js_db s4 = js_db s"
    using withinD [OF unchanged.within_redis_connection c1] withinD [OF unchanged.within_empty_namespace c2]
      withinD [OF unchanged.within_observation_or_fail c3] rd(1) by simp
  then obtain L where L: "recover_tx old pending namespace (fst x) (js_db s) = Inr ((), L)" "js_db s5 = L"
    using tx by (auto simp: db_call_Done)
  show ?thesis
    by (rule that [of pending "fst x" L])
       (use n ns rd L recover_confirm_Done [OF cf] stt in \<open>auto simp: db_read_Done observed_def\<close>)
qed

text \<open>
  C20. A recovery that returns restores availability and nothing else: every intent that may have been sent
  and has no terminal outcome is quarantined, every other admission, all attempts, evidence, finality
  checkpoints and halted chains are as they were, the epoch is new, and Redis carries the marker of
  the new namespace.
\<close>

theorem recover_quarantines_what_was_sent:
  assumes "journal_reach cd s" and "recover env namespace s = (Done st, s')"
  shows "lg_admissions (js_db s') = map (\<lambda>a. if ar_state a \<noteq> ''terminal'' \<and> ar_replay_key a \<noteq> None
           then a\<lparr>ar_state := ''quarantined''\<rparr> else a) (lg_admissions (js_db s))
    \<and> lg_attempts (js_db s') = lg_attempts (js_db s) \<and> lg_evidence (js_db s') = lg_evidence (js_db s)
    \<and> lg_checkpoints (js_db s') = lg_checkpoints (js_db s) \<and> lg_halts (js_db s') = lg_halts (js_db s)
    \<and> namespace \<noteq> None \<and> namespace \<noteq> ct_namespace (lg_control (js_db s)) \<and> \<not> terminal_conflict (js_db s)
    \<and> (\<exists>run. lg_control (js_db s') = \<lparr>ct_schema = SCHEMA, ct_deployment = ct_deployment (lg_control (js_db s)),
         ct_epoch = ct_epoch (lg_control (js_db s)) + 1, ct_checkpoint = 0, ct_namespace = namespace,
         ct_run_id = run, ct_halted = False, ct_reason = None\<rparr>)
    \<and> lg_pending (js_db s') = Some None
    \<and> observe (control_key (lg_control (js_db s'))) (js_redis s')
        = Some (ct_run_id (lg_control (js_db s')), ''master'', Some (token (lg_control (js_db s'))))
    \<and> status (js_db s') = Inr st"
proof -
  from assms(2) obtain pending run L where ns: "namespace \<noteq> None" "ct_namespace (lg_control (js_db s)) \<noteq> namespace"
    "\<not> terminal_conflict (js_db s)" and tx: "recover_tx (lg_control (js_db s)) pending namespace run (js_db s) = Inr ((), L)"
    and s': "js_db s' = L\<lparr>lg_control := (lg_control L)\<lparr>ct_halted := False, ct_reason := None\<rparr>\<rparr>"
    and ob: "observed (lg_control (js_db s')) s'" "status (js_db s') = Inr st"
    by (rule recover_Done)
  from tx obtain M where M: "recover_schema (ct_schema (lg_control (js_db s))) (js_db s) = Inr M"
    and L: "lg_admissions L = lg_admissions (quarantine_sent M)" "lg_attempts L = lg_attempts M" "lg_evidence L = lg_evidence M"
      "lg_checkpoints L = lg_checkpoints M" "lg_halts L = lg_halts M" "lg_pending L = lg_pending M"
      "lg_control L = (lg_control M)\<lparr>ct_namespace := namespace, ct_epoch := ct_epoch (lg_control M) + 1, ct_checkpoint := 0,
         ct_run_id := run, ct_halted := True, ct_reason := Some ''recovery incomplete''\<rparr>"
    by (auto simp: recover_tx_def bind_result_Inr Let_def quarantine_sent_def)
  have same: "lg_admissions M = lg_admissions (js_db s)" "lg_attempts M = lg_attempts (js_db s)" "lg_evidence M = lg_evidence (js_db s)"
    "lg_checkpoints M = lg_checkpoints (js_db s)" "lg_halts M = lg_halts (js_db s)"
    using M by (auto simp: recover_schema_def bind_result_Inr split: if_splits)
  have c: "lg_control M = (lg_control (js_db s))\<lparr>ct_schema := SCHEMA\<rparr>" "lg_pending M = Some None"
    using recover_schema_le [OF M refl] by simp_all
  have "lg_admissions (quarantine_sent M) = map (\<lambda>a. if ar_state a \<noteq> ''terminal'' \<and> ar_replay_key a \<noteq> None
           then a\<lparr>ar_state := ''quarantined''\<rparr> else a) (lg_admissions (js_db s))"
    using attempts_of_Nil_iff [OF journal_reach_wf [OF assms(1)]] attempts_of_cong [OF same(2)]
    by (auto simp: quarantine_sent_def same)
  moreover have "lg_control (js_db s') = \<lparr>ct_schema = SCHEMA, ct_deployment = ct_deployment (lg_control (js_db s)),
         ct_epoch = ct_epoch (lg_control (js_db s)) + 1, ct_checkpoint = 0, ct_namespace = namespace,
         ct_run_id = run, ct_halted = False, ct_reason = None\<rparr>" by (simp add: s' L c)
  ultimately show ?thesis
    using ns ob same by (intro conjI exI [of _ run]) (simp_all add: s' L c observed_def)
qed

lemma demo_recovers:
  "\<exists>st s'. recover demo_env (Some ''n2'') (demo_journal False c (demo_ledger n as bs) (demo_keys n)) = (Done st, s')"
proof -
  let ?L = "demo_ledger n as bs" and ?s = "\<lambda>c L ks. demo_journal False c L ks"
  define C where "C = (demo_control n)\<lparr>ct_namespace := Some ''n2'', ct_epoch := 2, ct_checkpoint := 0, ct_halted := False, ct_reason := None\<rparr>"
  define D where "D = C\<lparr>ct_halted := True, ct_reason := Some ''recovery incomplete''\<rparr>"
  have L: "control ?L = Inr (demo_control n)" "load ?L (demo_control n) = Inr None" "\<not> terminal_conflict ?L"
    by (simp_all add: demo_control_read load_def bind_result_def ok_or_def terminal_conflict_def demo_ledger_def)
  have v: "namespace_valid (Some ''n2'') = Inr ()" by code_simp
  have r: "\<not> has_prefix ''n2:'' (demo_redis (demo_keys n))" "\<not> has_prefix ''twmq:n2_'' (demo_redis (demo_keys n))"
    by (simp_all add: has_prefix_def demo_redis_def)
  obtain M where M: "recover_tx (demo_control n) None (Some ''n2'') ''r1'' ?L = Inr ((), M)"
      "lg_control M = D" "lg_pending M = Some None" "lg_solana M = Some []"
    by (simp add: recover_tx_def recover_schema_def bind_result_def validate_schema_def demo_control_read ok_or_def SCHEMA_def
        quarantine_sent_def demo_ledger_def demo_control_def control_def D_def C_def)
  have D: "control M = Inr D" "control_key D = ''n2:recovery:checkpoint''" "ct_run_id D = ''r1''" "D\<lparr>ct_halted := False, ct_reason := None\<rparr> = C"
    by (simp_all add: control_def M D_def C_def SCHEMA_def control_key_def marker_key_def)
  have ep: "ct_epoch (demo_control n) \<noteq> i64_max" by (simp add: demo_control_def i64_max_def)
  have "\<exists>st. status (M\<lparr>lg_control := C\<rparr>) = Inr st"
    by (simp add: status_def control_def load_def solana_counts_def bind_result_def ok_or_def M SCHEMA_def C_def)
  then obtain st where st: "status (M\<lparr>lg_control := C\<rparr>) = Inr st" ..
  have nx: "set_nx ''n2:recovery:checkpoint'' t (demo_redis (demo_keys n))
      = (True, demo_redis (hset ''n2:recovery:checkpoint'' t (demo_keys n)))" for t
    by (simp add: set_nx_def demo_redis_def)
  show ?thesis
    unfolding recover_def demo_journal_def
    by (simp add: v demo_calls owner_lock_def connection_def redis_connection_def empty_namespace_def scan_prefix_def L r bind_result_def ep
        observation_or_fail_def demo_observe M(1,2) D nx st recover_confirm_def publish_marker_def clear_halt_def update_control_def hset_def)
qed

theorem recover_quarantines_what_was_sent_witness:
  "\<exists>st s'. recover demo_env (Some ''n2'') (demo_broadcast\<lparr>js_up := False\<rparr>) = (Done st, s')
    \<and> lg_admissions (js_db s') = [(demo_row (Some demo_key))\<lparr>ar_state := ''quarantined''\<rparr>]
    \<and> lg_attempts (js_db s') = [demo_attempt]"
proof -
  have d: "demo_broadcast\<lparr>js_up := False\<rparr>
      = demo_journal False 33 (demo_ledger (Suc 1) [demo_row (Some demo_key)] [demo_attempt]) (demo_keys (Suc 1))"
    by (simp add: demo_broadcast_def demo_journal_def)
  obtain st s' where r: "recover demo_env (Some ''n2'') (demo_broadcast\<lparr>js_up := False\<rparr>) = (Done st, s')"
    unfolding d using demo_recovers by blast
  have "journal_reach demo_journal_codec (demo_broadcast\<lparr>js_up := False\<rparr>)"
    by (rule journal_reach.step [OF demo_broadcast_reach journal_step.exit_process])
  from recover_quarantines_what_was_sent [OF this r] r show ?thesis
    by (intro exI [of _ st] exI [of _ s']) (simp add: demo_broadcast_def demo_ledger_def demo_row_def)
qed

subsection \<open>Repair of an interrupted publication\<close>

text \<open>An environment in which calls are answered and nobody else writes to Redis.\<close>

definition calm :: "journal_env \<Rightarrow> bool" where
  "calm env \<longleftrightarrow> (\<forall>i. je_fault env i = Reply) \<and> (\<forall>i rd. je_redis env i rd = rd) \<and> \<not> je_writer env"

lemma calm_calls:
  assumes "calm env"
  shows "f (js_db s) = Inr (x, L) \<Longrightarrow> db_call env f s = (Done x, s\<lparr>js_calls := Suc (js_calls s), js_db := L\<rparr>)"
    and "g (js_db s) = Inr y \<Longrightarrow> db_read env g s = (Done y, s\<lparr>js_calls := Suc (js_calls s)\<rparr>)"
    and "h (js_redis s) = (z, rd) \<Longrightarrow> redis_call env h s = (Done (Some z), s\<lparr>js_calls := Suc (js_calls s), js_redis := rd\<rparr>)"
    and "observe key (js_redis s) = Some w \<Longrightarrow> observation env key s = (Done (Some w), s\<lparr>js_calls := Suc (js_calls s)\<rparr>)"
  using assms by (auto simp: calm_def db_call_Done db_read_Done redis_call_Done observation_Done)

lemma calm_observe_checkpoint:
  assumes "calm env" and "observe (control_key c) (js_redis s) = Some (ct_run_id c, ''master'', marker)"
    and "marker = Some (token c) \<or> (\<exists>p. pending = Some p \<and> marker = Some (pu_previous_token p))"
  shows "observe_checkpoint env c pending s = (Done (), s\<lparr>js_calls := Suc (js_calls s)\<rparr>)"
  using assms(3) by (auto simp: observe_checkpoint_def jbind_def calm_calls(4) [OF assms(1,2)] jret_def)

lemma observe_published:
  assumes "observe key rd = Some (run, role, marker)"
  shows "observe key (rd\<lparr>rd_keys := hset key t (rd_keys rd)\<rparr>) = Some (run, role, Some t)"
  using assms by (auto simp: observe_def split: option.splits)

lemma publish_checkpoint_observed:
  assumes "observe (pu_redis_key p) rd = Some (run, role, Some marker)"
    and "marker = pu_previous_token p \<or> marker = pu_target_token p"
  obtains rd' where "publish_checkpoint_script p rd = (1, rd')" "observe (pu_redis_key p) rd' = Some (run, role, Some (pu_target_token p))"
proof (cases "marker = pu_target_token p")
  case True
  then have "publish_checkpoint_script p rd = (1, rd)" using assms(1)
    by (auto simp: publish_checkpoint_script_def observe_def split: option.splits)
  with True assms(1) show ?thesis by (auto intro: that)
next
  case False
  then have "publish_checkpoint_script p rd = (1, rd\<lparr>rd_keys := hset (pu_redis_key p) (pu_target_token p) (rd_keys rd)\<rparr>)"
    using assms by (auto simp: publish_checkpoint_script_def observe_def Let_def split: option.splits)
  with observe_published [OF assms(1)] show ?thesis by (auto intro: that)
qed

text \<open>
  C22. A publication that a lost reply or a crash interrupted is repaired by the next health check that is
  answered: when the primary the ledger knows still carries the checkpoint before or after the
  interrupted step, the check succeeds, Redis then carries the ledger's checkpoint, and nothing but the
  record of the publication changes in the ledger.
\<close>

theorem interrupted_publication_is_repaired:
  assumes "journal_reach cd s" and "calm env" and "\<not> js_failed s" and "\<not> js_closed s"
    and "\<not> ct_halted (lg_control (js_db s))" and "lg_pending (js_db s) = Some (Some p)"
    and "observe (control_key (lg_control (js_db s))) (js_redis s) = Some (ct_run_id (lg_control (js_db s)), ''master'', Some marker)"
    and "marker = pu_previous_token p \<or> marker = pu_target_token p"
  shows "\<exists>s'. ensure_healthy env s = (Done (), s') \<and> js_db s' = (js_db s)\<lparr>lg_pending := Some None\<rparr>
    \<and> observe (control_key (lg_control (js_db s'))) (js_redis s')
        = Some (ct_run_id (lg_control (js_db s')), ''master'', Some (token (lg_control (js_db s'))))"
proof -
  let ?c = "lg_control (js_db s)" and ?L = "(js_db s)\<lparr>lg_pending := Some None\<rparr>"
  note calm = calm_calls [OF assms(2)]
  have wf: "wf_control (js_db s)" using journal_reach_wf [OF assms(1)] by (simp add: ledger_wf_def)
  then have v: "validate_pending p ?c = Inr ()" and sc: "ct_schema ?c \<in> {1, 2, 3}" "ct_schema ?c \<noteq> 1"
    using assms(6) by (auto simp: wf_control_def Let_def)
  have p: "pu_redis_key p = control_key ?c" "pu_target_token p = token ?c" "pu_run_id p = ct_run_id ?c"
    using v by (auto simp: validate_pending_def Let_def split: if_splits)
  have rd: "control (js_db s) = Inr ?c" "load (js_db s) ?c = Inr (Some p)"
    using sc v assms(6) by (auto simp: control_Inr load_def bind_result_def ok_or_def)
  have ack: "acknowledge p (js_db s) = Inr ((), ?L)"
    using rd v assms(5,6) by (simp add: acknowledge_def bind_result_def remove_exact_def)
  obtain rd' where pub: "publish_checkpoint_script p (js_redis s) = (1, rd')"
    and ob: "observe (control_key ?c) rd' = Some (ct_run_id ?c, ''master'', Some (token ?c))"
    using publish_checkpoint_observed [of p "js_redis s"] assms(7,8) unfolding p by metis
  let ?s = "\<lambda>n r L. s\<lparr>js_calls := n, js_redis := r, js_db := L\<rparr>"
  have same: "s = ?s (js_calls s) (js_redis s) (js_db s)" by simp
  have 1: "observe_checkpoint env ?c (Some p) (s\<lparr>js_calls := n\<rparr>) = (Done (), s\<lparr>js_calls := Suc n\<rparr>)" for n
    using calm_observe_checkpoint [OF assms(2), of ?c "s\<lparr>js_calls := n\<rparr>"] assms(7,8) p(2) by auto
  have 2: "complete_pending env ?c p (s\<lparr>js_calls := n\<rparr>)
      = (Done (), s\<lparr>js_calls := n + 4, js_redis := rd', js_db := ?L\<rparr>)" for n
  proof -
    have "redis_call env (publish_checkpoint_script p) (s\<lparr>js_calls := n\<rparr>)
        = (Done (Some 1), s\<lparr>js_calls := Suc n, js_redis := rd'\<rparr>)"
      using calm(3) [of "publish_checkpoint_script p" "s\<lparr>js_calls := n\<rparr>"] pub by simp
    moreover have "observation env (control_key ?c) (s\<lparr>js_calls := Suc n, js_redis := rd'\<rparr>)
        = (Done (Some (ct_run_id ?c, ''master'', Some (token ?c))), s\<lparr>js_calls := n + 2, js_redis := rd'\<rparr>)"
      using calm(4) [of "control_key ?c" "s\<lparr>js_calls := Suc n, js_redis := rd'\<rparr>"] ob by simp
    moreover have "db_call env (acknowledge p) (s\<lparr>js_calls := n + 2, js_redis := rd'\<rparr>)
        = (Done (), s\<lparr>js_calls := n + 3, js_redis := rd', js_db := ?L\<rparr>)"
      using calm(1) [of "acknowledge p" "s\<lparr>js_calls := n + 2, js_redis := rd'\<rparr>"] ack by (simp add: numeral_3_eq_3)
    moreover have "observe_checkpoint env ?c None (s\<lparr>js_calls := n + 3, js_redis := rd', js_db := ?L\<rparr>)
        = (Done (), s\<lparr>js_calls := n + 4, js_redis := rd', js_db := ?L\<rparr>)"
      using calm_observe_checkpoint [OF assms(2), of ?c "s\<lparr>js_calls := n + 3, js_redis := rd', js_db := ?L\<rparr>"] ob
      by (simp add: eval_nat_numeral)
    ultimately show ?thesis by (simp add: complete_pending_def jbind_def storage_result_def p)
  qed
  have 3: "db_read env (\<lambda>L. bind_result (control L) (\<lambda>current. bind_result (load L current) (\<lambda>pending. Inr (current, pending)))) s
      = (Done (?c, Some p), s\<lparr>js_calls := Suc (js_calls s)\<rparr>)"
    by (rule calm(2)) (simp add: rd bind_result_def)
  have "healthy_locked env s = (Done ?c, s\<lparr>js_calls := Suc (Suc (js_calls s)) + 4, js_redis := rd', js_db := ?L\<rparr>)"
    using assms(3,5) by (simp add: healthy_locked_def 3 jbind_def 1 2 jret_def)
  then show ?thesis
    using assms(2,4) ob by (simp add: ensure_healthy_def run_owned_def calm_def jbind_def jret_def)
qed

text \<open>An admission whose publication is lost, and the health check after it.\<close>

definition demo_lossy :: journal_env where
  "demo_lossy = demo_env\<lparr>je_fault := (\<lambda>i. if i = 19 then LostBefore else Reply)\<rparr>"

definition demo_unpublished :: journal where
  "demo_unpublished = demo_journal True 20 ((demo_ledger 1 [demo_row None] [])\<lparr>lg_pending := Some (Some (demo_pending 0))\<rparr>) (demo_keys 0)"

lemma demo_lossy_calls:
  "js_calls s \<noteq> 19 \<Longrightarrow> db_call demo_lossy f s = db_call demo_env f s"
  "js_calls s \<noteq> 19 \<Longrightarrow> db_read demo_lossy g s = db_read demo_env g s"
  "js_calls s \<noteq> 19 \<Longrightarrow> observation demo_lossy key s = observation demo_env key s"
  "js_calls s = 19 \<Longrightarrow> observation demo_lossy key s = (Done None, s\<lparr>js_calls := 20\<rparr>)"
  by (simp_all add: db_read_def db_call_def observation_def redis_call_def demo_lossy_def demo_at_def Let_def jbind_def jret_def)

lemma demo_loses:
  "reserve_admission demo_journal_codec demo_lossy ''eoa'' ''t1'' (ar_fingerprint (demo_row None)) (JString ''p'') demo_open
   = (Failed PublicationPending, demo_unpublished)"
proof -
  let ?L = "demo_ledger 0 [] []"
  let ?M = "(demo_ledger (Suc 0) [demo_row None] [])\<lparr>lg_pending := Some (Some (demo_pending 0))\<rparr>"
  have c: "control ?L = Inr (demo_control 0)" "load ?L (demo_control 0) = Inr None"
    by (simp_all add: demo_control_read load_def bind_result_def ok_or_def)
  have h: "healthy_locked demo_lossy demo_open = (Done (demo_control 0), demo_journal True 17 ?L (demo_keys 0))"
    by (simp add: healthy_locked_def demo_open_def demo_journal_def demo_lossy_calls demo_calls c bind_result_def
        observe_checkpoint_def demo_observe)
  have tx: "reserve_tx demo_journal_codec ''eoa'' ''t1'' (ar_fingerprint (demo_row None)) (JString ''p'') ''p'' ?L
      = Inr ((\<lparr>rv_payload = JString ''p'', rv_terminal = False\<rparr>, Some (demo_control 0)), ?M)"
    using demo_advance [of "demo_ledger 0 [demo_row None] []" 0]
    by (simp add: reserve_tx_def lookup_def find_admission_def insert_admission_def bind_result_def advanced_def i64_max_def)
       (simp add: demo_ledger_def demo_row_def bind_result_def insert_admission_def find_admission_def advanced_def)
  have cM: "control ?M = Inr (demo_control (Suc 0))" "load ?M (demo_control (Suc 0)) = Inr (Some (demo_pending 0))"
    using demo_validate [of 0] by (simp_all add: demo_control_read load_def bind_result_def ok_or_def)
  have pv: "pu_previous_token (demo_pending 0) = token (demo_control 0)" by (simp add: demo_pending_def between_def)
  have m: "mirror demo_lossy (demo_control 0) (demo_journal True 18 ?M (demo_keys 0)) = (Failed PublicationPending, demo_unpublished)"
    by (simp add: mirror_def demo_unpublished_def demo_journal_def storage_result_def demo_lossy_calls demo_calls cM bind_result_def ok_or_def
        pv observe_checkpoint_def)
  have "mutation demo_lossy (reserve_tx demo_journal_codec ''eoa'' ''t1'' (ar_fingerprint (demo_row None)) (JString ''p'') ''p'') demo_open
      = (Failed PublicationPending, demo_unpublished)"
    using m by (simp add: mutation_def jbind_def h storage_result_def demo_lossy_calls demo_db_call demo_journal_def tx)
  then show ?thesis
    by (simp add: reserve_admission_def demo_lossy_def [THEN arg_cong [of _ _ je_slot]] demo_lossy_def [THEN arg_cong [of _ _ je_writer]]
        jbind_def of_result_def jret_def identity_def admission_fingerprint_def intent_of_def bind_result_def MAX_RECORD_BYTES_def
        run_owned_def demo_open_def demo_row_def)
qed

lemma demo_unpublished_reach: "journal_reach demo_journal_codec demo_unpublished"
  using demo_reach_step [OF demo_open_reach demo_loses journal_step.reserve_admission] by simp

theorem interrupted_publication_is_repaired_witness:
  "lg_pending (js_db demo_unpublished) = Some (Some (demo_pending 0))
    \<and> (\<exists>s'. ensure_healthy demo_env demo_unpublished = (Done (), s') \<and> lg_pending (js_db s') = Some None)"
proof -
  have calm: "calm demo_env" by (simp add: calm_def demo_at_def)
  have s: "\<not> js_failed demo_unpublished" "\<not> js_closed demo_unpublished" "lg_control (js_db demo_unpublished) = demo_control 1"
    "lg_pending (js_db demo_unpublished) = Some (Some (demo_pending 0))" "js_redis demo_unpublished = demo_redis (demo_keys 0)"
    by (simp_all add: demo_unpublished_def demo_journal_def)
  have "token (demo_control 0) = pu_previous_token (demo_pending 0)" by (simp add: demo_pending_def between_def)
  from interrupted_publication_is_repaired [OF demo_unpublished_reach calm s(1,2) _ s(4), of "token (demo_control 0)"] this s
  obtain s' where "ensure_healthy demo_env demo_unpublished = (Done (), s')" "js_db s' = (js_db demo_unpublished)\<lparr>lg_pending := Some None\<rparr>"
    by (auto simp: demo_observe)
  then show ?thesis using s(4) by auto
qed

end
