(* ===== verification/Spec2Isabelle.thy ===== *)
theory Spec2Isabelle
  imports Twmq_Client_Thms Twmq_Pop_Thms Twmq_Multilane_Thms Twmq_Worker Finality Eoa_Fees Eoa_Reads Recovery_Thms Recovery_Evidence Recovery_Restore
begin

text \<open>
  A verification development for the engine-core workspace: a transaction engine whose HTTP
  server admits requests, whose executors sign, send and confirm them, and whose state lives in
  Redis behind the job queue crate \<open>twmq\<close>, with an SQLite ledger that outlives Redis. The parts and
  where they are modelled:

  \<^item> \<^bold>\<open>Shared vocabulary.\<close> \<open>Prelude\<close> has results, decimal printing and the Redis data commands
    (a hash or sorted set is an association list with distinct keys); \<open>Rust_Text\<close> has
    \<open>str::split\<close>, decimal parsing and the checked and saturating integer operations.

  \<^item> \<^bold>\<open>The job queue\<close> (\<open>twmq/src\<close>). \<open>Twmq_Job\<close>: job and error types, queue options and the
    bounded diagnostic records (\<open>job.rs\<close>, \<open>error.rs\<close>, \<open>diagnostics.rs\<close>). \<open>Twmq_Transaction\<close>: the
    optimistic \<open>WATCH\<close>/\<open>EXEC\<close> loop of \<open>transaction.rs\<close>, with other clients and lost replies as
    an argument. \<open>Twmq_Queue\<close>: every Lua script and pipeline of \<open>lib.rs\<close> and \<open>hooks.rs\<close> as a
    function on the record of the queue's keys. \<open>Twmq_Queue_Inv\<close>: the clients of a queue as the
    step relation \<open>queue_step\<close> (pushes, cancellations, polls, completions through
    \<open>commit_loop\<close>, prunes, hook commands, jobs submitted by hooks, removals of deduplication
    marks, expiries) and the invariant \<open>queue_inv\<close>. Jobs submitted by hooks and removals of marks do not
    look at the lists, so \<open>queue_inv\<close> is kept by \<open>orderly\<close> steps: the submitted id is not
    live, the job that loses its mark is not live. \<open>Twmq_Queue_Store\<close> has what every step keeps
    without that condition. \<open>Twmq_Queue_Props\<close>, \<open>Twmq_Queue_View\<close>: pipelines whose hooks submit jobs
    are runs of such steps; the abstract life cycle of a job. \<open>Twmq_Queue_Thms\<close>, \<open>Twmq_Pop_Thms\<close>,
    \<open>Twmq_Client_Thms\<close>: a lease commits its completion at most once, what a poll hands out,
    recovery of lost jobs, delays, retention, and the refinement of the life cycle.
    \<open>Twmq_Multilane\<close> and its companions do the same for \<open>multilane.rs\<close>, with fairness between
    lanes; the fencing argument of both queues is the locale \<open>lease_fence\<close>. \<open>Twmq_Worker\<close>: the worker
    loop of \<open>lib.rs\<close> as a step relation.

  \<^item> \<^bold>\<open>The EOA account store\<close> (\<open>executors/src/eoa/store\<close>). \<open>Eoa_Store\<close>: the record of the keys of
    one account, admission, the scripts and the reads (\<open>mod.rs\<close>, \<open>hydrate.rs\<close>). \<open>Eoa_Atomic\<close>:
    the lock-checked \<open>WATCH\<close>/\<open>EXEC\<close> loop (\<open>atomic.rs\<close>). \<open>Eoa_Ops\<close>: the transaction objects of
    \<open>pending.rs\<close>, \<open>borrowed.rs\<close>, \<open>submitted.rs\<close> and \<open>atomic.rs\<close>, each a validation and a command
    list. \<open>Eoa_Inv\<close>, \<open>Eoa_Step\<close>, \<open>Eoa_Clean\<close>, \<open>Eoa_Alloc\<close>, \<open>Eoa_Reach\<close>: the invariant \<open>eoa_inv\<close> (a
    nonce has one holder, the allocator is ahead of all of them) and its preservation by the step
    relation \<open>eoa_act\<close>, whose steps carry who makes them. Admission does not check ids; the
    properties of reachable stores assume that no admitted id contains a colon, which the text form of
    submitted rows cannot carry, or is the id of no-ops. The hashes of transaction ids are shared by
    all accounts: other accounts write those of ids that are not live here. \<open>Eoa_Fence\<close>: what the owner of
    the lock read stays true until its commit, because nobody else commits meanwhile or gives the
    lock back (\<open>rival_owner\<close>); the locale \<open>fenced_write\<close> and its interpretation for each operation.
    \<open>Eoa_Thms\<close>, \<open>Eoa_Settle\<close>, \<open>Eoa_Reads\<close>: nonces are allocated once, every method keeps the
    invariant under interleaving and failures, an intent settles on finality evidence only.

  \<^item> \<^bold>\<open>Fees and finality.\<close> \<open>Eoa_Fees\<close>: the 128-bit fee arithmetic of
    \<open>executors/src/eoa/worker/fee_math.rs\<close> and the fee decisions of \<open>transaction.rs\<close>, on
    \<open>128 word\<close>. \<open>Finality\<close>: the receipt gate of \<open>core/src/finality.rs\<close>, against a node that may
    answer each query differently.

  \<^item> \<^bold>\<open>The recovery journal\<close> (\<open>core/src/recovery.rs\<close>, \<open>recovery/projection.rs\<close>,
    \<open>recovery/solana_projection.rs\<close>). \<open>Recovery_Ledger\<close>: the tables and the statements on them.
    \<open>Recovery_Journal\<close>, \<open>Recovery_Ops\<close>, \<open>Recovery_Offline\<close>: the calls (admission, broadcast,
    terminal evidence, Solana recovery, start, reattach, recover) in a monad of calls to SQLite and
    Redis, each of which may fail before or after it took effect, be the last one before a crash,
    or find Redis changed by somebody else. \<open>Recovery_Order\<close>: the locales \<open>call_order\<close>,
    \<open>journal_order\<close> and \<open>ledger_order\<close>, which lift a relation on ledgers from transactions to
    runs; \<open>Recovery_Inv\<close>, \<open>Recovery_Tx\<close>, \<open>Recovery_Rows\<close>, \<open>Recovery_Latch\<close>: the schema invariant and
    the instances of \<open>ledger_order\<close>. \<open>Recovery_Gate\<close>, \<open>Recovery_Reach\<close>: what a call that returned
    leaves behind. \<open>Recovery_Keys\<close>, \<open>Recovery_Json\<close>: canonical replay keys and canonical JSON.
    \<open>Recovery_Thms\<close>, \<open>Recovery_Evidence\<close>, \<open>Recovery_Restore\<close>: one intent per replay key, the
    write-ahead of every attempt, the finality of outcomes, the halt on contradictions, the
    bounded Solana budget, quarantine and repair. \<open>Recovery_Demo\<close> has concrete runs.

  Bounds. Retry loops run on the number of retries of the code (\<open>MAX_RETRIES\<close>, ten rounds in both
  crates) as fuel, so they are total and exhausting them is the error the code returns. The loop of
  the multilane pop script is proved to end. Counters that the code keeps in 64 bits are naturals
  with the overflow branch of the code written out; the release time of a delayed job is a plain
  64-bit sum, which wraps (\<open>u64_add\<close>, the release build). Scores of sorted sets are naturals, as
  they are below \<open>2 ^ 53\<close>; the property on delayed jobs given back has that bound as a hypothesis.

  Third-party code is an argument: the JSON encoders, with the round trip of borrowed records as
  the one law the account store relies on, the node, other Redis clients, lost replies, clocks and
  random ids.

  Not modelled: the flows of the executors between store operations, which call nodes, bundlers and
  signers (their arguments to the store are hypotheses of its steps); the HTTP server, its configuration
  and its routes, beyond the operations they call; delivery of webhooks; account abstraction,
  EIP-7702 and Solana encodings; signing; the fairness lanes, the export and the file permissions of the
  ledger; metrics and tracing, which no decision reads.
\<close>

end
